(* ===== verification/Prelude.thy ===== *)
theory Prelude
  imports Main "HOL-Library.Word" "HOL-Library.AList"
begin

text \<open>
  Shared vocabulary of the development: Rust strings as lists of Unicode scalar values, the
  identifiers and clocks of the server, the \<open>Result\<close> type of its handlers, and the generic
  lemmas on association lists (the server's hash maps) that the component theories share.

  A Rust \<open>HashMap\<close> that the code iterates over is an association list whose keys are
  distinct: \<open>map_of\<close> is \<open>get\<close>, \<open>AList.update\<close> is \<open>insert\<close>, \<open>AList.delete\<close> is \<open>remove\<close> and
  \<open>AList.map_entry\<close> is a write through \<open>get_mut\<close>. The order of the list stands for the iteration
  order, which Rust leaves open; the theorems hold for every order. A hash map that is only
  accessed by key, or whose values are all changed pointwise, is a map \<open>'k \<rightharpoonup> 'v\<close>.
\<close>

section \<open>Identifiers, clocks and results\<close>

type_synonym uchar = nat
type_synonym str = "uchar list"
type_synonym uuid = "128 word"
type_synonym instant = nat

text \<open>A string literal of the source.\<close>

definition lit :: "string \<Rightarrow> str" where
  "lit s = map of_char s"

lemma lit_inject [simp]: "lit s = lit t \<longleftrightarrow> s = t"
proof -
  have "inj (of_char :: char \<Rightarrow> nat)" by (rule inj_of_char)
  then show ?thesis by (simp add: lit_def inj_map_eq_map)
qed

lemma lit_Nil [simp]: "lit [] = []" "lit s = [] \<longleftrightarrow> s = []"
  by (simp_all add: lit_def)

text \<open>HTTP status codes the handlers answer with.\<close>

datatype status =
    BAD_REQUEST | UNAUTHORIZED | FORBIDDEN | NOT_FOUND | CONFLICT | TOO_MANY_REQUESTS
  | PAYLOAD_TOO_LARGE | UNSUPPORTED_MEDIA_TYPE | INTERNAL_SERVER_ERROR | BAD_GATEWAY | SERVICE_UNAVAILABLE

type_synonym api_error = "status \<times> str"

text \<open>\<open>Result::and_then\<close>, the meaning of the question mark operator.\<close>

definition and_then :: "'e + 'a \<Rightarrow> ('a \<Rightarrow> 'e + 'b) \<Rightarrow> 'e + 'b" where
  "and_then r f = (case r of Inl e \<Rightarrow> Inl e | Inr x \<Rightarrow> f x)"

lemma and_then_simps [simp]:
  "and_then (Inl e) f = Inl e" "and_then (Inr x) f = f x"
  by (simp_all add: and_then_def)

lemma and_then_eq_Inr:
  "and_then r f = Inr y \<longleftrightarrow> (\<exists>x. r = Inr x \<and> f x = Inr y)"
  by (cases r) simp_all

text \<open>\<open>Option::ok_or\<close>.\<close>

definition ok_or :: "'e \<Rightarrow> 'a option \<Rightarrow> 'e + 'a" where
  "ok_or e x = (case x of None \<Rightarrow> Inl e | Some y \<Rightarrow> Inr y)"

lemma ok_or_simps [simp]: "ok_or e None = Inl e" "ok_or e (Some y) = Inr y"
  by (simp_all add: ok_or_def)

section \<open>Strings\<close>

text \<open>\<open>char::is_whitespace\<close>: the Unicode property White_Space.\<close>

definition is_whitespace :: "uchar \<Rightarrow> bool" where
  "is_whitespace c \<longleftrightarrow>
     (9 \<le> c \<and> c \<le> 13) \<or> c = 32 \<or> c = 133 \<or> c = 160 \<or> c = 5760 \<or>
     (8192 \<le> c \<and> c \<le> 8202) \<or> c = 8232 \<or> c = 8233 \<or> c = 8239 \<or> c = 8287 \<or> c = 12288"

text \<open>\<open>char::is_control\<close>: the Unicode category Cc.\<close>

definition is_control :: "uchar \<Rightarrow> bool" where
  "is_control c \<longleftrightarrow> c < 32 \<or> (127 \<le> c \<and> c \<le> 159)"

text \<open>\<open>char::len_utf8\<close> and \<open>str::len\<close>, which counts UTF-8 bytes.\<close>

definition len_utf8 :: "uchar \<Rightarrow> nat" where
  "len_utf8 c = (if c < 128 then 1 else if c < 2048 then 2 else if c < 65536 then 3 else 4)"

definition byte_len :: "str \<Rightarrow> nat" where
  "byte_len s = sum_list (map len_utf8 s)"

text \<open>\<open>str::trim\<close>.\<close>

definition trim_start :: "str \<Rightarrow> str" where
  "trim_start s = dropWhile is_whitespace s"

definition trim_end :: "str \<Rightarrow> str" where
  "trim_end s = rev (dropWhile is_whitespace (rev s))"

definition trim :: "str \<Rightarrow> str" where
  "trim s = trim_end (trim_start s)"

definition is_ascii_lowercase :: "uchar \<Rightarrow> bool" where
  "is_ascii_lowercase c \<longleftrightarrow> 97 \<le> c \<and> c \<le> 122"

definition is_ascii_uppercase :: "uchar \<Rightarrow> bool" where
  "is_ascii_uppercase c \<longleftrightarrow> 65 \<le> c \<and> c \<le> 90"

definition is_ascii_digit :: "uchar \<Rightarrow> bool" where
  "is_ascii_digit c \<longleftrightarrow> 48 \<le> c \<and> c \<le> 57"

definition to_ascii_lower :: "uchar \<Rightarrow> uchar" where
  "to_ascii_lower c = (if is_ascii_uppercase c then c + 32 else c)"

text \<open>
  \<open>str::to_lowercase\<close>. The mapping of ASCII letters is written out; \<open>uni\<close> is the Unicode
  lower-case table of the standard library for the other scalar values.
\<close>

definition to_lowercase :: "(uchar \<Rightarrow> str) \<Rightarrow> str \<Rightarrow> str" where
  "to_lowercase uni s = concat (map (\<lambda>c. if c < 128 then [to_ascii_lower c] else uni c) s)"

text \<open>\<open>str::strip_prefix\<close>.\<close>

fun strip_prefix :: "str \<Rightarrow> str \<Rightarrow> str option" where
  "strip_prefix [] s = Some s"
| "strip_prefix (p # ps) [] = None"
| "strip_prefix (p # ps) (c # s) = (if p = c then strip_prefix ps s else None)"

lemma strip_prefix_Some: "strip_prefix p s = Some r \<longleftrightarrow> s = p @ r"
  by (induction p s rule: strip_prefix.induct) auto

text \<open>Decimal numerals.\<close>

fun show_nat :: "nat \<Rightarrow> str" where
  "show_nat n = (if n < 10 then [48 + n] else show_nat (n div 10) @ [48 + n mod 10])"

declare show_nat.simps [simp del]

text \<open>\<open>str::split_whitespace\<close>: the maximal runs of characters that are not white space.\<close>

function split_whitespace :: "str \<Rightarrow> str list" where
  "split_whitespace s =
     (let t = dropWhile is_whitespace s in
      if t = [] then []
      else takeWhile (\<lambda>c. \<not> is_whitespace c) t
           # split_whitespace (dropWhile (\<lambda>c. \<not> is_whitespace c) t))"
  by pat_completeness auto
termination
proof (relation "measure length")
  fix s t assume t: "t = dropWhile is_whitespace s" and ne: "t \<noteq> []"
  then have "\<not> is_whitespace (hd t)" using hd_dropWhile by metis
  then have "length (dropWhile (\<lambda>c. \<not> is_whitespace c) t) < length t"
    using ne by (cases t) (auto intro: le_imp_less_Suc length_dropWhile_le)
  also have "length t \<le> length s" by (simp add: t length_dropWhile_le)
  finally show "(dropWhile (\<lambda>c. \<not> is_whitespace c) t, s) \<in> measure length" by simp
qed simp

declare split_whitespace.simps [simp del]

lemma trim_last_hd:
  assumes "trim s \<noteq> []"
  shows "\<not> is_whitespace (hd (trim s))" and "\<not> is_whitespace (last (trim s))"
proof -
  let ?t = "trim_start s"
  have ne: "dropWhile is_whitespace (rev ?t) \<noteq> []"
    using assms by (simp add: trim_def trim_end_def)
  have "last (trim s) = hd (dropWhile is_whitespace (rev ?t))"
    using ne by (simp add: trim_def trim_end_def last_rev)
  then show "\<not> is_whitespace (last (trim s))" using hd_dropWhile [OF ne] by simp
  have "rev ?t = takeWhile is_whitespace (rev ?t) @ dropWhile is_whitespace (rev ?t)" by simp
  then have "?t = trim s @ rev (takeWhile is_whitespace (rev ?t))"
    unfolding trim_def trim_end_def by (metis rev_append rev_rev_ident)
  with assms have "?t \<noteq> []" and "hd ?t = hd (trim s)"
    by (auto simp: hd_append) (metis hd_append2)
  with hd_dropWhile show "\<not> is_whitespace (hd (trim s))"
    unfolding trim_start_def by metis
qed

section \<open>Association lists as hash maps\<close>

named_theorems hm_simps \<open>rewrite rules for association lists used as hash maps\<close>

lemma hm_keys_update [hm_simps]: "fst ` set (AList.update k v m) = insert k (fst ` set m)"
  by (simp add: dom_update)

lemma hm_keys_delete [hm_simps]: "fst ` set (AList.delete k m) = fst ` set m - {k}"
  by (auto simp: AList.delete_eq)

lemma hm_get_update [hm_simps]:
  "map_of (AList.update k v m) k' = (if k = k' then Some v else map_of m k')"
  by (simp add: update_conv')

lemma hm_get_delete [hm_simps]:
  "map_of (AList.delete k m) k' = (if k = k' then None else map_of m k')"
  by (simp add: delete_conv')

lemma hm_set_delete: "set (AList.delete k m) = {e \<in> set m. fst e \<noteq> k}"
  by (auto simp: AList.delete_eq)

lemma hm_delete_absent: "k \<notin> fst ` set m \<Longrightarrow> AList.delete k m = m"
  by (force simp: AList.delete_eq filter_id_conv)

lemma hm_get_None: "map_of m k = None \<longleftrightarrow> k \<notin> fst ` set m"
  by (rule map_of_eq_None_iff)

lemma hm_get_map_entry [hm_simps]:
  "map_of (AList.map_entry k f m) k' =
     (if k = k' then map_option f (map_of m k) else map_of m k')"
  by (simp add: map_of_map_entry split: option.splits)

lemma hm_map_fst_map_entry [hm_simps]: "map fst (AList.map_entry k f m) = map fst m"
  by (induction m) auto

lemma hm_set_update: "e \<in> set (AList.update k v m) \<Longrightarrow> e = (k, v) \<or> e \<in> set m"
  by (induction m) (auto split: if_splits)

lemma set_map_filter_iff: "y \<in> set (List.map_filter f xs) \<longleftrightarrow> (\<exists>x \<in> set xs. f x = Some y)"
  by (force simp: List.map_filter_def)

lemma tl_upt: "tl [i ..< j] = [Suc i ..< j]"
  by (cases "i < j") (simp_all add: upt_conv_Cons)

end
