(* ===== verification/RateLimit.thy ===== *)
theory RateLimit
  imports Prelude
begin

text \<open>
  The sliding-window limiters of the server: the room's chat budget (\<open>Room::allow_chat_message\<close>,
  \<open>src/sfu/room.rs\<close>), each connection's chat budget (\<open>allow_sender_chat_action\<close>,
  \<open>src/signaling/handler.rs\<close>) and the wrong meeting passwords per room
  (\<open>failed_password_attempts\<close>, \<open>src/social/meeting_rooms.rs\<close>). The locale \<open>sliding_window\<close> is the
  contract of one limiter, proved once and interpreted on both chat limiters.

  Times are milliseconds of the monotonic clock; \<open>Instant::duration_since\<close> saturates at zero, as
  subtraction on the natural numbers does.
\<close>

section \<open>Operations\<close>

definition ROOM_CHAT_RATE_LIMIT :: nat where "ROOM_CHAT_RATE_LIMIT = 50"
definition ROOM_CHAT_RATE_WINDOW :: instant where "ROOM_CHAT_RATE_WINDOW = 5000"
definition CHAT_RATE_LIMIT :: nat where "CHAT_RATE_LIMIT = 10"
definition CHAT_RATE_WINDOW :: instant where "CHAT_RATE_WINDOW = 5000"
definition PASSWORD_ATTEMPT_LIMIT :: nat where "PASSWORD_ATTEMPT_LIMIT = 10"
definition PASSWORD_ATTEMPT_WINDOW :: instant where "PASSWORD_ATTEMPT_WINDOW = 60000"

text \<open>The loop that pops expired entries off the front of the deque.\<close>

fun pop_expired :: "instant \<Rightarrow> instant \<Rightarrow> instant list \<Rightarrow> instant list" where
  "pop_expired window now [] = []"
| "pop_expired window now (t # ts) =
     (if window \<le> now - t then pop_expired window now ts else t # ts)"

definition allow_chat_message :: "instant \<Rightarrow> instant list \<Rightarrow> bool \<times> instant list" where
  "allow_chat_message now recent =
     (let kept = pop_expired ROOM_CHAT_RATE_WINDOW now recent in
      if ROOM_CHAT_RATE_LIMIT \<le> length kept then (False, kept) else (True, kept @ [now]))"

definition allow_sender_chat_action :: "instant \<Rightarrow> instant list \<Rightarrow> bool \<times> instant list" where
  "allow_sender_chat_action now recent =
     (let kept = pop_expired CHAT_RATE_WINDOW now recent in
      if CHAT_RATE_LIMIT \<le> length kept then (False, kept) else (True, kept @ [now]))"

text \<open>
  \<open>failed_password_attempts\<close>: every room's deque is pruned and empty ones dropped, then this room's
  deque is created if absent, extended when a failure is recorded, and compared with the limit.
\<close>

type_synonym failures = "str \<rightharpoonup> instant list"

definition retain_failures :: "instant \<Rightarrow> failures \<Rightarrow> failures" where
  "retain_failures now fs = (\<lambda>r. case fs r of None \<Rightarrow> None | Some ts \<Rightarrow>
     (let kept = pop_expired PASSWORD_ATTEMPT_WINDOW now ts in if kept = [] then None else Some kept))"

definition failed_password_attempts ::
  "str \<Rightarrow> bool \<Rightarrow> instant \<Rightarrow> failures \<Rightarrow> bool \<times> failures" where
  "failed_password_attempts room_id record_failure now fs =
     (let fs = retain_failures now fs;
          times = (case fs room_id of None \<Rightarrow> [] | Some ts \<Rightarrow> ts);
          times = (if record_failure then times @ [now] else times)
      in (length times < PASSWORD_ATTEMPT_LIMIT, fs(room_id \<mapsto> times)))"

section \<open>The contract of a sliding window\<close>

text \<open>The abstract limiter: accept when fewer than \<open>limit\<close> calls were accepted in the last \<open>window\<close>.\<close>

definition within_budget :: "nat \<Rightarrow> instant \<Rightarrow> instant \<Rightarrow> instant list \<Rightarrow> bool" where
  "within_budget limit window now accepted \<longleftrightarrow>
     length (filter (\<lambda>a. now - a < window) accepted) < limit"

fun spec_run :: "nat \<Rightarrow> instant \<Rightarrow> instant list \<Rightarrow> instant list \<Rightarrow> bool list \<times> instant list" where
  "spec_run limit window accepted [] = ([], accepted)"
| "spec_run limit window accepted (now # ts) =
     (let ok = within_budget limit window now accepted;
          (oks, acc) = spec_run limit window (if ok then accepted @ [now] else accepted) ts
      in (ok # oks, acc))"

text \<open>The limiter of the code, called at the times of a list: its answers and the final deque.\<close>

fun limiter_run :: "(instant \<Rightarrow> instant list \<Rightarrow> bool \<times> instant list) \<Rightarrow> instant list
    \<Rightarrow> instant list \<Rightarrow> bool list \<times> instant list" where
  "limiter_run allow recent [] = ([], recent)"
| "limiter_run allow recent (now # ts) =
     (let (ok, recent') = allow now recent; (oks, r) = limiter_run allow recent' ts
      in (ok # oks, r))"

lemma pop_expired_suffix: "\<exists>k. pop_expired w now ts = drop k ts \<and> k \<le> length ts \<and>
    (\<forall>i < k. w \<le> now - ts ! i)"
proof (induction ts)
  case Nil
  show ?case by simp
next
  case (Cons t ts)
  show ?case
  proof (cases "w \<le> now - t")
    case True
    from Cons obtain k where k: "pop_expired w now ts = drop k ts" "k \<le> length ts"
      "\<forall>i < k. w \<le> now - ts ! i" by blast
    with True have "pop_expired w now (t # ts) = drop (Suc k) (t # ts) \<and> Suc k \<le> length (t # ts) \<and>
      (\<forall>i < Suc k. w \<le> now - (t # ts) ! i)" by (auto simp: less_Suc_eq_0_disj)
    then show ?thesis by blast
  next
    case False
    then show ?thesis by (intro exI [of _ 0]) simp
  qed
qed

lemma pop_expired_filter:
  "sorted ts \<Longrightarrow> pop_expired w now ts = filter (\<lambda>t. now - t < w) ts"
proof (induction ts)
  case Nil
  show ?case by simp
next
  case (Cons t ts)
  show ?case
  proof (cases "w \<le> now - t")
    case True
    with Cons show ?thesis by simp
  next
    case False
    with Cons.prems have "\<forall>x \<in> set (t # ts). now - x < w" by (auto simp: not_le)
    then have "filter (\<lambda>t. now - t < w) (t # ts) = t # ts" by (intro filter_True) blast
    with False show ?thesis by simp
  qed
qed

lemma pop_expired_later:
  "now \<le> now' \<Longrightarrow> sorted ts \<Longrightarrow>
     pop_expired w now' (filter (\<lambda>t. now - t < w) ts) = filter (\<lambda>t. now' - t < w) ts"
  by (subst pop_expired_filter) (auto simp: sorted_wrt_filter intro!: filter_cong)

locale sliding_window =
  fixes allow :: "instant \<Rightarrow> instant list \<Rightarrow> bool \<times> instant list"
    and limit :: nat and window :: instant
  assumes allow_spec: "allow now recent =
    (let kept = pop_expired window now recent in
     if limit \<le> length kept then (False, kept) else (True, kept @ [now]))"
    and window_pos: "0 < window"
begin

text \<open>
  The deque after the accepted calls \<open>acc\<close>, the last call at \<open>now\<close>: exactly the accepted calls that
  are younger than the window.
\<close>

lemma allow_refines:
  assumes "sorted acc" and "\<forall>a \<in> set acc. a \<le> now" and "now \<le> now'"
  shows "allow now' (filter (\<lambda>t. now - t < window) acc) =
    (within_budget limit window now' acc,
     filter (\<lambda>t. now' - t < window) (if within_budget limit window now' acc then acc @ [now'] else acc))"
  using assms window_pos by (simp add: allow_spec Let_def pop_expired_later within_budget_def)

lemma run_refines:
  "sorted acc \<Longrightarrow> \<forall>a \<in> set acc. a \<le> now \<Longrightarrow> sorted (now # ts) \<Longrightarrow>
   fst (limiter_run allow (filter (\<lambda>t. now - t < window) acc) ts) = fst (spec_run limit window acc ts)"
proof (induction ts arbitrary: acc now)
  case Nil
  show ?case by simp
next
  case (Cons now' ts)
  let ?acc = "if within_budget limit window now' acc then acc @ [now'] else acc"
  have "sorted ?acc" "\<forall>a \<in> set ?acc. a \<le> now'"
    using Cons.prems by (auto simp: sorted_append intro: le_trans)
  with Cons.IH [of ?acc now'] Cons.prems
  have "fst (limiter_run allow (filter (\<lambda>t. now' - t < window) ?acc) ts) = fst (spec_run limit window ?acc ts)"
    by simp
  moreover have "allow now' (filter (\<lambda>t. now - t < window) acc) =
      (within_budget limit window now' acc, filter (\<lambda>t. now' - t < window) ?acc)"
    using Cons.prems by (intro allow_refines) auto
  ultimately show ?case by (simp add: split_beta Let_def split del: if_split)
qed

lemma run_spec:
  "sorted ts \<Longrightarrow> fst (limiter_run allow [] ts) = fst (spec_run limit window [] ts)"
  using run_refines [of "[]" 0 ts] by simp

end

text \<open>The abstract limiter never accepts more than \<open>limit\<close> calls in any window.\<close>

definition window_bounded :: "nat \<Rightarrow> instant \<Rightarrow> instant list \<Rightarrow> bool" where
  "window_bounded limit window acc \<longleftrightarrow>
     (\<forall>t. length (filter (\<lambda>a. t \<le> a \<and> a < t + window) acc) \<le> limit)"

lemma spec_run_bounded:
  "window_bounded l w acc \<Longrightarrow> sorted acc \<Longrightarrow> \<forall>a \<in> set acc. \<forall>x \<in> set ts. a \<le> x \<Longrightarrow> sorted ts \<Longrightarrow>
   window_bounded l w (snd (spec_run l w acc ts)) \<and> sorted (snd (spec_run l w acc ts))"
proof (induction ts arbitrary: acc)
  case Nil
  then show ?case by simp
next
  case (Cons now ts)
  let ?acc = "if within_budget l w now acc then acc @ [now] else acc"
  have "window_bounded l w ?acc"
  proof (cases "within_budget l w now acc")
    case True
    have "length (filter (\<lambda>a. t \<le> a \<and> a < t + w) (acc @ [now])) \<le> l" for t
    proof (cases "t \<le> now \<and> now < t + w")
      case True
      have "filter (\<lambda>a. t \<le> a \<and> a < t + w) acc = filter (\<lambda>a. t \<le> a) (filter (\<lambda>a. now - a < w) acc)"
        using Cons.prems(3) True by (auto intro!: filter_cong)
      then have "length (filter (\<lambda>a. t \<le> a \<and> a < t + w) acc)
          \<le> length (filter (\<lambda>a. now - a < w) acc)" by (simp only: length_filter_le)
      with \<open>within_budget l w now acc\<close> show ?thesis by (simp add: within_budget_def)
    next
      case False
      with Cons.prems(1) show ?thesis by (auto simp: window_bounded_def)
    qed
    with True show ?thesis by (simp add: window_bounded_def)
  next
    case False
    with Cons.prems(1) show ?thesis by simp
  qed
  moreover have "sorted ?acc" "\<forall>a \<in> set ?acc. \<forall>x \<in> set ts. a \<le> x"
    using Cons.prems by (auto simp: sorted_append)
  ultimately show ?case using Cons.IH [of ?acc] Cons.prems(4)
    by (simp add: Let_def split_beta split del: if_split)
qed

text \<open>The accepted calls of a run, read off the answers.\<close>

lemma spec_run_accepted:
  "snd (spec_run l w acc ts) = acc @ map fst (filter snd (zip ts (fst (spec_run l w acc ts))))"
  by (induction ts arbitrary: acc) (auto simp: Let_def split_beta)

interpretation room_chat: sliding_window allow_chat_message ROOM_CHAT_RATE_LIMIT ROOM_CHAT_RATE_WINDOW
  by unfold_locales (simp_all add: allow_chat_message_def ROOM_CHAT_RATE_WINDOW_def)

interpretation sender_chat: sliding_window allow_sender_chat_action CHAT_RATE_LIMIT CHAT_RATE_WINDOW
  by unfold_locales (simp_all add: allow_sender_chat_action_def CHAT_RATE_WINDOW_def)

section \<open>Properties\<close>

definition accepted_times :: "instant list \<Rightarrow> bool list \<Rightarrow> instant list" where
  "accepted_times ts oks = map fst (filter snd (zip ts oks))"

lemma spec_run_window: "sorted ts \<Longrightarrow> window_bounded l w (accepted_times ts (fst (spec_run l w [] ts)))"
  using spec_run_bounded [of l w "[]" ts] spec_run_accepted [of l w "[]" ts]
  by (simp add: window_bounded_def accepted_times_def)

text \<open>
  C4. Both chat limiters are exact sliding windows: called at non-decreasing times, starting from an
  empty deque, each answers as the limiter that remembers every accepted call and accepts when fewer
  than the limit lie within the window; so no five-second window ever contains more than 50 accepted
  messages of a room or 10 accepted actions of a connection.
\<close>

theorem chat_limiters_exact:
  assumes "sorted ts"
  shows "fst (limiter_run allow_chat_message [] ts) =
           fst (spec_run ROOM_CHAT_RATE_LIMIT ROOM_CHAT_RATE_WINDOW [] ts) \<and>
         fst (limiter_run allow_sender_chat_action [] ts) =
           fst (spec_run CHAT_RATE_LIMIT CHAT_RATE_WINDOW [] ts) \<and>
         window_bounded ROOM_CHAT_RATE_LIMIT ROOM_CHAT_RATE_WINDOW
           (accepted_times ts (fst (limiter_run allow_chat_message [] ts))) \<and>
         window_bounded CHAT_RATE_LIMIT CHAT_RATE_WINDOW
           (accepted_times ts (fst (limiter_run allow_sender_chat_action [] ts)))"
  using assms spec_run_window [OF assms]
  by (simp add: room_chat.run_spec sender_chat.run_spec)

theorem chat_limiters_exact_witness:
  "sorted [0, 3, 10 :: nat] \<and>
   fst (limiter_run allow_sender_chat_action [] [0, 3, 10]) =
     fst (spec_run CHAT_RATE_LIMIT CHAT_RATE_WINDOW [] [0, 3, 10])"
  using chat_limiters_exact [of "[0, 3, 10]"] by simp

end
