(* ===== verification/Database.thy ===== *)
theory Database
  imports RateLimit
begin

text \<open>
  The tables of the PostgreSQL database that the modelled handlers read and write
  (\<open>src/schema.rs\<close> and the queries). A table is the list of its rows; a primary key is what the
  handlers look rows up by. The columns that no modelled handler reads are left out. Rows get their
  IDs from the database (\<open>gen_random_uuid\<close>): an operation that inserts takes the new ID as an
  argument.

  A statement may fail (no connection, a broken constraint, a lost server). Operations that run
  several statements take a \<open>fault\<close> function that says which of them fails, counted from 0 in program
  order, so that a failure in the middle is a case of the model.
\<close>

type_synonym fault = "nat \<Rightarrow> bool"

section \<open>Rows\<close>

record user_row =
  us_id :: uuid
  us_email :: str
  us_name :: str
  us_nickname :: str
  us_avatar_key :: "str option"
  us_password_hash :: str
  us_role :: str
  us_status :: str
  us_status_message :: str
  us_created :: instant

record role_row =
  ro_name :: str
  ro_description :: str
  ro_system :: bool
  ro_created :: instant
  ro_updated :: instant

record refresh_row =
  rt_id :: uuid
  rt_user :: uuid
  rt_hash :: str
  rt_expires :: instant

record friendship_row =
  fr_id :: uuid
  fr_requester :: uuid
  fr_addressee :: uuid
  fr_status :: str
  fr_created :: instant
  fr_updated :: instant

record call_invitation_row =
  ci_id :: uuid
  ci_caller :: uuid
  ci_callee :: uuid
  ci_room :: str
  ci_status :: str
  ci_expires :: instant
  ci_created :: instant
  ci_responded :: "instant option"

record meeting_history_row =
  mh_id :: uuid
  mh_user :: uuid
  mh_room :: str
  mh_last_joined :: instant

record meeting_room_row =
  mr_room_id :: str
  mr_owner_id :: uuid
  mr_access_policy :: str
  mr_password_hash :: "str option"

record meeting_session_row =
  ms_id :: uuid
  ms_room :: str
  ms_started :: instant
  ms_ended :: "instant option"

record meeting_participant_row =
  mp_session :: uuid
  mp_participant :: str
  mp_user :: "uuid option"
  mp_name :: str
  mp_joined :: instant
  mp_left :: "instant option"

record conversation_row =
  cv_id :: uuid
  cv_kind :: str
  cv_creator :: uuid
  cv_title :: "str option"
  cv_policy :: "str option"
  cv_password_hash :: "str option"
  cv_low :: "uuid option"
  cv_high :: "uuid option"
  cv_code :: "str option"
  cv_legacy_code :: "str option"
  cv_avatar_key :: "str option"
  cv_created :: instant
  cv_updated :: instant

record member_row =
  me_conversation :: uuid
  me_user :: uuid
  me_role :: str
  me_joined :: instant

record message_row =
  mg_sequence :: nat
  mg_conversation :: uuid
  mg_sender :: uuid
  mg_sender_name :: str
  mg_content :: str
  mg_created :: instant
  mg_reply_to :: "nat option"

record attachment_row =
  at_id :: uuid
  at_message :: nat
  at_key :: str
  at_file_name :: str
  at_content_type :: str
  at_size :: nat
  at_voice_ms :: "nat option"
  at_waveform :: "8 word list option"

record reaction_row =
  re_message :: nat
  re_user :: uuid
  re_emoji :: str
  re_created :: instant

record read_state_row =
  rs_conversation :: uuid
  rs_user :: uuid
  rs_last :: nat
  rs_marked :: bool

record direct_request_row =
  dr_id :: uuid
  dr_requester :: uuid
  dr_recipient :: uuid
  dr_status :: str
  dr_created :: instant

record group_invitation_row =
  gi_id :: uuid
  gi_conversation :: uuid
  gi_inviter :: uuid
  gi_invitee :: uuid
  gi_status :: str
  gi_created :: instant

record call_session_row =
  cs_id :: uuid
  cs_conversation :: uuid
  cs_initiator :: uuid
  cs_room :: str
  cs_status :: str
  cs_expires :: instant
  cs_created :: instant

record call_member_row =
  cm_session :: uuid
  cm_user :: uuid
  cm_status :: str

text \<open>The JSON payload of a notification.\<close>

datatype notification_data =
    RoomData str
  | FriendshipData uuid
  | GroupInvitationData uuid uuid "str option"

record notification_row =
  no_id :: uuid
  no_recipient :: uuid
  no_actor :: uuid
  no_kind :: str
  no_data :: notification_data
  no_created :: instant
  no_read :: "instant option"

record database =
  users :: "user_row list"
  roles :: "role_row list"
  permissions :: "(str \<times> str) list"
  role_permissions :: "(str \<times> str) list"
  refresh_tokens :: "refresh_row list"
  user_presence :: "(uuid \<times> instant) list"
  friendships :: "friendship_row list"
  call_invitations :: "call_invitation_row list"
  meeting_history :: "meeting_history_row list"
  meeting_rooms :: "meeting_room_row list"
  meeting_room_invitations :: "(str \<times> uuid \<times> uuid) list"
  meeting_sessions :: "meeting_session_row list"
  meeting_participants :: "meeting_participant_row list"
  conversations :: "conversation_row list"
  conversation_members :: "member_row list"
  conversation_messages :: "message_row list"
  message_attachments :: "attachment_row list"
  message_reactions :: "reaction_row list"
  conversation_read_states :: "read_state_row list"
  conversation_hidden_states :: "(uuid \<times> uuid) list"
  direct_message_requests :: "direct_request_row list"
  group_invitations :: "group_invitation_row list"
  call_sessions :: "call_session_row list"
  call_session_members :: "call_member_row list"
  call_read_states :: "(uuid \<times> uuid) list"
  revoked_sfu_rooms :: "str list"
  notifications :: "notification_row list"

definition empty_database :: database where
  "empty_database = \<lparr>users = [], roles = [], permissions = [], role_permissions = [], refresh_tokens = [],
     user_presence = [], friendships = [], call_invitations = [], meeting_history = [], meeting_rooms = [],
     meeting_room_invitations = [], meeting_sessions = [], meeting_participants = [], conversations = [],
     conversation_members = [], conversation_messages = [], message_attachments = [],
     message_reactions = [], conversation_read_states = [], conversation_hidden_states = [],
     direct_message_requests = [], group_invitations = [], call_sessions = [], call_session_members = [],
     call_read_states = [], revoked_sfu_rooms = [], notifications = []\<rparr>"

text \<open>Whether a user is a member of a group, and the members of a group.\<close>

definition is_member :: "database \<Rightarrow> uuid \<Rightarrow> uuid \<Rightarrow> bool" where
  "is_member d g u \<longleftrightarrow> list_ex (\<lambda>m. me_conversation m = g \<and> me_user m = u) (conversation_members d)"

definition members_of :: "database \<Rightarrow> uuid \<Rightarrow> member_row list" where
  "members_of d g = filter (\<lambda>m. me_conversation m = g) (conversation_members d)"

text \<open>\<open>UPDATE ... SET ... WHERE\<close>, and how many rows it changed.\<close>

definition update_where :: "('r \<Rightarrow> bool) \<Rightarrow> ('r \<Rightarrow> 'r) \<Rightarrow> 'r list \<Rightarrow> 'r list" where
  "update_where P f rs = map (\<lambda>r. if P r then f r else r) rs"

definition delete_where :: "('r \<Rightarrow> bool) \<Rightarrow> 'r list \<Rightarrow> 'r list" where
  "delete_where P rs = filter (\<lambda>r. \<not> P r) rs"

text \<open>\<open>ORDER BY\<close> a column, ascending and descending (a stable sort).\<close>

definition order_asc :: "('r \<Rightarrow> 'k::linorder) \<Rightarrow> 'r list \<Rightarrow> 'r list" where
  "order_asc k rs = sort_key k rs"

definition order_desc :: "('r \<Rightarrow> 'k::linorder) \<Rightarrow> 'r list \<Rightarrow> 'r list" where
  "order_desc k rs = rev (sort_key k (rev rs))"

lemma set_update_where: "set (update_where P f rs) = (\<lambda>r. if P r then f r else r) ` set rs"
  by (simp add: update_where_def)

lemma set_delete_where [simp]: "set (delete_where P rs) = {r \<in> set rs. \<not> P r}"
  by (auto simp: delete_where_def)

lemma find_Some_set: "find P rs = Some r \<Longrightarrow> r \<in> set rs \<and> P r"
  by (metis find_Some_iff nth_mem)

lemma find_None_set: "find P rs = None \<longleftrightarrow> (\<forall>r \<in> set rs. \<not> P r)"
  by (auto simp: find_None_iff)

section \<open>Friendship\<close>

text \<open>The accepted friends of a user, and whether two users are friends.\<close>

definition friends_of :: "database \<Rightarrow> uuid \<Rightarrow> uuid set" where
  "friends_of db u =
     set (map (\<lambda>f. if fr_requester f = u then fr_addressee f else fr_requester f)
       (filter (\<lambda>f. fr_status f = lit ''accepted'' \<and> (fr_requester f = u \<or> fr_addressee f = u))
         (friendships db)))"

definition are_friends :: "database \<Rightarrow> uuid \<Rightarrow> uuid \<Rightarrow> bool" where
  "are_friends db u v \<longleftrightarrow>
     list_ex (\<lambda>f. fr_status f = lit ''accepted'' \<and>
        ((fr_requester f = u \<and> fr_addressee f = v) \<or> (fr_requester f = v \<and> fr_addressee f = u)))
       (friendships db)"

lemma are_friends_sym: "are_friends db u v = are_friends db v u"
  by (auto simp: are_friends_def list_ex_iff)

lemma friends_of_iff: "v \<in> friends_of db u \<longleftrightarrow> are_friends db u v"
  by (auto simp: friends_of_def are_friends_def list_ex_iff image_iff split: if_splits)

end
