(* ===== verification/Handlers.thy ===== *)
theory Handlers
  imports Database
begin

text \<open>
  The shape of an HTTP handler of the server: it runs SQL statements one after the other, returns early at
  the first error (the question mark operator), reads the clock, draws random IDs and publishes events.
  A handler is a function of the world it runs in, of the number of statements run so far and of the site
  (the database and what the process keeps beside it); statements are counted so that the world can say
  which of them fail, and what other requests do to the site before each of them.

  A transaction is atomic: the other requests act before and after it, and a failed one changes nothing.
  The row locks and constraints that make this so are PostgreSQL's.
\<close>

section \<open>The site and its world\<close>

text \<open>\<open>diesel::result::Error\<close>, as far as handlers tell the errors apart.\<close>

datatype db_error = NotFound | UniqueViolation | ForeignKeyViolation | CheckViolation | OtherError

text \<open>What \<open>SocialEventHub\<close> broadcasts: who hears it, and what to reload or to show.\<close>

datatype social_resource = Calls | Conversations | Friends | Notifications

datatype call_kind = InvitationCall | SessionCall

datatype social_alert =
    MessageAlert uuid nat uuid str "str option" "str option" str bool
  | IncomingCall uuid call_kind str "uuid option" "str option" "str option" instant

datatype social_payload = Refresh social_resource | Alert social_alert

record site =
  tables :: database
  published :: "(uuid list \<times> social_payload) list"
  objects :: "str \<rightharpoonup> str \<times> 8 word list"

record 's world =
  fails :: "nat \<Rightarrow> bool"
  meanwhile :: "nat \<Rightarrow> 's \<Rightarrow> 's"
  clock :: "nat \<Rightarrow> instant"
  fresh :: "nat \<Rightarrow> uuid"

type_synonym ('s, 'e, 'a) prog = "'s world \<Rightarrow> nat \<Rightarrow> 's \<Rightarrow> ('e + 'a) \<times> nat \<times> 's"

section \<open>Building handlers\<close>

definition ret :: "'a \<Rightarrow> ('s, 'e, 'a) prog" where
  "ret x w n s = (Inr x, n, s)"

definition result :: "'e + 'a \<Rightarrow> ('s, 'e, 'a) prog" where
  "result r w n s = (r, n, s)"

definition throw :: "'e \<Rightarrow> ('s, 'e, 'a) prog" where
  "throw e w n s = (Inl e, n, s)"

definition chain :: "('s, 'e, 'a) prog \<Rightarrow> ('a \<Rightarrow> ('s, 'e, 'b) prog) \<Rightarrow> ('s, 'e, 'b) prog" where
  "chain m k w n s = (case m w n s of (Inl e, n, s) \<Rightarrow> (Inl e, n, s) | (Inr x, n, s) \<Rightarrow> k x w n s)"

definition map_err :: "('e \<Rightarrow> 'f) \<Rightarrow> ('s, 'e, 'a) prog \<Rightarrow> ('s, 'f, 'a) prog" where
  "map_err f m w n s = (case m w n s of (Inl e, n, s) \<Rightarrow> (Inl (f e), n, s) | (Inr x, n, s) \<Rightarrow> (Inr x, n, s))"

text \<open>Looking at a result instead of returning its error, and \<open>Result::ok\<close>.\<close>

definition attempt :: "('s, 'e, 'a) prog \<Rightarrow> ('s, 'f, 'e + 'a) prog" where
  "attempt m w n s = (case m w n s of (r, n, s) \<Rightarrow> (Inr r, n, s))"

definition guard :: "bool \<Rightarrow> 'e \<Rightarrow> ('s, 'e, unit) prog" where
  "guard c e w n s = (if c then Inr () else Inl e, n, s)"

definition utc_now :: "('s, 'e, instant) prog" where
  "utc_now w n s = (Inr (clock w n), n, s)"

definition new_uuid :: "('s, 'e, uuid) prog" where
  "new_uuid w n s = (Inr (fresh w n), Suc n, s)"

text \<open>One statement, after whatever other requests did before it.\<close>

definition statement ::
  "(database \<Rightarrow> db_error + 'a \<times> database) \<Rightarrow> ('m site_scheme, db_error, 'a) prog" where
  "statement q w n s =
     (let s = meanwhile w n s in
      if fails w n then (Inl OtherError, Suc n, s)
      else case q (tables s) of
             Inl e \<Rightarrow> (Inl e, Suc n, s)
           | Inr (x, d) \<Rightarrow> (Inr x, Suc n, s\<lparr>tables := d\<rparr>))"

definition select :: "(database \<Rightarrow> 'a) \<Rightarrow> ('m site_scheme, db_error, 'a) prog" where
  "select q = statement (\<lambda>d. Inr (q d, d))"

definition execute :: "(database \<Rightarrow> database) \<Rightarrow> ('m site_scheme, db_error, unit) prog" where
  "execute f = statement (\<lambda>d. Inr ((), f d))"

definition first :: "(database \<Rightarrow> 'a option) \<Rightarrow> ('m site_scheme, db_error, 'a) prog" where
  "first q = statement (\<lambda>d. case q d of None \<Rightarrow> Inl NotFound | Some x \<Rightarrow> Inr (x, d))"

text \<open>\<open>OptionalExtension::optional\<close>.\<close>

definition optional :: "('s, db_error, 'a) prog \<Rightarrow> ('s, db_error, 'a option) prog" where
  "optional m w n s = (case m w n s of
     (Inl NotFound, n, s) \<Rightarrow> (Inr None, n, s)
   | (Inl e, n, s) \<Rightarrow> (Inl e, n, s)
   | (Inr x, n, s) \<Rightarrow> (Inr (Some x), n, s))"

text \<open>\<open>pool.get()\<close>: waiting for a connection, which may not be had.\<close>

definition connect :: "('m site_scheme, db_error, unit) prog" where
  "connect = select (\<lambda>_. ())"

text \<open>\<open>conn.transaction\<close>: the body runs alone, and its changes are kept only if it and the commit succeed.\<close>

definition transaction :: "('s, db_error, 'a) prog \<Rightarrow> ('s, db_error, 'a) prog" where
  "transaction m w n s =
     (let s = meanwhile w n s in
      if fails w n then (Inl OtherError, Suc n, s)
      else case m (w\<lparr>meanwhile := \<lambda>_ s. s\<rparr>) (Suc n) s of
             (Inl e, n, _) \<Rightarrow> (Inl e, n, s)
           | (Inr x, n, s') \<Rightarrow> if fails w n then (Inl OtherError, Suc n, s) else (Inr x, Suc n, s'))"

text \<open>\<open>SocialEventHub::publish\<close>; an event without recipients is not sent.\<close>

definition send_event :: "uuid list \<Rightarrow> social_payload \<Rightarrow> ('m site_scheme, 'e, unit) prog" where
  "send_event us p w n s = (Inr (), n, if us = [] then s else s\<lparr>published := published s @ [(us, p)]\<rparr>)"

definition publish :: "uuid list \<Rightarrow> social_resource \<Rightarrow> ('m site_scheme, 'e, unit) prog" where
  "publish us r = send_event us (Refresh r)"

lemmas prog_defs = ret_def result_def throw_def chain_def map_err_def attempt_def guard_def utc_now_def
  new_uuid_def statement_def select_def execute_def first_def optional_def connect_def transaction_def
  send_event_def publish_def

text \<open>A request that runs alone and whose statements all succeed.\<close>

definition quiet :: "'s world \<Rightarrow> bool" where
  "quiet w \<longleftrightarrow> (\<forall>n. \<not> fails w n) \<and> (\<forall>n s. meanwhile w n s = s)"

lemma tables_id [simp]: "s\<lparr>tables := tables s\<rparr> = s"
  by simp

lemma quiet_alone: "quiet w \<Longrightarrow> w\<lparr>meanwhile := \<lambda>_ s. s\<rparr> = w"
  unfolding quiet_def by (cases w) (simp add: fun_eq_iff)

lemma quiet_statement:
  assumes "quiet w"
  shows "statement q w n s = (case q (tables s) of
       Inl e \<Rightarrow> (Inl e, Suc n, s) | Inr (x, d) \<Rightarrow> (Inr x, Suc n, s\<lparr>tables := d\<rparr>))"
    and "select f w n s = (Inr (f (tables s)), Suc n, s)"
    and "execute g w n s = (Inr (), Suc n, s\<lparr>tables := g (tables s)\<rparr>)"
    and "first h w n s = (case h (tables s) of None \<Rightarrow> (Inl NotFound, Suc n, s) | Some x \<Rightarrow> (Inr x, Suc n, s))"
    and "connect w n s = (Inr (), Suc n, s)"
  using assms by (simp_all add: quiet_def statement_def select_def execute_def first_def connect_def
      split: option.splits)

lemma quiet_transaction:
  assumes "quiet w"
  shows "transaction m w n s = (case m w (Suc n) s of
     (Inl e, n', _) \<Rightarrow> (Inl e, n', s) | (Inr x, n', s') \<Rightarrow> (Inr x, Suc n', s'))"
  using assms by (simp add: transaction_def quiet_alone quiet_def Let_def split: prod.splits sum.splits)

lemmas pure_defs = ret_def result_def throw_def chain_def map_err_def attempt_def guard_def utc_now_def
  new_uuid_def optional_def send_event_def publish_def

section \<open>Reasoning about handlers\<close>

text \<open>
  \<open>runs w P m Q R\<close>: from a site with \<open>P\<close>, the handler ends with a result and a site that satisfy \<open>Q\<close>, or
  with an error and a site that satisfy \<open>R\<close>.
\<close>

definition runs :: "'s world \<Rightarrow> ('s \<Rightarrow> bool) \<Rightarrow> ('s, 'e, 'a) prog \<Rightarrow> ('a \<Rightarrow> 's \<Rightarrow> bool) \<Rightarrow> ('e \<Rightarrow> 's \<Rightarrow> bool) \<Rightarrow> bool"
  where "runs w P m Q R \<longleftrightarrow>
    (\<forall>n s. P s \<longrightarrow> (case m w n s of (Inl e, _, s') \<Rightarrow> R e s' | (Inr x, _, s') \<Rightarrow> Q x s'))"

text \<open>\<open>steady w P\<close>: the other requests keep \<open>P\<close>.\<close>

definition steady :: "'s world \<Rightarrow> ('s \<Rightarrow> bool) \<Rightarrow> bool" where
  "steady w P \<longleftrightarrow> (\<forall>n s. P s \<longrightarrow> P (meanwhile w n s))"

definition alone :: "'s world \<Rightarrow> 's world" where
  "alone w = w\<lparr>meanwhile := \<lambda>_ s. s\<rparr>"

lemma steady_alone [simp]: "steady (alone w) P"
  by (simp add: steady_def alone_def)

lemma runs_chain:
  "runs w P m Q' R \<Longrightarrow> (\<And>x. runs w (Q' x) (k x) Q R) \<Longrightarrow> runs w P (chain m k) Q R"
  unfolding runs_def chain_def by (fastforce split: prod.splits sum.splits)

lemma runs_weaken:
  "runs w P' m Q' R' \<Longrightarrow> (\<And>s. P s \<Longrightarrow> P' s) \<Longrightarrow> (\<And>x s. Q' x s \<Longrightarrow> Q x s) \<Longrightarrow> (\<And>e s. R' e s \<Longrightarrow> R e s) \<Longrightarrow>
     runs w P m Q R"
  unfolding runs_def by (fastforce split: prod.splits sum.splits)

lemma runsD:
  assumes "runs w P m Q R" and "P s" and "m w n s = (r, n', s')"
  shows "case r of Inl e \<Rightarrow> R e s' | Inr x \<Rightarrow> Q x s'"
  using assms unfolding runs_def by (auto split: prod.splits sum.splits)

text \<open>\<open>keeps w P m\<close>: whatever comes out, \<open>P\<close> still holds.\<close>

definition keeps :: "'s world \<Rightarrow> ('s \<Rightarrow> bool) \<Rightarrow> ('s, 'e, 'a) prog \<Rightarrow> bool" where
  "keeps w P m \<longleftrightarrow> runs w P m (\<lambda>_. P) (\<lambda>_. P)"

lemma keeps_iff: "keeps w P m \<longleftrightarrow> (\<forall>n s. P s \<longrightarrow> P (snd (snd (m w n s))))"
proof -
  have "(case t of (Inl e, _, s') \<Rightarrow> P s' | (Inr x, _, s') \<Rightarrow> P s') = P (snd (snd t))"
    for t :: "('b + 'c) \<times> nat \<times> 'a"
    by (cases t) (simp split: sum.splits)
  then show ?thesis by (simp add: keeps_def runs_def)
qed

lemma keepsD: "keeps w P m \<Longrightarrow> P s \<Longrightarrow> P (snd (snd (m w n s)))"
  by (simp add: keeps_iff)

lemma keepsI: "(\<And>n s. P s \<Longrightarrow> P (snd (snd (m w n s)))) \<Longrightarrow> keeps w P m"
  by (simp add: keeps_iff)

named_theorems keeping \<open>introduction rules for handlers that keep a predicate\<close>

lemma keeps_chain [keeping]: "keeps w P m \<Longrightarrow> (\<And>x. keeps w P (k x)) \<Longrightarrow> keeps w P (chain m k)"
  unfolding keeps_def by (rule runs_chain)

lemma keeps_pure [keeping]:
  "keeps w P (ret x)" "keeps w P (result r)" "keeps w P (throw e)" "keeps w P (guard c e)"
  "keeps w P utc_now" "keeps w P new_uuid"
  by (auto intro!: keepsI simp: prog_defs)

lemma keeps_map_err [keeping]: "keeps w P m \<Longrightarrow> keeps w P (map_err f m)"
  unfolding keeps_def runs_def map_err_def by (fastforce split: prod.splits sum.splits)

lemma keeps_attempt [keeping]: "keeps w P m \<Longrightarrow> keeps w P (attempt m)"
  unfolding keeps_def runs_def attempt_def by (fastforce split: prod.splits sum.splits)

lemma keeps_optional [keeping]: "keeps w P m \<Longrightarrow> keeps w P (optional m)"
  unfolding keeps_def runs_def optional_def by (fastforce split: prod.splits sum.splits db_error.splits)

lemma keeps_statement:
  assumes "steady w P" and "\<And>s x d. P s \<Longrightarrow> q (tables s) = Inr (x, d) \<Longrightarrow> P (s\<lparr>tables := d\<rparr>)"
  shows "keeps w P (statement q)"
  using assms unfolding steady_def
  by (auto intro!: keepsI simp: statement_def Let_def split: sum.splits prod.splits)

lemma keeps_select [keeping]: "steady w P \<Longrightarrow> keeps w P (select q)"
  unfolding select_def by (rule keeps_statement) auto

lemma keeps_first [keeping]: "steady w P \<Longrightarrow> keeps w P (first q)"
  unfolding first_def by (rule keeps_statement) (auto split: option.splits)

lemma keeps_connect [keeping]: "steady w P \<Longrightarrow> keeps w P connect"
  unfolding connect_def by (rule keeps_select)

lemma keeps_execute:
  "steady w P \<Longrightarrow> (\<And>s. P s \<Longrightarrow> P (s\<lparr>tables := f (tables s)\<rparr>)) \<Longrightarrow> keeps w P (execute f)"
  unfolding execute_def by (rule keeps_statement) auto

lemma keeps_transaction:
  assumes st: "steady w P" and m: "keeps (alone w) P m"
  shows "keeps w P (transaction m)"
proof (rule keepsI)
  fix n s assume "P s"
  then have p: "P (meanwhile w n s)" using st by (simp add: steady_def)
  then have "P (snd (snd (m (w\<lparr>meanwhile := \<lambda>_ s. s\<rparr>) (Suc n) (meanwhile w n s))))"
    using keepsD [OF m] by (simp add: alone_def)
  with p show "P (snd (snd (transaction m w n s)))"
    by (auto simp: transaction_def Let_def split: prod.splits sum.splits)
qed

lemma keeps_split [keeping]:
  "(c \<Longrightarrow> keeps w P m) \<Longrightarrow> (\<not> c \<Longrightarrow> keeps w P m') \<Longrightarrow> keeps w P (if c then m else m')"
  "(x = None \<Longrightarrow> keeps w P m) \<Longrightarrow> (\<And>y. x = Some y \<Longrightarrow> keeps w P (k y)) \<Longrightarrow>
     keeps w P (case x of None \<Rightarrow> m | Some y \<Rightarrow> k y)"
  "(\<And>e. r = Inl e \<Longrightarrow> keeps w P (f e)) \<Longrightarrow> (\<And>y. r = Inr y \<Longrightarrow> keeps w P (g y)) \<Longrightarrow>
     keeps w P (case r of Inl e \<Rightarrow> f e | Inr y \<Rightarrow> g y)"
  "(\<And>a b. p = (a, b) \<Longrightarrow> keeps w P (h a b)) \<Longrightarrow> keeps w P (case p of (a, b) \<Rightarrow> h a b)"
  by (auto split: option.splits sum.splits prod.splits)

text \<open>Predicates that only look at the database.\<close>

lemma keeps_send_event [keeping]:
  "(\<And>s p. P (s\<lparr>published := p\<rparr>) = P s) \<Longrightarrow> keeps w P (send_event us e)"
  by (rule keepsI) (simp add: send_event_def)

lemma keeps_publish [keeping]:
  "(\<And>s p. P (s\<lparr>published := p\<rparr>) = P s) \<Longrightarrow> keeps w P (publish us e)"
  unfolding publish_def by (rule keeps_send_event)

end
