(* ===== verification/Permissions.thy ===== *)
theory Permissions
  imports Handlers "HOL-Library.List_Lexorder"
begin

text \<open>
  Role-based permissions (\<open>src/auth/permissions.rs\<close>): the catalog with its keys, and the queries that say
  what the role of a user may do.
\<close>

datatype permission =
    AppLogin | MeetingsCreate | MessagesSend | AdminAccess | AdminUsersManage | AdminRolesManage

definition all_permissions :: "permission list" where
  "all_permissions = [AppLogin, MeetingsCreate, MessagesSend, AdminAccess, AdminUsersManage, AdminRolesManage]"

fun key :: "permission \<Rightarrow> str" where
  "key AppLogin = lit ''app.login''"
| "key MeetingsCreate = lit ''meetings.create''"
| "key MessagesSend = lit ''messages.send''"
| "key AdminAccess = lit ''admin.access''"
| "key AdminUsersManage = lit ''admin.users.manage''"
| "key AdminRolesManage = lit ''admin.roles.manage''"

definition from_key :: "str \<Rightarrow> permission option" where
  "from_key k = find (\<lambda>p. key p = k) all_permissions"

fun denied_message :: "permission \<Rightarrow> str" where
  "denied_message AppLogin = lit ''This account is suspended''"
| "denied_message MeetingsCreate = lit ''You are not allowed to create meeting rooms''"
| "denied_message MessagesSend = lit ''You are not allowed to send messages''"
| "denied_message _ = lit ''You are not allowed to do this''"

text \<open>\<open>users JOIN role_permissions ON role_name = users.role\<close> for one user.\<close>

definition keys_of_user :: "database \<Rightarrow> uuid \<Rightarrow> str list" where
  "keys_of_user d u = concat (map (\<lambda>x. map snd (filter (\<lambda>rp. fst rp = us_role x) (role_permissions d)))
     (filter (\<lambda>x. us_id x = u) (users d)))"

definition has_permission :: "uuid \<Rightarrow> permission \<Rightarrow> ('m site_scheme, db_error, bool) prog" where
  "has_permission u p = select (\<lambda>d. key p \<in> set (keys_of_user d u))"

definition require_permission :: "uuid \<Rightarrow> permission \<Rightarrow> ('m site_scheme, api_error, unit) prog" where
  "require_permission u p =
     chain (map_err (\<lambda>_. (INTERNAL_SERVER_ERROR, lit ''Internal server error'')) (has_permission u p)) (\<lambda>allowed.
     guard allowed (FORBIDDEN, denied_message p))"

text \<open>The keys in the order of the database; the collations agree on the six keys of the catalog.\<close>

definition user_permissions :: "uuid \<Rightarrow> ('m site_scheme, db_error, str list) prog" where
  "user_permissions u = select (\<lambda>d. order_asc (\<lambda>k. k) (keys_of_user d u))"

section \<open>Lemmas\<close>

lemma all_permissions_complete: "p \<in> set all_permissions"
  by (cases p) (simp_all add: all_permissions_def)

lemma key_inject [simp]: "key p = key q \<longleftrightarrow> p = q"
  by (cases p; cases q) simp_all

lemma from_key_Some: "from_key k = Some p \<longleftrightarrow> k = key p"
proof
  assume "from_key k = Some p"
  then show "k = key p" unfolding from_key_def using find_Some_set by fastforce
next
  assume k: "k = key p"
  have "find (\<lambda>q. key q = key p) all_permissions \<noteq> None" using all_permissions_complete [of p] by (auto simp: find_None_iff)
  then obtain q where "find (\<lambda>q. key q = key p) all_permissions = Some q" by blast
  then have "q = p" using find_Some_set by fastforce
  then show "from_key k = Some p" unfolding from_key_def k using \<open>find _ all_permissions = Some q\<close> by simp
qed

lemma from_key_key [simp]: "from_key (key p) = Some p"
  by (simp add: from_key_Some)

lemma keys_of_user_iff:
  "k \<in> set (keys_of_user d u) \<longleftrightarrow> (\<exists>x \<in> set (users d). us_id x = u \<and> (us_role x, k) \<in> set (role_permissions d))"
  by (force simp: keys_of_user_def)

lemma set_order_asc [simp]: "set (order_asc k xs) = set xs"
  by (simp add: order_asc_def)

lemma keeps_permission [keeping]:
  "steady w P \<Longrightarrow> keeps w P (has_permission u p)"
  "steady w P \<Longrightarrow> keeps w P (require_permission u p)"
  "steady w P \<Longrightarrow> keeps w P (user_permissions u)"
  unfolding has_permission_def require_permission_def user_permissions_def by (auto intro!: keeping)

end
