(* ===== verification/Auth.thy ===== *)
theory Auth
  imports Permissions
begin

text \<open>
  Accounts and sessions (\<open>src/auth\<close>): access tokens and refresh tokens, registration, login, refresh and
  logout. The token, hashing and UUID libraries are the parameters of a \<open>platform\<close>; wall-clock times count
  microseconds.
\<close>

section \<open>Tokens\<close>

record access_claims =
  sub :: str
  exp :: int
  iat :: int

text \<open>
  What the handlers use of \<open>jsonwebtoken\<close> (\<open>decode_claims now t\<close> includes the check of the signature, the
  algorithm and the expiry), \<open>uuid\<close>, \<open>sha2\<close>, \<open>argon2\<close>, the Unicode lower-case table, the text of library
  errors, and the configuration.
\<close>

record platform =
  encode_claims :: "access_claims \<Rightarrow> str option"
  decode_claims :: "instant \<Rightarrow> str \<Rightarrow> access_claims option"
  show_uuid :: "uuid \<Rightarrow> str"
  parse_uuid :: "str \<Rightarrow> uuid option"
  sha256 :: "str \<Rightarrow> 8 word list"
  hash_password :: "str \<Rightarrow> str option"
  parses_hash :: "str \<Rightarrow> bool"
  verify_hash :: "str \<Rightarrow> str \<Rightarrow> bool"
  lower_table :: "uchar \<Rightarrow> str"
  error_text :: str
  access_token_minutes :: nat
  refresh_token_days :: nat

definition seconds :: "nat \<Rightarrow> nat" where "seconds k = k * 1000000"

definition timestamp :: "instant \<Rightarrow> int" where "timestamp t = int (t div seconds 1)"

definition create_access_token :: "platform \<Rightarrow> uuid \<Rightarrow> instant \<Rightarrow> str option" where
  "create_access_token L u now =
     encode_claims L \<lparr>sub = show_uuid L u, exp = timestamp (now + seconds (60 * access_token_minutes L)),
       iat = timestamp now\<rparr>"

definition validate_access_token_with_expiration :: "platform \<Rightarrow> instant \<Rightarrow> str \<Rightarrow> (uuid \<times> int) option" where
  "validate_access_token_with_expiration L now t =
     Option.bind (decode_claims L now t) (\<lambda>c. map_option (\<lambda>u. (u, exp c)) (parse_uuid L (sub c)))"

definition validate_access_token :: "platform \<Rightarrow> instant \<Rightarrow> str \<Rightarrow> uuid option" where
  "validate_access_token L now t = map_option fst (validate_access_token_with_expiration L now t)"

text \<open>\<open>format!("{byte:02x}")\<close>.\<close>

definition hex_digit :: "nat \<Rightarrow> uchar" where
  "hex_digit k = (if k < 10 then 48 + k else 87 + k)"

definition hash_refresh_token :: "platform \<Rightarrow> str \<Rightarrow> str" where
  "hash_refresh_token L t =
     concat (map (\<lambda>b. [hex_digit (unat b div 16), hex_digit (unat b mod 16)]) (sha256 L t))"

definition refresh_token_expires_at :: "platform \<Rightarrow> instant \<Rightarrow> instant" where
  "refresh_token_expires_at L now = now + seconds (24 * 60 * 60 * refresh_token_days L)"

definition library_error :: "platform \<Rightarrow> api_error" where
  "library_error L = (INTERNAL_SERVER_ERROR, error_text L)"

section \<open>Who is calling\<close>

text \<open>The value of the \<open>Authorization\<close> header, \<open>None\<close> if it is missing or not visible ASCII.\<close>

definition extract_user_id :: "platform \<Rightarrow> instant \<Rightarrow> str option \<Rightarrow> api_error + uuid" where
  "extract_user_id L now header =
     (case header of
        None \<Rightarrow> Inl (UNAUTHORIZED, lit ''Missing authorization header'')
      | Some h \<Rightarrow>
          (case strip_prefix (lit ''Bearer '') h of
             None \<Rightarrow> Inl (UNAUTHORIZED, lit ''Invalid authorization format'')
           | Some t \<Rightarrow> ok_or (UNAUTHORIZED, lit ''Invalid or expired token'') (validate_access_token L now t)))"

definition caller :: "platform \<Rightarrow> str option \<Rightarrow> ('s, api_error, uuid) prog" where
  "caller L header = chain utc_now (\<lambda>now. result (extract_user_id L now header))"

lemma keeps_caller [keeping]: "keeps w P (caller L header)"
  unfolding caller_def by (intro keeping)

section \<open>The tables of accounts\<close>

definition valid_nickname :: "str \<Rightarrow> bool" where
  "valid_nickname s \<longleftrightarrow> 3 \<le> length s \<and> length s \<le> 50 \<and>
     list_all (\<lambda>c. is_ascii_lowercase c \<or> is_ascii_digit c \<or> c = 95) s"

text \<open>Inserting rows under the constraints of the migrations.\<close>

definition insert_user :: "user_row \<Rightarrow> database \<Rightarrow> db_error + user_row \<times> database" where
  "insert_user x d =
     (if 255 < length (us_email x) \<or> 255 < length (us_name x) \<or> 255 < length (us_password_hash x) then Inl OtherError
      else if \<not> valid_nickname (us_nickname x) then Inl CheckViolation
      else if list_ex (\<lambda>y. us_id y = us_id x \<or> us_email y = us_email x \<or> us_nickname y = us_nickname x) (users d)
      then Inl UniqueViolation
      else if \<not> list_ex (\<lambda>r. ro_name r = us_role x) (roles d) then Inl ForeignKeyViolation
      else Inr (x, d\<lparr>users := users d @ [x]\<rparr>))"

definition insert_refresh_token :: "refresh_row \<Rightarrow> database \<Rightarrow> db_error + unit \<times> database" where
  "insert_refresh_token x d =
     (if 255 < length (rt_hash x) then Inl OtherError
      else if list_ex (\<lambda>y. rt_id y = rt_id x \<or> rt_hash y = rt_hash x) (refresh_tokens d) then Inl UniqueViolation
      else if \<not> list_ex (\<lambda>u. us_id u = rt_user x) (users d) then Inl ForeignKeyViolation
      else Inr ((), d\<lparr>refresh_tokens := refresh_tokens d @ [x]\<rparr>))"

section \<open>Handlers\<close>

record user_response =
  ur_id :: uuid
  ur_email :: str
  ur_name :: str
  ur_nickname :: str
  ur_role :: str

definition user_response_of :: "user_row \<Rightarrow> user_response" where
  "user_response_of x = \<lparr>ur_id = us_id x, ur_email = us_email x, ur_name = us_name x,
     ur_nickname = us_nickname x, ur_role = us_role x\<rparr>"

definition create_tokens :: "platform \<Rightarrow> user_row \<Rightarrow> ('m site_scheme, api_error, str \<times> str) prog" where
  "create_tokens L user =
     chain utc_now (\<lambda>now.
     chain (result (ok_or (library_error L) (create_access_token L (us_id user) now))) (\<lambda>access.
     chain new_uuid (\<lambda>t. let refresh = show_uuid L t in
     chain utc_now (\<lambda>now.
     chain new_uuid (\<lambda>i.
     chain (map_err (\<lambda>_. library_error L) (statement (insert_refresh_token
       \<lparr>rt_id = i, rt_user = us_id user, rt_hash = hash_refresh_token L refresh,
        rt_expires = refresh_token_expires_at L now\<rparr>))) (\<lambda>_.
     ret (access, refresh)))))))"

definition normalize_nickname :: "(uchar \<Rightarrow> str) \<Rightarrow> str \<Rightarrow> str option" where
  "normalize_nickname uni v =
     (let nickname = to_lowercase uni (trim v) in
      if 3 \<le> byte_len nickname \<and> byte_len nickname \<le> 50 \<and>
         list_all (\<lambda>c. is_ascii_lowercase c \<or> is_ascii_digit c \<or> c = 95) nickname
      then Some nickname else None)"

definition register ::
  "platform \<Rightarrow> str \<Rightarrow> str \<Rightarrow> str \<Rightarrow> str \<Rightarrow> ('m site_scheme, api_error, user_response \<times> str \<times> str) prog" where
  "register L email name nick password =
     chain (result (ok_or (BAD_REQUEST, lit ''Nickname must be 3 to 50 lowercase letters, numbers, or underscores'')
       (normalize_nickname (lower_table L) nick))) (\<lambda>nickname.
     chain (map_err (\<lambda>_. library_error L) connect) (\<lambda>_.
     chain (result (ok_or (library_error L) (hash_password L password))) (\<lambda>h.
     chain new_uuid (\<lambda>i. chain utc_now (\<lambda>now.
     chain (map_err (\<lambda>e. if e = UniqueViolation then (CONFLICT, lit ''Email or nickname already exists'')
                        else library_error L)
       (statement (insert_user
          \<lparr>us_id = i, us_email = email, us_name = name, us_nickname = nickname, us_avatar_key = None,
           us_password_hash = h, us_role = lit ''user'', us_status = lit ''available'',
           us_status_message = lit ''Available for a call'', us_created = now\<rparr>))) (\<lambda>user.
     chain (create_tokens L user) (\<lambda>(access, refresh).
     ret (user_response_of user, access, refresh))))))))"

definition login ::
  "platform \<Rightarrow> str \<Rightarrow> str \<Rightarrow> ('m site_scheme, api_error, user_response \<times> str \<times> str) prog" where
  "login L email password =
     chain (map_err (\<lambda>_. library_error L) connect) (\<lambda>_.
     chain (map_err (\<lambda>_. (UNAUTHORIZED, lit ''Invalid credentials''))
       (first (\<lambda>d. find (\<lambda>x. us_email x = email) (users d)))) (\<lambda>user.
     chain (guard (parses_hash L (us_password_hash user)) (library_error L)) (\<lambda>_.
     chain (guard (verify_hash L (us_password_hash user) password) (UNAUTHORIZED, lit ''Invalid credentials'')) (\<lambda>_.
     chain (require_permission (us_id user) AppLogin) (\<lambda>_.
     chain (create_tokens L user) (\<lambda>(access, refresh).
     ret (user_response_of user, access, refresh)))))))"

definition refresh_session :: "platform \<Rightarrow> str \<Rightarrow> ('m site_scheme, api_error, str) prog" where
  "refresh_session L token =
     chain (map_err (\<lambda>_. library_error L) connect) (\<lambda>_. let h = hash_refresh_token L token in
     chain (map_err (\<lambda>_. (UNAUTHORIZED, lit ''Invalid refresh token''))
       (first (\<lambda>d. find (\<lambda>x. rt_hash x = h) (refresh_tokens d)))) (\<lambda>row.
     chain utc_now (\<lambda>now.
     if rt_expires row < now then
       chain (attempt (execute (\<lambda>d. d\<lparr>refresh_tokens := delete_where (\<lambda>x. rt_id x = rt_id row) (refresh_tokens d)\<rparr>)))
         (\<lambda>_. throw (UNAUTHORIZED, lit ''Refresh token expired''))
     else
       chain (map_err (\<lambda>_. library_error L) (has_permission (rt_user row) AppLogin)) (\<lambda>can_login.
       if \<not> can_login then
         chain (attempt (execute (\<lambda>d. d\<lparr>refresh_tokens := delete_where (\<lambda>x. rt_user x = rt_user row) (refresh_tokens d)\<rparr>)))
           (\<lambda>_. throw (UNAUTHORIZED, lit ''This account is suspended''))
       else
         chain utc_now (\<lambda>now. result (ok_or (library_error L) (create_access_token L (rt_user row) now)))))))"

definition logout :: "platform \<Rightarrow> str \<Rightarrow> ('m site_scheme, api_error, unit) prog" where
  "logout L token =
     chain (map_err (\<lambda>_. library_error L) connect) (\<lambda>_. let h = hash_refresh_token L token in
     map_err (\<lambda>_. library_error L)
       (execute (\<lambda>d. d\<lparr>refresh_tokens := delete_where (\<lambda>x. rt_hash x = h) (refresh_tokens d)\<rparr>)))"

definition auth_me :: "platform \<Rightarrow> str option \<Rightarrow> ('m site_scheme, api_error, user_response) prog" where
  "auth_me L header =
     chain (caller L header) (\<lambda>u.
     chain (map_err (\<lambda>_. library_error L) connect) (\<lambda>_.
     chain (map_err (\<lambda>_. (NOT_FOUND, lit ''User not found''))
       (first (\<lambda>d. find (\<lambda>x. us_id x = u) (users d)))) (\<lambda>user.
     ret (user_response_of user))))"

section \<open>Signing in and out\<close>

text \<open>The laws of the token libraries: signing never fails, an unexpired token decodes to its claims, and
  UUIDs can be read back.\<close>

definition token_laws :: "platform \<Rightarrow> bool" where
  "token_laws L \<longleftrightarrow> (\<forall>c. \<exists>t. encode_claims L c = Some t) \<and>
     (\<forall>c t now. encode_claims L c = Some t \<and> timestamp now \<le> exp c \<longrightarrow> decode_claims L now t = Some c) \<and>
     (\<forall>u. parse_uuid L (show_uuid L u) = Some u)"

lemma access_token_round_trip:
  assumes "token_laws L" and "create_access_token L u now = Some t"
    and "later \<le> now + seconds (60 * access_token_minutes L)"
  shows "validate_access_token L later t = Some u"
proof -
  let ?c = "\<lparr>sub = show_uuid L u, exp = timestamp (now + seconds (60 * access_token_minutes L)), iat = timestamp now\<rparr>"
  have "timestamp later \<le> exp ?c" using assms(3) by (simp add: timestamp_def div_le_mono)
  moreover have "encode_claims L ?c = Some t" using assms(2) by (simp add: create_access_token_def)
  ultimately have "decode_claims L later t = Some ?c" using assms(1) unfolding token_laws_def by blast
  moreover have "parse_uuid L (show_uuid L u) = Some u" using assms(1) unfolding token_laws_def by blast
  ultimately show ?thesis by (simp add: validate_access_token_def validate_access_token_with_expiration_def)
qed

text \<open>Who may sign in with a password: an account with this address and password whose role lets it in.\<close>

definition may_sign_in :: "platform \<Rightarrow> database \<Rightarrow> str \<Rightarrow> str \<Rightarrow> user_row \<Rightarrow> bool" where
  "may_sign_in L d email password x \<longleftrightarrow> find (\<lambda>x. us_email x = email) (users d) = Some x \<and>
     parses_hash L (us_password_hash x) \<and> verify_hash L (us_password_hash x) password \<and>
     key AppLogin \<in> set (keys_of_user d (us_id x))"

text \<open>The row that \<open>create_tokens\<close> stores, and when it does.\<close>

definition issued_row :: "platform \<Rightarrow> user_row \<Rightarrow> 's world \<Rightarrow> nat \<Rightarrow> refresh_row" where
  "issued_row L x w n = \<lparr>rt_id = fresh w (Suc n), rt_user = us_id x,
     rt_hash = hash_refresh_token L (show_uuid L (fresh w n)),
     rt_expires = refresh_token_expires_at L (clock w (Suc n))\<rparr>"

definition issued_tokens :: "platform \<Rightarrow> user_row \<Rightarrow> 'm site_scheme world \<Rightarrow> nat \<Rightarrow> 'm site_scheme
    \<Rightarrow> str \<Rightarrow> str \<Rightarrow> 'm site_scheme \<Rightarrow> bool" where
  "issued_tokens L x w n s access refresh s' \<longleftrightarrow>
     create_access_token L (us_id x) (clock w n) = Some access \<and> refresh = show_uuid L (fresh w n) \<and>
     (\<forall>y \<in> set (refresh_tokens (tables s)). rt_hash y \<noteq> hash_refresh_token L refresh) \<and>
     s' = s\<lparr>tables := (tables s)\<lparr>refresh_tokens := refresh_tokens (tables s) @ [issued_row L x w n]\<rparr>\<rparr>"

lemma create_tokens_quiet:
  assumes "quiet w" and "create_tokens L x w n s = (r, n', s')"
  shows "(r = Inl (library_error L) \<and> s' = s) \<or>
    (\<exists>access refresh. r = Inr (access, refresh) \<and> issued_tokens L x w n s access refresh s')"
proof (cases "create_access_token L (us_id x) (clock w n)")
  case None
  then show ?thesis using assms(2) by (simp add: create_tokens_def pure_defs)
next
  case (Some access)
  show ?thesis
  proof (cases "insert_refresh_token (issued_row L x w n) (tables s)")
    case (Inl e)
    then show ?thesis using assms(2) Some
      by (simp add: create_tokens_def pure_defs quiet_statement [OF assms(1)] Let_def issued_row_def)
  next
    case (Inr a)
    then have "snd a = (tables s)\<lparr>refresh_tokens := refresh_tokens (tables s) @ [issued_row L x w n]\<rparr>"
      "\<forall>y \<in> set (refresh_tokens (tables s)). rt_hash y \<noteq> hash_refresh_token L (show_uuid L (fresh w n))"
      by (auto simp: insert_refresh_token_def list_ex_iff issued_row_def split: if_splits)
    moreover have "r = Inr (access, show_uuid L (fresh w n))" "s' = s\<lparr>tables := snd a\<rparr>"
      using assms(2) Some Inr
      by (simp_all add: create_tokens_def pure_defs quiet_statement [OF assms(1)] Let_def issued_row_def split_beta)
    ultimately show ?thesis using Some by (simp add: issued_tokens_def)
  qed
qed

lemma login_quiet:
  assumes "quiet w" and "login L email password w n s = (r, n', s')"
  shows "(\<exists>e. r = Inl e \<and> s' = s \<and> (e = library_error L \<or> (\<nexists>x. may_sign_in L (tables s) email password x))) \<or>
    (\<exists>x access refresh. r = Inr (user_response_of x, access, refresh) \<and>
       may_sign_in L (tables s) email password x \<and> issued_tokens L x w (n + 3) s access refresh s')"
proof (cases "\<exists>x. may_sign_in L (tables s) email password x")
  case True
  then obtain x where x: "may_sign_in L (tables s) email password x" by blast
  obtain r0 m s0 where t: "create_tokens L x w (n + 3) s = (r0, m, s0)" by (metis prod_cases3)
  have run: "login L email password w n s =
      (case r0 of Inl e \<Rightarrow> (Inl e, m, s0) | Inr (a, f) \<Rightarrow> (Inr (user_response_of x, a, f), m, s0))"
    using x t by (simp add: numeral_3_eq_3 login_def may_sign_in_def pure_defs quiet_statement [OF assms(1)] require_permission_def
        has_permission_def split: sum.splits prod.splits)
  from create_tokens_quiet [OF assms(1) t] consider "r0 = Inl (library_error L)" "s0 = s"
    | access refresh where "r0 = Inr (access, refresh)" "issued_tokens L x w (n + 3) s access refresh s0"
    by blast
  then show ?thesis
  proof cases
    case 1
    then have "r = Inl (library_error L) \<and> s' = s" using assms(2) run by auto
    then show ?thesis by blast
  next
    case 2
    then have "r = Inr (user_response_of x, access, refresh)" "s' = s0" using assms(2) run by simp_all
    then show ?thesis using 2 x by blast
  qed
next
  case False
  then have "(\<exists>e. r = Inl e) \<and> s' = s"
    using assms(2)
    by (cases "find (\<lambda>x. us_email x = email) (users (tables s))")
      (auto simp: login_def may_sign_in_def pure_defs quiet_statement [OF assms(1)] require_permission_def
        has_permission_def split: if_splits)
  with False show ?thesis by blast
qed

lemma refresh_found:
  assumes "quiet w" and "find (\<lambda>x. rt_hash x = hash_refresh_token L token) (refresh_tokens (tables s)) = Some row"
    and "clock w (Suc (Suc n)) \<le> rt_expires row" and "key AppLogin \<in> set (keys_of_user (tables s) (rt_user row))"
  shows "refresh_session L token w n s =
    (ok_or (library_error L) (create_access_token L (rt_user row) (clock w (Suc (Suc (Suc n))))), Suc (Suc (Suc n)), s)"
  using assms(2-4)
  by (simp add: refresh_session_def pure_defs quiet_statement [OF assms(1)] has_permission_def Let_def)

lemma refresh_unknown:
  assumes "quiet w" and "\<forall>x \<in> set (refresh_tokens (tables s)). rt_hash x \<noteq> hash_refresh_token L token"
  shows "refresh_session L token w n s = (Inl (UNAUTHORIZED, lit ''Invalid refresh token''), Suc (Suc n), s)"
proof -
  have "find (\<lambda>x. rt_hash x = hash_refresh_token L token) (refresh_tokens (tables s)) = None"
    using assms(2) by (simp add: find_None_iff)
  then show ?thesis by (simp add: refresh_session_def pure_defs quiet_statement [OF assms(1)] Let_def)
qed

lemma find_append_fresh: "\<forall>y \<in> set xs. \<not> P y \<Longrightarrow> P x \<Longrightarrow> find P (xs @ [x]) = Some x"
  by (induction xs) auto

lemma keys_of_user_tokens [simp]: "keys_of_user (d\<lparr>refresh_tokens := t\<rparr>) u = keys_of_user d u"
  by (simp add: keys_of_user_def)

text \<open>
  C23. The life of a session. A login succeeds only with the password of an account that may sign in, and
  otherwise leaves the site as it was. After a success the access token names the account for as long as it
  is valid; until it expires, the refresh token can be exchanged for new access tokens of the same account,
  which changes nothing; and once it is used to log out, it is worth nothing.
\<close>

theorem session_lifecycle:
  assumes laws: "token_laws L" and q: "quiet w" and run: "login L email password w n s = (r, n', s')"
  shows "case r of
      Inl e \<Rightarrow> s' = s \<and> (e = library_error L \<or> (\<nexists>x. may_sign_in L (tables s) email password x))
    | Inr (user, access, refresh) \<Rightarrow>
        (\<exists>x. may_sign_in L (tables s) email password x \<and> user = user_response_of x \<and>
           (\<forall>now \<le> clock w (n + 3) + seconds (60 * access_token_minutes L). validate_access_token L now access = Some (us_id x)) \<and>
           (\<forall>w' k. quiet w' \<and> (\<forall>j. clock w' j \<le> refresh_token_expires_at L (clock w (n + 4))) \<longrightarrow>
              (\<exists>t k'. refresh_session L refresh w' k s' = (Inr t, k', s') \<and>
                 validate_access_token L (clock w' k') t = Some (us_id x))) \<and>
           (\<forall>w' k. quiet w' \<longrightarrow> (\<exists>k' s''. logout L refresh w' k s' = (Inr (), k', s'') \<and>
              (\<forall>j. fst (refresh_session L refresh w' j s'') = Inl (UNAUTHORIZED, lit ''Invalid refresh token'')))))"
proof -
  from login_quiet [OF q run] consider
      (no) e where "r = Inl e" "s' = s" "e = library_error L \<or> (\<nexists>x. may_sign_in L (tables s) email password x)"
    | (yes) x access refresh where "r = Inr (user_response_of x, access, refresh)"
        "may_sign_in L (tables s) email password x" "issued_tokens L x w (n + 3) s access refresh s'"
    by blast
  then show ?thesis
  proof cases
    case no then show ?thesis by simp
  next
    case yes
    let ?row = "issued_row L x w (n + 3)"
    note it = yes(3) [unfolded issued_tokens_def]
    have row: "find (\<lambda>y. rt_hash y = hash_refresh_token L refresh) (refresh_tokens (tables s')) = Some ?row"
      using find_append_fresh [of "refresh_tokens (tables s)" "\<lambda>y. rt_hash y = hash_refresh_token L refresh" ?row]
        conjunct1 [OF conjunct2 [OF conjunct2 [OF it]]] conjunct1 [OF conjunct2 [OF it]]
      by (simp add: it issued_row_def)
    have app: "key AppLogin \<in> set (keys_of_user (tables s') (rt_user ?row))"
      using yes(2) it by (simp add: may_sign_in_def issued_row_def)
    have out: "\<exists>k' s''. logout L refresh w' k s' = (Inr (), k', s'') \<and>
        (\<forall>j. fst (refresh_session L refresh w' j s'') = Inl (UNAUTHORIZED, lit ''Invalid refresh token''))"
      if "quiet w'" for w' :: "'a site_scheme world" and k
    proof -
      let ?s = "s'\<lparr>tables := (tables s')\<lparr>refresh_tokens :=
          delete_where (\<lambda>x. rt_hash x = hash_refresh_token L refresh) (refresh_tokens (tables s'))\<rparr>\<rparr>"
      have "logout L refresh w' k s' = (Inr (), Suc (Suc k), ?s)"
        by (simp add: logout_def pure_defs quiet_statement [OF that] Let_def)
      moreover have "fst (refresh_session L refresh w' j ?s) = Inl (UNAUTHORIZED, lit ''Invalid refresh token'')" for j
        by (subst refresh_unknown [OF that]) auto
      ultimately show ?thesis by blast
    qed
    have ref: "\<exists>t k'. refresh_session L refresh w' k s' = (Inr t, k', s') \<and>
        validate_access_token L (clock w' k') t = Some (us_id x)"
      if "quiet w'" "\<forall>j. clock w' j \<le> refresh_token_expires_at L (clock w (n + 4))" for w' :: "'a site_scheme world" and k
    proof -
      obtain t where t: "create_access_token L (us_id x) (clock w' (Suc (Suc (Suc k)))) = Some t"
        using laws unfolding token_laws_def create_access_token_def by blast
      then show ?thesis
        using refresh_found [OF that(1) row _ app] that(2) access_token_round_trip [OF laws t]
        by (simp add: issued_row_def add.commute [of n])
    qed
    show ?thesis
      using yes(1,2) access_token_round_trip [OF laws conjunct1 [OF it]] ref out by simp blast
  qed
qed

text \<open>A platform, an account and a world to sign in to.\<close>

definition sample_platform :: platform where
  "sample_platform = \<lparr>
     encode_claims = (\<lambda>c. Some ((if exp c < 0 then 1 else 0) # nat \<bar>exp c\<bar> # (if iat c < 0 then 1 else 0) # nat \<bar>iat c\<bar> # sub c)),
     decode_claims = (\<lambda>now t. case t of
        a # b # c # d # u \<Rightarrow>
          (let e = if a = 1 then - int b else int b; i = if c = 1 then - int d else int d in
           if timestamp now \<le> e then Some \<lparr>sub = u, exp = e, iat = i\<rparr> else None)
      | _ \<Rightarrow> None),
     show_uuid = (\<lambda>u. [unat u]), parse_uuid = (\<lambda>t. case t of [k] \<Rightarrow> Some (of_nat k) | _ \<Rightarrow> None),
     sha256 = (\<lambda>t. map of_nat t), hash_password = (\<lambda>p. Some p), parses_hash = (\<lambda>_. True), verify_hash = (\<lambda>h p. h = p),
     lower_table = (\<lambda>c. [c]), error_text = [], access_token_minutes = 15, refresh_token_days = 7\<rparr>"

definition sample_user :: user_row where
  "sample_user = \<lparr>us_id = 7, us_email = lit ''ada@x.org'', us_name = lit ''Ada'', us_nickname = lit ''ada'',
     us_avatar_key = None, us_password_hash = lit ''secret'', us_role = lit ''user'', us_status = lit ''available'',
     us_status_message = [], us_created = 0\<rparr>"

definition sample_accounts :: database where
  "sample_accounts = empty_database
     \<lparr>users := [sample_user],
      roles := [\<lparr>ro_name = lit ''user'', ro_description = [], ro_system = True, ro_created = 0, ro_updated = 0\<rparr>],
      permissions := map (\<lambda>p. (key p, [])) all_permissions,
      role_permissions := [(lit ''user'', key AppLogin)]\<rparr>"

definition sample_site :: site where
  "sample_site = \<lparr>tables = sample_accounts, published = [], objects = Map.empty\<rparr>"

definition sample_world :: "site world" where
  "sample_world = \<lparr>fails = \<lambda>_. False, meanwhile = \<lambda>_ s. s, clock = \<lambda>_. 5, fresh = \<lambda>n. of_nat (n + 100)\<rparr>"

lemma sample_platform_laws: "token_laws sample_platform"
proof -
  have "decode_claims sample_platform now t = Some c"
    if "encode_claims sample_platform c = Some t" "timestamp now \<le> exp c" for c t now
    using that by (cases c) (auto simp: sample_platform_def Let_def split: if_splits)
  then show ?thesis by (auto simp: token_laws_def) (simp_all add: sample_platform_def)
qed

lemma sample_world_quiet: "quiet sample_world"
  by (simp add: quiet_def sample_world_def)

lemma sample_may_sign_in:
  "may_sign_in sample_platform (tables sample_site) (lit ''ada@x.org'') (lit ''secret'') sample_user"
  by (simp add: may_sign_in_def sample_site_def sample_accounts_def sample_user_def sample_platform_def
      keys_of_user_def)

theorem session_lifecycle_witness:
  "\<exists>user access refresh n' s'.
     login sample_platform (lit ''ada@x.org'') (lit ''secret'') sample_world 0 sample_site = (Inr (user, access, refresh), n', s') \<and>
     validate_access_token sample_platform 5 access = Some 7 \<and>
     (\<exists>s''. logout sample_platform refresh sample_world n' s' = (Inr (), Suc (Suc n'), s'') \<and>
        fst (refresh_session sample_platform refresh sample_world 0 s'') = Inl (UNAUTHORIZED, lit ''Invalid refresh token''))"
proof -
  have some: "create_access_token sample_platform 7 5 \<noteq> None"
    by (simp add: create_access_token_def sample_platform_def)
  have len: "length (hash_refresh_token sample_platform (show_uuid sample_platform v)) = 2" for v
    by (simp add: hash_refresh_token_def sample_platform_def)
  obtain r n' s' where run: "login sample_platform (lit ''ada@x.org'') (lit ''secret'') sample_world 0 sample_site = (r, n', s')"
    by (metis prod_cases3)
  moreover have "\<exists>x. r = Inr x"
  proof -
    have time: "clock sample_world k = 5" for k by (simp add: sample_world_def)
    have "users (tables sample_site) = [sample_user]" "refresh_tokens (tables sample_site) = []" "us_id sample_user = 7"
      by (simp_all add: sample_site_def sample_accounts_def sample_user_def empty_database_def)
    then show ?thesis
      using run some sample_may_sign_in len time
      by (auto simp: login_def may_sign_in_def pure_defs quiet_statement [OF sample_world_quiet] require_permission_def
          has_permission_def create_tokens_def insert_refresh_token_def Let_def)
  qed
  ultimately obtain user access refresh where r: "r = Inr (user, access, refresh)" by (metis prod_cases3)
  note L = session_lifecycle [OF sample_platform_laws sample_world_quiet run, unfolded r, simplified]
  then obtain x where x: "may_sign_in sample_platform (tables sample_site) (lit ''ada@x.org'') (lit ''secret'') x"
    "\<And>now. now \<le> clock sample_world 3 + seconds (60 * access_token_minutes sample_platform) \<Longrightarrow>
       validate_access_token sample_platform now access = Some (us_id x)" by blast
  have "us_id x = 7"
    using x(1) sample_may_sign_in by (simp add: may_sign_in_def sample_user_def)
  moreover have "5 \<le> clock sample_world 3 + seconds (60 * access_token_minutes sample_platform)"
    by (simp add: seconds_def sample_platform_def sample_world_def)
  ultimately have "validate_access_token sample_platform 5 access = Some 7" using x(2) by metis
  moreover have "\<exists>k s''. logout sample_platform refresh sample_world n' s' = (Inr (), k, s'') \<and>
      fst (refresh_session sample_platform refresh sample_world 0 s'') = Inl (UNAUTHORIZED, lit ''Invalid refresh token'')"
    using L sample_world_quiet by blast
  moreover have "fst (snd (logout sample_platform refresh sample_world n' s')) = Suc (Suc n')"
    by (simp add: logout_def pure_defs quiet_statement [OF sample_world_quiet] Let_def)
  ultimately show ?thesis using run r by (metis fst_conv snd_conv)
qed

end
