(* ===== verification/Presence.thy ===== *)
theory Presence
  imports Auth
begin

text \<open>
  Online presence and statuses, and who may see them (\<open>src/social/presence.rs\<close> and the statuses of
  \<open>src/social/models.rs\<close>).
\<close>

section \<open>Statuses\<close>

datatype user_status = Available | Away | DoNotDisturb | Sleeping | Offline

fun status_db_value :: "user_status \<Rightarrow> str" where
  "status_db_value Available = lit ''available''"
| "status_db_value Away = lit ''away''"
| "status_db_value DoNotDisturb = lit ''do_not_disturb''"
| "status_db_value Sleeping = lit ''sleeping''"
| "status_db_value Offline = lit ''offline''"

definition status_from_db_value :: "str \<Rightarrow> user_status option" where
  "status_from_db_value v =
     (if v = lit ''available'' then Some Available
      else if v = lit ''away'' then Some Away
      else if v = lit ''do_not_disturb'' then Some DoNotDisturb
      else if v = lit ''sleeping'' then Some Sleeping
      else if v = lit ''offline'' then Some Offline
      else None)"

lemma status_round_trip [simp]: "status_from_db_value (status_db_value s) = Some s"
  by (cases s) (simp_all add: status_from_db_value_def)

lemma status_from_db_value_Some: "status_from_db_value v = Some s \<longleftrightarrow> v = status_db_value s"
proof
  assume "status_from_db_value v = Some s"
  then show "v = status_db_value s" unfolding status_from_db_value_def by (simp split: if_split_asm; hypsubst?; simp)
qed simp

section \<open>Who may see a presence\<close>

definition ONLINE_WINDOW_SECONDS :: nat where "ONLINE_WINDOW_SECONDS = 45"

datatype presence_visibility = Everyone | Contacts | Friends_Only | Nobody

record relationship =
  is_self :: bool
  is_friend :: bool
  has_pending_friend_request :: bool
  shares_group :: bool
  shares_meeting :: bool

definition STRANGER :: relationship where
  "STRANGER = \<lparr>is_self = False, is_friend = False, has_pending_friend_request = False, shares_group = False,
     shares_meeting = False\<rparr>"

definition FRIEND :: relationship where
  "FRIEND = \<lparr>is_self = False, is_friend = True, has_pending_friend_request = False, shares_group = False,
     shares_meeting = False\<rparr>"

definition INCOMING_FRIEND_REQUEST :: relationship where
  "INCOMING_FRIEND_REQUEST = \<lparr>is_self = False, is_friend = False, has_pending_friend_request = True,
     shares_group = False, shares_meeting = False\<rparr>"

definition SELF :: relationship where
  "SELF = \<lparr>is_self = True, is_friend = False, has_pending_friend_request = False, shares_group = False,
     shares_meeting = False\<rparr>"

definition MEETING_PEER :: relationship where
  "MEETING_PEER = \<lparr>is_self = False, is_friend = False, has_pending_friend_request = False, shares_group = False,
     shares_meeting = True\<rparr>"

definition DEFAULT_PRESENCE_VISIBILITY :: presence_visibility where
  "DEFAULT_PRESENCE_VISIBILITY = Friends_Only"

record visible_presence =
  vp_status :: user_status
  vp_online :: bool

definition visibility_for :: "uuid \<Rightarrow> presence_visibility" where
  "visibility_for _ = DEFAULT_PRESENCE_VISIBILITY"

definition can_see :: "presence_visibility \<Rightarrow> relationship \<Rightarrow> bool" where
  "can_see v r =
     (if is_self r then True
      else if shares_meeting r then v \<noteq> Nobody
      else (case v of
         Everyone \<Rightarrow> True
       | Contacts \<Rightarrow> is_friend r \<or> has_pending_friend_request r \<or> shares_group r
       | Friends_Only \<Rightarrow> is_friend r \<or> has_pending_friend_request r
       | Nobody \<Rightarrow> False))"

definition is_recent :: "instant \<Rightarrow> instant \<Rightarrow> bool" where
  "is_recent now t \<longleftrightarrow> now < t + seconds ONLINE_WINDOW_SECONDS"

definition visible_presence_of ::
  "instant \<Rightarrow> uuid \<Rightarrow> user_status \<Rightarrow> instant option \<Rightarrow> relationship \<Rightarrow> visible_presence option" where
  "visible_presence_of now u status last_seen r =
     (if \<not> can_see (visibility_for u) r then None
      else let connected = (case last_seen of None \<Rightarrow> False | Some t \<Rightarrow> is_recent now t) in
        Some \<lparr>vp_status = status, vp_online = (connected \<and> (is_self r \<or> status \<noteq> Offline))\<rparr>)"

definition friends_among :: "uuid \<Rightarrow> uuid list \<Rightarrow> ('m site_scheme, db_error, uuid list) prog" where
  "friends_among viewer candidates =
     select (\<lambda>d. map (\<lambda>f. if fr_requester f = viewer then fr_addressee f else fr_requester f)
       (filter (\<lambda>f. fr_status f = lit ''accepted'' \<and>
          ((fr_requester f = viewer \<and> fr_addressee f \<in> set candidates) \<or>
           (fr_addressee f = viewer \<and> fr_requester f \<in> set candidates))) (friendships d)))"

definition last_seen_among :: "uuid list \<Rightarrow> database \<Rightarrow> (uuid \<times> instant) list" where
  "last_seen_among us d = filter (\<lambda>p. fst p \<in> set us) (user_presence d)"

definition visible_group_member_presence ::
  "uuid \<Rightarrow> (uuid \<times> user_status) list \<Rightarrow> ('m site_scheme, db_error, (uuid \<times> visible_presence) list) prog" where
  "visible_group_member_presence viewer members =
     (if members = [] then ret []
      else let ids = map fst members in
        chain (select (last_seen_among ids)) (\<lambda>last_seen.
        chain (friends_among viewer ids) (\<lambda>friend_ids.
        chain utc_now (\<lambda>now.
        ret (List.map_filter (\<lambda>(u, status).
          map_option (Pair u) (visible_presence_of now u status (map_of last_seen u)
            \<lparr>is_self = (u = viewer), is_friend = (u \<in> set friend_ids), has_pending_friend_request = False,
             shares_group = True, shares_meeting = False\<rparr>)) members)))))"

section \<open>Lemmas\<close>

lemma visible_presence_None: "visible_presence_of now u st seen r = None \<longleftrightarrow> \<not> can_see (visibility_for u) r"
  by (simp add: visible_presence_of_def Let_def)

lemma can_see_default:
  "can_see (visibility_for u) r \<longleftrightarrow> is_self r \<or> shares_meeting r \<or> is_friend r \<or> has_pending_friend_request r"
  by (auto simp: can_see_def visibility_for_def DEFAULT_PRESENCE_VISIBILITY_def)

end
