(* ===== verification/Avatars.thy ===== *)
theory Avatars
  imports Presence
begin

text \<open>
  Avatars: checking an upload (\<open>src/social/handlers.rs\<close>), and storing, serving and deleting the original with
  its thumbnail (\<open>src/social/avatars.rs\<close>, \<open>src/storage.rs\<close>). The image library is the parameter \<open>render\<close>: the
  content type and bytes of the thumbnail, or \<open>None\<close> for an image that cannot be decoded. The objects in the
  S3 bucket are a component of the site; a request to the bucket that fails changes nothing.
\<close>

section \<open>Pieces of text\<close>

text \<open>\<open>str::split\<close> at a character: the pieces in order, at least one.\<close>

fun split_at :: "uchar \<Rightarrow> str \<Rightarrow> str list" where
  "split_at c [] = [[]]"
| "split_at c (x # xs) = (if x = c then [] # split_at c xs
     else (case split_at c xs of [] \<Rightarrow> [[x]] | p # ps \<Rightarrow> (x # p) # ps))"

lemma split_at_ne [simp]: "split_at c s \<noteq> []"
  by (induction s) (simp_all split: list.splits)

text \<open>The ETags that a request already has, as its \<open>If-None-Match\<close> headers list them.\<close>

definition has_matching_if_none_match :: "str list \<Rightarrow> str \<Rightarrow> bool" where
  "has_matching_if_none_match headers etag =
     list_ex (\<lambda>v. let v = trim v in v = lit ''*'' \<or>
         (case strip_prefix (lit ''W/'') v of None \<Rightarrow> v | Some t \<Rightarrow> trim_start t) = etag)
       (concat (map (split_at 44) headers))"

definition image_media_type :: "str \<Rightarrow> str" where
  "image_media_type content_type = map to_ascii_lower (trim (hd (split_at 59 content_type)))"

definition avatar_extension :: "str \<Rightarrow> str option" where
  "avatar_extension content_type =
     (let t = image_media_type content_type in
      if t = lit ''image/jpeg'' then Some (lit ''jpg'')
      else if t = lit ''image/png'' then Some (lit ''png'')
      else if t = lit ''image/webp'' then Some (lit ''webp'')
      else if t = lit ''image/gif'' then Some (lit ''gif'')
      else None)"

definition bytes_of :: "string \<Rightarrow> 8 word list" where
  "bytes_of s = map of_char s"

definition starts_with :: "'a list \<Rightarrow> 'a list \<Rightarrow> bool" where
  "starts_with p xs \<longleftrightarrow> take (length p) xs = p"

definition has_image_signature :: "str \<Rightarrow> 8 word list \<Rightarrow> bool" where
  "has_image_signature content_type bytes =
     (let t = image_media_type content_type in
      if t = lit ''image/jpeg'' then starts_with [0xff, 0xd8, 0xff] bytes
      else if t = lit ''image/png'' then starts_with ([0x89] @ bytes_of ''PNG'' @ [13, 10, 26, 10]) bytes
      else if t = lit ''image/webp'' then
        starts_with (bytes_of ''RIFF'') bytes \<and> 12 \<le> length bytes \<and> take 4 (drop 8 bytes) = bytes_of ''WEBP''
      else if t = lit ''image/gif'' then starts_with (bytes_of ''GIF87a'') bytes \<or> starts_with (bytes_of ''GIF89a'') bytes
      else False)"

definition MAX_AVATAR_BYTES :: nat where "MAX_AVATAR_BYTES = 5 * 1024 * 1024"

definition valid_avatar_size :: "nat \<Rightarrow> bool" where
  "valid_avatar_size n \<longleftrightarrow> 1 \<le> n \<and> n \<le> MAX_AVATAR_BYTES"

section \<open>Uploads\<close>

text \<open>A field of a multipart body; a body or a field that cannot be read is \<open>None\<close>.\<close>

record multipart_field =
  mf_name :: "str option"
  mf_content_type :: "str option"
  mf_bytes :: "8 word list option"

record avatar_upload =
  av_content_type :: str
  av_extension :: str
  av_bytes :: "8 word list"

definition multipart_error :: api_error where
  "multipart_error = (BAD_REQUEST, lit ''Invalid avatar upload'')"

fun parse_fields :: "multipart_field option list \<Rightarrow> avatar_upload option \<Rightarrow> api_error + avatar_upload option" where
  "parse_fields [] avatar = Inr avatar"
| "parse_fields (None # fs) avatar = Inl multipart_error"
| "parse_fields (Some f # fs) avatar =
     (if mf_name f \<noteq> Some (lit ''avatar'') \<or> avatar \<noteq> None then Inl (BAD_REQUEST, lit ''Submit exactly one avatar file'')
      else and_then (ok_or (UNSUPPORTED_MEDIA_TYPE, lit ''Avatar content type is required'') (mf_content_type f)) (\<lambda>t.
      and_then (ok_or (UNSUPPORTED_MEDIA_TYPE, lit ''Avatar must be a JPEG, PNG, WebP, or GIF image'') (avatar_extension t)) (\<lambda>ext.
      and_then (ok_or multipart_error (mf_bytes f)) (\<lambda>bytes.
      if \<not> valid_avatar_size (length bytes)
      then Inl (PAYLOAD_TOO_LARGE, lit ''Avatar must be between 1 byte and 5 MiB'')
      else if \<not> has_image_signature t bytes
      then Inl (UNSUPPORTED_MEDIA_TYPE, lit ''Avatar contents do not match its image type'')
      else parse_fields fs (Some \<lparr>av_content_type = t, av_extension = ext, av_bytes = bytes\<rparr>)))))"

definition parse_avatar_upload :: "multipart_field option list \<Rightarrow> api_error + avatar_upload" where
  "parse_avatar_upload fs =
     and_then (parse_fields fs None) (ok_or (BAD_REQUEST, lit ''Avatar file is required''))"

section \<open>Storage\<close>

definition object_upload :: "str \<Rightarrow> str \<Rightarrow> 8 word list \<Rightarrow> ('m site_scheme, unit, unit) prog" where
  "object_upload k t bytes w n s =
     (let s = meanwhile w n s in
      if fails w n then (Inl (), Suc n, s) else (Inr (), Suc n, s\<lparr>objects := (objects s)(k \<mapsto> (t, bytes))\<rparr>))"

definition object_delete :: "str \<Rightarrow> ('m site_scheme, unit, unit) prog" where
  "object_delete k w n s =
     (let s = meanwhile w n s in
      if fails w n then (Inl (), Suc n, s) else (Inr (), Suc n, s\<lparr>objects := (objects s)(k := None)\<rparr>))"

definition object_download :: "str \<Rightarrow> ('m site_scheme, unit, str \<times> 8 word list) prog" where
  "object_download k w n s =
     (let s = meanwhile w n s in
      if fails w n then (Inl (), Suc n, s) else (ok_or () (objects s k), Suc n, s))"

lemmas object_defs = object_upload_def object_delete_def object_download_def

definition storage_error :: api_error where
  "storage_error = (SERVICE_UNAVAILABLE, lit ''Avatar storage is unavailable'')"

definition thumbnail_key :: "str \<Rightarrow> str" where
  "thumbnail_key k = k @ lit ''.thumb''"

text \<open>The revision in the URL is the name of the stored file without its extension.\<close>

definition user_avatar_url :: "platform \<Rightarrow> uuid \<Rightarrow> str \<Rightarrow> str" where
  "user_avatar_url L u avatar_key =
     lit ''/social/users/'' @ show_uuid L u @ lit ''/avatar?v='' @ hd (split_at 46 (last (split_at 47 avatar_key)))"

type_synonym renderer = "8 word list \<Rightarrow> (str \<times> 8 word list) option"

definition store_avatar :: "renderer \<Rightarrow> str \<Rightarrow> str \<Rightarrow> 8 word list \<Rightarrow> ('m site_scheme, api_error, unit) prog" where
  "store_avatar render k content_type bytes =
     chain (result (ok_or (UNSUPPORTED_MEDIA_TYPE, lit ''Avatar image could not be read'') (render bytes))) (\<lambda>(t, small).
     chain (map_err (\<lambda>_. storage_error) (object_upload k content_type bytes)) (\<lambda>_.
     chain (attempt (object_upload (thumbnail_key k) t small)) (\<lambda>r.
     case r of
       Inl _ \<Rightarrow> chain (attempt (object_delete k)) (\<lambda>_. throw storage_error)
     | Inr _ \<Rightarrow> ret ())))"

definition delete_avatar :: "str \<Rightarrow> ('m site_scheme, unit, unit) prog" where
  "delete_avatar k =
     chain (attempt (object_delete k)) (\<lambda>original.
     chain (attempt (object_delete (thumbnail_key k))) (\<lambda>thumbnail.
     result (and_then original (\<lambda>_. thumbnail))))"

datatype avatar_size = Thumb | Full

datatype avatar_reply =
    NotModified str
  | AvatarBody str "str \<times> 8 word list"

definition backfill_thumbnail :: "renderer \<Rightarrow> str \<Rightarrow> ('m site_scheme, api_error, str \<times> 8 word list) prog" where
  "backfill_thumbnail render k =
     chain (map_err (\<lambda>_. storage_error) (object_download k)) (\<lambda>(content_type, bytes).
     case render bytes of
       None \<Rightarrow> ret (content_type, bytes)
     | Some (t, small) \<Rightarrow>
         chain (attempt (object_upload (thumbnail_key k) t small)) (\<lambda>_. ret (t, small)))"

definition avatar_response ::
  "renderer \<Rightarrow> str list \<Rightarrow> str \<Rightarrow> avatar_size \<Rightarrow> ('m site_scheme, api_error, avatar_reply) prog" where
  "avatar_response render if_none_match k sz =
     (let etag = (case sz of Full \<Rightarrow> [34] @ k @ [34] | Thumb \<Rightarrow> [34] @ thumbnail_key k @ [34]) in
      if has_matching_if_none_match if_none_match etag then ret (NotModified etag)
      else chain (case sz of
          Full \<Rightarrow> map_err (\<lambda>_. storage_error) (object_download k)
        | Thumb \<Rightarrow> chain (attempt (object_download (thumbnail_key k))) (\<lambda>r.
            case r of Inr x \<Rightarrow> ret x | Inl _ \<Rightarrow> backfill_thumbnail render k)) (\<lambda>body.
        ret (AvatarBody etag body)))"

lemma keeps_objects [keeping]:
  assumes "steady w P" and "\<And>s obs. P (s\<lparr>objects := obs\<rparr>) = P s"
  shows "keeps w P (object_upload k t b)" "keeps w P (object_delete k)" "keeps w P (object_download k)"
  using assms by (auto intro!: keepsI simp: object_defs steady_def Let_def)

end
