(* ===== verification/CallAccess.thy ===== *)
theory CallAccess
  imports Database
begin

text \<open>
  Who may enter the SFU room of a conversation call (\<open>src/social/call_sessions.rs\<close>). Rooms that
  belong to no call session are \<open>Legacy\<close>: meeting rooms, whose own policy decides.
\<close>

datatype sfu_room_authorization = Legacy | Authorized | AccessDenied

definition classify_sfu_room_authorization ::
  "bool \<Rightarrow> bool \<Rightarrow> uuid option \<Rightarrow> bool \<Rightarrow> sfu_room_authorization" where
  "classify_sfu_room_authorization is_revoked is_call_session_room u has_accepted_membership =
     (if is_revoked then AccessDenied
      else if \<not> is_call_session_room then Legacy
      else if u \<noteq> None \<and> has_accepted_membership then Authorized
      else AccessDenied)"

text \<open>
  The \<open>is_authorized\<close> column of the query: an active, unexpired session of the room in which the user
  accepted, in a conversation that the user is in now.
\<close>

definition has_accepted_membership :: "database \<Rightarrow> instant \<Rightarrow> str \<Rightarrow> uuid \<Rightarrow> bool" where
  "has_accepted_membership db now i u \<longleftrightarrow>
     list_ex (\<lambda>s. cs_room s = i \<and> cs_status s = lit ''active'' \<and> now < cs_expires s \<and>
        list_ex (\<lambda>m. cm_session m = cs_id s \<and> cm_user m = u \<and> cm_status m = lit ''accepted'')
          (call_session_members db) \<and>
        list_ex (\<lambda>c. cv_id c = cs_conversation s \<and>
           ((cv_kind c = lit ''direct'' \<and> (cv_low c = Some u \<or> cv_high c = Some u)) \<or>
            (cv_kind c = lit ''group'' \<and> is_member db (cv_id c) u)))
          (conversations db)) (call_sessions db)"

definition authorize_sfu_room ::
  "database option \<Rightarrow> instant \<Rightarrow> str \<Rightarrow> uuid option \<Rightarrow> str + sfu_room_authorization" where
  "authorize_sfu_room dbo now i u =
     (case dbo of
        None \<Rightarrow> Inl (lit ''database error'')
      | Some db \<Rightarrow>
          Inr (classify_sfu_room_authorization (i \<in> set (revoked_sfu_rooms db))
                 (list_ex (\<lambda>s. cs_room s = i) (call_sessions db)) u
                 (case u of None \<Rightarrow> False | Some u \<Rightarrow> has_accepted_membership db now i u)))"

definition expire_call_sessions :: "instant \<Rightarrow> database \<Rightarrow> database" where
  "expire_call_sessions now db =
     db\<lparr>call_sessions := update_where (\<lambda>s. cs_status s = lit ''active'' \<and> cs_expires s \<le> now)
          (\<lambda>s. s\<lparr>cs_status := lit ''expired''\<rparr>) (call_sessions db)\<rparr>"

definition is_direct_participant :: "uuid \<Rightarrow> uuid \<Rightarrow> uuid \<Rightarrow> bool" where
  "is_direct_participant low high u \<longleftrightarrow> u = low \<or> u = high"

definition snapshot_participants ::
  "database \<Rightarrow> conversation_row \<Rightarrow> uuid \<Rightarrow> api_error + uuid list" where
  "snapshot_participants db c caller =
     (if cv_kind c = lit ''direct'' then
        (case (cv_low c, cv_high c) of
           (Some low, Some high) \<Rightarrow>
             (if is_direct_participant low high caller then Inr [low, high]
              else Inl (FORBIDDEN, lit ''Conversation access denied''))
         | _ \<Rightarrow> Inl (FORBIDDEN, lit ''Conversation access denied''))
      else if cv_kind c = lit ''group'' then
        (let members = map me_user (members_of db (cv_id c)) in
         if caller \<in> set members then Inr members
         else Inl (FORBIDDEN, lit ''Conversation access denied''))
      else Inl (INTERNAL_SERVER_ERROR, lit ''Conversation unavailable''))"

text \<open>The call sessions whose SFU rooms a departing group member loses, and its memberships in them.\<close>

definition revocable :: "uuid \<Rightarrow> call_session_row \<Rightarrow> bool" where
  "revocable grp s \<longleftrightarrow> cs_conversation s = grp \<and>
     (cs_status s = lit ''active'' \<or> cs_status s = lit ''expired'')"

definition revoke_group_call_memberships :: "uuid \<Rightarrow> uuid \<Rightarrow> database \<Rightarrow> str list \<times> database" where
  "revoke_group_call_memberships grp u db =
     (let sessions = filter (revocable grp) (call_sessions db) in
      (map cs_room sessions,
       db\<lparr>call_session_members := update_where
            (\<lambda>m. cm_user m = u \<and> cm_status m \<noteq> lit ''declined'' \<and> cm_session m \<in> set (map cs_id sessions))
            (\<lambda>m. m\<lparr>cm_status := lit ''declined''\<rparr>) (call_session_members db)\<rparr>))"

section \<open>Lemmas\<close>

text \<open>Authorization says yes only to a signed-in, accepted and current member of an active call.\<close>

lemma authorize_sfu_room_Authorized:
  "authorize_sfu_room dbo now i u = Inr Authorized \<longleftrightarrow>
     (\<exists>db v. dbo = Some db \<and> u = Some v \<and> i \<notin> set (revoked_sfu_rooms db) \<and>
        has_accepted_membership db now i v)"
  by (auto simp: authorize_sfu_room_def classify_sfu_room_authorization_def
      has_accepted_membership_def list_ex_iff split: option.splits)

lemma authorize_sfu_room_Legacy:
  "authorize_sfu_room dbo now i u = Inr Legacy \<longleftrightarrow>
     (\<exists>db. dbo = Some db \<and> i \<notin> set (revoked_sfu_rooms db) \<and>
        (\<forall>s \<in> set (call_sessions db). cs_room s \<noteq> i))"
  by (auto simp: authorize_sfu_room_def classify_sfu_room_authorization_def list_ex_iff
      split: option.splits)

text \<open>
  Removing a member from a group takes away every call of the group at once: no session of the group
  authorizes the user any more.
\<close>

lemma revoke_group_call_memberships_effect:
  assumes r: "revoke_group_call_memberships grp u db = (rooms, db')"
    and s: "s \<in> set (call_sessions db)" "cs_conversation s = grp" "cs_status s = lit ''active''"
  shows "cs_room s \<in> set rooms" and "m \<in> set (call_session_members db') \<Longrightarrow>
     cm_session m = cs_id s \<Longrightarrow> cm_user m = u \<Longrightarrow> cm_status m \<noteq> lit ''accepted''"
proof -
  have rev: "revocable grp s" using s(2,3) by (simp add: revocable_def)
  then show "cs_room s \<in> set rooms"
    using r s(1) by (auto simp: revoke_group_call_memberships_def Let_def)
  let ?hit = "\<lambda>m. cm_user m = u \<and> cm_status m \<noteq> lit ''declined'' \<and>
      cm_session m \<in> set (map cs_id (filter (revocable grp) (call_sessions db)))"
  assume m: "m \<in> set (call_session_members db')" "cm_session m = cs_id s" "cm_user m = u"
  have eq: "call_session_members db' = update_where ?hit (\<lambda>m. m\<lparr>cm_status := lit ''declined''\<rparr>)
      (call_session_members db)"
    using r by (auto simp: revoke_group_call_memberships_def Let_def)
  from m(1) obtain m0 where m0: "m = (if ?hit m0 then m0\<lparr>cm_status := lit ''declined''\<rparr> else m0)"
    unfolding eq set_update_where by blast
  have "cs_id s \<in> set (map cs_id (filter (revocable grp) (call_sessions db)))" using s(1) rev by simp
  with m m0 show "cm_status m \<noteq> lit ''accepted''" by (cases "?hit m0") auto
qed

end
