(* ===== verification/Social.thy ===== *)
theory Social
  imports Avatars CallAccess
begin

text \<open>
  What the social handlers share: transactions whose body answers with an API error, alerts
  (\<open>src/social/events.rs\<close>) and notifications (\<open>src/social/notifications.rs\<close>).
\<close>

definition social_error :: "db_error \<Rightarrow> api_error" where
  "social_error _ = (INTERNAL_SERVER_ERROR, lit ''Request failed'')"

definition user_not_found :: "db_error \<Rightarrow> api_error" where
  "user_not_found e = (if e = NotFound then (NOT_FOUND, lit ''User not found'') else social_error e)"

definition user_exists :: "database \<Rightarrow> uuid \<Rightarrow> bool" where
  "user_exists d u \<longleftrightarrow> list_ex (\<lambda>x. us_id x = u) (users d)"

definition user_row_of :: "uuid \<Rightarrow> database \<Rightarrow> user_row option" where
  "user_row_of u d = find (\<lambda>x. us_id x = u) (users d)"

text \<open>
  A transaction whose body returns its own errors; \<open>f\<close> converts a failure to begin or to commit.
\<close>

definition transaction_as :: "(db_error \<Rightarrow> 'e) \<Rightarrow> ('s, 'e, 'a) prog \<Rightarrow> ('s, 'e, 'a) prog" where
  "transaction_as f m w n s =
     (let s = meanwhile w n s in
      if fails w n then (Inl (f OtherError), Suc n, s)
      else case m (w\<lparr>meanwhile := \<lambda>_ s. s\<rparr>) (Suc n) s of
             (Inl e, n, _) \<Rightarrow> (Inl e, n, s)
           | (Inr x, n, s') \<Rightarrow> if fails w n then (Inl (f OtherError), Suc n, s) else (Inr x, Suc n, s'))"

lemma keeps_transaction_as:
  assumes st: "steady w P" and m: "keeps (alone w) P m"
  shows "keeps w P (transaction_as f m)"
proof (rule keepsI)
  fix n s assume "P s"
  then have p: "P (meanwhile w n s)" using st by (simp add: steady_def)
  then have "P (snd (snd (m (w\<lparr>meanwhile := \<lambda>_ s. s\<rparr>) (Suc n) (meanwhile w n s))))"
    using keepsD [OF m] by (simp add: alone_def)
  with p show "P (snd (snd (transaction_as f m w n s)))"
    by (auto simp: transaction_as_def Let_def split: prod.splits sum.splits)
qed

lemma quiet_transaction_as:
  assumes "quiet w"
  shows "transaction_as f m w n s = (case m w (Suc n) s of
     (Inl e, n', _) \<Rightarrow> (Inl e, n', s) | (Inr x, n', s') \<Rightarrow> (Inr x, Suc n', s'))"
  using assms by (simp add: transaction_as_def quiet_alone quiet_def Let_def split: prod.splits sum.splits)

section \<open>Alerts\<close>

definition alert :: "uuid list \<Rightarrow> social_alert \<Rightarrow> ('m site_scheme, 'e, unit) prog" where
  "alert us a =
     (if us = [] then ret ()
      else chain (attempt (select (\<lambda>d. map us_id
          (filter (\<lambda>x. us_id x \<in> set us \<and> us_status x = status_db_value Available) (users d))))) (\<lambda>r.
        case r of Inr available \<Rightarrow> send_event available (Alert a) | Inl _ \<Rightarrow> ret ()))"

section \<open>Notifications\<close>

definition notification_error :: "db_error \<Rightarrow> api_error" where
  "notification_error _ = (INTERNAL_SERVER_ERROR, lit ''Notification unavailable'')"

definition insert_notification :: "notification_row \<Rightarrow> database \<Rightarrow> db_error + unit \<times> database" where
  "insert_notification x d =
     (if 64 < length (no_kind x) then Inl OtherError
      else if list_ex (\<lambda>y. no_id y = no_id x) (notifications d) then Inl UniqueViolation
      else if \<not> user_exists d (no_recipient x) \<or> \<not> user_exists d (no_actor x) then Inl ForeignKeyViolation
      else Inr ((), d\<lparr>notifications := notifications d @ [x]\<rparr>))"

definition create_notification ::
  "uuid \<Rightarrow> uuid \<Rightarrow> str \<Rightarrow> notification_data \<Rightarrow> ('m site_scheme, db_error, unit) prog" where
  "create_notification recipient actor kind dat =
     chain new_uuid (\<lambda>i.
     chain utc_now (\<lambda>now.
     statement (insert_notification \<lparr>no_id = i, no_recipient = recipient, no_actor = actor, no_kind = kind,
       no_data = dat, no_created = now, no_read = None\<rparr>)))"

record notification_response =
  nr_id :: uuid
  nr_kind :: str
  nr_actor :: uuid
  nr_actor_name :: str
  nr_data :: notification_data
  nr_created :: instant

definition notification_response_of :: "notification_row \<Rightarrow> str \<Rightarrow> notification_response" where
  "notification_response_of x actor_name = \<lparr>nr_id = no_id x, nr_kind = no_kind x, nr_actor = no_actor x,
     nr_actor_name = actor_name, nr_data = no_data x, nr_created = no_created x\<rparr>"

definition list_notifications :: "platform \<Rightarrow> str option \<Rightarrow> ('m site_scheme, api_error, notification_response list) prog" where
  "list_notifications L header =
     chain (caller L header) (\<lambda>u.
     chain (map_err notification_error connect) (\<lambda>_.
     map_err notification_error (select (\<lambda>d. take 100 (List.map_filter (\<lambda>x.
         map_option (\<lambda>a. notification_response_of x (us_name a)) (user_row_of (no_actor x) d))
       (order_desc no_created (filter (\<lambda>x. no_recipient x = u \<and> no_read x = None) (notifications d))))))))"

definition mark_notification_read :: "platform \<Rightarrow> str option \<Rightarrow> uuid \<Rightarrow> ('m site_scheme, api_error, unit) prog" where
  "mark_notification_read L header i =
     chain (caller L header) (\<lambda>u.
     chain (map_err notification_error connect) (\<lambda>_.
     chain utc_now (\<lambda>now.
     map_err notification_error (execute (\<lambda>d. d\<lparr>notifications := update_where
       (\<lambda>x. no_id x = i \<and> no_recipient x = u \<and> no_read x = None) (\<lambda>x. x\<lparr>no_read := Some now\<rparr>) (notifications d)\<rparr>)))))"

section \<open>Reasoning\<close>

lemma keeps_alert [keeping]:
  assumes "steady w P" and "\<And>s p. P (s\<lparr>published := p\<rparr>) = P s"
  shows "keeps w P (alert us a)"
  unfolding alert_def by (intro keeping assms)

lemma insert_notification_Inr:
  "insert_notification x d = Inr (u, d') \<Longrightarrow> d' = d\<lparr>notifications := notifications d @ [x]\<rparr>"
  by (auto simp: insert_notification_def split: if_splits)

end
