(* ===== verification/Search.thy ===== *)
theory Search
  imports Prelude
begin

text \<open>
  Searching people by a piece of text: the query is turned into an \<open>ILIKE\<close> pattern that stands for the text
  itself (\<open>escape_like\<close> in \<open>src/admin/accounts.rs\<close>, \<open>user_search_pattern\<close> in \<open>src/social/handlers.rs\<close>).
\<close>

text \<open>\<open>str::replace\<close> of one character.\<close>

definition replace_char :: "uchar \<Rightarrow> str \<Rightarrow> str \<Rightarrow> str" where
  "replace_char c r s = concat (map (\<lambda>x. if x = c then r else [x]) s)"

definition escape_like :: "str \<Rightarrow> str" where
  "escape_like v = replace_char 95 [92, 95] (replace_char 37 [92, 37] (replace_char 92 [92, 92] v))"

definition user_search_pattern :: "str \<Rightarrow> str" where
  "user_search_pattern query = [37] @
     replace_char 95 [92, 95] (replace_char 37 [92, 37] (replace_char 92 [92, 92] query)) @ [37]"

definition validated_user_search_query :: "str \<Rightarrow> str option" where
  "validated_user_search_query query =
     (let query = trim query in if 2 \<le> length query \<and> length query \<le> 80 then Some query else None)"

text \<open>
  \<open>LIKE\<close>: the percent sign stands for any text, the underscore for any character, and a backslash makes the
  next character stand for itself. A pattern that ends with a lone backslash is an error. \<open>ILIKE\<close> compares
  without case: \<open>cf\<close> is the case folding of the database, one character at a time.
\<close>

fun like :: "(uchar \<Rightarrow> uchar) \<Rightarrow> str \<Rightarrow> str \<Rightarrow> bool" where
  "like cf [] t = (t = [])"
| "like cf (c # p) t =
     (if c = 37 then like cf p t \<or> (case t of [] \<Rightarrow> False | _ # t' \<Rightarrow> like cf (c # p) t')
      else if c = 95 then (case t of [] \<Rightarrow> False | _ # t' \<Rightarrow> like cf p t')
      else if c = 92 then
        (case p of [] \<Rightarrow> False | x # p' \<Rightarrow>
           (case t of [] \<Rightarrow> False | y # t' \<Rightarrow> cf x = cf y \<and> like cf p' t'))
      else (case t of [] \<Rightarrow> False | y # t' \<Rightarrow> cf c = cf y \<and> like cf p t'))"

section \<open>Lemmas\<close>

definition escaped :: "uchar \<Rightarrow> str" where
  "escaped c = (if c = 92 \<or> c = 37 \<or> c = 95 then [92, c] else [c])"

lemma escape_like_escaped: "escape_like v = concat (map escaped v)"
  by (induction v) (auto simp: escape_like_def replace_char_def escaped_def)

lemma user_search_pattern_escape: "user_search_pattern q = [37] @ escape_like q @ [37]"
  by (simp add: user_search_pattern_def escape_like_def)

lemma like_percent: "like cf [37] t"
  by (induction t) auto

lemma like_escaped:
  "like cf (concat (map escaped q) @ p) t \<longleftrightarrow> (\<exists>a b. t = a @ b \<and> map cf a = map cf q \<and> like cf p b)"
proof (induction q arbitrary: t)
  case Nil
  then show ?case by simp
next
  case (Cons c q)
  show ?case
  proof (cases t)
    case Nil
    then show ?thesis by (auto simp: escaped_def)
  next
    case (Cons y t')
    have "like cf (concat (map escaped (c # q)) @ p) t \<longleftrightarrow>
        cf c = cf y \<and> like cf (concat (map escaped q) @ p) t'"
      using Cons by (auto simp: escaped_def)
    also have "\<dots> \<longleftrightarrow> cf c = cf y \<and> (\<exists>a b. t' = a @ b \<and> map cf a = map cf q \<and> like cf p b)"
      by (simp only: Cons.IH)
    also have "\<dots> \<longleftrightarrow> (\<exists>a b. t = a @ b \<and> map cf a = map cf (c # q) \<and> like cf p b)"
    proof
      assume "cf c = cf y \<and> (\<exists>a b. t' = a @ b \<and> map cf a = map cf q \<and> like cf p b)"
      then obtain a b where "cf c = cf y" "t' = a @ b" "map cf a = map cf q" "like cf p b" by blast
      then have "t = (y # a) @ b" "map cf (y # a) = map cf (c # q)" using Cons by simp_all
      then show "\<exists>a b. t = a @ b \<and> map cf a = map cf (c # q) \<and> like cf p b" using \<open>like cf p b\<close> by blast
    next
      assume "\<exists>a b. t = a @ b \<and> map cf a = map cf (c # q) \<and> like cf p b"
      then obtain a b where "t = a @ b" "map cf a = map cf (c # q)" "like cf p b" by blast
      then show "cf c = cf y \<and> (\<exists>a b. t' = a @ b \<and> map cf a = map cf q \<and> like cf p b)"
        using Cons by (cases a) auto
    qed
    finally show ?thesis .
  qed
qed

lemma like_leading_percent: "like cf (37 # p) t \<longleftrightarrow> (\<exists>a b. t = a @ b \<and> like cf p b)"
proof (induction t)
  case Nil
  then show ?case by simp
next
  case (Cons y t)
  have "like cf (37 # p) (y # t) \<longleftrightarrow> like cf p (y # t) \<or> like cf (37 # p) t" by simp
  also have "\<dots> \<longleftrightarrow> (\<exists>a b. y # t = a @ b \<and> like cf p b)"
    unfolding Cons.IH by (metis append_Cons append_Nil append_eq_Cons_conv)
  finally show ?case .
qed

text \<open>
  C24. A search means its text. The pattern built from a query matches exactly the values that contain the
  query as it is, up to case: the wildcards and the escape character of SQL have no power when they are
  typed by a user.
\<close>

theorem search_is_literal:
  "like cf (user_search_pattern query) value \<longleftrightarrow>
     (\<exists>before found after. value = before @ found @ after \<and> map cf found = map cf query)"
proof -
  have "like cf (user_search_pattern query) value \<longleftrightarrow>
      (\<exists>a b. value = a @ b \<and> like cf (concat (map escaped query) @ [37]) b)"
    unfolding user_search_pattern_escape escape_like_escaped append_Cons append_Nil by (rule like_leading_percent)
  also have "\<dots> \<longleftrightarrow> (\<exists>a b c. value = a @ b @ c \<and> map cf b = map cf query)"
    unfolding like_escaped using like_percent by blast
  finally show ?thesis .
qed

end
