(* ===== verification/Profiles.thy ===== *)
theory Profiles
  imports Social Search
begin

text \<open>
  Profiles and their avatars (the first part of \<open>src/social/handlers.rs\<close>).
\<close>

section \<open>Profiles\<close>

datatype profile_relationship = Owner | Friend | NoRelationship

record user_profile =
  pf_id :: uuid
  pf_name :: str
  pf_nickname :: str
  pf_email :: str
  pf_avatar_url :: "str option"
  pf_status :: user_status
  pf_status_message :: str
  pf_created :: instant
  pf_last_seen :: "instant option"
  pf_online :: bool
  pf_relationship :: profile_relationship

record friend_summary =
  fs_id :: uuid
  fs_name :: str
  fs_nickname :: str
  fs_email :: str
  fs_avatar_url :: "str option"
  fs_online :: bool
  fs_status :: "user_status option"
  fs_friendship :: "uuid option"

definition normalize_name :: "str \<Rightarrow> str option" where
  "normalize_name v = (let v = trim v in if 1 \<le> length v \<and> length v \<le> 255 then Some v else None)"

definition normalize_status_message :: "str \<Rightarrow> str option" where
  "normalize_status_message v = (let v = trim v in if length v \<le> 255 then Some v else None)"

definition profile_presence_relationship :: "profile_relationship \<Rightarrow> bool \<Rightarrow> relationship option" where
  "profile_presence_relationship r has_incoming =
     (case r of
        Owner \<Rightarrow> Some SELF
      | Friend \<Rightarrow> Some FRIEND
      | NoRelationship \<Rightarrow> if has_incoming then Some INCOMING_FRIEND_REQUEST else None)"

definition profile_response ::
  "platform \<Rightarrow> instant \<Rightarrow> user_row \<Rightarrow> instant option \<Rightarrow> profile_relationship \<Rightarrow> bool \<Rightarrow> api_error + user_profile" where
  "profile_response L now x last_seen r has_incoming =
     (case status_from_db_value (us_status x) of
        None \<Rightarrow> Inl (INTERNAL_SERVER_ERROR, lit ''Profile unavailable'')
      | Some status \<Rightarrow>
          (let presence = Option.bind (profile_presence_relationship r has_incoming)
                 (visible_presence_of now (us_id x) status last_seen);
               is_public_view = (r = NoRelationship) in
           Inr \<lparr>pf_id = us_id x, pf_name = us_name x, pf_nickname = us_nickname x,
             pf_email = (if is_public_view then [] else us_email x),
             pf_avatar_url = map_option (user_avatar_url L (us_id x)) (us_avatar_key x),
             pf_status = (case presence of None \<Rightarrow> Offline | Some p \<Rightarrow> vp_status p),
             pf_status_message = (if is_public_view then [] else us_status_message x),
             pf_created = us_created x,
             pf_last_seen = (if is_public_view then None else (case presence of None \<Rightarrow> None | Some _ \<Rightarrow> last_seen)),
             pf_online = (case presence of None \<Rightarrow> False | Some p \<Rightarrow> vp_online p),
             pf_relationship = r\<rparr>))"

definition friend_summary_of :: "platform \<Rightarrow> user_row \<Rightarrow> visible_presence option \<Rightarrow> friend_summary" where
  "friend_summary_of L x presence =
     \<lparr>fs_id = us_id x, fs_name = us_name x, fs_nickname = us_nickname x, fs_email = us_email x,
      fs_avatar_url = map_option (user_avatar_url L (us_id x)) (us_avatar_key x),
      fs_online = (case presence of None \<Rightarrow> False | Some p \<Rightarrow> vp_online p),
      fs_status = map_option vp_status presence, fs_friendship = None\<rparr>"

definition last_seen_at :: "uuid \<Rightarrow> ('m site_scheme, api_error, instant option) prog" where
  "last_seen_at u = map_err social_error (select (\<lambda>d. map_of (user_presence d) u))"

definition check_friends :: "uuid \<Rightarrow> uuid \<Rightarrow> ('m site_scheme, api_error, bool) prog" where
  "check_friends u v = map_err social_error (select (\<lambda>d. are_friends d u v))"

definition requested_friendship :: "database \<Rightarrow> uuid \<Rightarrow> uuid \<Rightarrow> bool" where
  "requested_friendship d requester addressee \<longleftrightarrow>
     list_ex (\<lambda>f. fr_status f = lit ''pending'' \<and> fr_requester f = requester \<and> fr_addressee f = addressee)
       (friendships d)"

definition has_incoming_friend_request :: "uuid \<Rightarrow> uuid \<Rightarrow> ('m site_scheme, api_error, bool) prog" where
  "has_incoming_friend_request viewer requester =
     map_err social_error (select (\<lambda>d. requested_friendship d requester viewer))"

definition accepted_friend_ids :: "uuid \<Rightarrow> ('m site_scheme, api_error, uuid list) prog" where
  "accepted_friend_ids u =
     map_err social_error (select (\<lambda>d. map (\<lambda>f. if fr_requester f = u then fr_addressee f else fr_requester f)
       (filter (\<lambda>f. fr_status f = lit ''accepted'' \<and> (fr_requester f = u \<or> fr_addressee f = u)) (friendships d))))"

record user_discovery =
  di_id :: uuid
  di_name :: str
  di_nickname :: str
  di_avatar_url :: "str option"

text \<open>\<open>ORDER BY name, nickname\<close> compares with the collation of the database, which \<open>rank\<close> stands for.\<close>

definition search_users ::
  "platform \<Rightarrow> (uchar \<Rightarrow> uchar) \<Rightarrow> (str \<times> str \<Rightarrow> nat) \<Rightarrow> str option \<Rightarrow> str
     \<Rightarrow> ('m site_scheme, api_error, user_discovery list) prog" where
  "search_users L cf rank header q =
     chain (caller L header) (\<lambda>u.
     chain (result (ok_or (BAD_REQUEST, lit ''Query must be 2 to 80 characters'') (validated_user_search_query q))) (\<lambda>q.
     let pattern = user_search_pattern q in
     chain (map_err social_error connect) (\<lambda>_.
     map_err social_error (select (\<lambda>d. map (\<lambda>x. \<lparr>di_id = us_id x, di_name = us_name x, di_nickname = us_nickname x,
         di_avatar_url = map_option (user_avatar_url L (us_id x)) (us_avatar_key x)\<rparr>)
       (take 10 (order_asc (\<lambda>x. rank (us_name x, us_nickname x)) (filter (\<lambda>x. us_id x \<noteq> u \<and>
         (like cf pattern (us_name x) \<or> like cf pattern (us_nickname x) \<or> like cf pattern (us_email x))) (users d)))))))))"

definition get_user_profile :: "platform \<Rightarrow> str option \<Rightarrow> uuid \<Rightarrow> ('m site_scheme, api_error, user_profile) prog" where
  "get_user_profile L header target =
     chain (caller L header) (\<lambda>u.
     chain (map_err social_error connect) (\<lambda>_.
     chain (map_err user_not_found (first (user_row_of target))) (\<lambda>user.
     chain (if u = target then ret Owner
            else chain (check_friends u target) (\<lambda>b. ret (if b then Friend else NoRelationship))) (\<lambda>r.
     chain (if r = NoRelationship then has_incoming_friend_request u target else ret False) (\<lambda>incoming.
     chain (if r = NoRelationship \<and> \<not> incoming then ret None else last_seen_at target) (\<lambda>last_seen.
     chain utc_now (\<lambda>now.
     result (profile_response L now user last_seen r incoming))))))))"

definition get_self_profile :: "platform \<Rightarrow> str option \<Rightarrow> ('m site_scheme, api_error, user_profile) prog" where
  "get_self_profile L header =
     chain (caller L header) (\<lambda>u.
     chain (map_err social_error connect) (\<lambda>_.
     chain (map_err user_not_found (first (user_row_of u))) (\<lambda>user.
     chain (last_seen_at u) (\<lambda>last_seen.
     chain utc_now (\<lambda>now.
     result (profile_response L now user last_seen Owner False))))))"

text \<open>\<open>UPDATE users ... RETURNING\<close> under the unique index on nicknames.\<close>

definition update_user_row :: "uuid \<Rightarrow> (user_row \<Rightarrow> user_row) \<Rightarrow> database \<Rightarrow> db_error + user_row \<times> database" where
  "update_user_row u f d =
     (case user_row_of u d of
        None \<Rightarrow> Inl NotFound
      | Some x \<Rightarrow>
          if list_ex (\<lambda>y. us_id y \<noteq> u \<and> us_nickname y = us_nickname (f x)) (users d) then Inl UniqueViolation
          else Inr (f x, d\<lparr>users := update_where (\<lambda>y. us_id y = u) f (users d)\<rparr>))"

text \<open>A field of the request: the old value, or the new one if it is acceptable.\<close>

definition patched :: "('v \<Rightarrow> 'a option) \<Rightarrow> str \<Rightarrow> 'a \<Rightarrow> 'v option \<Rightarrow> api_error + 'a" where
  "patched check message old new =
     (case new of None \<Rightarrow> Inr old | Some v \<Rightarrow> ok_or (BAD_REQUEST, message) (check v))"

definition update_self_profile ::
  "platform \<Rightarrow> str option \<Rightarrow> str option \<Rightarrow> str option \<Rightarrow> user_status option \<Rightarrow> str option
     \<Rightarrow> ('m site_scheme, api_error, user_profile) prog" where
  "update_self_profile L header name nick status message =
     chain (caller L header) (\<lambda>u.
     chain (map_err social_error connect) (\<lambda>_.
     chain (map_err user_not_found (first (user_row_of u))) (\<lambda>existing.
     chain (result (patched normalize_name (lit ''Name must be 1 to 255 characters'') (us_name existing) name)) (\<lambda>name.
     chain (result (patched (normalize_nickname (lower_table L))
       (lit ''Nickname must be 3 to 50 lowercase letters, numbers, or underscores'') (us_nickname existing) nick)) (\<lambda>nick.
     let status = (case status of None \<Rightarrow> us_status existing | Some st \<Rightarrow> status_db_value st) in
     chain (result (patched normalize_status_message (lit ''Status message must be at most 255 characters'')
       (us_status_message existing) message)) (\<lambda>message.
     chain (map_err (\<lambda>e. if e = UniqueViolation then (CONFLICT, lit ''Nickname already exists'') else social_error e)
       (statement (update_user_row u (\<lambda>x. x\<lparr>us_name := name, us_nickname := nick, us_status := status,
          us_status_message := message\<rparr>)))) (\<lambda>user.
     chain (attempt (accepted_friend_ids u)) (\<lambda>r.
     chain (case r of Inr ids \<Rightarrow> publish ids Friends | Inl _ \<Rightarrow> ret ()) (\<lambda>_.
     chain utc_now (\<lambda>now.
     result (profile_response L now user None Owner False)))))))))))"

section \<open>Avatars of users\<close>

text \<open>\<open>format!("avatars/{user_id}/{}.{}", Uuid::new_v4(), extension)\<close>.\<close>

definition user_avatar_key :: "platform \<Rightarrow> uuid \<Rightarrow> uuid \<Rightarrow> str \<Rightarrow> str" where
  "user_avatar_key L u i ext = lit ''avatars/'' @ show_uuid L u @ lit ''/'' @ show_uuid L i @ lit ''.'' @ ext"

definition get_user_avatar ::
  "platform \<Rightarrow> renderer \<Rightarrow> str option \<Rightarrow> str list \<Rightarrow> uuid \<Rightarrow> avatar_size \<Rightarrow> ('m site_scheme, api_error, avatar_reply) prog" where
  "get_user_avatar L render header if_none_match u sz =
     chain (caller L header) (\<lambda>_.
     chain (map_err social_error connect) (\<lambda>_.
     chain (map_err user_not_found (first (\<lambda>d. map_option us_avatar_key (user_row_of u d)))) (\<lambda>k.
     chain (result (ok_or (NOT_FOUND, lit ''Avatar not found'') k)) (\<lambda>k.
     avatar_response render if_none_match k sz))))"

definition upload_avatar ::
  "platform \<Rightarrow> renderer \<Rightarrow> str option \<Rightarrow> multipart_field option list \<Rightarrow> ('m site_scheme, api_error, user_profile) prog" where
  "upload_avatar L render header parts =
     chain (caller L header) (\<lambda>u.
     chain (result (parse_avatar_upload parts)) (\<lambda>avatar.
     chain (map_err social_error connect) (\<lambda>_.
     chain (map_err user_not_found (first (\<lambda>d. map_option us_avatar_key (user_row_of u d)))) (\<lambda>previous.
     chain new_uuid (\<lambda>i. let k = user_avatar_key L u i (av_extension avatar) in
     chain (store_avatar render k (av_content_type avatar) (av_bytes avatar)) (\<lambda>_.
     chain (attempt (statement (update_user_row u (\<lambda>x. x\<lparr>us_avatar_key := Some k\<rparr>)))) (\<lambda>r.
     case r of
       Inl e \<Rightarrow> chain (attempt (delete_avatar k)) (\<lambda>_. throw (user_not_found e))
     | Inr user \<Rightarrow>
         chain (case previous of
             Some p \<Rightarrow> if p \<noteq> k then chain (attempt (delete_avatar p)) (\<lambda>_. ret ()) else ret ()
           | None \<Rightarrow> ret ()) (\<lambda>_.
         chain utc_now (\<lambda>now.
         result (profile_response L now user None Owner False))))))))))"

definition remove_avatar :: "platform \<Rightarrow> str option \<Rightarrow> ('m site_scheme, api_error, unit) prog" where
  "remove_avatar L header =
     chain (caller L header) (\<lambda>u.
     chain (map_err social_error connect) (\<lambda>_.
     chain (map_err user_not_found (first (\<lambda>d. map_option us_avatar_key (user_row_of u d)))) (\<lambda>k.
     case k of
       None \<Rightarrow> ret ()
     | Some k \<Rightarrow>
         chain (map_err social_error (statement (\<lambda>d. Inr
           (length (filter (\<lambda>x. us_id x = u \<and> us_avatar_key x = Some k) (users d)),
            d\<lparr>users := update_where (\<lambda>x. us_id x = u \<and> us_avatar_key x = Some k) (\<lambda>x. x\<lparr>us_avatar_key := None\<rparr>) (users d)\<rparr>)))) (\<lambda>cleared.
         if cleared = 0 then ret ()
         else chain (attempt (delete_avatar k)) (\<lambda>_. ret ())))))"

end
