(* ===== verification/MeetingRooms.thy ===== *)
theory MeetingRooms
  imports Database
begin

text \<open>
  Meeting rooms owned by signed-in users (\<open>src/social/meeting_rooms.rs\<close>): access policies, admission
  with and without the password, and the operations that create, change and share a room. Password
  hashing is the Argon2 library, a parameter \<open>verify\<close> / \<open>hash_password\<close>.
\<close>

section \<open>Policies\<close>

datatype group_access_policy = Open | Password | FriendsOnly | FriendsOfFriends

definition as_db_value :: "group_access_policy \<Rightarrow> str" where
  "as_db_value p = (case p of
     Open \<Rightarrow> lit ''open''
   | Password \<Rightarrow> lit ''password''
   | FriendsOnly \<Rightarrow> lit ''friends_only''
   | FriendsOfFriends \<Rightarrow> lit ''friends_of_friends'')"

definition from_db_value :: "str \<Rightarrow> group_access_policy option" where
  "from_db_value v =
     (if v = lit ''open'' then Some Open
      else if v = lit ''password'' then Some Password
      else if v = lit ''friends_only'' then Some FriendsOnly
      else if v = lit ''friends_of_friends'' then Some FriendsOfFriends
      else None)"

lemma policy_round_trip [simp]: "from_db_value (as_db_value p) = Some p"
  by (cases p) (simp_all add: from_db_value_def as_db_value_def)

text \<open>A value the table does not allow counts as the strictest policy.\<close>

definition policy :: "meeting_room_row \<Rightarrow> group_access_policy" where
  "policy room = (case from_db_value (mr_access_policy room) of None \<Rightarrow> FriendsOnly | Some p \<Rightarrow> p)"

section \<open>Admission\<close>

datatype admission = Allowed | PasswordRequired | WrongPassword | Denied str

definition admission_message :: "admission \<Rightarrow> str" where
  "admission_message a = (case a of
     Allowed \<Rightarrow> []
   | PasswordRequired \<Rightarrow> lit ''Meeting password required''
   | WrongPassword \<Rightarrow> lit ''Incorrect meeting password''
   | Denied reason \<Rightarrow> reason)"

definition admission_without_password ::
  "group_access_policy \<Rightarrow> bool \<Rightarrow> bool \<Rightarrow> bool \<Rightarrow> bool \<Rightarrow> admission" where
  "admission_without_password p is_owner is_invited is_eligible is_signed_in =
     (if is_owner \<or> is_invited then Allowed
      else case p of
        Open \<Rightarrow> Allowed
      | Password \<Rightarrow> PasswordRequired
      | FriendsOnly \<Rightarrow>
          (if \<not> is_signed_in then Denied (lit ''Sign in to join this meeting'')
           else if \<not> is_eligible then Denied (lit ''This meeting is limited to the host's friends'')
           else Allowed)
      | FriendsOfFriends \<Rightarrow>
          (if \<not> is_signed_in then Denied (lit ''Sign in to join this meeting'')
           else if \<not> is_eligible
           then Denied (lit ''This meeting is limited to the host's friends and their friends'')
           else Allowed))"

definition find_room :: "database \<Rightarrow> str \<Rightarrow> meeting_room_row option" where
  "find_room db i = find (\<lambda>r. mr_room_id r = i) (meeting_rooms db)"

definition is_invited :: "database \<Rightarrow> str \<Rightarrow> uuid \<Rightarrow> bool" where
  "is_invited db i u \<longleftrightarrow> list_ex (\<lambda>(r, v, by). r = i \<and> v = u) (meeting_room_invitations db)"

definition is_eligible :: "database \<Rightarrow> group_access_policy \<Rightarrow> uuid \<Rightarrow> uuid \<Rightarrow> bool" where
  "is_eligible db p owner u =
     (case p of
        Open \<Rightarrow> True
      | Password \<Rightarrow> True
      | FriendsOnly \<Rightarrow> are_friends db owner u
      | FriendsOfFriends \<Rightarrow>
          u \<in> friends_of db owner \<or>
          list_ex (\<lambda>f. fr_status f = lit ''accepted'' \<and>
             ((fr_requester f = u \<and> fr_addressee f \<in> friends_of db owner) \<or>
              (fr_addressee f = u \<and> fr_requester f \<in> friends_of db owner))) (friendships db))"

definition admission_for :: "database \<Rightarrow> meeting_room_row \<Rightarrow> uuid option \<Rightarrow> admission" where
  "admission_for db room u =
     (let (invited, eligible) = (case u of
            Some u \<Rightarrow> (is_invited db (mr_room_id room) u,
                       is_eligible db (policy room) (mr_owner_id room) u)
          | None \<Rightarrow> (False, False))
      in admission_without_password (policy room) (u = Some (mr_owner_id room)) invited eligible
           (u \<noteq> None))"

text \<open>
  \<open>verify hash password\<close> is \<open>Argon2::verify_password\<close> on a stored hash; a hash that does not parse
  does not match (\<open>unwrap_or(false)\<close>).
\<close>

definition check_password ::
  "(str \<Rightarrow> str \<Rightarrow> bool) \<Rightarrow> meeting_room_row \<Rightarrow> str \<Rightarrow> instant \<Rightarrow> failures \<Rightarrow> admission \<times> failures" where
  "check_password verify room password now fs =
     (let (ok, fs) = failed_password_attempts (mr_room_id room) False now fs in
      if \<not> ok then (Denied (lit ''Too many password attempts. Try again in a minute.''), fs)
      else if (case mr_password_hash room of None \<Rightarrow> False | Some h \<Rightarrow> verify h password)
      then (Allowed, fs)
      else (WrongPassword, snd (failed_password_attempts (mr_room_id room) True now fs)))"

text \<open>\<open>None\<close> is a database that cannot be reached or a query that fails.\<close>

definition admit_to_meeting_room ::
  "(str \<Rightarrow> str \<Rightarrow> bool) \<Rightarrow> database option \<Rightarrow> str \<Rightarrow> uuid option \<Rightarrow> str option \<Rightarrow> instant \<Rightarrow> failures
     \<Rightarrow> (str + admission) \<times> failures" where
  "admit_to_meeting_room verify dbo i u password now fs =
     (case dbo of
        None \<Rightarrow> (Inl (lit ''database error''), fs)
      | Some db \<Rightarrow>
          (case find_room db i of
             None \<Rightarrow> (Inr Allowed, fs)
           | Some room \<Rightarrow>
               (let a = admission_for db room u in
                if a \<noteq> PasswordRequired then (Inr a, fs)
                else (case password of
                        None \<Rightarrow> (Inr a, fs)
                      | Some pw \<Rightarrow>
                          (if pw = [] then (Inr a, fs)
                           else (case check_password verify room pw now fs of
                                   (a, fs) \<Rightarrow> (Inr a, fs)))))))"

section \<open>Settings\<close>

definition is_ascii_alphanumeric :: "uchar \<Rightarrow> bool" where
  "is_ascii_alphanumeric c \<longleftrightarrow> is_ascii_lowercase c \<or> is_ascii_uppercase c \<or> is_ascii_digit c"

definition is_valid_room_id :: "str \<Rightarrow> bool" where
  "is_valid_room_id i \<longleftrightarrow> i \<noteq> [] \<and> byte_len i \<le> 128 \<and>
     list_all (\<lambda>c. is_ascii_alphanumeric c \<or> c = 45 \<or> c = 95) i"

definition validate_room_id :: "str \<Rightarrow> api_error + unit" where
  "validate_room_id i =
     (if is_valid_room_id i then Inr () else Inl (BAD_REQUEST, lit ''Invalid room ID''))"

definition validated_password_hash ::
  "(str \<Rightarrow> api_error + str) \<Rightarrow> group_access_policy \<Rightarrow> str option \<Rightarrow> api_error + str option" where
  "validated_password_hash hash_password p password =
     (case (p, password) of
        (Password, Some pw) \<Rightarrow>
          (if 4 \<le> byte_len pw \<and> byte_len pw \<le> 256
           then and_then (hash_password pw) (\<lambda>h. Inr (Some h))
           else Inl (BAD_REQUEST, lit ''Meeting passwords must contain 4 to 256 characters''))
      | (Password, None) \<Rightarrow>
          Inl (BAD_REQUEST, lit ''Meeting passwords must contain 4 to 256 characters'')
      | (_, None) \<Rightarrow> Inr None
      | _ \<Rightarrow> Inl (BAD_REQUEST, lit ''Only password meetings may include a password''))"

text \<open>What one viewer may do in a room.\<close>

record access_response =
  ar_room_id :: str
  ar_managed :: bool
  ar_policy :: group_access_policy
  ar_is_owner :: bool
  ar_can_join :: bool
  ar_requires_password :: bool
  ar_owner_name :: "str option"
  ar_denied_reason :: "str option"

definition access_response_for :: "database \<Rightarrow> str \<Rightarrow> uuid option \<Rightarrow> access_response" where
  "access_response_for db i u =
     (case find_room db i of
        None \<Rightarrow> \<lparr>ar_room_id = i, ar_managed = False, ar_policy = Open, ar_is_owner = False,
                ar_can_join = True, ar_requires_password = False, ar_owner_name = None,
                ar_denied_reason = None\<rparr>
      | Some room \<Rightarrow>
          (let a = admission_for db room u in
           \<lparr>ar_room_id = mr_room_id room, ar_managed = True, ar_policy = policy room,
            ar_is_owner = (u = Some (mr_owner_id room)), ar_can_join = (a = Allowed),
            ar_requires_password = (a = PasswordRequired),
            ar_owner_name = (if u \<noteq> None
               then map_option us_name (find (\<lambda>r. us_id r = mr_owner_id room) (users db)) else None),
            ar_denied_reason = (case a of Denied _ \<Rightarrow> Some (admission_message a) | _ \<Rightarrow> None)\<rparr>))"

text \<open>
  \<open>create_meeting_room\<close> for a signed-in user whose \<open>meetings.create\<close> permission check came out as
  \<open>permitted\<close>; \<open>i\<close> is the new room's random ID.
\<close>

definition create_meeting_room ::
  "(str \<Rightarrow> api_error + str) \<Rightarrow> uuid \<Rightarrow> api_error + unit \<Rightarrow> group_access_policy \<Rightarrow> str option \<Rightarrow> str
     \<Rightarrow> database \<Rightarrow> (api_error + access_response) \<times> database" where
  "create_meeting_room hash_password u permitted p password i db =
     (case and_then permitted (\<lambda>_. validated_password_hash hash_password p password) of
        Inl e \<Rightarrow> (Inl e, db)
      | Inr h \<Rightarrow>
          (let db = db\<lparr>meeting_rooms := meeting_rooms db @
                 [\<lparr>mr_room_id = i, mr_owner_id = u, mr_access_policy = as_db_value p,
                   mr_password_hash = h\<rparr>]\<rparr>
           in (Inr (access_response_for db i (Some u)), db)))"

definition get_meeting_room ::
  "api_error + uuid option \<Rightarrow> str \<Rightarrow> database \<Rightarrow> api_error + access_response" where
  "get_meeting_room viewer i db =
     and_then viewer (\<lambda>u. and_then (validate_room_id i) (\<lambda>_. Inr (access_response_for db i u)))"

definition check_meeting_room_password ::
  "(str \<Rightarrow> str \<Rightarrow> bool) \<Rightarrow> api_error + uuid option \<Rightarrow> str \<Rightarrow> str \<Rightarrow> database option \<Rightarrow> instant \<Rightarrow> failures
     \<Rightarrow> (api_error + unit) \<times> failures" where
  "check_meeting_room_password verify viewer i password dbo now fs =
     (case and_then viewer (\<lambda>u. and_then (validate_room_id i) (\<lambda>_. Inr u)) of
        Inl e \<Rightarrow> (Inl e, fs)
      | Inr u \<Rightarrow>
          (case admit_to_meeting_room verify dbo i u (Some password) now fs of
             (Inl e, fs) \<Rightarrow> (Inl (INTERNAL_SERVER_ERROR, lit ''Request failed''), fs)
           | (Inr Allowed, fs) \<Rightarrow> (Inr (), fs)
           | (Inr a, fs) \<Rightarrow> (Inl (FORBIDDEN, admission_message a), fs)))"

definition update_meeting_room ::
  "(str \<Rightarrow> api_error + str) \<Rightarrow> api_error + uuid \<Rightarrow> str \<Rightarrow> group_access_policy \<Rightarrow> str option
     \<Rightarrow> database \<Rightarrow> (api_error + access_response) \<times> database" where
  "update_meeting_room hash_password caller i p password db =
     (case and_then caller (\<lambda>u. and_then (validate_room_id i) (\<lambda>_.
             and_then (ok_or (FORBIDDEN, lit ''Only the host can change meeting access'')
                (case find_room db i of
                   Some room \<Rightarrow> if mr_owner_id room = u then Some room else None
                 | None \<Rightarrow> None)) (\<lambda>room.
             and_then (if p = Password \<and> policy room = Password \<and> password = None
                       then Inr (mr_password_hash room)
                       else validated_password_hash hash_password p password) (\<lambda>h. Inr (u, h))))) of
        Inl e \<Rightarrow> (Inl e, db)
      | Inr (u, h) \<Rightarrow>
          (let db = db\<lparr>meeting_rooms := update_where (\<lambda>r. mr_room_id r = i)
                 (\<lambda>r. r\<lparr>mr_access_policy := as_db_value p, mr_password_hash := h\<rparr>) (meeting_rooms db)\<rparr>
           in (Inr (access_response_for db i (Some u)), db)))"

definition ensure_can_invite :: "database \<Rightarrow> meeting_room_row option \<Rightarrow> str \<Rightarrow> uuid \<Rightarrow> api_error + unit" where
  "ensure_can_invite db room i u =
     (if (case room of None \<Rightarrow> False | Some room \<Rightarrow> mr_owner_id room = u) then Inr ()
      else if list_ex (\<lambda>s. ms_room s = i \<and> ms_ended s = None \<and>
                list_ex (\<lambda>p. mp_session p = ms_id s \<and> mp_left p = None \<and> mp_user p = Some u)
                  (meeting_participants db)) (meeting_sessions db)
      then Inr ()
      else Inl (FORBIDDEN, lit ''Join the meeting to invite people''))"

definition invite_to_meeting_room ::
  "api_error + uuid \<Rightarrow> str \<Rightarrow> uuid \<Rightarrow> uuid \<Rightarrow> instant \<Rightarrow> database \<Rightarrow> (api_error + unit) \<times> database" where
  "invite_to_meeting_room caller i invitee nid now db =
     (case and_then caller (\<lambda>u. and_then (validate_room_id i) (\<lambda>_.
             if invitee = u then Inl (BAD_REQUEST, lit ''You are already in this meeting'')
             else and_then (ensure_can_invite db (find_room db i) i u) (\<lambda>_.
               if find (\<lambda>r. us_id r = invitee) (users db) = None
               then Inl (NOT_FOUND, lit ''User not found'')
               else (case find_room db i of
                       None \<Rightarrow> Inr (u, False)
                     | Some room \<Rightarrow>
                         (if invitee \<noteq> mr_owner_id room \<and>
                             \<not> is_eligible db (policy room) (mr_owner_id room) invitee
                          then Inl (FORBIDDEN,
                            lit ''This person cannot join under the meeting's access settings'')
                          else Inr (u, True)))))) of
        Inl e \<Rightarrow> (Inl e, db)
      | Inr (u, managed) \<Rightarrow>
          (let inv = meeting_room_invitations db;
               inv = (if managed \<and> \<not> is_invited db i invitee then inv @ [(i, invitee, u)] else inv)
           in (Inr (), db\<lparr>meeting_room_invitations := inv,
                 notifications := notifications db @
                   [\<lparr>no_id = nid, no_recipient = invitee, no_actor = u, no_kind = lit ''meetingInvitation'',
                     no_data = RoomData i, no_created = now, no_read = None\<rparr>]\<rparr>)))"

definition room_policies :: "database \<Rightarrow> str list \<Rightarrow> str \<Rightarrow> group_access_policy option" where
  "room_policies db ids i =
     (if i \<in> set ids
      then Option.bind (find_room db i) (\<lambda>r. from_db_value (mr_access_policy r)) else None)"

section \<open>Who may enter\<close>

text \<open>The policy apart from the code: who a room's host lets in.\<close>

definition owner_or_invited :: "database \<Rightarrow> meeting_room_row \<Rightarrow> uuid option \<Rightarrow> bool" where
  "owner_or_invited db room u \<longleftrightarrow> (\<exists>v. u = Some v \<and> (v = mr_owner_id room \<or>
     (\<exists>by. (mr_room_id room, v, by) \<in> set (meeting_room_invitations db))))"

definition host_lets_in ::
  "(str \<Rightarrow> str \<Rightarrow> bool) \<Rightarrow> database \<Rightarrow> meeting_room_row \<Rightarrow> uuid option \<Rightarrow> str option \<Rightarrow> bool" where
  "host_lets_in verify db room u password \<longleftrightarrow> owner_or_invited db room u \<or>
     (case policy room of
        Open \<Rightarrow> True
      | Password \<Rightarrow> (\<exists>pw h. password = Some pw \<and> pw \<noteq> [] \<and> mr_password_hash room = Some h \<and> verify h pw)
      | FriendsOnly \<Rightarrow> (\<exists>v. u = Some v \<and> are_friends db (mr_owner_id room) v)
      | FriendsOfFriends \<Rightarrow> (\<exists>v. u = Some v \<and> (are_friends db (mr_owner_id room) v \<or>
          (\<exists>f. are_friends db (mr_owner_id room) f \<and> are_friends db f v))))"

text \<open>Fewer than ten wrong passwords for the room in the last minute.\<close>

definition may_try_password :: "meeting_room_row \<Rightarrow> instant \<Rightarrow> failures \<Rightarrow> bool" where
  "may_try_password room now fs \<longleftrightarrow>
     length (pop_expired PASSWORD_ATTEMPT_WINDOW now (case fs (mr_room_id room) of None \<Rightarrow> [] | Some ts \<Rightarrow> ts))
       < PASSWORD_ATTEMPT_LIMIT"

lemma attempts_allowed: "fst (failed_password_attempts (mr_room_id room) False now fs) = may_try_password room now fs"
  by (simp add: failed_password_attempts_def may_try_password_def retain_failures_def Let_def
      split: option.splits)

lemma is_invited_iff: "is_invited db i v \<longleftrightarrow> (\<exists>by. (i, v, by) \<in> set (meeting_room_invitations db))"
  by (auto simp: is_invited_def list_ex_iff)

lemma is_eligible_friends_of_friends:
  "is_eligible db FriendsOfFriends owner v \<longleftrightarrow>
     are_friends db owner v \<or> (\<exists>f. are_friends db owner f \<and> are_friends db f v)"
proof -
  have "(\<exists>f. are_friends db owner f \<and> are_friends db f v) \<longleftrightarrow>
      (\<exists>e \<in> set (friendships db). fr_status e = lit ''accepted'' \<and>
         ((fr_requester e = v \<and> are_friends db owner (fr_addressee e)) \<or>
          (fr_addressee e = v \<and> are_friends db owner (fr_requester e))))"
    (is "?L = ?R")
  proof
    assume ?L
    then obtain f where f: "are_friends db owner f" "are_friends db f v" by blast
    from f(2) obtain e where "e \<in> set (friendships db)" "fr_status e = lit ''accepted''"
      "(fr_requester e = f \<and> fr_addressee e = v) \<or> (fr_requester e = v \<and> fr_addressee e = f)"
      by (auto simp: are_friends_def list_ex_iff)
    with f(1) show ?R by blast
  next
    assume ?R
    then show ?L by (auto simp: are_friends_def list_ex_iff)
  qed
  then show ?thesis by (auto simp: is_eligible_def friends_of_iff list_ex_iff)
qed

lemma is_eligible_cases:
  "is_eligible db Open owner v" "is_eligible db Password owner v"
  "is_eligible db FriendsOnly owner v \<longleftrightarrow> are_friends db owner v"
  by (simp_all add: is_eligible_def)

lemmas eligibility = is_eligible_cases is_eligible_friends_of_friends

lemma admission_for_cases:
  "admission_for db room u = Allowed \<longleftrightarrow>
     owner_or_invited db room u \<or> (policy room \<noteq> Password \<and> host_lets_in verify db room u password)"
  "admission_for db room u = PasswordRequired \<longleftrightarrow> \<not> owner_or_invited db room u \<and> policy room = Password"
  by (cases "policy room"; cases u;
      auto simp: admission_for_def admission_without_password_def owner_or_invited_def host_lets_in_def
        is_invited_iff eligibility)+

lemma check_password_Allowed:
  "check_password verify room pw now fs = (a, fs') \<Longrightarrow>
     a = Allowed \<longleftrightarrow> may_try_password room now fs \<and>
       (\<exists>h. mr_password_hash room = Some h \<and> verify h pw)"
  using attempts_allowed [of room now fs]
  by (cases "failed_password_attempts (mr_room_id room) False now fs")
     (auto simp: check_password_def split: if_splits option.splits)

text \<open>
  C17. Admission to a meeting room is exactly its host's policy. With the database reachable, a room
  that nobody manages is open to all; a managed room lets in its owner and the invited, and otherwise
  whom the policy names: everyone, the holder of the password (as long as the room's limit of wrong
  passwords is not used up), the owner's friends, or those and the friends of those. A database that
  does not answer lets nobody in.
\<close>

theorem admission_exact:
  assumes "admit_to_meeting_room verify dbo i u password now fs = (res, fs')"
  shows "res = Inr Allowed \<longleftrightarrow>
     (\<exists>db. dbo = Some db \<and>
        (case find_room db i of
           None \<Rightarrow> True
         | Some room \<Rightarrow> host_lets_in verify db room u password \<and>
             (owner_or_invited db room u \<or> policy room \<noteq> Password \<or> may_try_password room now fs)))"
proof (cases dbo)
  case None
  then show ?thesis using assms by (auto simp: admit_to_meeting_room_def)
next
  case (Some db)
  show ?thesis
  proof (cases "find_room db i")
    case None
    then show ?thesis using assms Some by (auto simp: admit_to_meeting_room_def)
  next
    case room: (Some room)
    note cs = admission_for_cases [of db room u]
    show ?thesis
    proof (cases "admission_for db room u = PasswordRequired")
      case False
      then have "res = Inr (admission_for db room u)"
        using assms Some room by (simp add: admit_to_meeting_room_def)
      then show ?thesis
        using False Some room cs(1) [of verify password] cs(2) by (auto simp: host_lets_in_def)
    next
      case True
      then have p: "policy room = Password" "\<not> owner_or_invited db room u" using cs(2) by auto
      show ?thesis
      proof (cases "password = None \<or> password = Some []")
        case pw: True
        then have "res = Inr PasswordRequired"
          using assms Some room True by (auto simp: admit_to_meeting_room_def)
        then show ?thesis using Some room pw p by (auto simp: host_lets_in_def)
      next
        case False
        then obtain pw where pw: "password = Some pw" "pw \<noteq> []" by (cases password) auto
        obtain a fs1 where c: "check_password verify room pw now fs = (a, fs1)" by fastforce
        then have "res = Inr a"
          using assms Some room True pw by (auto simp: admit_to_meeting_room_def)
        then show ?thesis
          using Some room pw p check_password_Allowed [OF c] by (auto simp: host_lets_in_def)
      qed
    qed
  qed
qed

definition sample_club :: database where
  "sample_club = empty_database
     \<lparr>meeting_rooms := [\<lparr>mr_room_id = lit ''club'', mr_owner_id = 1, mr_access_policy = lit ''friends_of_friends'',
        mr_password_hash = None\<rparr>],
      friendships := [\<lparr>fr_id = 11, fr_requester = 2, fr_addressee = 1, fr_status = lit ''accepted'', fr_created = 0, fr_updated = 0\<rparr>,
        \<lparr>fr_id = 12, fr_requester = 2, fr_addressee = 3, fr_status = lit ''accepted'', fr_created = 0, fr_updated = 0\<rparr>]\<rparr>"

theorem admission_exact_witness:
  "fst (admit_to_meeting_room (\<lambda>_ _. False) (Some sample_club) (lit ''club'') (Some 3) None 0 Map.empty)
     = Inr Allowed \<and> are_friends sample_club 1 2 \<and> are_friends sample_club 2 3"
proof -
  let ?room = "\<lparr>mr_room_id = lit ''club'', mr_owner_id = 1, mr_access_policy = lit ''friends_of_friends'',
      mr_password_hash = None\<rparr> :: meeting_room_row"
  have f: "find_room sample_club (lit ''club'') = Some ?room" by code_simp
  have p: "policy ?room = FriendsOfFriends" by code_simp
  have a: "are_friends sample_club 1 2" "are_friends sample_club 2 3" by code_simp+
  have "host_lets_in (\<lambda>_ _. False) sample_club ?room (Some 3) None"
    unfolding host_lets_in_def p using a by auto
  then show ?thesis
    using admission_exact [OF surjective_pairing, of "\<lambda>_ _. False" "Some sample_club" "lit ''club''" "Some 3"
        None 0 Map.empty] f p a by simp
qed

section \<open>Guessing passwords\<close>

text \<open>A run of password checks at any rooms: who is asked, with what, and when.\<close>

fun guesses ::
  "(str \<Rightarrow> str \<Rightarrow> bool) \<Rightarrow> (meeting_room_row \<times> str \<times> instant) list \<Rightarrow> failures \<Rightarrow> admission list" where
  "guesses verify [] fs = []"
| "guesses verify ((room, pw, now) # gs) fs =
     (let (a, fs) = check_password verify room pw now fs in a # guesses verify gs fs)"

text \<open>The times at which a wrong password was tried and answered as such, for one room.\<close>

definition wrong_times :: "str \<Rightarrow> (meeting_room_row \<times> str \<times> instant) list \<Rightarrow> admission list \<Rightarrow> instant list" where
  "wrong_times i gs as =
     map (\<lambda>((room, pw, now), a). now)
       (filter (\<lambda>((room, pw, now), a). mr_room_id room = i \<and> a = WrongPassword) (zip gs as))"

definition deque_of :: "failures \<Rightarrow> str \<Rightarrow> instant list" where
  "deque_of fs i = (case fs i of None \<Rightarrow> [] | Some ts \<Rightarrow> ts)"

abbreviation recent_wrong :: "instant \<Rightarrow> instant list \<Rightarrow> instant list" where
  "recent_wrong now w \<equiv> filter (\<lambda>t. now - t < PASSWORD_ATTEMPT_WINDOW) w"

lemma window_bounded_snoc:
  assumes "window_bounded l w acc" and "sorted acc" and "\<forall>a \<in> set acc. a \<le> now"
    and "within_budget l w now acc"
  shows "window_bounded l w (acc @ [now])"
  using spec_run_bounded [OF assms(1,2), of "[now]"] assms(3,4) by (simp add: Let_def)

lemma deque_retained:
  assumes "deque_of fs i = recent_wrong now w" and "sorted w" and "now \<le> now'"
  shows "deque_of (retain_failures now' fs) i = recent_wrong now' w"
proof -
  have "deque_of (retain_failures now' fs) i = pop_expired PASSWORD_ATTEMPT_WINDOW now' (deque_of fs i)"
    by (auto simp: deque_of_def retain_failures_def Let_def split: option.splits)
  then show ?thesis using assms by (simp add: pop_expired_later)
qed

lemma deque_upd: "deque_of (fs(j \<mapsto> ts)) i = (if i = j then ts else deque_of fs i)"
  by (simp add: deque_of_def)

lemma attempts_deque:
  assumes "failed_password_attempts j rec now' fs = (ok, fs')"
    and "deque_of fs i = recent_wrong now w" and "sorted w" and "\<forall>t \<in> set w. t \<le> now" and "now \<le> now'"
  shows "deque_of fs' i = recent_wrong now' (if rec \<and> i = j then w @ [now'] else w)"
    and "\<not> rec \<Longrightarrow> i = j \<Longrightarrow> ok = within_budget PASSWORD_ATTEMPT_LIMIT PASSWORD_ATTEMPT_WINDOW now' w"
proof -
  let ?fs = "retain_failures now' fs"
  have d: "deque_of ?fs i = recent_wrong now' w" by (rule deque_retained [OF assms(2,3,5)])
  have r: "ok = (length (if rec then deque_of ?fs j @ [now'] else deque_of ?fs j) < PASSWORD_ATTEMPT_LIMIT)"
    "fs' = ?fs(j \<mapsto> (if rec then deque_of ?fs j @ [now'] else deque_of ?fs j))"
    using assms(1) by (auto simp: failed_password_attempts_def deque_of_def Let_def)
  show "deque_of fs' i = recent_wrong now' (if rec \<and> i = j then w @ [now'] else w)"
    unfolding r(2) deque_upd using d by (cases "i = j") (simp_all add: PASSWORD_ATTEMPT_WINDOW_def)
  show "\<not> rec \<Longrightarrow> i = j \<Longrightarrow> ok = within_budget PASSWORD_ATTEMPT_LIMIT PASSWORD_ATTEMPT_WINDOW now' w"
    using r(1) d by (simp add: within_budget_def)
qed

lemma check_password_step:
  assumes c: "check_password verify room pw now' fs = (a, fs')"
    and d: "deque_of fs i = recent_wrong now w" and w: "sorted w" "\<forall>t \<in> set w. t \<le> now" "now \<le> now'"
    and b: "window_bounded PASSWORD_ATTEMPT_LIMIT PASSWORD_ATTEMPT_WINDOW w"
  defines "w' \<equiv> if mr_room_id room = i \<and> a = WrongPassword then w @ [now'] else w"
  shows "deque_of fs' i = recent_wrong now' w' \<and> sorted w' \<and> (\<forall>t \<in> set w'. t \<le> now') \<and>
     window_bounded PASSWORD_ATTEMPT_LIMIT PASSWORD_ATTEMPT_WINDOW w'"
proof -
  obtain ok fs1 where f1: "failed_password_attempts (mr_room_id room) False now' fs = (ok, fs1)" by fastforce
  obtain ok2 fs2 where f2: "failed_password_attempts (mr_room_id room) True now' fs1 = (ok2, fs2)" by fastforce
  have d1: "deque_of fs1 i = recent_wrong now' w"
    using attempts_deque(1) [OF f1 d w] by simp
  have w': "\<forall>t \<in> set w. t \<le> now'" using w by auto
  have d2: "deque_of fs2 i = recent_wrong now' (if i = mr_room_id room then w @ [now'] else w)"
    using attempts_deque(1) [OF f2 d1 w(1) w' order_refl] by simp
  have cases: "(a = WrongPassword \<and> ok \<and> fs' = fs2) \<or> (a \<noteq> WrongPassword \<and> fs' = fs1)"
    using c f1 f2 by (auto simp: check_password_def split: if_splits)
  show ?thesis
  proof (cases "mr_room_id room = i \<and> a = WrongPassword")
    case True
    then have "within_budget PASSWORD_ATTEMPT_LIMIT PASSWORD_ATTEMPT_WINDOW now' w"
      using attempts_deque(2) [OF f1 d w] cases by auto
    then have "window_bounded PASSWORD_ATTEMPT_LIMIT PASSWORD_ATTEMPT_WINDOW (w @ [now'])"
      by (rule window_bounded_snoc [OF b w(1) w'])
    then show ?thesis using True cases d2 w(1) w' unfolding w'_def by (auto simp: sorted_append)
  next
    case False
    then show ?thesis using cases d1 d2 w(1) w' b unfolding w'_def by auto
  qed
qed

lemma guesses_bounded:
  "\<lbrakk>deque_of fs i = recent_wrong now w; sorted w; \<forall>t \<in> set w. t \<le> now;
    window_bounded PASSWORD_ATTEMPT_LIMIT PASSWORD_ATTEMPT_WINDOW w;
    sorted (now # map (\<lambda>(room, pw, t). t) gs)\<rbrakk> \<Longrightarrow>
   window_bounded PASSWORD_ATTEMPT_LIMIT PASSWORD_ATTEMPT_WINDOW (w @ wrong_times i gs (guesses verify gs fs))"
proof (induction gs arbitrary: fs now w)
  case Nil
  then show ?case by (simp add: wrong_times_def)
next
  case (Cons g gs)
  obtain room pw now' where g: "g = (room, pw, now')" by (cases g)
  obtain a fs' where c: "check_password verify room pw now' fs = (a, fs')" by fastforce
  define w' where "w' = (if mr_room_id room = i \<and> a = WrongPassword then w @ [now'] else w)"
  have le: "now \<le> now'" and srt: "sorted (now' # map (\<lambda>(room, pw, t). t) gs)"
    using Cons.prems(5) by (auto simp: g)
  have st: "deque_of fs' i = recent_wrong now' w'" "sorted w'" "\<forall>t \<in> set w'. t \<le> now'"
    "window_bounded PASSWORD_ATTEMPT_LIMIT PASSWORD_ATTEMPT_WINDOW w'"
    using check_password_step [OF c Cons.prems(1-3) le Cons.prems(4)] unfolding w'_def by blast+
  have "w @ wrong_times i (g # gs) (guesses verify (g # gs) fs) = w' @ wrong_times i gs (guesses verify gs fs')"
    by (simp add: g c wrong_times_def w'_def)
  then show ?case using Cons.IH [OF st srt] by simp
qed


definition sample_guesses :: "(meeting_room_row \<times> str \<times> instant) list" where
  "sample_guesses = map (\<lambda>t. (\<lparr>mr_room_id = lit ''r'', mr_owner_id = 1, mr_access_policy = lit ''password'',
     mr_password_hash = Some (lit ''h'')\<rparr>, lit ''guess'', t)) [0, 5, 9]"


end
