(* ===== verification/Friendships.thy ===== *)
theory Friendships
  imports Profiles MeetingRooms
begin

text \<open>
  Friend requests and friendships, the presence heartbeat and the meetings a user joined
  (\<open>src/social/handlers.rs\<close>).
\<close>

section \<open>The table of friendships\<close>

definition same_pair :: "uuid \<Rightarrow> uuid \<Rightarrow> uuid \<Rightarrow> uuid \<Rightarrow> bool" where
  "same_pair a b c d \<longleftrightarrow> (a = c \<and> b = d) \<or> (a = d \<and> b = c)"

definition between :: "uuid \<Rightarrow> uuid \<Rightarrow> friendship_row \<Rightarrow> bool" where
  "between u v f \<longleftrightarrow> same_pair (fr_requester f) (fr_addressee f) u v"

text \<open>
  Inserting under the constraints of the migrations: at most 100 pending requests from and to a user (a
  trigger that raises a check violation), two different users, and one row for each pair.
\<close>

definition insert_friendship :: "friendship_row \<Rightarrow> database \<Rightarrow> db_error + friendship_row \<times> database" where
  "insert_friendship f d =
     (if 100 \<le> length (filter (\<lambda>g. fr_requester g = fr_requester f \<and> fr_status g = lit ''pending'') (friendships d)) \<or>
         100 \<le> length (filter (\<lambda>g. fr_addressee g = fr_addressee f \<and> fr_status g = lit ''pending'') (friendships d))
      then Inl CheckViolation
      else if fr_requester f = fr_addressee f then Inl CheckViolation
      else if list_ex (\<lambda>g. fr_id g = fr_id f \<or> between (fr_requester f) (fr_addressee f) g) (friendships d)
      then Inl UniqueViolation
      else if \<not> user_exists d (fr_requester f) \<or> \<not> user_exists d (fr_addressee f) then Inl ForeignKeyViolation
      else Inr (f, d\<lparr>friendships := friendships d @ [f]\<rparr>))"

definition other_user :: "uuid \<Rightarrow> friendship_row \<Rightarrow> uuid" where
  "other_user u f = (if fr_requester f = u then fr_addressee f else fr_requester f)"

section \<open>Listing friends\<close>

record friend_request_item =
  fq_id :: uuid
  fq_user :: friend_summary
  fq_created :: instant

text \<open>One friendship in the answer: a friend, an incoming request, or nothing for an outgoing request.\<close>

definition friend_entry ::
  "platform \<Rightarrow> instant \<Rightarrow> user_row list \<Rightarrow> (uuid \<times> instant) list \<Rightarrow> uuid \<Rightarrow> friendship_row
     \<Rightarrow> (friend_summary + friend_request_item) option" where
  "friend_entry L now related last_seen u f =
     (case find (\<lambda>x. us_id x = other_user u f) related of
        None \<Rightarrow> None
      | Some x \<Rightarrow>
          (let status = status_from_db_value (us_status x);
               presence = (\<lambda>r. Option.bind status (\<lambda>st. visible_presence_of now (us_id x) st (map_of last_seen (us_id x)) r));
               summary = (\<lambda>r. (friend_summary_of L x (presence r))\<lparr>fs_friendship := Some (fr_id f)\<rparr>) in
           if fr_status f = lit ''accepted'' then Some (Inl (summary FRIEND))
           else if fr_addressee f = u then
             Some (Inr \<lparr>fq_id = fr_id f, fq_user = summary INCOMING_FRIEND_REQUEST, fq_created = fr_created f\<rparr>)
           else None))"

definition list_friends ::
  "platform \<Rightarrow> str option \<Rightarrow> ('m site_scheme, api_error, friend_summary list \<times> friend_request_item list) prog" where
  "list_friends L header =
     chain (caller L header) (\<lambda>u.
     chain (map_err social_error connect) (\<lambda>_.
     chain (map_err social_error (select (\<lambda>d. order_desc fr_updated
       (filter (\<lambda>f. fr_requester f = u \<or> fr_addressee f = u) (friendships d))))) (\<lambda>relationships.
     let related_ids = map (other_user u) relationships in
     chain (map_err social_error (select (\<lambda>d. filter (\<lambda>x. us_id x \<in> set related_ids) (users d)))) (\<lambda>related.
     chain (map_err social_error (select (last_seen_among related_ids))) (\<lambda>last_seen.
     chain utc_now (\<lambda>now.
     let entries = List.map_filter (friend_entry L now related last_seen u) relationships in
     ret (List.map_filter (\<lambda>e. case e of Inl x \<Rightarrow> Some x | Inr _ \<Rightarrow> None) entries,
          List.map_filter (\<lambda>e. case e of Inr x \<Rightarrow> Some x | Inl _ \<Rightarrow> None) entries)))))))"

section \<open>Requests\<close>

text \<open>Whom a request means: a user by ID, or else by a trimmed, nonempty email address.\<close>

definition request_target :: "uuid option \<Rightarrow> str option \<Rightarrow> api_error + (user_row \<Rightarrow> bool)" where
  "request_target target email =
     (case target of
        Some u \<Rightarrow> Inr (\<lambda>x. us_id x = u)
      | None \<Rightarrow>
          (case email of
             None \<Rightarrow> Inl (BAD_REQUEST, lit ''Email or user ID is required'')
           | Some e \<Rightarrow> if trim e = [] then Inl (BAD_REQUEST, lit ''Email or user ID is required'')
                       else Inr (\<lambda>x. us_email x = trim e)))"

definition request_rows :: "uuid \<Rightarrow> uuid \<Rightarrow> ('m site_scheme, db_error, unit) prog" where
  "request_rows u target =
     chain new_uuid (\<lambda>i.
     chain utc_now (\<lambda>now.
     chain (statement (insert_friendship \<lparr>fr_id = i, fr_requester = u, fr_addressee = target,
       fr_status = lit ''pending'', fr_created = now, fr_updated = now\<rparr>)) (\<lambda>f.
     create_notification target u (lit ''friendRequest'') (FriendshipData (fr_id f)))))"

definition create_friend_request ::
  "platform \<Rightarrow> str option \<Rightarrow> uuid option \<Rightarrow> str option \<Rightarrow> ('m site_scheme, api_error, unit) prog" where
  "create_friend_request L header target email =
     chain (caller L header) (\<lambda>u.
     chain (result (request_target target email)) (\<lambda>wanted.
     chain (map_err social_error connect) (\<lambda>_.
     chain (map_err social_error (optional (first (\<lambda>d. find wanted (users d))))) (\<lambda>found.
     case found of
       None \<Rightarrow> ret ()
     | Some x \<Rightarrow>
         if us_id x = u then ret ()
         else chain (map_err social_error (select (\<lambda>d. find (between u (us_id x)) (friendships d)))) (\<lambda>existing.
         case existing of
           Some f \<Rightarrow> throw (CONFLICT, if fr_status f = lit ''accepted'' then lit ''Already friends''
                                      else lit ''Friend request already pending'')
         | None \<Rightarrow>
             chain (map_err (\<lambda>e. if e = UniqueViolation then (CONFLICT, lit ''Friend request already pending'')
                                else if e = CheckViolation then (BAD_REQUEST, lit ''Invalid friend request'')
                                else social_error e)
               (transaction (request_rows u (us_id x)))) (\<lambda>_.
             chain (publish [us_id x] Notifications) (\<lambda>_.
             publish [u, us_id x] Friends)))))))"

definition accept_row :: "uuid \<Rightarrow> uuid \<Rightarrow> instant \<Rightarrow> database \<Rightarrow> db_error + friendship_row \<times> database" where
  "accept_row i u now d =
     (let hit = (\<lambda>f. fr_id f = i \<and> fr_addressee f = u \<and> fr_status f = lit ''pending'');
          accept = (\<lambda>f. f\<lparr>fr_status := lit ''accepted'', fr_updated := now\<rparr>) in
      case find hit (friendships d) of
        None \<Rightarrow> Inl NotFound
      | Some f \<Rightarrow> Inr (accept f, d\<lparr>friendships := update_where hit accept (friendships d)\<rparr>))"

definition accept_friend_request :: "platform \<Rightarrow> str option \<Rightarrow> uuid \<Rightarrow> ('m site_scheme, api_error, unit) prog" where
  "accept_friend_request L header i =
     chain (caller L header) (\<lambda>u.
     chain (map_err social_error connect) (\<lambda>_.
     chain utc_now (\<lambda>now.
     chain (map_err (\<lambda>e. if e = NotFound then (NOT_FOUND, lit ''Friend request not found'') else social_error e)
       (statement (accept_row i u now))) (\<lambda>f.
     publish [fr_requester f, fr_addressee f] Friends))))"

definition delete_row :: "uuid \<Rightarrow> uuid \<Rightarrow> database \<Rightarrow> db_error + friendship_row \<times> database" where
  "delete_row i u d =
     (let hit = (\<lambda>f. fr_id f = i \<and> (fr_requester f = u \<or> fr_addressee f = u)) in
      case find hit (friendships d) of
        None \<Rightarrow> Inl NotFound
      | Some f \<Rightarrow> Inr (f, d\<lparr>friendships := delete_where hit (friendships d)\<rparr>))"

text \<open>Ending a friendship tells the other user; withdrawing or declining a request takes its unread
  notification back.\<close>

definition delete_rows :: "uuid \<Rightarrow> uuid \<Rightarrow> ('m site_scheme, db_error, friendship_row) prog" where
  "delete_rows i u =
     chain (statement (delete_row i u)) (\<lambda>f.
     chain (if fr_status f = lit ''accepted''
       then create_notification (other_user u f) u (lit ''friendRemoved'') (FriendshipData (fr_id f))
       else execute (\<lambda>d. d\<lparr>notifications := delete_where (\<lambda>x. no_recipient x = fr_addressee f \<and>
          no_actor x = fr_requester f \<and> no_kind x = lit ''friendRequest'' \<and> no_read x = None) (notifications d)\<rparr>)) (\<lambda>_.
     ret f))"

definition delete_friendship :: "platform \<Rightarrow> str option \<Rightarrow> uuid \<Rightarrow> ('m site_scheme, api_error, unit) prog" where
  "delete_friendship L header i =
     chain (caller L header) (\<lambda>u.
     chain (map_err social_error connect) (\<lambda>_.
     chain (map_err (\<lambda>e. if e = NotFound then (NOT_FOUND, lit ''Friendship not found'') else social_error e)
       (transaction (delete_rows i u))) (\<lambda>f.
     chain (publish [fr_requester f, fr_addressee f] Friends) (\<lambda>_.
     if fr_status f = lit ''accepted'' then publish [other_user u f] Notifications else ret ()))))"

section \<open>Presence and the list of meetings\<close>

definition update_presence :: "platform \<Rightarrow> str option \<Rightarrow> ('m site_scheme, api_error, unit) prog" where
  "update_presence L header =
     chain (caller L header) (\<lambda>u.
     chain (map_err social_error connect) (\<lambda>_.
     chain utc_now (\<lambda>now.
     map_err social_error (statement (\<lambda>d. if user_exists d u
       then Inr ((), d\<lparr>user_presence := AList.update u now (user_presence d)\<rparr>) else Inl ForeignKeyViolation)))))"

record meeting_history_response =
  mhr_id :: uuid
  mhr_room :: str
  mhr_last_joined :: instant

definition history_response :: "meeting_history_row \<Rightarrow> meeting_history_response" where
  "history_response m = \<lparr>mhr_id = mh_id m, mhr_room = mh_room m, mhr_last_joined = mh_last_joined m\<rparr>"

definition list_meetings :: "platform \<Rightarrow> str option \<Rightarrow> ('m site_scheme, api_error, meeting_history_response list) prog" where
  "list_meetings L header =
     chain (caller L header) (\<lambda>u.
     chain (map_err social_error connect) (\<lambda>_.
     map_err social_error (select (\<lambda>d. map history_response
       (take 12 (order_desc mh_last_joined (filter (\<lambda>m. mh_user m = u) (meeting_history d))))))))"

text \<open>\<open>INSERT ... ON CONFLICT (user_id, room_id) DO UPDATE SET last_joined_at\<close>.\<close>

definition upsert_meeting :: "meeting_history_row \<Rightarrow> database \<Rightarrow> db_error + meeting_history_row \<times> database" where
  "upsert_meeting m d =
     (let hit = (\<lambda>x. mh_user x = mh_user m \<and> mh_room x = mh_room m) in
      case find hit (meeting_history d) of
        Some x \<Rightarrow> Inr (x\<lparr>mh_last_joined := mh_last_joined m\<rparr>,
          d\<lparr>meeting_history := update_where hit (\<lambda>x. x\<lparr>mh_last_joined := mh_last_joined m\<rparr>) (meeting_history d)\<rparr>)
      | None \<Rightarrow>
          if list_ex (\<lambda>x. mh_id x = mh_id m) (meeting_history d) then Inl UniqueViolation
          else if \<not> user_exists d (mh_user m) then Inl ForeignKeyViolation
          else Inr (m, d\<lparr>meeting_history := meeting_history d @ [m]\<rparr>))"

definition prune_meetings :: "uuid \<Rightarrow> database \<Rightarrow> database" where
  "prune_meetings u d =
     (let kept = take 12 (order_desc mh_last_joined (filter (\<lambda>m. mh_user m = u) (meeting_history d))) in
      d\<lparr>meeting_history := delete_where (\<lambda>m. mh_user m = u \<and> mh_id m \<notin> set (map mh_id kept)) (meeting_history d)\<rparr>)"

definition record_meeting :: "platform \<Rightarrow> str option \<Rightarrow> str \<Rightarrow> ('m site_scheme, api_error, meeting_history_response) prog" where
  "record_meeting L header room_id =
     chain (caller L header) (\<lambda>u.
     chain (guard (is_valid_room_id room_id) (BAD_REQUEST, lit ''Invalid room ID'')) (\<lambda>_.
     chain (map_err social_error connect) (\<lambda>_.
     chain utc_now (\<lambda>now.
     chain new_uuid (\<lambda>i.
     chain (map_err social_error (statement (upsert_meeting
       \<lparr>mh_id = i, mh_user = u, mh_room = room_id, mh_last_joined = now\<rparr>))) (\<lambda>m.
     chain (map_err social_error (execute (prune_meetings u))) (\<lambda>_.
     ret (history_response m))))))))"

definition delete_meeting :: "platform \<Rightarrow> str option \<Rightarrow> uuid \<Rightarrow> ('m site_scheme, api_error, unit) prog" where
  "delete_meeting L header i =
     chain (caller L header) (\<lambda>u.
     chain (map_err social_error connect) (\<lambda>_.
     chain (map_err social_error (statement (\<lambda>d. let hit = (\<lambda>m. mh_id m = i \<and> mh_user m = u) in
       Inr (length (filter hit (meeting_history d)),
         d\<lparr>meeting_history := delete_where hit (meeting_history d)\<rparr>)))) (\<lambda>deleted.
     guard (deleted \<noteq> 0) (NOT_FOUND, lit ''Meeting not found''))))"

end
