(* ===== verification/GroupCodes.thy ===== *)
theory GroupCodes
  imports Avatars MeetingRooms
begin

text \<open>
  The codes by which groups are shared (\<open>src/social/conversations.rs\<close>): the 128 bits of the group's UUID as
  22 digits in base 62, computed by long division on the bytes, and the normalisation of what users type.
\<close>

section \<open>Encoding\<close>

text \<open>\<open>Uuid::as_bytes\<close>, most significant byte first.\<close>

fun be_bytes :: "nat \<Rightarrow> uuid \<Rightarrow> 8 word list" where
  "be_bytes 0 u = []"
| "be_bytes (Suc k) u = be_bytes k (drop_bit 8 u) @ [ucast u]"

definition ALPHABET :: str where
  "ALPHABET = lit ''0123456789ABCDEFGHIJKLMNOPQRSTUVWXYZabcdefghijklmnopqrstuvwxyz''"

text \<open>One pass over the bytes: the remainder and the quotient of the division by 62, in 16-bit arithmetic.\<close>

fun divide62 :: "16 word \<Rightarrow> 8 word list \<Rightarrow> 16 word \<times> 8 word list" where
  "divide62 remainder [] = (remainder, [])"
| "divide62 remainder (b # bs) =
     (let v = remainder * 256 + ucast b;
          (r, qs) = divide62 (v mod 62) bs in
      (r, ucast (v div 62) # qs))"

fun fill_code :: "nat \<Rightarrow> 8 word list \<Rightarrow> str \<Rightarrow> str" where
  "fill_code 0 remaining code = code"
| "fill_code (Suc k) remaining code =
     (let (r, remaining) = divide62 0 remaining in fill_code k remaining (ALPHABET ! unat r # code))"

definition group_code_from_uuid :: "uuid \<Rightarrow> str" where
  "group_code_from_uuid u = fill_code 22 (be_bytes 16 u) []"

definition normalize_group_code :: "str \<Rightarrow> str option" where
  "normalize_group_code code =
     (let code = trim code in
      if byte_len code = 22 \<and> list_all is_ascii_alphanumeric code then Some code
      else let legacy_code = map to_ascii_lower code in
        if byte_len legacy_code \<le> 80 \<and>
           list_all (\<lambda>p. p \<noteq> [] \<and> list_all is_ascii_alphanumeric p) (split_at 45 legacy_code)
        then Some legacy_code else None)"

section \<open>The code is the UUID in base 62\<close>

definition number :: "8 word list \<Rightarrow> nat" where
  "number bs = foldl (\<lambda>n b. n * 256 + unat b) 0 bs"

lemma number_snoc [simp]: "number (bs @ [b]) = number bs * 256 + unat b"
  by (simp add: number_def)

lemma foldl_shift: "foldl (\<lambda>n b. n * 256 + unat b) a bs = a * 256 ^ length bs + number (bs :: 8 word list)"
proof (induction bs arbitrary: a)
  case (Cons b bs)
  have "foldl (\<lambda>n b. n * 256 + unat b) a (b # bs) = (a * 256 + unat b) * 256 ^ length bs + number bs"
    by (simp add: Cons)
  moreover have "number (b # bs) = unat b * 256 ^ length bs + number bs"
    by (simp add: number_def Cons [of "unat b", unfolded number_def])
  ultimately show ?case by (simp add: add_mult_distrib)
qed (simp add: number_def)

lemma number_Cons [simp]: "number (b # bs) = unat b * 256 ^ length bs + number bs"
  using foldl_shift [of "unat b" bs] by (simp add: number_def)

lemma number_Nil [simp]: "number [] = 0"
  by (simp add: number_def)

lemma length_be_bytes [simp]: "length (be_bytes k u) = k"
  by (induction k arbitrary: u) simp_all

lemma number_be_bytes: "number (be_bytes k u) = unat u mod 256 ^ k"
proof (induction k arbitrary: u)
  case (Suc k)
  have "unat (ucast u :: 8 word) = unat u mod 256" by (simp add: unsigned_ucast_eq take_bit_eq_mod)
  moreover have "unat (drop_bit 8 u) = unat u div 256" by (subst unat_drop_bit_eq, subst drop_bit_eq_div, simp)
  ultimately have "number (be_bytes (Suc k) u) = (unat u div 256 mod 256 ^ k) * 256 + unat u mod 256"
    using Suc by simp
  also have "\<dots> = unat u mod 256 ^ Suc k"
    by (simp add: mod_mult2_eq algebra_simps)
  finally show ?case .
qed simp

text \<open>No step of the division overflows its 16 bits.\<close>

lemma divide_step:
  assumes "unat (r :: 16 word) < 62"
  shows "unat (r * 256 + ucast (b :: 8 word)) = unat r * 256 + unat b"
    and "unat ((r * 256 + ucast b) mod 62) = (unat r * 256 + unat b) mod 62"
    and "unat (ucast ((r * 256 + ucast b) div 62) :: 8 word) = (unat r * 256 + unat b) div 62"
proof -
  have b: "unat b < 256" using unsigned_less [of b, where ?'a = nat] by simp
  then have small: "unat r * 256 + unat b < 2 ^ 16" using assms by simp
  have m: "unat (r * 256) = unat r * 256"
    using assms by (subst unat_mult_lem [THEN iffD1]) simp_all
  have c: "unat (ucast b :: 16 word) = unat b" using b by (simp add: unsigned_ucast_eq take_bit_eq_mod)
  show v: "unat (r * 256 + ucast b) = unat r * 256 + unat b"
    using small m c by (subst unat_add_lem [THEN iffD1]) simp_all
  show "unat ((r * 256 + ucast b) mod 62) = (unat r * 256 + unat b) mod 62"
    by (simp add: unat_mod v)
  have "unat ((r * 256 + ucast b) div 62) = (unat r * 256 + unat b) div 62" by (simp add: unat_div v)
  moreover have "(unat r * 256 + unat b) div 62 < 256" using assms b by (simp add: div_less_iff_less_mult)
  ultimately show "unat (ucast ((r * 256 + ucast b) div 62) :: 8 word) = (unat r * 256 + unat b) div 62"
    by (simp add: unsigned_ucast_eq take_bit_eq_mod)
qed

lemma divide62_spec:
  assumes "unat r < 62" and "divide62 r bs = (r', qs)"
  shows "unat r * 256 ^ length bs + number bs = number qs * 62 + unat r' \<and> unat r' < 62 \<and> length qs = length bs"
  using assms
proof (induction bs arbitrary: r r' qs)
  case (Cons b bs)
  let ?v = "unat r * 256 + unat b"
  obtain qs' where d: "divide62 ((r * 256 + ucast b) mod 62) bs = (r', qs')"
    and qs: "qs = ucast ((r * 256 + ucast b) div 62) # qs'"
    using Cons.prems(2) by (auto simp: Let_def split: prod.splits)
  have "unat ((r * 256 + ucast b) mod 62) < 62" using divide_step(2) [OF Cons.prems(1)] by simp
  from Cons.IH [OF this d] have ih: "?v mod 62 * 256 ^ length bs + number bs = number qs' * 62 + unat r'"
    "unat r' < 62" "length qs' = length bs"
    using divide_step(2) [OF Cons.prems(1)] by simp_all
  have "unat r * 256 ^ length (b # bs) + number (b # bs) = ?v * 256 ^ length bs + number bs"
    by (simp add: algebra_simps)
  also have "\<dots> = (?v div 62 * 62 + ?v mod 62) * 256 ^ length bs + number bs" by simp
  also have "\<dots> = ?v div 62 * 256 ^ length bs * 62 + (?v mod 62 * 256 ^ length bs + number bs)"
    by (simp only: algebra_simps)
  also have "\<dots> = number qs * 62 + unat r'"
    using ih divide_step(3) [OF Cons.prems(1), of b] by (simp add: qs algebra_simps)
  finally show ?case using ih qs by simp
qed simp

text \<open>The value of a code, reading its characters as digits.\<close>

fun digit62 :: "uchar \<Rightarrow> nat" where
  "digit62 c = (if is_ascii_digit c then c - 48 else if is_ascii_uppercase c then c - 55 else c - 61)"

definition code_value :: "str \<Rightarrow> nat" where
  "code_value code = foldl (\<lambda>n c. n * 62 + digit62 c) 0 code"

lemma alphabet: "k < 62 \<Longrightarrow> digit62 (ALPHABET ! k) = k \<and> is_ascii_alphanumeric (ALPHABET ! k)"
proof -
  have "\<forall>k \<in> set [0..<62]. digit62 (ALPHABET ! k) = k \<and> is_ascii_alphanumeric (ALPHABET ! k)"
    by code_simp
  then show "k < 62 \<Longrightarrow> ?thesis" by simp
qed

lemma code_value_snoc: "code_value (ds @ [c]) = code_value ds * 62 + digit62 c"
  by (simp add: code_value_def)

lemma fill_code_spec:
  "\<exists>ds. fill_code k bs code = ds @ code \<and> length ds = k \<and> list_all is_ascii_alphanumeric ds \<and>
     code_value ds = number bs mod 62 ^ k"
proof (induction k arbitrary: bs code)
  case 0
  then show ?case by (simp add: code_value_def)
next
  case (Suc k)
  obtain r qs where d: "divide62 0 bs = (r, qs)" by (cases "divide62 0 bs")
  have n: "number bs = number qs * 62 + unat r" "unat r < 62"
    using divide62_spec [OF _ d] by simp_all
  from Suc obtain ds where ds: "fill_code k qs (ALPHABET ! unat r # code) = ds @ ALPHABET ! unat r # code"
    "length ds = k" "list_all is_ascii_alphanumeric ds" "code_value ds = number qs mod 62 ^ k" by blast
  have "code_value (ds @ [ALPHABET ! unat r]) = (number qs mod 62 ^ k) * 62 + unat r"
    using ds(4) alphabet [OF n(2)] by (simp add: code_value_snoc del: digit62.simps)
  also have "\<dots> = number bs mod 62 ^ Suc k"
    using n by (simp add: mod_mult2_eq)
  finally show ?case
    using ds d alphabet [OF n(2)] by (intro exI [of _ "ds @ [ALPHABET ! unat r]"]) simp
qed

lemma is_ascii_alphanumeric_bounds: "is_ascii_alphanumeric c \<Longrightarrow> 48 \<le> c \<and> c \<le> 122 \<and> \<not> is_whitespace c \<and> len_utf8 c = 1"
  by (auto simp: is_ascii_alphanumeric_def is_ascii_lowercase_def is_ascii_uppercase_def is_ascii_digit_def
      is_whitespace_def len_utf8_def)

lemma trim_no_whitespace:
  assumes "\<And>c. c \<in> set s \<Longrightarrow> \<not> is_whitespace c"
  shows "trim s = s"
proof -
  have drop: "dropWhile is_whitespace t = t" if "set t \<subseteq> set s" for t
    using that assms by (cases t) auto
  show ?thesis by (simp add: trim_def trim_start_def trim_end_def drop)
qed

lemma byte_len_ascii: "list_all is_ascii_alphanumeric s \<Longrightarrow> byte_len s = length s"
  by (induction s) (auto simp: byte_len_def is_ascii_alphanumeric_bounds)

text \<open>
  C28. Group codes round-trip. The code of a group has 22 letters and digits and survives the normalisation
  of what users type, and the UUID can be read back from it as a number in base 62; so two groups never
  share a code.
\<close>

theorem group_code_round_trip:
  "length (group_code_from_uuid u) = 22 \<and>
   normalize_group_code (group_code_from_uuid u) = Some (group_code_from_uuid u) \<and>
   of_nat (code_value (group_code_from_uuid u)) = u \<and>
   (group_code_from_uuid u = group_code_from_uuid v \<longleftrightarrow> u = v)"
proof -
  have small: "unat x mod 256 ^ 16 mod 62 ^ 22 = unat x" for x :: uuid
    using unsigned_less [of x, where ?'a = nat] by simp
  have spec: "length (group_code_from_uuid x) = 22 \<and> list_all is_ascii_alphanumeric (group_code_from_uuid x) \<and>
      code_value (group_code_from_uuid x) = unat x" for x
    using fill_code_spec [of 22 "be_bytes 16 x" "[]"]
    unfolding group_code_from_uuid_def number_be_bytes small by auto
  have inverse: "of_nat (code_value (group_code_from_uuid x)) = x" for x by (simp add: spec)
  have "normalize_group_code (group_code_from_uuid u) = Some (group_code_from_uuid u)"
  proof -
    have "trim (group_code_from_uuid u) = group_code_from_uuid u"
      using spec [of u] is_ascii_alphanumeric_bounds by (intro trim_no_whitespace) (auto simp: list_all_iff)
    then show ?thesis using spec [of u] by (simp add: normalize_group_code_def byte_len_ascii)
  qed
  then show ?thesis using spec [of u] inverse by metis
qed

end
