(* ===== verification/Conversations.thy ===== *)
theory Conversations
  imports Friendships GroupCodes
begin

text \<open>
  Conversations as the handlers see them (\<open>src/social/conversations.rs\<close>): groups and direct conversations,
  their constraints in the database, what is answered about them, and the validation of requests.
\<close>

section \<open>Rows and responses\<close>

datatype conversation_kind = GroupKind | DirectKind

definition kind_from_db_value :: "str \<Rightarrow> conversation_kind option" where
  "kind_from_db_value v = (if v = lit ''group'' then Some GroupKind else if v = lit ''direct'' then Some DirectKind else None)"

record conversation_response =
  cr_id :: uuid
  cr_kind :: conversation_kind
  cr_title :: "str option"
  cr_policy :: "group_access_policy option"
  cr_group_code :: "str option"
  cr_avatar_url :: "str option"
  cr_role :: "str option"
  cr_other_user :: "uuid option"
  cr_message_count :: nat
  cr_unread_count :: nat
  cr_marked_unread :: bool
  cr_created :: instant
  cr_updated :: instant

definition internal :: api_error where
  "internal = (INTERNAL_SERVER_ERROR, lit ''Request failed'')"

definition group_avatar_url_with_revision :: "platform \<Rightarrow> uuid \<Rightarrow> instant \<Rightarrow> str" where
  "group_avatar_url_with_revision L g updated =
     lit ''/social/conversations/groups/'' @ show_uuid L g @ lit ''/avatar?v='' @ show_nat updated"

definition group_avatar_url :: "platform \<Rightarrow> conversation_row \<Rightarrow> str option" where
  "group_avatar_url L c = map_option (\<lambda>_. group_avatar_url_with_revision L (cv_id c) (cv_updated c)) (cv_avatar_key c)"

definition group_policy :: "conversation_row \<Rightarrow> api_error + group_access_policy" where
  "group_policy c = ok_or internal (Option.bind (cv_policy c) from_db_value)"

text \<open>The other person of a direct conversation; nobody else may see it.\<close>

definition other_participant :: "conversation_row \<Rightarrow> uuid \<Rightarrow> uuid option" where
  "other_participant c u =
     (case (cv_low c, cv_high c) of
        (Some low, Some high) \<Rightarrow> if low = u then Some high else if high = u then Some low else None
      | _ \<Rightarrow> None)"

definition conversation_response_of ::
  "platform \<Rightarrow> conversation_row \<Rightarrow> uuid \<Rightarrow> str option \<Rightarrow> api_error + conversation_response" where
  "conversation_response_of L c u role =
     and_then (ok_or internal (kind_from_db_value (cv_kind c))) (\<lambda>kind.
     and_then (case cv_policy c of None \<Rightarrow> Inr None
               | Some v \<Rightarrow> map_sum (\<lambda>e. e) Some (ok_or internal (from_db_value v))) (\<lambda>p.
     and_then (case kind of GroupKind \<Rightarrow> Inr None
               | DirectKind \<Rightarrow> map_sum (\<lambda>e. e) Some
                   (ok_or (FORBIDDEN, lit ''Conversation access denied'') (other_participant c u))) (\<lambda>other.
     Inr \<lparr>cr_id = cv_id c, cr_kind = kind, cr_title = cv_title c, cr_policy = p, cr_group_code = cv_code c,
       cr_avatar_url = group_avatar_url L c, cr_role = role, cr_other_user = other, cr_message_count = 0,
       cr_unread_count = 0, cr_marked_unread = False, cr_created = cv_created c, cr_updated = cv_updated c\<rparr>)))"

section \<open>The table of conversations\<close>

text \<open>The check constraints of the migrations.\<close>

definition slug_parts :: "str \<Rightarrow> bool" where
  "slug_parts s \<longleftrightarrow> list_all (\<lambda>p. p \<noteq> [] \<and> list_all (\<lambda>c. is_ascii_lowercase c \<or> is_ascii_digit c) p) (split_at 45 s)"

definition group_avatar_prefix :: "platform \<Rightarrow> uuid \<Rightarrow> str" where
  "group_avatar_prefix L g = lit ''group-avatars/'' @ show_uuid L g @ lit ''/''"

definition valid_group_row :: "platform \<Rightarrow> conversation_row \<Rightarrow> bool" where
  "valid_group_row L c \<longleftrightarrow> cv_kind c = lit ''group'' \<and>
     (case cv_title c of None \<Rightarrow> False | Some t \<Rightarrow> length t \<le> 128) \<and>
     (case Option.bind (cv_policy c) from_db_value of
        None \<Rightarrow> False | Some p \<Rightarrow> (p = Password) = (cv_password_hash c \<noteq> None)) \<and>
     cv_low c = None \<and> cv_high c = None \<and>
     (case cv_code c of None \<Rightarrow> False | Some k \<Rightarrow> length k = 22 \<and> list_all is_ascii_alphanumeric k) \<and>
     (case cv_legacy_code c of None \<Rightarrow> True | Some k \<Rightarrow> slug_parts k) \<and>
     (case cv_avatar_key c of None \<Rightarrow> True | Some k \<Rightarrow> strip_prefix (group_avatar_prefix L (cv_id c)) k \<noteq> None)"

definition valid_direct_row :: "conversation_row \<Rightarrow> bool" where
  "valid_direct_row c \<longleftrightarrow> cv_kind c = lit ''direct'' \<and> cv_title c = None \<and> cv_policy c = None \<and>
     cv_password_hash c = None \<and>
     (case (cv_low c, cv_high c) of (Some low, Some high) \<Rightarrow> low < high | _ \<Rightarrow> False) \<and>
     cv_code c = None \<and> cv_legacy_code c = None \<and> cv_avatar_key c = None"

text \<open>Two conversations that no unique index allows beside each other.\<close>

definition conversations_clash :: "conversation_row \<Rightarrow> conversation_row \<Rightarrow> bool" where
  "conversations_clash c e \<longleftrightarrow> cv_id c = cv_id e \<or>
     (cv_low c \<noteq> None \<and> cv_high c \<noteq> None \<and> cv_low c = cv_low e \<and> cv_high c = cv_high e) \<or>
     (cv_code c \<noteq> None \<and> cv_code c = cv_code e) \<or>
     (cv_legacy_code c \<noteq> None \<and> cv_legacy_code c = cv_legacy_code e) \<or>
     (cv_avatar_key c \<noteq> None \<and> cv_avatar_key c = cv_avatar_key e)"

definition insert_conversation ::
  "platform \<Rightarrow> conversation_row \<Rightarrow> database \<Rightarrow> db_error + conversation_row \<times> database" where
  "insert_conversation L c d =
     (if \<not> valid_group_row L c \<and> \<not> valid_direct_row c then Inl CheckViolation
      else if list_ex (conversations_clash c) (conversations d) then Inl UniqueViolation
      else if \<not> user_exists d (cv_creator c) \<or> (\<exists>u \<in> set_option (cv_low c) \<union> set_option (cv_high c). \<not> user_exists d u)
      then Inl ForeignKeyViolation
      else Inr (c, d\<lparr>conversations := conversations d @ [c]\<rparr>))"

text \<open>\<open>UPDATE conversations ... RETURNING\<close> of one conversation.\<close>

definition update_conversation ::
  "platform \<Rightarrow> uuid \<Rightarrow> (conversation_row \<Rightarrow> conversation_row) \<Rightarrow> database \<Rightarrow> db_error + conversation_row \<times> database" where
  "update_conversation L g f d =
     (case find (\<lambda>c. cv_id c = g) (conversations d) of
        None \<Rightarrow> Inl NotFound
      | Some c \<Rightarrow>
          if \<not> valid_group_row L (f c) \<and> \<not> valid_direct_row (f c) then Inl CheckViolation
          else if list_ex (\<lambda>e. cv_id e \<noteq> g \<and> conversations_clash (f c) e) (conversations d) then Inl UniqueViolation
          else if \<not> user_exists d (cv_creator (f c)) then Inl ForeignKeyViolation
          else Inr (f c, d\<lparr>conversations := update_where (\<lambda>c. cv_id c = g) f (conversations d)\<rparr>))"

text \<open>\<open>INSERT INTO conversation_members\<close>, failing or doing nothing for a row that is there.\<close>

definition member_reference_ok :: "member_row \<Rightarrow> database \<Rightarrow> bool" where
  "member_reference_ok m d \<longleftrightarrow> list_ex (\<lambda>c. cv_id c = me_conversation m) (conversations d) \<and> user_exists d (me_user m)"

definition insert_members :: "member_row list \<Rightarrow> database \<Rightarrow> db_error + unit \<times> database" where
  "insert_members ms d =
     (if \<not> distinct (map (\<lambda>m. (me_conversation m, me_user m)) ms) \<or>
         list_ex (\<lambda>m. is_member d (me_conversation m) (me_user m)) ms then Inl UniqueViolation
      else if \<not> list_all (\<lambda>m. member_reference_ok m d) ms then Inl ForeignKeyViolation
      else Inr ((), d\<lparr>conversation_members := conversation_members d @ ms\<rparr>))"

definition insert_member_if_absent :: "member_row \<Rightarrow> database \<Rightarrow> db_error + unit \<times> database" where
  "insert_member_if_absent m d =
     (if is_member d (me_conversation m) (me_user m) then Inr ((), d)
      else if \<not> member_reference_ok m d then Inl ForeignKeyViolation
      else Inr ((), d\<lparr>conversation_members := conversation_members d @ [m]\<rparr>))"

text \<open>Deleting a conversation takes everything that refers to it along.\<close>

definition delete_conversation :: "uuid \<Rightarrow> database \<Rightarrow> database" where
  "delete_conversation g d =
     (let messages = map mg_sequence (filter (\<lambda>m. mg_conversation m = g) (conversation_messages d));
          sessions = map cs_id (filter (\<lambda>s. cs_conversation s = g) (call_sessions d)) in
      d\<lparr>conversations := delete_where (\<lambda>c. cv_id c = g) (conversations d),
        conversation_members := delete_where (\<lambda>m. me_conversation m = g) (conversation_members d),
        conversation_messages := delete_where (\<lambda>m. mg_conversation m = g) (conversation_messages d),
        message_attachments := delete_where (\<lambda>a. at_message a \<in> set messages) (message_attachments d),
        message_reactions := delete_where (\<lambda>r. re_message r \<in> set messages) (message_reactions d),
        conversation_read_states := delete_where (\<lambda>r. rs_conversation r = g) (conversation_read_states d),
        conversation_hidden_states := delete_where (\<lambda>h. fst h = g) (conversation_hidden_states d),
        group_invitations := delete_where (\<lambda>i. gi_conversation i = g) (group_invitations d),
        call_sessions := delete_where (\<lambda>s. cs_conversation s = g) (call_sessions d),
        call_session_members := delete_where (\<lambda>m. cm_session m \<in> set sessions) (call_session_members d),
        call_read_states := delete_where (\<lambda>r. fst r \<in> set sessions) (call_read_states d)\<rparr>)"

section \<open>Listing conversations\<close>

record message_counts =
  mc_conversation :: uuid
  mc_messages :: nat
  mc_unread :: nat
  mc_marked :: bool

text \<open>The grouped query: conversations without a message have no row.\<close>

definition read_state_of :: "database \<Rightarrow> uuid \<Rightarrow> uuid \<Rightarrow> read_state_row option" where
  "read_state_of d c u = find (\<lambda>r. rs_conversation r = c \<and> rs_user r = u) (conversation_read_states d)"

definition last_read :: "database \<Rightarrow> uuid \<Rightarrow> uuid \<Rightarrow> nat" where
  "last_read d c u = (case read_state_of d c u of None \<Rightarrow> 0 | Some r \<Rightarrow> rs_last r)"

definition counts_of :: "database \<Rightarrow> uuid \<Rightarrow> uuid \<Rightarrow> message_counts option" where
  "counts_of d u c =
     (let messages = filter (\<lambda>m. mg_conversation m = c) (conversation_messages d) in
      if messages = [] then None
      else Some \<lparr>mc_conversation = c, mc_messages = length messages,
        mc_unread = length (filter (\<lambda>m. mg_sender m \<noteq> u \<and> last_read d c u < mg_sequence m) messages),
        mc_marked = (case read_state_of d c u of None \<Rightarrow> False | Some r \<Rightarrow> rs_marked r)\<rparr>)"

definition message_counts_for_conversations ::
  "uuid \<Rightarrow> uuid list \<Rightarrow> ('m site_scheme, api_error, message_counts list) prog" where
  "message_counts_for_conversations u ids =
     (if ids = [] then ret []
      else map_err social_error (select (\<lambda>d. List.map_filter (counts_of d u) (remdups ids))))"

fun collect_responses :: "(api_error + 'a) list \<Rightarrow> api_error + 'a list" where
  "collect_responses [] = Inr []"
| "collect_responses (r # rs) = and_then r (\<lambda>x. and_then (collect_responses rs) (\<lambda>xs. Inr (x # xs)))"

definition with_counts :: "message_counts list \<Rightarrow> conversation_response \<Rightarrow> conversation_response" where
  "with_counts counts c =
     (case find (\<lambda>k. mc_conversation k = cr_id c) counts of
        None \<Rightarrow> c\<lparr>cr_message_count := 0, cr_unread_count := 0, cr_marked_unread := False\<rparr>
      | Some k \<Rightarrow> c\<lparr>cr_message_count := mc_messages k, cr_unread_count := mc_unread k, cr_marked_unread := mc_marked k\<rparr>)"

definition list_conversations :: "platform \<Rightarrow> str option \<Rightarrow> ('m site_scheme, api_error, conversation_response list) prog" where
  "list_conversations L header =
     chain (caller L header) (\<lambda>u.
     chain (map_err social_error connect) (\<lambda>_.
     chain (map_err social_error (select (\<lambda>d. filter (\<lambda>m. me_user m = u) (conversation_members d)))) (\<lambda>memberships.
     let roles = map (\<lambda>m. (me_conversation m, me_role m)) memberships in
     chain (map_err social_error (select (\<lambda>d. filter (\<lambda>c. cv_kind c = lit ''group'' \<and> cv_id c \<in> set (map fst roles))
       (conversations d)))) (\<lambda>groups.
     chain (map_err social_error (select (\<lambda>d. filter (\<lambda>c. cv_kind c = lit ''direct'' \<and>
         (cv_id c, u) \<notin> set (conversation_hidden_states d) \<and> (cv_low c = Some u \<or> cv_high c = Some u))
       (conversations d)))) (\<lambda>direct.
     chain (result (collect_responses (map (\<lambda>c. conversation_response_of L c u (map_of (rev roles) (cv_id c)))
       (groups @ direct)))) (\<lambda>response.
     chain (message_counts_for_conversations u (map cr_id response)) (\<lambda>counts.
     ret (order_desc cr_updated (map (with_counts counts) response)))))))))"

definition list_groups :: "platform \<Rightarrow> str option \<Rightarrow> ('m site_scheme, api_error, conversation_response list) prog" where
  "list_groups L header =
     chain (list_conversations L header) (\<lambda>cs. ret (filter (\<lambda>c. cr_kind c = GroupKind) cs))"

section \<open>Validation\<close>

definition validate_group_title :: "str \<Rightarrow> api_error + str" where
  "validate_group_title title =
     (let title = trim title in
      if title = [] \<or> 128 < byte_len title then Inl (BAD_REQUEST, lit ''Group title must contain 1 to 128 characters'')
      else Inr title)"

definition validate_password_for_policy :: "group_access_policy \<Rightarrow> str option \<Rightarrow> api_error + unit" where
  "validate_password_for_policy p password =
     (case password of
        Some t \<Rightarrow> if p = Password then
            (if 8 \<le> byte_len t \<and> byte_len t \<le> 256 then Inr ()
             else Inl (BAD_REQUEST, lit ''Group passwords must contain 8 to 256 characters''))
          else Inl (BAD_REQUEST, lit ''Only password groups may include a password'')
      | None \<Rightarrow> if p = Password then Inl (BAD_REQUEST, lit ''Group passwords must contain 8 to 256 characters'')
          else Inr ())"

definition validate_initial_member_ids :: "uuid \<Rightarrow> uuid list \<Rightarrow> api_error + uuid list" where
  "validate_initial_member_ids creator ids =
     (if 100 < length ids then Inl (BAD_REQUEST, lit ''Groups may include at most 100 initial members'')
      else case find (\<lambda>k. ids ! k = creator \<or> ids ! k \<in> set (take k ids)) [0..<length ids] of
          None \<Rightarrow> Inr ids
        | Some k \<Rightarrow> if ids ! k = creator then Inl (BAD_REQUEST, lit ''The group creator cannot be an initial member'')
                    else Inl (BAD_REQUEST, lit ''Initial group members must be unique''))"

definition validate_group_update_request ::
  "group_access_policy \<Rightarrow> group_access_policy option \<Rightarrow> bool \<Rightarrow> api_error + group_access_policy" where
  "validate_group_update_request current requested password_supplied =
     (let p = (case requested of None \<Rightarrow> current | Some p \<Rightarrow> p) in
      if p = Password then
        (if current \<noteq> Password \<and> \<not> password_supplied
         then Inl (BAD_REQUEST, lit ''Group passwords must contain 8 to 256 characters'') else Inr p)
      else if password_supplied then Inl (BAD_REQUEST, lit ''Only password groups may include a password'')
      else Inr p)"

definition can_delete_group :: "str \<Rightarrow> bool" where
  "can_delete_group role \<longleftrightarrow> role = lit ''creator'' \<or> role = lit ''admin''"

definition can_view_group_info :: "group_access_policy \<Rightarrow> bool \<Rightarrow> bool" where
  "can_view_group_info p joined \<longleftrightarrow> joined \<or> p = Open \<or> p = Password"

definition can_join_group :: "bool \<Rightarrow> bool" where
  "can_join_group joined \<longleftrightarrow> \<not> joined"

text \<open>Argon2, as a function of the platform.\<close>

definition hash_group_password :: "platform \<Rightarrow> str option \<Rightarrow> api_error + str option" where
  "hash_group_password L password =
     (case password of None \<Rightarrow> Inr None | Some t \<Rightarrow> map_sum (\<lambda>e. e) Some (ok_or internal (hash_password L t)))"

definition verify_group_password :: "platform \<Rightarrow> str option \<Rightarrow> str option \<Rightarrow> api_error + bool" where
  "verify_group_password L h password =
     (case (h, password) of
        (Some h, Some t) \<Rightarrow> if parses_hash L h then Inr (verify_hash L h t) else Inl internal
      | _ \<Rightarrow> Inr False)"

definition GROUP_PAGE_SIZE :: nat where "GROUP_PAGE_SIZE = 50"

definition validated_page_offset :: "64 word option \<Rightarrow> api_error + 64 word" where
  "validated_page_offset offset =
     (let k = (case offset of None \<Rightarrow> 0 | Some k \<Rightarrow> k) in
      if 0 \<le> sint k then Inr k else Inl (BAD_REQUEST, lit ''Offset must not be negative''))"

text \<open>The rows without the look-ahead row, and where the next page begins (wrapping around like the code).\<close>

definition next_page_offset :: "'a list \<Rightarrow> 64 word \<Rightarrow> 'a list \<times> 64 word option" where
  "next_page_offset rows offset =
     (take GROUP_PAGE_SIZE rows,
      if GROUP_PAGE_SIZE < length rows then Some (offset + of_nat GROUP_PAGE_SIZE) else None)"

end
