(* ===== verification/GroupHandlers.thy ===== *)
theory GroupHandlers
  imports Conversations
begin

text \<open>
  The handlers of groups (\<open>src/social/conversations.rs\<close>): creating, finding, joining, changing and leaving
  them, their members and roles. What a handler asks of the media server after its transaction is recorded
  in the site; the theory \<open>Session\<close> says what the media server does then.
\<close>

section \<open>The media server\<close>

datatype media_command = DisconnectUser "str list" uuid | CloseRooms "str list"

record social_site = site +
  media :: "media_command list"

definition command :: "media_command \<Rightarrow> ('m social_site_scheme, 'e, unit) prog" where
  "command c w n s = (Inr (), n, s\<lparr>media := media s @ [c]\<rparr>)"

text \<open>Running a body once for each element of a list.\<close>

fun for_each :: "('a \<Rightarrow> ('s, 'e, unit) prog) \<Rightarrow> 'a list \<Rightarrow> ('s, 'e, unit) prog" where
  "for_each body [] = ret ()"
| "for_each body (x # xs) = chain (body x) (\<lambda>_. for_each body xs)"

section \<open>Finding a group and one's role in it\<close>

definition group_not_found :: "db_error \<Rightarrow> api_error" where
  "group_not_found e = (if e = NotFound then (NOT_FOUND, lit ''Group not found'') else social_error e)"

definition group_row :: "uuid \<Rightarrow> database \<Rightarrow> conversation_row option" where
  "group_row g d = find (\<lambda>c. cv_id c = g \<and> cv_kind c = lit ''group'') (conversations d)"

definition load_group :: "uuid \<Rightarrow> ('m site_scheme, api_error, conversation_row) prog" where
  "load_group g = map_err group_not_found (first (group_row g))"

text \<open>The same query with a row lock, which a transaction that runs alone does not need.\<close>

definition load_group_for_update :: "uuid \<Rightarrow> ('m site_scheme, api_error, conversation_row) prog" where
  "load_group_for_update g = map_err group_not_found (first (group_row g))"

definition load_group_by_code :: "str \<Rightarrow> ('m site_scheme, api_error, conversation_row) prog" where
  "load_group_by_code code =
     (case normalize_group_code code of
        None \<Rightarrow> throw (NOT_FOUND, lit ''Group not found'')
      | Some k \<Rightarrow> map_err group_not_found (first (\<lambda>d. find (\<lambda>c. cv_kind c = lit ''group'' \<and>
          (cv_code c = Some k \<or> cv_legacy_code c = Some k)) (conversations d))))"

definition role_in :: "database \<Rightarrow> uuid \<Rightarrow> uuid \<Rightarrow> str option" where
  "role_in d g u = map_option me_role (find (\<lambda>m. me_conversation m = g \<and> me_user m = u) (conversation_members d))"

definition group_member_role :: "uuid \<Rightarrow> uuid \<Rightarrow> ('m site_scheme, api_error, str option) prog" where
  "group_member_role g u = map_err social_error (select (\<lambda>d. role_in d g u))"

definition is_admin_role :: "str option \<Rightarrow> bool" where
  "is_admin_role role \<longleftrightarrow> role = Some (lit ''creator'') \<or> role = Some (lit ''admin'')"

definition admin_required :: api_error where
  "admin_required = (FORBIDDEN, lit ''Group admin access is required'')"

definition require_group_admin :: "uuid \<Rightarrow> uuid \<Rightarrow> ('m site_scheme, api_error, conversation_row) prog" where
  "require_group_admin g u =
     chain (load_group g) (\<lambda>c.
     chain (group_member_role g u) (\<lambda>role.
     chain (guard (is_admin_role role) admin_required) (\<lambda>_. ret c)))"

definition require_group_admin_for_update :: "uuid \<Rightarrow> uuid \<Rightarrow> ('m site_scheme, api_error, conversation_row \<times> str) prog" where
  "require_group_admin_for_update g u =
     chain (load_group_for_update g) (\<lambda>c.
     chain (group_member_role g u) (\<lambda>role.
     case role of
       None \<Rightarrow> throw admin_required
     | Some r \<Rightarrow> if is_admin_role (Some r) then ret (c, r) else throw admin_required))"

definition ensure_user_exists :: "uuid \<Rightarrow> ('m site_scheme, api_error, unit) prog" where
  "ensure_user_exists u = chain (map_err user_not_found (first (user_row_of u))) (\<lambda>_. ret ())"

definition group_member_ids :: "uuid \<Rightarrow> ('m site_scheme, api_error, uuid list) prog" where
  "group_member_ids g = map_err social_error (select (\<lambda>d. map me_user (members_of d g)))"

definition publish_group_update :: "uuid \<Rightarrow> uuid list \<Rightarrow> ('m site_scheme, 'e, unit) prog" where
  "publish_group_update g extra =
     chain (attempt (group_member_ids g)) (\<lambda>r.
     case r of Inr us \<Rightarrow> publish (us @ extra) Conversations | Inl _ \<Rightarrow> ret ())"

section \<open>Admission\<close>

definition are_accepted_friends :: "uuid \<Rightarrow> uuid \<Rightarrow> ('m site_scheme, api_error, bool) prog" where
  "are_accepted_friends u v = map_err social_error (select (\<lambda>d. are_friends d u v))"

fun friends_with_all :: "uuid \<Rightarrow> uuid list \<Rightarrow> ('m site_scheme, api_error, bool) prog" where
  "friends_with_all candidate [] = ret True"
| "friends_with_all candidate (m # ms) =
     (if m = candidate then friends_with_all candidate ms
      else chain (are_accepted_friends candidate m) (\<lambda>ok.
        if ok then friends_with_all candidate ms else ret False))"

definition is_friends_with_every_member :: "uuid \<Rightarrow> uuid \<Rightarrow> ('m site_scheme, api_error, bool) prog" where
  "is_friends_with_every_member g candidate =
     chain (group_member_ids g) (\<lambda>ms. friends_with_all candidate ms)"

definition is_friends_with_any_member :: "uuid \<Rightarrow> uuid \<Rightarrow> ('m site_scheme, api_error, bool) prog" where
  "is_friends_with_any_member g candidate =
     map_err social_error (select (\<lambda>d. let ms = filter (\<lambda>m. m \<noteq> candidate) (map me_user (members_of d g)) in
       list_ex (\<lambda>f. fr_status f = lit ''accepted'' \<and>
         ((fr_requester f = candidate \<and> fr_addressee f \<in> set ms) \<or>
          (fr_addressee f = candidate \<and> fr_requester f \<in> set ms))) (friendships d)))"

definition authorize_friendship_policy ::
  "uuid \<Rightarrow> group_access_policy \<Rightarrow> uuid \<Rightarrow> ('m site_scheme, api_error, unit) prog" where
  "authorize_friendship_policy g p candidate =
     (case p of
        FriendsOnly \<Rightarrow> chain (is_friends_with_every_member g candidate) (\<lambda>ok.
          guard ok (FORBIDDEN, lit ''Friends-only groups require friendship with every member''))
      | FriendsOfFriends \<Rightarrow> chain (is_friends_with_any_member g candidate) (\<lambda>ok.
          guard ok (FORBIDDEN, lit ''Friends-of-friends groups require friendship with a member''))
      | _ \<Rightarrow> ret ())"

definition authorize_group_admission ::
  "platform \<Rightarrow> conversation_row \<Rightarrow> uuid \<Rightarrow> str option \<Rightarrow> ('m site_scheme, api_error, unit) prog" where
  "authorize_group_admission L c candidate password =
     chain (result (group_policy c)) (\<lambda>p.
     case p of
       Open \<Rightarrow> ret ()
     | Password \<Rightarrow> chain (result (verify_group_password L (cv_password_hash c) password)) (\<lambda>ok.
         guard ok (FORBIDDEN, lit ''Invalid group password''))
     | _ \<Rightarrow> authorize_friendship_policy (cv_id c) p candidate)"

definition authorize_admin_addition :: "conversation_row \<Rightarrow> uuid \<Rightarrow> ('m site_scheme, api_error, unit) prog" where
  "authorize_admin_addition c candidate =
     chain (result (group_policy c)) (\<lambda>p.
     case p of
       Open \<Rightarrow> ret ()
     | Password \<Rightarrow> throw (CONFLICT, lit ''Password-protected groups require an invitation'')
     | _ \<Rightarrow> authorize_friendship_policy (cv_id c) p candidate)"

definition touch_group :: "uuid \<Rightarrow> ('m site_scheme, api_error, unit) prog" where
  "touch_group g =
     chain utc_now (\<lambda>now.
     map_err social_error (execute (\<lambda>d. d\<lparr>conversations :=
       update_where (\<lambda>c. cv_id c = g) (\<lambda>c. c\<lparr>cv_updated := now\<rparr>) (conversations d)\<rparr>)))"

definition add_member :: "uuid \<Rightarrow> uuid \<Rightarrow> ('m site_scheme, api_error, unit) prog" where
  "add_member g u =
     chain utc_now (\<lambda>now.
     chain (map_err social_error (statement (insert_member_if_absent
       \<lparr>me_conversation = g, me_user = u, me_role = lit ''member'', me_joined = now\<rparr>))) (\<lambda>_.
     touch_group g))"

section \<open>Creating groups\<close>

definition canonical_user_pair :: "uuid \<Rightarrow> uuid \<Rightarrow> uuid \<times> uuid" where
  "canonical_user_pair u v = (if u < v then (u, v) else (v, u))"

fun pairs_among :: "uuid list \<Rightarrow> (uuid \<times> uuid) list" where
  "pairs_among [] = []"
| "pairs_among (u # us) = map (canonical_user_pair u) us @ pairs_among us"

definition required_initial_friendship_pairs ::
  "uuid \<Rightarrow> uuid list \<Rightarrow> group_access_policy \<Rightarrow> (uuid \<times> uuid) list" where
  "required_initial_friendship_pairs creator ids p =
     map (canonical_user_pair creator) ids @ (if p = FriendsOnly then pairs_among ids else [])"

definition validate_initial_member_friendships ::
  "uuid \<Rightarrow> uuid list \<Rightarrow> group_access_policy \<Rightarrow> ('m site_scheme, api_error, unit) prog" where
  "validate_initial_member_friendships creator ids p =
     (let required = required_initial_friendship_pairs creator ids p; people = ids @ [creator] in
      if required = [] then ret ()
      else chain (map_err social_error (select (\<lambda>d. map (\<lambda>f. canonical_user_pair (fr_requester f) (fr_addressee f))
          (filter (\<lambda>f. fr_status f = lit ''accepted'' \<and> fr_requester f \<in> set people \<and> fr_addressee f \<in> set people)
            (friendships d))))) (\<lambda>accepted.
        guard (list_all (\<lambda>q. q \<in> set accepted) required)
          (FORBIDDEN, if p = FriendsOnly then lit ''Friends-only groups require friendship with every member''
                      else lit ''Initial group members must be accepted friends'')))"

definition group_rows ::
  "platform \<Rightarrow> uuid \<Rightarrow> uuid \<Rightarrow> str \<Rightarrow> group_access_policy \<Rightarrow> str option \<Rightarrow> uuid list
     \<Rightarrow> ('m site_scheme, api_error, conversation_row) prog" where
  "group_rows L g u title p h ids =
     chain (validate_initial_member_friendships u ids p) (\<lambda>_.
     chain utc_now (\<lambda>now.
     chain (map_err social_error (statement (insert_conversation L
       \<lparr>cv_id = g, cv_kind = lit ''group'', cv_creator = u, cv_title = Some title, cv_policy = Some (as_db_value p),
        cv_password_hash = h, cv_low = None, cv_high = None, cv_code = Some (group_code_from_uuid g),
        cv_legacy_code = None, cv_avatar_key = None, cv_created = now, cv_updated = now\<rparr>))) (\<lambda>c.
     chain (map_err social_error (statement (insert_members
       (\<lparr>me_conversation = g, me_user = u, me_role = lit ''creator'', me_joined = now\<rparr> #
        map (\<lambda>v. \<lparr>me_conversation = g, me_user = v, me_role = lit ''member'', me_joined = now\<rparr>) ids)))) (\<lambda>_.
     ret c))))"

definition create_group ::
  "platform \<Rightarrow> str option \<Rightarrow> str \<Rightarrow> group_access_policy \<Rightarrow> str option \<Rightarrow> uuid list
     \<Rightarrow> ('m site_scheme, api_error, conversation_response) prog" where
  "create_group L header title p password ids =
     chain (caller L header) (\<lambda>u.
     chain (result (validate_group_title title)) (\<lambda>title.
     chain (result (validate_password_for_policy p password)) (\<lambda>_.
     chain (result (validate_initial_member_ids u ids)) (\<lambda>ids.
     chain (result (hash_group_password L password)) (\<lambda>h.
     chain new_uuid (\<lambda>g.
     chain (map_err social_error connect) (\<lambda>_.
     chain (transaction_as social_error (group_rows L g u title p h ids)) (\<lambda>c.
     chain (publish (ids @ [u]) Conversations) (\<lambda>_.
     result (conversation_response_of L c u (Some (lit ''creator''))))))))))))"

section \<open>Joining\<close>

definition join_rows ::
  "platform \<Rightarrow> uuid \<Rightarrow> uuid \<Rightarrow> str option \<Rightarrow> ('m site_scheme, api_error, conversation_row \<times> str) prog" where
  "join_rows L g u password =
     chain (load_group_for_update g) (\<lambda>c.
     chain (group_member_role g u) (\<lambda>role.
     case role of
       Some r \<Rightarrow> ret (c, r)
     | None \<Rightarrow>
         chain (authorize_group_admission L c u password) (\<lambda>_.
         chain (add_member g u) (\<lambda>_. ret (c, lit ''member'')))))"

definition join_group_impl ::
  "platform \<Rightarrow> uuid \<Rightarrow> uuid \<Rightarrow> str option \<Rightarrow> ('m site_scheme, api_error, conversation_response) prog" where
  "join_group_impl L u g password =
     chain (map_err social_error connect) (\<lambda>_.
     chain (transaction_as social_error (join_rows L g u password)) (\<lambda>(c, role).
     chain (publish_group_update g []) (\<lambda>_.
     result (conversation_response_of L c u (Some role)))))"

definition join_group ::
  "platform \<Rightarrow> str option \<Rightarrow> uuid \<Rightarrow> str option \<Rightarrow> ('m site_scheme, api_error, conversation_response) prog" where
  "join_group L header g password = chain (caller L header) (\<lambda>u. join_group_impl L u g password)"

definition join_group_by_code ::
  "platform \<Rightarrow> str option \<Rightarrow> str \<Rightarrow> str option \<Rightarrow> ('m site_scheme, api_error, conversation_response) prog" where
  "join_group_by_code L header code password =
     chain (caller L header) (\<lambda>u.
     chain (map_err social_error connect) (\<lambda>_.
     chain (load_group_by_code code) (\<lambda>c. join_group_impl L u (cv_id c) password)))"

section \<open>Changing a group\<close>

record update_group_request =
  ug_title :: "str option"
  ug_policy :: "group_access_policy option"
  ug_password :: "str option"

definition update_rows ::
  "platform \<Rightarrow> uuid \<Rightarrow> uuid \<Rightarrow> str option \<Rightarrow> group_access_policy option \<Rightarrow> bool \<Rightarrow> str option
     \<Rightarrow> ('m site_scheme, api_error, conversation_row \<times> str) prog" where
  "update_rows L g u title requested password_supplied h =
     chain (require_group_admin_for_update g u) (\<lambda>(c, role).
     chain (result (group_policy c)) (\<lambda>current.
     chain (result (validate_group_update_request current requested password_supplied)) (\<lambda>p.
     let title = (case title of Some t \<Rightarrow> Some t | None \<Rightarrow> cv_title c);
         h = (if p = Password then (case h of Some h \<Rightarrow> Some h | None \<Rightarrow> cv_password_hash c) else None) in
     chain utc_now (\<lambda>now.
     chain (map_err social_error (statement (update_conversation L g (\<lambda>c. c\<lparr>cv_title := title,
       cv_policy := Some (as_db_value p), cv_password_hash := h, cv_updated := now\<rparr>)))) (\<lambda>updated.
     ret (updated, role))))))"

definition update_group_impl ::
  "platform \<Rightarrow> uuid \<Rightarrow> uuid \<Rightarrow> update_group_request \<Rightarrow> ('m site_scheme, api_error, conversation_response) prog" where
  "update_group_impl L u g r =
     chain (guard (ug_title r \<noteq> None \<or> ug_policy r \<noteq> None \<or> ug_password r \<noteq> None)
       (BAD_REQUEST, lit ''At least one group field must be provided'')) (\<lambda>_.
     chain (result (case ug_title r of None \<Rightarrow> Inr None | Some t \<Rightarrow> map_sum (\<lambda>e. e) Some (validate_group_title t))) (\<lambda>title.
     chain (result (if ug_password r \<noteq> None then validate_password_for_policy Password (ug_password r) else Inr ())) (\<lambda>_.
     chain (map_err social_error connect) (\<lambda>_.
     chain (require_group_admin g u) (\<lambda>c.
     chain (result (group_policy c)) (\<lambda>current.
     chain (result (validate_group_update_request current (ug_policy r) (ug_password r \<noteq> None))) (\<lambda>_.
     chain (result (hash_group_password L (ug_password r))) (\<lambda>h.
     chain (map_err social_error connect) (\<lambda>_.
     chain (transaction_as social_error (update_rows L g u title (ug_policy r) (ug_password r \<noteq> None) h)) (\<lambda>(updated, role).
     chain (publish_group_update g []) (\<lambda>_.
     result (conversation_response_of L updated u (Some role)))))))))))))"

definition update_group ::
  "platform \<Rightarrow> str option \<Rightarrow> uuid \<Rightarrow> update_group_request \<Rightarrow> ('m site_scheme, api_error, conversation_response) prog" where
  "update_group L header g r = chain (caller L header) (\<lambda>u. update_group_impl L u g r)"

definition update_group_policy ::
  "platform \<Rightarrow> str option \<Rightarrow> uuid \<Rightarrow> group_access_policy \<Rightarrow> str option
     \<Rightarrow> ('m site_scheme, api_error, conversation_response) prog" where
  "update_group_policy L header g p password =
     chain (caller L header) (\<lambda>u.
     update_group_impl L u g \<lparr>ug_title = None, ug_policy = Some p, ug_password = password\<rparr>)"

section \<open>Members\<close>

definition add_rows :: "uuid \<Rightarrow> uuid \<Rightarrow> uuid \<Rightarrow> ('m site_scheme, api_error, conversation_row \<times> str) prog" where
  "add_rows g u v =
     chain (require_group_admin_for_update g u) (\<lambda>(c, role).
     chain (ensure_user_exists v) (\<lambda>_.
     chain (group_member_role g v) (\<lambda>present.
     chain (if present = None
       then chain (authorize_admin_addition c v) (\<lambda>_. add_member g v)
       else ret ()) (\<lambda>_.
     ret (c, role)))))"

definition add_group_member ::
  "platform \<Rightarrow> str option \<Rightarrow> uuid \<Rightarrow> uuid \<Rightarrow> ('m site_scheme, api_error, conversation_response) prog" where
  "add_group_member L header g v =
     chain (caller L header) (\<lambda>u.
     chain (map_err social_error connect) (\<lambda>_.
     chain (transaction_as social_error (add_rows g u v)) (\<lambda>(c, role).
     chain (publish_group_update g []) (\<lambda>_.
     result (conversation_response_of L c u (Some role))))))"

definition delete_member :: "uuid \<Rightarrow> uuid \<Rightarrow> ('m site_scheme, db_error, nat) prog" where
  "delete_member g u = statement (\<lambda>d. let hit = (\<lambda>m. me_conversation m = g \<and> me_user m = u) in
     Inr (length (filter hit (conversation_members d)),
       d\<lparr>conversation_members := delete_where hit (conversation_members d)\<rparr>))"

text \<open>Taking the calls of the group away: the rooms, then the memberships of the calls.\<close>

definition revoke_calls :: "uuid \<Rightarrow> uuid \<Rightarrow> ('m site_scheme, api_error, str list) prog" where
  "revoke_calls g u =
     chain (map_err social_error (select (\<lambda>d. fst (revoke_group_call_memberships g u d)))) (\<lambda>rooms.
     chain (map_err social_error (execute (\<lambda>d. snd (revoke_group_call_memberships g u d)))) (\<lambda>_.
     ret rooms))"

definition remove_rows :: "uuid \<Rightarrow> uuid \<Rightarrow> uuid \<Rightarrow> ('m site_scheme, api_error, str list) prog" where
  "remove_rows g u v =
     chain (require_group_admin_for_update g u) (\<lambda>(c, role).
     chain (guard (v \<noteq> cv_creator c) (FORBIDDEN, lit ''The group creator cannot be removed'')) (\<lambda>_.
     chain (map_err social_error (delete_member g v)) (\<lambda>deleted.
     chain (guard (deleted \<noteq> 0) (NOT_FOUND, lit ''Group member not found'')) (\<lambda>_.
     chain (revoke_calls g v) (\<lambda>rooms.
     chain (touch_group g) (\<lambda>_. ret rooms))))))"

definition remove_group_member ::
  "platform \<Rightarrow> str option \<Rightarrow> uuid \<Rightarrow> uuid \<Rightarrow> ('m social_site_scheme, api_error, unit) prog" where
  "remove_group_member L header g v =
     chain (caller L header) (\<lambda>u.
     chain (map_err social_error connect) (\<lambda>_.
     chain (transaction_as social_error (remove_rows g u v)) (\<lambda>rooms.
     chain (publish_group_update g [v]) (\<lambda>_.
     chain (publish [v] Calls) (\<lambda>_.
     command (DisconnectUser rooms v))))))"

text \<open>The first of the earliest: \<open>Iterator::min_by_key\<close>.\<close>

definition group_successor :: "member_row list \<Rightarrow> uuid \<Rightarrow> uuid option" where
  "group_successor ms leaving =
     (let staying = filter (\<lambda>m. me_user m \<noteq> leaving) ms;
          admins = filter (\<lambda>m. me_role m = lit ''admin'') staying in
      if admins \<noteq> [] then Some (me_user (arg_min_list me_joined admins))
      else if staying \<noteq> [] then Some (me_user (arg_min_list me_joined staying))
      else None)"

definition pass_ownership :: "uuid \<Rightarrow> uuid \<Rightarrow> ('m site_scheme, api_error, unit) prog" where
  "pass_ownership g u =
     chain (map_err social_error (select (\<lambda>d. members_of d g))) (\<lambda>ms.
     chain (result (ok_or (CONFLICT, lit ''You are the only member. Remove the group instead.'') (group_successor ms u))) (\<lambda>v.
     chain (map_err social_error (execute (\<lambda>d. d\<lparr>conversations :=
       update_where (\<lambda>c. cv_id c = g) (\<lambda>c. c\<lparr>cv_creator := v\<rparr>) (conversations d)\<rparr>))) (\<lambda>_.
     map_err social_error (execute (\<lambda>d. d\<lparr>conversation_members :=
       update_where (\<lambda>m. me_conversation m = g \<and> me_user m = v) (\<lambda>m. m\<lparr>me_role := lit ''creator''\<rparr>)
         (conversation_members d)\<rparr>)))))"

definition leave_rows :: "uuid \<Rightarrow> uuid \<Rightarrow> ('m site_scheme, api_error, str list) prog" where
  "leave_rows g u =
     chain (load_group_for_update g) (\<lambda>c.
     chain (if cv_creator c = u then pass_ownership g u else ret ()) (\<lambda>_.
     chain (map_err social_error (delete_member g u)) (\<lambda>deleted.
     chain (guard (deleted \<noteq> 0) (NOT_FOUND, lit ''Group membership not found'')) (\<lambda>_.
     chain (revoke_calls g u) (\<lambda>rooms.
     chain (touch_group g) (\<lambda>_. ret rooms))))))"

definition leave_group :: "platform \<Rightarrow> str option \<Rightarrow> uuid \<Rightarrow> ('m social_site_scheme, api_error, unit) prog" where
  "leave_group L header g =
     chain (caller L header) (\<lambda>u.
     chain (map_err social_error connect) (\<lambda>_.
     chain (transaction_as social_error (leave_rows g u)) (\<lambda>rooms.
     chain (publish_group_update g [u]) (\<lambda>_.
     chain (publish [u] Calls) (\<lambda>_.
     command (DisconnectUser rooms u))))))"

datatype group_member_role_value = AdminRole | MemberRole

fun role_db_value :: "group_member_role_value \<Rightarrow> str" where
  "role_db_value AdminRole = lit ''admin''"
| "role_db_value MemberRole = lit ''member''"

definition role_rows :: "uuid \<Rightarrow> uuid \<Rightarrow> uuid \<Rightarrow> group_member_role_value \<Rightarrow> ('m site_scheme, api_error, unit) prog" where
  "role_rows g u v role =
     chain (load_group_for_update g) (\<lambda>c.
     chain (guard (cv_creator c = u) (FORBIDDEN, lit ''Only the group creator can change admin roles'')) (\<lambda>_.
     chain (guard (v \<noteq> cv_creator c) (BAD_REQUEST, lit ''The group creator role cannot be changed'')) (\<lambda>_.
     chain (map_err social_error (statement (\<lambda>d. let hit = (\<lambda>m. me_conversation m = g \<and> me_user m = v) in
       Inr (length (filter hit (conversation_members d)),
         d\<lparr>conversation_members := update_where hit (\<lambda>m. m\<lparr>me_role := role_db_value role\<rparr>)
            (conversation_members d)\<rparr>)))) (\<lambda>updated.
     chain (guard (updated \<noteq> 0) (NOT_FOUND, lit ''Group member not found'')) (\<lambda>_.
     touch_group g)))))"

definition update_group_member_role ::
  "platform \<Rightarrow> str option \<Rightarrow> uuid \<Rightarrow> uuid \<Rightarrow> group_member_role_value \<Rightarrow> ('m site_scheme, api_error, unit) prog" where
  "update_group_member_role L header g v role =
     chain (caller L header) (\<lambda>u.
     chain (map_err social_error connect) (\<lambda>_.
     chain (transaction_as social_error (role_rows g u v role)) (\<lambda>_.
     publish_group_update g [])))"

section \<open>Deleting a group\<close>

record deleted_group =
  dg_members :: "uuid list"
  dg_callers :: "uuid list"
  dg_rooms :: "str list"
  dg_avatar :: "str option"
  dg_attachments :: "str list"

definition delete_group_rows :: "uuid \<Rightarrow> uuid \<Rightarrow> ('m site_scheme, api_error, deleted_group) prog" where
  "delete_group_rows g u =
     chain (require_group_admin_for_update g u) (\<lambda>(c, role).
     chain (guard (can_delete_group role) admin_required) (\<lambda>_.
     chain (group_member_ids g) (\<lambda>members.
     chain (map_err social_error (select (\<lambda>d. remdups (map cm_user (filter (\<lambda>m.
       list_ex (\<lambda>s. cs_id s = cm_session m \<and> cs_conversation s = g) (call_sessions d)) (call_session_members d)))))) (\<lambda>callers.
     chain (map_err social_error (select (\<lambda>d. map cs_room (filter (\<lambda>s. cs_conversation s = g) (call_sessions d))))) (\<lambda>rooms.
     chain (map_err social_error (select (\<lambda>d. map at_key (filter (\<lambda>a.
       list_ex (\<lambda>m. mg_sequence m = at_message a \<and> mg_conversation m = g) (conversation_messages d)) (message_attachments d))))) (\<lambda>attachments.
     chain (if rooms = [] then ret () else map_err social_error (execute (\<lambda>d. d\<lparr>revoked_sfu_rooms :=
       revoked_sfu_rooms d @ filter (\<lambda>r. r \<notin> set (revoked_sfu_rooms d)) (remdups rooms)\<rparr>))) (\<lambda>_.
     chain (map_err social_error (execute (delete_conversation g))) (\<lambda>_.
     ret \<lparr>dg_members = members, dg_callers = callers, dg_rooms = rooms, dg_avatar = cv_avatar_key c,
       dg_attachments = attachments\<rparr>))))))))"

definition delete_group :: "platform \<Rightarrow> str option \<Rightarrow> uuid \<Rightarrow> ('m social_site_scheme, api_error, unit) prog" where
  "delete_group L header g =
     chain (caller L header) (\<lambda>u.
     chain (map_err social_error connect) (\<lambda>_.
     chain (transaction_as social_error (delete_group_rows g u)) (\<lambda>x.
     chain (command (CloseRooms (dg_rooms x))) (\<lambda>_.
     chain (publish (dg_members x) Conversations) (\<lambda>_.
     chain (publish (dg_callers x) Calls) (\<lambda>_.
     chain (case dg_avatar x of None \<Rightarrow> ret () | Some k \<Rightarrow> chain (attempt (delete_avatar k)) (\<lambda>_. ret ())) (\<lambda>_.
     for_each (\<lambda>k. chain (attempt (object_delete k)) (\<lambda>_. ret ())) (dg_attachments x))))))))"

end
