(* ===== verification/GroupViews.thy ===== *)
theory GroupViews
  imports GroupHandlers
begin

text \<open>
  What is shown about groups (\<open>src/social/conversations.rs\<close>): their public information, their members with
  the presence each viewer may see, the people an admin may add, and their avatars; and the invitations into
  password-protected groups (\<open>src/social/group_invitations.rs\<close>).
\<close>

section \<open>Information\<close>

record group_info_response =
  gr_id :: uuid
  gr_title :: str
  gr_code :: str
  gr_avatar_url :: "str option"
  gr_policy :: group_access_policy
  gr_member_count :: nat
  gr_is_member :: bool
  gr_role :: "str option"
  gr_can_join :: bool
  gr_created :: instant

definition group_info_response_of ::
  "platform \<Rightarrow> conversation_row \<Rightarrow> uuid \<Rightarrow> ('m site_scheme, api_error, group_info_response) prog" where
  "group_info_response_of L c u =
     chain (group_member_role (cv_id c) u) (\<lambda>role.
     chain (result (group_policy c)) (\<lambda>p.
     chain (guard (can_view_group_info p (role \<noteq> None)) (NOT_FOUND, lit ''Group not found'')) (\<lambda>_.
     chain (map_err social_error (select (\<lambda>d. length (members_of d (cv_id c))))) (\<lambda>member_count.
     chain (result (ok_or internal (cv_title c))) (\<lambda>title.
     chain (result (ok_or internal (cv_code c))) (\<lambda>code.
     ret \<lparr>gr_id = cv_id c, gr_title = title, gr_code = code, gr_avatar_url = group_avatar_url L c, gr_policy = p,
       gr_member_count = member_count, gr_is_member = (role \<noteq> None), gr_role = role,
       gr_can_join = can_join_group (role \<noteq> None), gr_created = cv_created c\<rparr>))))))"

definition get_group_info :: "platform \<Rightarrow> str option \<Rightarrow> uuid \<Rightarrow> ('m site_scheme, api_error, group_info_response) prog" where
  "get_group_info L header g =
     chain (caller L header) (\<lambda>u.
     chain (map_err social_error connect) (\<lambda>_.
     chain (load_group g) (\<lambda>c. group_info_response_of L c u)))"

definition get_group_info_by_code ::
  "platform \<Rightarrow> str option \<Rightarrow> str \<Rightarrow> ('m site_scheme, api_error, group_info_response) prog" where
  "get_group_info_by_code L header code =
     chain (caller L header) (\<lambda>u.
     chain (map_err social_error connect) (\<lambda>_.
     chain (load_group_by_code code) (\<lambda>c. group_info_response_of L c u)))"

section \<open>Members\<close>

record group_member_response =
  gm_id :: uuid
  gm_name :: str
  gm_nickname :: str
  gm_avatar_url :: "str option"
  gm_online :: bool
  gm_status :: "user_status option"
  gm_role :: str
  gm_joined :: instant

text \<open>A page of an ordered result: \<open>OFFSET\<close> and \<open>LIMIT\<close> with one row to look ahead.\<close>

definition page_rows :: "64 word \<Rightarrow> 'a list \<Rightarrow> 'a list" where
  "page_rows offset rows = take (GROUP_PAGE_SIZE + 1) (drop (unat offset) rows)"

definition member_rows :: "uuid \<Rightarrow> database \<Rightarrow> (user_row \<times> member_row) list" where
  "member_rows g d = List.map_filter (\<lambda>m. map_option (\<lambda>x. (x, m)) (user_row_of (me_user m) d))
     (order_asc me_joined (order_asc me_user (members_of d g)))"

definition list_group_members ::
  "platform \<Rightarrow> str option \<Rightarrow> uuid \<Rightarrow> 64 word option
     \<Rightarrow> ('m site_scheme, api_error, group_member_response list \<times> 64 word option) prog" where
  "list_group_members L header g offset =
     chain (caller L header) (\<lambda>u.
     chain (result (validated_page_offset offset)) (\<lambda>offset.
     chain (map_err social_error connect) (\<lambda>_.
     chain (load_group g) (\<lambda>_.
     chain (group_member_role g u) (\<lambda>role.
     chain (guard (role \<noteq> None) (NOT_FOUND, lit ''Group not found'')) (\<lambda>_.
     chain (map_err social_error (select (\<lambda>d. page_rows offset (member_rows g d)))) (\<lambda>rows.
     let (rows, next_offset) = next_page_offset rows offset;
         statuses = List.map_filter (\<lambda>(x, m). map_option (Pair (us_id x)) (status_from_db_value (us_status x))) rows in
     chain (map_err social_error (visible_group_member_presence u statuses)) (\<lambda>presence.
     ret (map (\<lambda>(x, m). let p = map_of (rev presence) (us_id x) in
        \<lparr>gm_id = us_id x, gm_name = us_name x, gm_nickname = us_nickname x,
         gm_avatar_url = map_option (user_avatar_url L (us_id x)) (us_avatar_key x),
         gm_online = (case p of None \<Rightarrow> False | Some q \<Rightarrow> vp_online q), gm_status = map_option vp_status p,
         gm_role = me_role m, gm_joined = me_joined m\<rparr>) rows, next_offset)))))))))"

section \<open>People who may be added\<close>

text \<open>The \<open>CASE\<close> of the query, by the stored name of the policy.\<close>

definition candidate_fits :: "database \<Rightarrow> uuid \<Rightarrow> str \<Rightarrow> uuid \<Rightarrow> bool" where
  "candidate_fits d g p v =
     (if p = lit ''friends_of_friends'' then list_ex (\<lambda>m. are_friends d (me_user m) v) (members_of d g)
      else if p = lit ''friends_only'' then \<not> list_ex (\<lambda>m. \<not> are_friends d (me_user m) v) (members_of d g)
      else True)"

definition is_candidate :: "(uchar \<Rightarrow> uchar) \<Rightarrow> database \<Rightarrow> uuid \<Rightarrow> uuid \<Rightarrow> str \<Rightarrow> str \<Rightarrow> user_row \<Rightarrow> bool" where
  "is_candidate cf d u g pattern p x \<longleftrightarrow> us_id x \<noteq> u \<and> \<not> is_member d g (us_id x) \<and>
     (like cf pattern (us_name x) \<or> like cf pattern (us_email x) \<or> like cf pattern (us_nickname x)) \<and>
     candidate_fits d g p (us_id x)"

text \<open>\<open>rank\<close> is the order of the names and addresses in the collation of the database.\<close>

definition list_group_candidates ::
  "platform \<Rightarrow> (uchar \<Rightarrow> uchar) \<Rightarrow> (str \<times> str \<Rightarrow> nat) \<Rightarrow> str option \<Rightarrow> uuid \<Rightarrow> str \<Rightarrow> 64 word option
     \<Rightarrow> ('m site_scheme, api_error, (uuid \<times> str \<times> str) list \<times> 64 word option) prog" where
  "list_group_candidates L cf rank header g q offset =
     chain (caller L header) (\<lambda>u.
     chain (result (validated_page_offset offset)) (\<lambda>offset.
     chain (result (ok_or (BAD_REQUEST, lit ''Query must be 2 to 80 characters'') (validated_user_search_query q))) (\<lambda>q.
     chain (map_err social_error connect) (\<lambda>_.
     chain (require_group_admin g u) (\<lambda>c.
     chain (result (group_policy c)) (\<lambda>p.
     chain (map_err social_error (select (\<lambda>d. page_rows offset
       (order_asc (\<lambda>x. rank (us_name x, us_email x)) (order_asc us_id
         (filter (is_candidate cf d u g (user_search_pattern q) (as_db_value p)) (users d))))))) (\<lambda>rows.
     let (rows, next_offset) = next_page_offset rows offset in
     ret (map (\<lambda>x. (us_id x, us_name x, us_nickname x)) rows, next_offset))))))))"

section \<open>Avatars of groups\<close>

definition group_avatar_key :: "platform \<Rightarrow> uuid \<Rightarrow> uuid \<Rightarrow> str \<Rightarrow> str" where
  "group_avatar_key L g i ext = group_avatar_prefix L g @ show_uuid L i @ lit ''.'' @ ext"

definition get_group_avatar ::
  "platform \<Rightarrow> renderer \<Rightarrow> str option \<Rightarrow> str list \<Rightarrow> uuid \<Rightarrow> avatar_size \<Rightarrow> ('m site_scheme, api_error, avatar_reply) prog" where
  "get_group_avatar L render header if_none_match g sz =
     chain (caller L header) (\<lambda>u.
     chain (map_err social_error connect) (\<lambda>_.
     chain (load_group g) (\<lambda>c.
     chain (group_member_role g u) (\<lambda>role.
     chain (result (group_policy c)) (\<lambda>p.
     chain (guard (can_view_group_info p (role \<noteq> None)) (NOT_FOUND, lit ''Group not found'')) (\<lambda>_.
     chain (result (ok_or (NOT_FOUND, lit ''Avatar not found'') (cv_avatar_key c))) (\<lambda>k.
     avatar_response render if_none_match k sz)))))))"

definition clear_avatar_rows :: "platform \<Rightarrow> uuid \<Rightarrow> uuid \<Rightarrow> ('m site_scheme, api_error, str option) prog" where
  "clear_avatar_rows L g u =
     chain (require_group_admin_for_update g u) (\<lambda>(c, role).
     case cv_avatar_key c of
       None \<Rightarrow> ret None
     | Some k \<Rightarrow>
         chain utc_now (\<lambda>now.
         chain (map_err social_error (execute (\<lambda>d. d\<lparr>conversations := update_where (\<lambda>c. cv_id c = g)
           (\<lambda>c. c\<lparr>cv_avatar_key := None, cv_updated := now\<rparr>) (conversations d)\<rparr>))) (\<lambda>_.
         ret (Some k))))"

definition remove_group_avatar :: "platform \<Rightarrow> str option \<Rightarrow> uuid \<Rightarrow> ('m site_scheme, api_error, unit) prog" where
  "remove_group_avatar L header g =
     chain (caller L header) (\<lambda>u.
     chain (map_err social_error connect) (\<lambda>_.
     chain (transaction_as social_error (clear_avatar_rows L g u)) (\<lambda>k.
     case k of
       None \<Rightarrow> ret ()
     | Some k \<Rightarrow> chain (attempt (delete_avatar k)) (\<lambda>_. publish_group_update g []))))"

definition set_avatar_rows ::
  "platform \<Rightarrow> uuid \<Rightarrow> uuid \<Rightarrow> str \<Rightarrow> ('m site_scheme, api_error, conversation_row \<times> str \<times> str option) prog" where
  "set_avatar_rows L g u k =
     chain (require_group_admin_for_update g u) (\<lambda>(c, role).
     chain utc_now (\<lambda>now.
     chain (map_err social_error (statement (update_conversation L g
       (\<lambda>c. c\<lparr>cv_avatar_key := Some k, cv_updated := now\<rparr>)))) (\<lambda>updated.
     ret (updated, role, cv_avatar_key c))))"

text \<open>An upload that cannot be recorded is removed again, whether a connection or the transaction fails.\<close>

definition upload_group_avatar ::
  "platform \<Rightarrow> renderer \<Rightarrow> str option \<Rightarrow> uuid \<Rightarrow> multipart_field option list
     \<Rightarrow> ('m site_scheme, api_error, conversation_response) prog" where
  "upload_group_avatar L render header g parts =
     chain (caller L header) (\<lambda>u.
     chain (map_err social_error connect) (\<lambda>_.
     chain (require_group_admin g u) (\<lambda>_.
     chain (result (parse_avatar_upload parts)) (\<lambda>avatar.
     chain new_uuid (\<lambda>i. let k = group_avatar_key L g i (av_extension avatar) in
     chain (store_avatar render k (av_content_type avatar) (av_bytes avatar)) (\<lambda>_.
     chain (attempt (chain (map_err social_error connect) (\<lambda>_.
       transaction_as social_error (set_avatar_rows L g u k)))) (\<lambda>r.
     case r of
       Inl e \<Rightarrow> chain (attempt (delete_avatar k)) (\<lambda>_. throw e)
     | Inr (updated, role, previous) \<Rightarrow>
         chain (case previous of
             Some p \<Rightarrow> if p \<noteq> k then chain (attempt (delete_avatar p)) (\<lambda>_. ret ()) else ret ()
           | None \<Rightarrow> ret ()) (\<lambda>_.
         chain (publish_group_update g []) (\<lambda>_.
         result (conversation_response_of L updated u (Some role)))))))))))"

section \<open>Invitations\<close>

definition pending_invitation :: "uuid \<Rightarrow> uuid \<Rightarrow> group_invitation_row \<Rightarrow> bool" where
  "pending_invitation g v i \<longleftrightarrow> gi_conversation i = g \<and> gi_invitee i = v \<and> gi_status i = lit ''pending''"

definition pending_invitation_exists :: "uuid \<Rightarrow> uuid \<Rightarrow> ('m site_scheme, api_error, bool) prog" where
  "pending_invitation_exists g v = map_err social_error (select (\<lambda>d. list_ex (pending_invitation g v) (group_invitations d)))"

definition insert_invitation :: "group_invitation_row \<Rightarrow> database \<Rightarrow> db_error + group_invitation_row \<times> database" where
  "insert_invitation i d =
     (if gi_inviter i = gi_invitee i then Inl CheckViolation
      else if list_ex (\<lambda>j. gi_id j = gi_id i) (group_invitations d) \<or>
              list_ex (pending_invitation (gi_conversation i) (gi_invitee i)) (group_invitations d)
      then Inl UniqueViolation
      else if \<not> list_ex (\<lambda>c. cv_id c = gi_conversation i) (conversations d) \<or>
              \<not> user_exists d (gi_inviter i) \<or> \<not> user_exists d (gi_invitee i) then Inl ForeignKeyViolation
      else Inr (i, d\<lparr>group_invitations := group_invitations d @ [i]\<rparr>))"

definition invitation_rows :: "uuid \<Rightarrow> uuid \<Rightarrow> uuid \<Rightarrow> ('m site_scheme, api_error, bool) prog" where
  "invitation_rows g u v =
     chain (require_group_admin_for_update g u) (\<lambda>(c, role).
     chain (result (group_policy c)) (\<lambda>p.
     chain (guard (p = Password) (CONFLICT, lit ''Only password-protected groups use invitations'')) (\<lambda>_.
     chain (ensure_user_exists v) (\<lambda>_.
     chain (group_member_role g v) (\<lambda>present.
     chain (guard (present = None) (CONFLICT, lit ''That person is already a member'')) (\<lambda>_.
     chain (pending_invitation_exists g v) (\<lambda>pending.
     if pending then ret False
     else
       chain new_uuid (\<lambda>i.
       chain utc_now (\<lambda>now.
       chain (map_err social_error (statement (insert_invitation \<lparr>gi_id = i, gi_conversation = g, gi_inviter = u,
         gi_invitee = v, gi_status = lit ''pending'', gi_created = now\<rparr>))) (\<lambda>x.
       chain (map_err social_error (create_notification v u (lit ''groupInvitation'')
         (GroupInvitationData (gi_id x) g (cv_title c)))) (\<lambda>_.
       ret True)))))))))))"

definition create_group_invitation :: "platform \<Rightarrow> str option \<Rightarrow> uuid \<Rightarrow> uuid \<Rightarrow> ('m site_scheme, api_error, unit) prog" where
  "create_group_invitation L header g v =
     chain (caller L header) (\<lambda>u.
     chain (guard (v \<noteq> u) (BAD_REQUEST, lit ''You cannot invite yourself'')) (\<lambda>_.
     chain (map_err social_error connect) (\<lambda>_.
     chain (transaction_as social_error (invitation_rows g u v)) (\<lambda>notified.
     if notified then publish [v] Notifications else ret ()))))"

record group_invitation_response =
  gir_id :: uuid
  gir_group :: uuid
  gir_title :: str
  gir_avatar_url :: "str option"
  gir_policy :: group_access_policy
  gir_inviter :: uuid
  gir_inviter_name :: str
  gir_created :: instant

definition invitation_response ::
  "platform \<Rightarrow> group_invitation_row \<times> conversation_row \<times> str \<Rightarrow> api_error + group_invitation_response" where
  "invitation_response L t = (case t of (i, c, inviter_name) \<Rightarrow>
     and_then (group_policy c) (\<lambda>p.
     and_then (ok_or internal (cv_title c)) (\<lambda>title.
     Inr \<lparr>gir_id = gi_id i, gir_group = cv_id c, gir_title = title, gir_avatar_url = group_avatar_url L c,
       gir_policy = p, gir_inviter = gi_inviter i, gir_inviter_name = inviter_name, gir_created = gi_created i\<rparr>)))"

definition list_group_invitations ::
  "platform \<Rightarrow> str option \<Rightarrow> ('m site_scheme, api_error, group_invitation_response list) prog" where
  "list_group_invitations L header =
     chain (caller L header) (\<lambda>u.
     chain (map_err social_error connect) (\<lambda>_.
     chain (map_err social_error (select (\<lambda>d. take 100 (List.map_filter (\<lambda>i.
         case (find (\<lambda>c. cv_id c = gi_conversation i) (conversations d), user_row_of (gi_inviter i) d) of
           (Some c, Some x) \<Rightarrow> Some (i, c, us_name x)
         | _ \<Rightarrow> None)
       (order_desc gi_created (filter (\<lambda>i. gi_invitee i = u \<and> gi_status i = lit ''pending'') (group_invitations d))))))) (\<lambda>rows.
     result (collect_responses (map (invitation_response L) rows)))))"

definition invitation_not_found :: api_error where
  "invitation_not_found = (NOT_FOUND, lit ''Invitation not found'')"

definition load_pending_invitation_for_update :: "uuid \<Rightarrow> uuid \<Rightarrow> ('m site_scheme, api_error, group_invitation_row) prog" where
  "load_pending_invitation_for_update i v =
     chain (map_err social_error (select (\<lambda>d. find (\<lambda>x. gi_id x = i \<and> gi_invitee x = v \<and> gi_status x = lit ''pending'')
       (group_invitations d)))) (\<lambda>r.
     result (ok_or invitation_not_found r))"

definition resolve_invitation :: "uuid \<Rightarrow> str \<Rightarrow> ('m site_scheme, api_error, unit) prog" where
  "resolve_invitation i status = map_err social_error (execute (\<lambda>d. d\<lparr>group_invitations :=
     update_where (\<lambda>x. gi_id x = i) (\<lambda>x. x\<lparr>gi_status := status\<rparr>) (group_invitations d)\<rparr>))"

definition accept_rows ::
  "platform \<Rightarrow> uuid \<Rightarrow> uuid \<Rightarrow> str option \<Rightarrow> ('m site_scheme, api_error, conversation_row \<times> str) prog" where
  "accept_rows L i u password =
     chain (load_pending_invitation_for_update i u) (\<lambda>x.
     chain (load_group_for_update (gi_conversation x)) (\<lambda>c.
     chain (group_member_role (cv_id c) u) (\<lambda>present.
     chain (case present of
         Some role \<Rightarrow> ret role
       | None \<Rightarrow> chain (authorize_group_admission L c u password) (\<lambda>_.
                 chain (add_member (cv_id c) u) (\<lambda>_. ret (lit ''member'')))) (\<lambda>role.
     chain (resolve_invitation (gi_id x) (lit ''accepted'')) (\<lambda>_. ret (c, role))))))"

definition accept_group_invitation ::
  "platform \<Rightarrow> str option \<Rightarrow> uuid \<Rightarrow> str option \<Rightarrow> ('m site_scheme, api_error, conversation_response) prog" where
  "accept_group_invitation L header i password =
     chain (caller L header) (\<lambda>u.
     chain (map_err social_error connect) (\<lambda>_.
     chain (transaction_as social_error (accept_rows L i u password)) (\<lambda>(c, role).
     chain (publish_group_update (cv_id c) []) (\<lambda>_.
     result (conversation_response_of L c u (Some role))))))"

definition decline_group_invitation :: "platform \<Rightarrow> str option \<Rightarrow> uuid \<Rightarrow> ('m site_scheme, api_error, unit) prog" where
  "decline_group_invitation L header i =
     chain (caller L header) (\<lambda>u.
     chain (map_err social_error connect) (\<lambda>_.
     chain (map_err social_error (statement (\<lambda>d.
       let hit = (\<lambda>x. gi_id x = i \<and> gi_invitee x = u \<and> gi_status x = lit ''pending'') in
       Inr (length (filter hit (group_invitations d)),
         d\<lparr>group_invitations := update_where hit (\<lambda>x. x\<lparr>gi_status := lit ''declined''\<rparr>) (group_invitations d)\<rparr>)))) (\<lambda>updated.
     guard (updated \<noteq> 0) invitation_not_found)))"

end
