(* ===== verification/DirectMessages.thy ===== *)
theory DirectMessages
  imports GroupViews
begin

text \<open>
  Direct conversations (\<open>src/social/conversations.rs\<close>): friends may open one at once, everybody else needs an
  accepted request. A direct conversation belongs to the pair of its users; it has no members of its own.
\<close>

section \<open>The pair\<close>

definition direct_row :: "uuid \<Rightarrow> uuid \<Rightarrow> database \<Rightarrow> conversation_row option" where
  "direct_row u v d =
     (let (low, high) = canonical_user_pair u v in
      find (\<lambda>c. cv_kind c = lit ''direct'' \<and> cv_low c = Some low \<and> cv_high c = Some high) (conversations d))"

definition find_direct_conversation :: "uuid \<Rightarrow> uuid \<Rightarrow> ('m site_scheme, api_error, conversation_row option) prog" where
  "find_direct_conversation u v = map_err social_error (select (direct_row u v))"

text \<open>\<open>INSERT ... ON CONFLICT (direct_user_low_id, direct_user_high_id) DO NOTHING\<close>.\<close>

definition insert_direct_if_absent :: "platform \<Rightarrow> conversation_row \<Rightarrow> database \<Rightarrow> db_error + unit \<times> database" where
  "insert_direct_if_absent L c d =
     (if list_ex (\<lambda>e. cv_low e \<noteq> None \<and> cv_high e \<noteq> None \<and> cv_low e = cv_low c \<and> cv_high e = cv_high c) (conversations d)
      then if valid_direct_row c then Inr ((), d) else Inl CheckViolation
      else map_sum (\<lambda>e. e) (\<lambda>(_, d). ((), d)) (insert_conversation L c d))"

definition ensure_direct_conversation :: "platform \<Rightarrow> uuid \<Rightarrow> uuid \<Rightarrow> ('m site_scheme, api_error, conversation_row) prog" where
  "ensure_direct_conversation L u v =
     (let (low, high) = canonical_user_pair u v in
      chain new_uuid (\<lambda>i.
      chain utc_now (\<lambda>now.
      chain (map_err social_error (statement (insert_direct_if_absent L
        \<lparr>cv_id = i, cv_kind = lit ''direct'', cv_creator = u, cv_title = None, cv_policy = None, cv_password_hash = None,
         cv_low = Some low, cv_high = Some high, cv_code = None, cv_legacy_code = None, cv_avatar_key = None,
         cv_created = now, cv_updated = now\<rparr>))) (\<lambda>_.
      chain (find_direct_conversation u v) (\<lambda>c.
      result (ok_or internal c))))))"

definition request_between :: "uuid \<Rightarrow> uuid \<Rightarrow> direct_request_row \<Rightarrow> bool" where
  "request_between u v r \<longleftrightarrow> same_pair (dr_requester r) (dr_recipient r) u v"

definition resolve_pending_direct_request :: "uuid \<Rightarrow> uuid \<Rightarrow> ('m site_scheme, api_error, unit) prog" where
  "resolve_pending_direct_request u v =
     map_err social_error (execute (\<lambda>d. d\<lparr>direct_message_requests := update_where
       (\<lambda>r. dr_status r = lit ''pending'' \<and> request_between u v r) (\<lambda>r. r\<lparr>dr_status := lit ''accepted''\<rparr>)
       (direct_message_requests d)\<rparr>))"

definition insert_direct_request :: "direct_request_row \<Rightarrow> database \<Rightarrow> db_error + direct_request_row \<times> database" where
  "insert_direct_request r d =
     (if dr_requester r = dr_recipient r then Inl CheckViolation
      else if list_ex (\<lambda>q. dr_id q = dr_id r \<or> request_between (dr_requester r) (dr_recipient r) q) (direct_message_requests d)
      then Inl UniqueViolation
      else if \<not> user_exists d (dr_requester r) \<or> \<not> user_exists d (dr_recipient r) then Inl ForeignKeyViolation
      else Inr (r, d\<lparr>direct_message_requests := direct_message_requests d @ [r]\<rparr>))"

section \<open>Opening\<close>

record open_direct_response =
  od_state :: str
  od_conversation :: "conversation_response option"
  od_request :: "uuid option"

definition available :: "platform \<Rightarrow> uuid \<Rightarrow> uuid option \<Rightarrow> conversation_row \<Rightarrow> ('m site_scheme, api_error, open_direct_response) prog" where
  "available L u request c =
     chain (result (conversation_response_of L c u None)) (\<lambda>r.
     ret \<lparr>od_state = lit ''available'', od_conversation = Some r, od_request = request\<rparr>)"

definition unhide :: "uuid \<Rightarrow> uuid \<Rightarrow> ('m site_scheme, api_error, unit) prog" where
  "unhide c u = map_err social_error (execute (\<lambda>d. d\<lparr>conversation_hidden_states :=
     delete_where (\<lambda>h. h = (c, u)) (conversation_hidden_states d)\<rparr>))"

definition request_exists :: api_error where
  "request_exists = (CONFLICT, lit ''A direct-message request already exists for these users'')"

definition befriended_rows :: "platform \<Rightarrow> uuid \<Rightarrow> uuid \<Rightarrow> ('m site_scheme, api_error, conversation_row) prog" where
  "befriended_rows L u v =
     chain (ensure_direct_conversation L u v) (\<lambda>c.
     chain (resolve_pending_direct_request u v) (\<lambda>_. ret c))"

text \<open>Without a conversation and a friendship, the request between the two users decides.\<close>

definition open_by_request :: "platform \<Rightarrow> uuid \<Rightarrow> uuid \<Rightarrow> ('m site_scheme, api_error, open_direct_response) prog" where
  "open_by_request L u v =
     chain (map_err social_error (select (\<lambda>d. find (request_between u v) (direct_message_requests d)))) (\<lambda>existing.
     case existing of
       Some r \<Rightarrow>
         if dr_requester r = u \<and> dr_status r = lit ''pending'' then
           ret \<lparr>od_state = lit ''pending'', od_conversation = None, od_request = Some (dr_id r)\<rparr>
         else if dr_status r = lit ''accepted'' then
           chain (ensure_direct_conversation L u v) (\<lambda>c.
           chain (publish [u, v] Conversations) (\<lambda>_. available L u (Some (dr_id r)) c))
         else throw request_exists
     | None \<Rightarrow>
         chain new_uuid (\<lambda>i.
         chain utc_now (\<lambda>now.
         chain (map_err (\<lambda>e. if e = UniqueViolation then request_exists else social_error e)
           (statement (insert_direct_request \<lparr>dr_id = i, dr_requester = u, dr_recipient = v,
              dr_status = lit ''pending'', dr_created = now\<rparr>))) (\<lambda>r.
         chain (publish [v] Conversations) (\<lambda>_.
         ret \<lparr>od_state = lit ''pending'', od_conversation = None, od_request = Some (dr_id r)\<rparr>)))))"

definition open_direct_conversation ::
  "platform \<Rightarrow> str option \<Rightarrow> uuid \<Rightarrow> ('m site_scheme, api_error, open_direct_response) prog" where
  "open_direct_conversation L header v =
     chain (caller L header) (\<lambda>u.
     chain (guard (v \<noteq> u) (BAD_REQUEST, lit ''Cannot open a direct conversation with yourself'')) (\<lambda>_.
     chain (map_err social_error connect) (\<lambda>_.
     chain (ensure_user_exists v) (\<lambda>_.
     chain (find_direct_conversation u v) (\<lambda>found.
     case found of
       Some c \<Rightarrow>
         chain (unhide (cv_id c) u) (\<lambda>_.
         chain (publish [u] Conversations) (\<lambda>_. available L u None c))
     | None \<Rightarrow>
         chain (are_accepted_friends u v) (\<lambda>friends.
         if friends then
           chain (transaction_as social_error (befriended_rows L u v)) (\<lambda>c.
           chain (unhide (cv_id c) u) (\<lambda>_.
           chain (publish [u, v] Conversations) (\<lambda>_. available L u None c)))
         else open_by_request L u v))))))"

definition list_direct_message_requests ::
  "platform \<Rightarrow> str option \<Rightarrow> ('m site_scheme, api_error, (uuid \<times> uuid \<times> instant) list) prog" where
  "list_direct_message_requests L header =
     chain (caller L header) (\<lambda>u.
     chain (map_err social_error connect) (\<lambda>_.
     map_err social_error (select (\<lambda>d. map (\<lambda>r. (dr_id r, dr_requester r, dr_created r))
       (order_desc dr_created (filter (\<lambda>r. dr_recipient r = u \<and> dr_status r = lit ''pending'')
         (direct_message_requests d)))))))"

section \<open>Answering a request\<close>

definition answer_request :: "uuid \<Rightarrow> uuid \<Rightarrow> bool \<Rightarrow> database \<Rightarrow> db_error + direct_request_row \<times> database" where
  "answer_request i u accept d =
     (let hit = (\<lambda>r. dr_id r = i \<and> dr_recipient r = u \<and> dr_status r = lit ''pending'');
          answer = (\<lambda>r. r\<lparr>dr_status := if accept then lit ''accepted'' else lit ''declined''\<rparr>) in
      case find hit (direct_message_requests d) of
        None \<Rightarrow> Inl NotFound
      | Some r \<Rightarrow> Inr (answer r, d\<lparr>direct_message_requests := update_where hit answer (direct_message_requests d)\<rparr>))"

definition answer_rows ::
  "platform \<Rightarrow> uuid \<Rightarrow> uuid \<Rightarrow> bool \<Rightarrow> ('m site_scheme, api_error, direct_request_row \<times> conversation_row option) prog" where
  "answer_rows L i u accept =
     chain (map_err (\<lambda>e. if e = NotFound then (NOT_FOUND, lit ''Direct-message request is no longer available'')
                        else social_error e) (statement (answer_request i u accept))) (\<lambda>r.
     chain (if accept then chain (ensure_direct_conversation L u (dr_requester r)) (\<lambda>c. ret (Some c)) else ret None) (\<lambda>c.
     ret (r, c)))"

definition respond_to_direct_message_request ::
  "platform \<Rightarrow> str option \<Rightarrow> uuid \<Rightarrow> bool \<Rightarrow> ('m site_scheme, api_error, open_direct_response) prog" where
  "respond_to_direct_message_request L header i accept =
     chain (caller L header) (\<lambda>u.
     chain (map_err social_error connect) (\<lambda>_.
     chain (transaction_as social_error (answer_rows L i u accept)) (\<lambda>(r, c).
     chain (publish [dr_requester r, dr_recipient r] Conversations) (\<lambda>_.
     case c of
       None \<Rightarrow> ret \<lparr>od_state = lit ''declined'', od_conversation = None, od_request = Some (dr_id r)\<rparr>
     | Some c \<Rightarrow> available L u (Some (dr_id r)) c))))"

section \<open>Hiding\<close>

definition insert_hidden :: "uuid \<Rightarrow> uuid \<Rightarrow> database \<Rightarrow> db_error + unit \<times> database" where
  "insert_hidden c u d =
     (if (c, u) \<in> set (conversation_hidden_states d) then Inr ((), d)
      else if \<not> list_ex (\<lambda>e. cv_id e = c) (conversations d) \<or> \<not> user_exists d u then Inl ForeignKeyViolation
      else Inr ((), d\<lparr>conversation_hidden_states := conversation_hidden_states d @ [(c, u)]\<rparr>))"

definition hide_direct_conversation :: "platform \<Rightarrow> str option \<Rightarrow> uuid \<Rightarrow> ('m site_scheme, api_error, unit) prog" where
  "hide_direct_conversation L header i =
     chain (caller L header) (\<lambda>u.
     chain (map_err social_error connect) (\<lambda>_.
     chain (map_err social_error (select (\<lambda>d. find (\<lambda>c. cv_id c = i) (conversations d)))) (\<lambda>found.
     chain (result (ok_or (NOT_FOUND, lit ''Conversation not found'') found)) (\<lambda>c.
     chain (guard (cv_kind c = lit ''direct'' \<and> (cv_low c = Some u \<or> cv_high c = Some u))
       (NOT_FOUND, lit ''Conversation not found'')) (\<lambda>_.
     chain (map_err social_error (statement (insert_hidden i u))) (\<lambda>_.
     publish [u] Conversations))))))"

end
