(* ===== verification/Calls.thy ===== *)
theory Calls
  imports DirectMessages
begin

text \<open>
  Calls: invitations to one friend (\<open>src/social/handlers.rs\<close>) and call sessions of a conversation
  (\<open>src/social/call_sessions.rs\<close>), with the alerts that ring the callees.
\<close>

section \<open>Ringing\<close>

record incoming_call_alert =
  ia_call :: uuid
  ia_kind :: call_kind
  ia_conversation :: "uuid option"
  ia_title :: "str option"
  ia_expires :: instant

definition alert_incoming_call ::
  "platform \<Rightarrow> uuid \<Rightarrow> uuid list \<Rightarrow> incoming_call_alert \<Rightarrow> ('m site_scheme, 'e, unit) prog" where
  "alert_incoming_call L caller_id callees call =
     chain (attempt (first (user_row_of caller_id))) (\<lambda>r.
     case r of
       Inl _ \<Rightarrow> ret ()
     | Inr x \<Rightarrow>
         let own = map_option (user_avatar_url L caller_id) (us_avatar_key x) in
         chain (case ia_conversation call of
             None \<Rightarrow> ret own
           | Some c \<Rightarrow> chain (attempt (first (\<lambda>d. find (\<lambda>e. cv_id e = c) (conversations d)))) (\<lambda>r.
               ret (case r of Inl _ \<Rightarrow> None
                    | Inr e \<Rightarrow> if cv_kind e = lit ''group'' then group_avatar_url L e else own))) (\<lambda>avatar.
         alert callees (IncomingCall (ia_call call) (ia_kind call) (us_name x) (ia_conversation call) (ia_title call)
           avatar (ia_expires call))))"

section \<open>Invitations\<close>

definition call_between :: "uuid \<Rightarrow> uuid \<Rightarrow> call_invitation_row \<Rightarrow> bool" where
  "call_between u v i \<longleftrightarrow> same_pair (ci_caller i) (ci_callee i) u v"

definition pending_call :: "instant \<Rightarrow> call_invitation_row \<Rightarrow> bool" where
  "pending_call now i \<longleftrightarrow> ci_status i = lit ''pending'' \<and> now < ci_expires i"

text \<open>
  The constraints: at most ten active calls of a caller (a trigger), two users, a valid room, an expiry after
  the creation, and one pending call for each pair.
\<close>

definition insert_call :: "call_invitation_row \<Rightarrow> database \<Rightarrow> db_error + call_invitation_row \<times> database" where
  "insert_call i d =
     (if 10 \<le> length (filter (\<lambda>j. ci_caller j = ci_caller i \<and> pending_call (ci_created i) j) (call_invitations d))
      then Inl CheckViolation
      else if ci_caller i = ci_callee i \<or> \<not> is_valid_room_id (ci_room i) \<or> ci_expires i \<le> ci_created i then Inl CheckViolation
      else if list_ex (\<lambda>j. ci_id j = ci_id i \<or>
          (ci_status j = lit ''pending'' \<and> call_between (ci_caller i) (ci_callee i) j)) (call_invitations d)
      then Inl UniqueViolation
      else if \<not> user_exists d (ci_caller i) \<or> \<not> user_exists d (ci_callee i) then Inl ForeignKeyViolation
      else Inr (i, d\<lparr>call_invitations := call_invitations d @ [i]\<rparr>))"

record call_invitation_response =
  cir_id :: uuid
  cir_room :: str
  cir_status :: str
  cir_expires :: instant
  cir_caller :: "friend_summary option"

definition call_response :: "call_invitation_row \<Rightarrow> friend_summary option \<Rightarrow> call_invitation_response" where
  "call_response i whom = \<lparr>cir_id = ci_id i, cir_room = ci_room i, cir_status = ci_status i,
     cir_expires = ci_expires i, cir_caller = whom\<rparr>"

definition expire_calls :: "uuid \<Rightarrow> uuid \<Rightarrow> instant \<Rightarrow> database \<Rightarrow> database" where
  "expire_calls u v now d =
     d\<lparr>call_invitations := update_where
         (\<lambda>i. call_between u v i \<and> ci_status i = lit ''pending'' \<and> ci_expires i \<le> now)
         (\<lambda>i. i\<lparr>ci_status := lit ''expired'', ci_responded := Some now\<rparr>) (call_invitations d)\<rparr>"

definition answer_call ::
  "(call_invitation_row \<Rightarrow> bool) \<Rightarrow> str \<Rightarrow> instant \<Rightarrow> database \<Rightarrow> db_error + call_invitation_row \<times> database" where
  "answer_call hit status now d =
     (let answer = (\<lambda>i. i\<lparr>ci_status := status, ci_responded := Some now\<rparr>) in
      case find hit (call_invitations d) of
        None \<Rightarrow> Inl NotFound
      | Some i \<Rightarrow> Inr (answer i, d\<lparr>call_invitations := update_where hit answer (call_invitations d)\<rparr>))"

text \<open>A pending call of the pair is used again; one that came from the friend counts as accepted.\<close>

definition reuse_pending_call ::
  "uuid \<Rightarrow> uuid \<Rightarrow> instant \<Rightarrow> ('m site_scheme, db_error, call_invitation_row option) prog" where
  "reuse_pending_call u friend now =
     chain (select (\<lambda>d. find (\<lambda>i. call_between u friend i \<and> pending_call now i) (call_invitations d))) (\<lambda>found.
     case found of
       None \<Rightarrow> ret None
     | Some i \<Rightarrow>
         if ci_caller i = u then ret (Some i)
         else optional (statement (answer_call (\<lambda>j. ci_id j = ci_id i \<and> ci_status j = lit ''pending'')
           (lit ''accepted'') now)))"

definition prune_calls :: "uuid \<Rightarrow> database \<Rightarrow> database" where
  "prune_calls u d =
     (let old = (\<lambda>i. ci_caller i = u \<and> ci_status i \<noteq> lit ''pending'');
          kept = take 100 (order_desc ci_created (filter old (call_invitations d))) in
      d\<lparr>call_invitations := delete_where (\<lambda>i. old i \<and> ci_id i \<notin> set (map ci_id kept)) (call_invitations d)\<rparr>)"

text \<open>The insertion, falling back to a call that became pending in between.\<close>

definition place_call :: "platform \<Rightarrow> uuid \<Rightarrow> uuid \<Rightarrow> instant \<Rightarrow> ('m site_scheme, api_error, call_invitation_row) prog" where
  "place_call L u friend now =
     chain new_uuid (\<lambda>i.
     chain new_uuid (\<lambda>room.
     chain utc_now (\<lambda>created.
     chain (attempt (statement (insert_call \<lparr>ci_id = i, ci_caller = u, ci_callee = friend, ci_room = show_uuid L room,
       ci_status = lit ''pending'', ci_expires = now + seconds (5 * 60), ci_created = created, ci_responded = None\<rparr>))) (\<lambda>r.
     case r of
       Inr x \<Rightarrow> ret x
     | Inl UniqueViolation \<Rightarrow>
         chain (map_err social_error (reuse_pending_call u friend now)) (\<lambda>x.
         result (ok_or (CONFLICT, lit ''A call is already pending'') x))
     | Inl CheckViolation \<Rightarrow> throw (TOO_MANY_REQUESTS, lit ''Too many active calls'')
     | Inl e \<Rightarrow> throw (social_error e)))))"

definition create_call_invitation ::
  "platform \<Rightarrow> str option \<Rightarrow> uuid \<Rightarrow> ('m site_scheme, api_error, call_invitation_response) prog" where
  "create_call_invitation L header friend =
     chain (caller L header) (\<lambda>u.
     chain (map_err social_error connect) (\<lambda>_.
     chain (map_err social_error (select (\<lambda>d. are_friends d u friend))) (\<lambda>friends.
     chain (guard friends (FORBIDDEN, lit ''Calls are limited to friends'')) (\<lambda>_.
     chain utc_now (\<lambda>now.
     chain (map_err social_error (execute (expire_calls u friend now))) (\<lambda>_.
     chain (map_err social_error (reuse_pending_call u friend now)) (\<lambda>reused.
     case reused of
       Some i \<Rightarrow>
         chain (publish [ci_caller i, ci_callee i] social_resource.Calls) (\<lambda>_. ret (call_response i None))
     | None \<Rightarrow>
         chain (map_err social_error (select (\<lambda>d. list_ex (\<lambda>i. call_between u friend i \<and>
           now < ci_created i + seconds 30) (call_invitations d)))) (\<lambda>recent.
         chain (guard (\<not> recent) (TOO_MANY_REQUESTS, lit ''Please wait before calling again'')) (\<lambda>_.
         chain (map_err social_error (select (\<lambda>d. length (filter (\<lambda>i. ci_caller i = u \<and> pending_call now i)
           (call_invitations d))))) (\<lambda>active.
         chain (guard (active < 10) (TOO_MANY_REQUESTS, lit ''Too many active calls'')) (\<lambda>_.
         chain (place_call L u friend now) (\<lambda>i.
         chain (attempt (execute (prune_calls (ci_caller i)))) (\<lambda>_.
         chain (publish [ci_caller i, ci_callee i] social_resource.Calls) (\<lambda>_.
         chain (alert_incoming_call L (ci_caller i) [ci_callee i] \<lparr>ia_call = ci_id i, ia_kind = InvitationCall,
           ia_conversation = None, ia_title = None, ia_expires = ci_expires i\<rparr>) (\<lambda>_.
         ret (call_response i None))))))))))))))))"

definition list_incoming_calls ::
  "platform \<Rightarrow> str option \<Rightarrow> ('m site_scheme, api_error, call_invitation_response list) prog" where
  "list_incoming_calls L header =
     chain (caller L header) (\<lambda>u.
     chain (map_err social_error connect) (\<lambda>_.
     chain utc_now (\<lambda>now.
     chain (map_err social_error (select (\<lambda>d. take 10 (order_desc ci_created
       (filter (\<lambda>i. ci_callee i = u \<and> pending_call now i) (call_invitations d)))))) (\<lambda>calls.
     let caller_ids = map ci_caller calls in
     chain (map_err social_error (select (\<lambda>d. filter (\<lambda>x. us_id x \<in> set caller_ids) (users d)))) (\<lambda>callers.
     chain (map_err social_error (select (last_seen_among caller_ids))) (\<lambda>last_seen.
     chain utc_now (\<lambda>now.
     let summary = (\<lambda>x. friend_summary_of L x (Option.bind (status_from_db_value (us_status x)) (\<lambda>st.
           visible_presence_of now (us_id x) st (map_of last_seen (us_id x)) FRIEND))) in
     ret (map (\<lambda>i. call_response i (map_option summary (find (\<lambda>x. us_id x = ci_caller i) callers))) calls))))))))"

definition respond_to_call ::
  "platform \<Rightarrow> str option \<Rightarrow> uuid \<Rightarrow> bool \<Rightarrow> ('m site_scheme, api_error, call_invitation_response) prog" where
  "respond_to_call L header i accept =
     chain (caller L header) (\<lambda>u.
     chain (map_err social_error connect) (\<lambda>_.
     let status = (if accept then lit ''accepted'' else lit ''declined'') in
     chain utc_now (\<lambda>now.
     chain (map_err (\<lambda>e. if e = NotFound then (NOT_FOUND, lit ''Call invitation is no longer available'') else social_error e)
       (statement (answer_call (\<lambda>j. ci_id j = i \<and> ci_callee j = u \<and> pending_call now j) status now))) (\<lambda>x.
     chain (publish [ci_caller x, ci_callee x] social_resource.Calls) (\<lambda>_.
     ret \<lparr>cir_id = ci_id x, cir_room = ci_room x, cir_status = status, cir_expires = ci_expires x, cir_caller = None\<rparr>)))))"

section \<open>Call sessions\<close>

definition CALL_SESSION_TTL :: nat where "CALL_SESSION_TTL = seconds (60 * 60)"

text \<open>\<open>CALL_ROOM_ENDED_SQL\<close>: the room had a meeting, and none is live.\<close>

definition call_room_ended :: "database \<Rightarrow> str \<Rightarrow> bool" where
  "call_room_ended d room \<longleftrightarrow> list_ex (\<lambda>s. ms_room s = room) (meeting_sessions d) \<and>
     \<not> list_ex (\<lambda>s. ms_room s = room \<and> ms_ended s = None) (meeting_sessions d)"

text \<open>\<open>CALL_ROOM_HAS_OTHERS_SQL\<close>: somebody else, a member or a guest, is in the live meeting of the room.\<close>

definition call_room_has_others :: "database \<Rightarrow> str \<Rightarrow> uuid \<Rightarrow> bool" where
  "call_room_has_others d room u \<longleftrightarrow>
     list_ex (\<lambda>p. mp_left p = None \<and> mp_user p \<noteq> Some u \<and>
        list_ex (\<lambda>s. ms_id s = mp_session p \<and> ms_room s = room \<and> ms_ended s = None) (meeting_sessions d))
       (meeting_participants d)"

definition missed_call :: "database \<Rightarrow> instant \<Rightarrow> call_session_row \<Rightarrow> call_member_row \<Rightarrow> bool" where
  "missed_call d now s m \<longleftrightarrow> cm_status m = lit ''pending'' \<and> cs_initiator s \<noteq> cm_user m \<and>
     (cs_status s \<noteq> lit ''active'' \<or> cs_expires s \<le> now \<or> call_room_ended d (cs_room s))"

definition conversation_not_found :: "db_error \<Rightarrow> api_error" where
  "conversation_not_found e = (if e = NotFound then (NOT_FOUND, lit ''Conversation not found'') else social_error e)"

definition load_conversation_for_update :: "uuid \<Rightarrow> ('m site_scheme, api_error, conversation_row) prog" where
  "load_conversation_for_update c = map_err conversation_not_found (first (\<lambda>d. find (\<lambda>e. cv_id e = c) (conversations d)))"

definition expire_sessions :: "instant \<Rightarrow> ('m site_scheme, api_error, unit) prog" where
  "expire_sessions now = map_err social_error (execute (expire_call_sessions now))"

definition expire_ended :: "uuid \<Rightarrow> database \<Rightarrow> database" where
  "expire_ended c d = d\<lparr>call_sessions := update_where
     (\<lambda>s. cs_conversation s = c \<and> cs_status s = lit ''active'' \<and> call_room_ended d (cs_room s))
     (\<lambda>s. s\<lparr>cs_status := lit ''expired''\<rparr>) (call_sessions d)\<rparr>"

definition insert_call_session :: "call_session_row \<Rightarrow> database \<Rightarrow> db_error + call_session_row \<times> database" where
  "insert_call_session s d =
     (if list_ex (\<lambda>t. cs_id t = cs_id s \<or> cs_room t = cs_room s \<or>
         (cs_conversation t = cs_conversation s \<and> cs_status t = lit ''active'')) (call_sessions d) then Inl UniqueViolation
      else if \<not> list_ex (\<lambda>c. cv_id c = cs_conversation s) (conversations d) \<or> \<not> user_exists d (cs_initiator s)
      then Inl ForeignKeyViolation
      else Inr (s, d\<lparr>call_sessions := call_sessions d @ [s]\<rparr>))"

definition insert_call_members :: "call_member_row list \<Rightarrow> database \<Rightarrow> db_error + unit \<times> database" where
  "insert_call_members ms d =
     (if \<not> distinct (map (\<lambda>m. (cm_session m, cm_user m)) ms) \<or>
         list_ex (\<lambda>m. list_ex (\<lambda>k. cm_session k = cm_session m \<and> cm_user k = cm_user m) (call_session_members d)) ms
      then Inl UniqueViolation
      else if \<not> list_all (\<lambda>m. user_exists d (cm_user m) \<and> list_ex (\<lambda>s. cs_id s = cm_session m) (call_sessions d)) ms
      then Inl ForeignKeyViolation
      else Inr ((), d\<lparr>call_session_members := call_session_members d @ ms\<rparr>))"

text \<open>The participants are a query only for a group.\<close>

definition participants_of :: "conversation_row \<Rightarrow> uuid \<Rightarrow> ('m site_scheme, api_error, uuid list) prog" where
  "participants_of c u =
     (if cv_kind c = lit ''group''
      then chain (map_err social_error (select (\<lambda>d. snapshot_participants d c u))) (\<lambda>r. result r)
      else result (snapshot_participants empty_database c u))"

definition call_rows ::
  "platform \<Rightarrow> uuid \<Rightarrow> uuid \<Rightarrow> instant \<Rightarrow> ('m site_scheme, api_error, call_session_row \<times> uuid list \<times> str option) prog" where
  "call_rows L c u now =
     chain (load_conversation_for_update c) (\<lambda>conv.
     chain (participants_of conv u) (\<lambda>people.
     chain (expire_sessions now) (\<lambda>_.
     chain (map_err social_error (execute (expire_ended c))) (\<lambda>_.
     chain (map_err social_error (select (\<lambda>d. list_ex (\<lambda>s. cs_conversation s = c \<and> cs_status s = lit ''active'')
       (call_sessions d)))) (\<lambda>active.
     chain (guard (\<not> active) (CONFLICT, lit ''A call is already active for this conversation'')) (\<lambda>_.
     chain new_uuid (\<lambda>i.
     chain new_uuid (\<lambda>room.
     chain utc_now (\<lambda>created.
     chain (map_err social_error (statement (insert_call_session \<lparr>cs_id = i, cs_conversation = c, cs_initiator = u,
       cs_room = show_uuid L room, cs_status = lit ''active'', cs_expires = now + CALL_SESSION_TTL,
       cs_created = created\<rparr>))) (\<lambda>s.
     chain (map_err social_error (statement (insert_call_members (map (\<lambda>v. \<lparr>cm_session = cs_id s, cm_user = v,
       cm_status = if v = u then lit ''accepted'' else lit ''pending''\<rparr>) people)))) (\<lambda>_.
     ret (s, people, cv_title conv))))))))))))"

definition start_call_session ::
  "platform \<Rightarrow> str option \<Rightarrow> uuid \<Rightarrow> ('m site_scheme, api_error, uuid \<times> str \<times> instant) prog" where
  "start_call_session L header c =
     chain (caller L header) (\<lambda>u.
     chain utc_now (\<lambda>now.
     chain (map_err social_error connect) (\<lambda>_.
     chain (transaction_as social_error (call_rows L c u now)) (\<lambda>(s, people, title).
     chain (publish people social_resource.Calls) (\<lambda>_.
     chain (alert_incoming_call L u (filter (\<lambda>v. v \<noteq> u) people) \<lparr>ia_call = cs_id s, ia_kind = SessionCall,
       ia_conversation = Some c, ia_title = title, ia_expires = cs_expires s\<rparr>) (\<lambda>_.
     ret (cs_id s, cs_room s, cs_expires s)))))))"

record incoming_call_session_response =
  ics_id :: uuid
  ics_conversation :: uuid
  ics_initiator :: uuid
  ics_initiator_name :: str
  ics_title :: "str option"
  ics_expires :: instant
  ics_created :: instant

definition ringing :: "database \<Rightarrow> instant \<Rightarrow> uuid \<Rightarrow> call_session_row \<Rightarrow> bool" where
  "ringing d now u s \<longleftrightarrow>
     list_ex (\<lambda>m. cm_session m = cs_id s \<and> cm_user m = u \<and> cm_status m = lit ''pending'') (call_session_members d) \<and>
     cs_status s = lit ''active'' \<and> now < cs_expires s \<and> \<not> call_room_ended d (cs_room s)"

definition list_incoming_call_sessions ::
  "platform \<Rightarrow> str option \<Rightarrow> ('m site_scheme, api_error, incoming_call_session_response list) prog" where
  "list_incoming_call_sessions L header =
     chain (caller L header) (\<lambda>u.
     chain utc_now (\<lambda>now.
     chain (map_err social_error connect) (\<lambda>_.
     chain (expire_sessions now) (\<lambda>_.
     chain (map_err social_error (select (\<lambda>d. order_desc cs_created (filter (ringing d now u) (call_sessions d))))) (\<lambda>sessions.
     chain (map_err social_error (select (\<lambda>d. map (\<lambda>x. (us_id x, us_name x))
       (filter (\<lambda>x. us_id x \<in> set (map cs_initiator sessions)) (users d))))) (\<lambda>names.
     chain (map_err social_error (select (\<lambda>d. List.map_filter (\<lambda>c. map_option (Pair (cv_id c)) (cv_title c))
       (filter (\<lambda>c. cv_id c \<in> set (map cs_conversation sessions) \<and> cv_kind c = lit ''group'') (conversations d))))) (\<lambda>titles.
     ret (map (\<lambda>s. \<lparr>ics_id = cs_id s, ics_conversation = cs_conversation s, ics_initiator = cs_initiator s,
       ics_initiator_name = (case map_of names (cs_initiator s) of None \<Rightarrow> [] | Some n \<Rightarrow> n),
       ics_title = map_of titles (cs_conversation s), ics_expires = cs_expires s, ics_created = cs_created s\<rparr>) sessions))))))))"

definition session_unavailable :: "db_error \<Rightarrow> api_error" where
  "session_unavailable e = (if e = NotFound then (NOT_FOUND, lit ''Call session is not available'') else social_error e)"

definition has_call_status :: "database \<Rightarrow> uuid \<Rightarrow> uuid \<Rightarrow> str \<Rightarrow> bool" where
  "has_call_status d s u status \<longleftrightarrow>
     list_ex (\<lambda>m. cm_session m = s \<and> cm_user m = u \<and> cm_status m = status) (call_session_members d)"

definition live_session :: "instant \<Rightarrow> uuid \<Rightarrow> database \<Rightarrow> call_session_row option" where
  "live_session now i d = find (\<lambda>s. cs_id s = i \<and> cs_status s = lit ''active'' \<and> now < cs_expires s) (call_sessions d)"

definition get_call_session :: "platform \<Rightarrow> str option \<Rightarrow> uuid \<Rightarrow> ('m site_scheme, api_error, str) prog" where
  "get_call_session L header i =
     chain (caller L header) (\<lambda>u.
     chain utc_now (\<lambda>now.
     chain (map_err social_error connect) (\<lambda>_.
     chain (expire_sessions now) (\<lambda>_.
     map_err session_unavailable (first (\<lambda>d. if has_call_status d i u (lit ''accepted'')
       then map_option cs_room (live_session now i d) else None))))))"

definition call_session_member_ids :: "uuid \<Rightarrow> ('m site_scheme, api_error, uuid list) prog" where
  "call_session_member_ids i = map_err social_error (select (\<lambda>d. map cm_user
     (filter (\<lambda>m. cm_session m = i) (call_session_members d))))"

definition cancel_row :: "uuid \<Rightarrow> uuid \<Rightarrow> database \<Rightarrow> db_error + bool \<times> database" where
  "cancel_row i u d =
     (let hit = (\<lambda>s. cs_id s = i \<and> cs_initiator s = u \<and> cs_status s = lit ''active'' \<and>
            \<not> call_room_has_others d (cs_room s) u) in
      Inr (list_ex hit (call_sessions d),
        d\<lparr>call_sessions := update_where hit (\<lambda>s. s\<lparr>cs_status := lit ''expired''\<rparr>) (call_sessions d)\<rparr>))"

definition cancel_call_session :: "platform \<Rightarrow> str option \<Rightarrow> uuid \<Rightarrow> ('m site_scheme, api_error, unit) prog" where
  "cancel_call_session L header i =
     chain (caller L header) (\<lambda>u.
     chain (map_err social_error connect) (\<lambda>_.
     chain (map_err social_error (statement (cancel_row i u))) (\<lambda>cancelled.
     if cancelled then chain (call_session_member_ids i) (\<lambda>us. publish us social_resource.Calls) else ret ())))"

definition respond_rows :: "uuid \<Rightarrow> uuid \<Rightarrow> instant \<Rightarrow> bool \<Rightarrow> ('m site_scheme, api_error, str option \<times> uuid list) prog" where
  "respond_rows i u now accept =
     chain (expire_sessions now) (\<lambda>_.
     chain (map_err session_unavailable (first (live_session now i))) (\<lambda>s.
     chain (map_err session_unavailable (first (\<lambda>d. find (\<lambda>m. cm_session m = i \<and> cm_user m = u \<and>
       cm_status m = lit ''pending'') (call_session_members d)))) (\<lambda>m.
     chain (call_session_member_ids i) (\<lambda>us.
     chain (map_err social_error (execute (\<lambda>d. d\<lparr>call_session_members := update_where
       (\<lambda>k. cm_session k = cm_session m \<and> cm_user k = cm_user m)
       (\<lambda>k. k\<lparr>cm_status := if accept then lit ''accepted'' else lit ''declined''\<rparr>) (call_session_members d)\<rparr>))) (\<lambda>_.
     ret (if accept then Some (cs_room s) else None, us))))))"

definition call_session_response :: "bool \<Rightarrow> str option \<Rightarrow> bool \<times> str option" where
  "call_session_response accepted room = (accepted, if accepted then room else None)"

definition respond_to_call_session ::
  "platform \<Rightarrow> str option \<Rightarrow> uuid \<Rightarrow> bool \<Rightarrow> ('m site_scheme, api_error, bool \<times> str option) prog" where
  "respond_to_call_session L header i accept =
     chain (caller L header) (\<lambda>u.
     chain utc_now (\<lambda>now.
     chain (map_err social_error connect) (\<lambda>_.
     chain (transaction_as social_error (respond_rows i u now accept)) (\<lambda>(room, us).
     chain (publish us social_resource.Calls) (\<lambda>_.
     ret (call_session_response accept room))))))"

end
