(* ===== verification/MeetingHistory.thy ===== *)
theory MeetingHistory
  imports Calls MeetingRooms
begin

text \<open>
  Reading the meeting history back (\<open>src/social/meetings.rs\<close>): the list of the meetings that a user attended or
  missed, one meeting, the summary behind a chat link, who is in a room with what status, and the read state of
  missed calls. \<open>MeetingRecorder\<close> models the half that writes the history.
\<close>

definition DEFAULT_PAGE_SIZE :: int where "DEFAULT_PAGE_SIZE = 20"
definition MAX_PAGE_SIZE :: int where "MAX_PAGE_SIZE = 50"
definition PREVIEW_PEOPLE :: nat where "PREVIEW_PEOPLE = 4"
definition MAX_MEETING_CONNECTIONS :: nat where "MAX_MEETING_CONNECTIONS = 2000"

definition meeting_not_found :: api_error where
  "meeting_not_found = (NOT_FOUND, lit ''Meeting not found'')"

section \<open>People of a meeting\<close>

record meeting_connection =
  cn_session :: uuid
  cn_user :: "uuid option"
  cn_display_name :: str
  cn_joined :: instant
  cn_left :: "instant option"
  cn_account_name :: "str option"
  cn_nickname :: "str option"
  cn_avatar_key :: "str option"

record meeting_person =
  pe_user :: "uuid option"
  pe_name :: str
  pe_nickname :: "str option"
  pe_avatar_url :: "str option"
  pe_joined :: instant
  pe_left :: "instant option"
  pe_is_you :: bool

text \<open>Accounts by their ID, guests by their name without case and surrounding white space.\<close>

definition person_key :: "platform \<Rightarrow> meeting_connection \<Rightarrow> str" where
  "person_key L c = (case cn_user c of
     Some u \<Rightarrow> lit ''user:'' @ show_uuid L u
   | None \<Rightarrow> lit ''guest:'' @ to_lowercase (lower_table L) (trim (cn_display_name c)))"

definition person_of :: "platform \<Rightarrow> uuid option \<Rightarrow> meeting_connection \<Rightarrow> meeting_person" where
  "person_of L viewer c =
     \<lparr>pe_user = cn_user c,
      pe_name = (case cn_account_name c of Some n \<Rightarrow> n | None \<Rightarrow> cn_display_name c),
      pe_nickname = cn_nickname c,
      pe_avatar_url = Option.bind (cn_user c) (\<lambda>u. map_option (user_avatar_url L u) (cn_avatar_key c)),
      pe_joined = cn_joined c, pe_left = cn_left c, pe_is_you = (viewer \<noteq> None \<and> cn_user c = viewer)\<rparr>"

text \<open>The later end of two connections; one that is open keeps the person in the meeting.\<close>

definition later_end :: "instant option \<Rightarrow> instant option \<Rightarrow> instant option" where
  "later_end a b = (case (a, b) of (Some s, Some t) \<Rightarrow> Some (max s t) | _ \<Rightarrow> None)"

definition group_step ::
  "platform \<Rightarrow> uuid option \<Rightarrow> meeting_connection \<Rightarrow> meeting_person list \<times> (str \<Rightarrow> nat option)
     \<Rightarrow> meeting_person list \<times> (str \<Rightarrow> nat option)" where
  "group_step L viewer c acc = (case acc of (people, index) \<Rightarrow>
     case index (person_key L c) of
       Some i \<Rightarrow> (people[i := (people ! i)\<lparr>pe_left := later_end (pe_left (people ! i)) (cn_left c)\<rparr>], index)
     | None \<Rightarrow> (people @ [person_of L viewer c], index(person_key L c \<mapsto> length people)))"

definition group_people :: "platform \<Rightarrow> meeting_connection list \<Rightarrow> uuid option \<Rightarrow> meeting_person list" where
  "group_people L connections viewer = fst (fold (group_step L viewer) connections ([], Map.empty))"

text \<open>The connections of some meetings in the order of joining, bounded; the names are a left join.\<close>

definition connection_of :: "database \<Rightarrow> meeting_participant_row \<Rightarrow> meeting_connection" where
  "connection_of d p =
     (let x = Option.bind (mp_user p) (\<lambda>u. user_row_of u d) in
      \<lparr>cn_session = mp_session p, cn_user = mp_user p, cn_display_name = mp_name p, cn_joined = mp_joined p,
       cn_left = mp_left p, cn_account_name = map_option us_name x, cn_nickname = map_option us_nickname x,
       cn_avatar_key = Option.bind x us_avatar_key\<rparr>)"

definition load_connections :: "uuid list \<Rightarrow> ('m site_scheme, api_error, meeting_connection list) prog" where
  "load_connections ids = map_err social_error (select (\<lambda>d.
     map (connection_of d) (take (MAX_MEETING_CONNECTIONS * max (length ids) 1)
       (order_asc mp_joined (filter (\<lambda>p. mp_session p \<in> set ids) (meeting_participants d))))))"

section \<open>Missed calls\<close>

definition attended_by :: "database \<Rightarrow> uuid \<Rightarrow> uuid \<Rightarrow> bool" where
  "attended_by d u i \<longleftrightarrow> list_ex (\<lambda>p. mp_session p = i \<and> mp_user p = Some u) (meeting_participants d)"

text \<open>The calls of a user that nobody answered for them, with their room.\<close>

definition missed_rows :: "database \<Rightarrow> instant \<Rightarrow> uuid \<Rightarrow> call_session_row list" where
  "missed_rows d now u = filter (\<lambda>s. list_ex (\<lambda>m. cm_session m = cs_id s \<and> cm_user m = u \<and> missed_call d now s m)
     (call_session_members d)) (call_sessions d)"

record missed_call_row =
  mi_call :: uuid
  mi_unread :: bool

definition missed_calls ::
  "uuid \<Rightarrow> str list \<Rightarrow> ('m site_scheme, api_error, str \<Rightarrow> missed_call_row option) prog" where
  "missed_calls u rooms =
     (if rooms = [] then ret (\<lambda>_. None)
      else chain utc_now (\<lambda>now.
        map_err social_error (select (\<lambda>d. map_of (rev (map
          (\<lambda>s. (cs_room s, \<lparr>mi_call = cs_id s, mi_unread = (cs_id s, u) \<notin> set (call_read_states d)\<rparr>))
          (filter (\<lambda>s. cs_room s \<in> set rooms) (missed_rows d now u))))))))"

section \<open>The history\<close>

record meeting_session_response =
  sr_id :: uuid
  sr_room :: str
  sr_call :: "uuid option"
  sr_conversation :: "uuid option"
  sr_policy :: "group_access_policy option"
  sr_started :: instant
  sr_ended :: "instant option"
  sr_count :: nat
  sr_participants :: "meeting_person list"
  sr_missed :: bool
  sr_unread :: bool

definition room_policies :: "str list \<Rightarrow> ('m site_scheme, db_error, str \<Rightarrow> group_access_policy option) prog" where
  "room_policies rooms = select (\<lambda>d. map_of (rev (List.map_filter
     (\<lambda>r. map_option (Pair (mr_room_id r)) (from_db_value (mr_access_policy r)))
     (filter (\<lambda>r. mr_room_id r \<in> set rooms) (meeting_rooms d)))))"

text \<open>A preview names the first other people; the detail view names everyone.\<close>

definition meeting_response ::
  "platform \<Rightarrow> (str \<Rightarrow> (uuid \<times> uuid) option) \<Rightarrow> (str \<Rightarrow> group_access_policy option) \<Rightarrow> meeting_connection list
     \<Rightarrow> uuid \<Rightarrow> nat option \<Rightarrow> meeting_session_row \<Rightarrow> meeting_session_response" where
  "meeting_response L calls policies connections viewer preview s =
     (let people = group_people L (filter (\<lambda>c. cn_session c = ms_id s) connections) (Some viewer) in
      \<lparr>sr_id = ms_id s, sr_room = ms_room s, sr_call = map_option fst (calls (ms_room s)),
       sr_conversation = map_option snd (calls (ms_room s)), sr_policy = policies (ms_room s),
       sr_started = ms_started s, sr_ended = ms_ended s, sr_count = length people,
       sr_participants = (case preview of
          Some k \<Rightarrow> take k (filter (\<lambda>p. \<not> pe_is_you p) people) | None \<Rightarrow> people),
       sr_missed = False, sr_unread = False\<rparr>)"

definition meeting_responses ::
  "platform \<Rightarrow> meeting_session_row list \<Rightarrow> uuid \<Rightarrow> nat option
     \<Rightarrow> ('m site_scheme, api_error, meeting_session_response list) prog" where
  "meeting_responses L sessions viewer preview =
     (if sessions = [] then ret []
      else let rooms = map ms_room sessions in
        chain (map_err social_error (select (\<lambda>d. map_of (rev (map (\<lambda>s. (cs_room s, cs_id s, cs_conversation s))
          (filter (\<lambda>s. cs_room s \<in> set rooms) (call_sessions d))))))) (\<lambda>calls.
        chain (map_err social_error (room_policies rooms)) (\<lambda>policies.
        chain (load_connections (map ms_id sessions)) (\<lambda>connections.
        ret (map (meeting_response L calls policies connections viewer preview) sessions)))))"

definition flagged ::
  "uuid list \<Rightarrow> (str \<Rightarrow> missed_call_row option) \<Rightarrow> meeting_session_response \<Rightarrow> meeting_session_response" where
  "flagged attended missed m =
     (if sr_id m \<in> set attended then m
      else case missed (sr_room m) of None \<Rightarrow> m | Some c \<Rightarrow> m\<lparr>sr_missed := True, sr_unread := mi_unread c\<rparr>)"

definition apply_missed_flags ::
  "uuid \<Rightarrow> meeting_session_response list \<Rightarrow> ('m site_scheme, api_error, meeting_session_response list) prog" where
  "apply_missed_flags u meetings =
     chain (map_err social_error (select (\<lambda>d. filter (attended_by d u) (map sr_id meetings)))) (\<lambda>attended.
     chain (missed_calls u (map sr_room (filter (\<lambda>m. sr_id m \<notin> set attended) meetings))) (\<lambda>missed.
     ret (map (flagged attended missed) meetings)))"

record meeting_sessions_page =
  mpg_meetings :: "meeting_session_response list"
  mpg_next_before :: "instant option"

definition history_rows :: "database \<Rightarrow> instant \<Rightarrow> uuid \<Rightarrow> instant option \<Rightarrow> nat \<Rightarrow> meeting_session_row list" where
  "history_rows d now u before n = take (n + 1) (order_desc ms_started (filter (\<lambda>s.
     (attended_by d u (ms_id s) \<or> ms_room s \<in> set (map cs_room (missed_rows d now u))) \<and>
     (case before of None \<Rightarrow> True | Some b \<Rightarrow> ms_started s < b)) (meeting_sessions d)))"

definition clamp :: "int \<Rightarrow> int \<Rightarrow> int \<Rightarrow> int" where
  "clamp low high k = (if k < low then low else if high < k then high else k)"

definition list_meeting_sessions ::
  "platform \<Rightarrow> str option \<Rightarrow> instant option \<Rightarrow> int option \<Rightarrow> ('m site_scheme, api_error, meeting_sessions_page) prog" where
  "list_meeting_sessions L header before limit =
     chain (caller L header) (\<lambda>u.
     let n = nat (clamp 1 MAX_PAGE_SIZE (case limit of None \<Rightarrow> DEFAULT_PAGE_SIZE | Some k \<Rightarrow> k)) in
     chain (map_err social_error connect) (\<lambda>_.
     chain utc_now (\<lambda>now.
     chain (map_err social_error (select (\<lambda>d. history_rows d now u before n))) (\<lambda>sessions.
     let shown = take n sessions in
     chain (meeting_responses L shown u (Some PREVIEW_PEOPLE)) (\<lambda>meetings.
     chain (apply_missed_flags u meetings) (\<lambda>meetings.
     ret \<lparr>mpg_meetings = meetings,
          mpg_next_before = (if n < length sessions then Some (ms_started (last shown)) else None)\<rparr>))))))"

definition get_meeting_session ::
  "platform \<Rightarrow> str option \<Rightarrow> uuid \<Rightarrow> ('m site_scheme, api_error, meeting_session_response) prog" where
  "get_meeting_session L header i =
     chain (caller L header) (\<lambda>u.
     chain (map_err social_error connect) (\<lambda>_.
     chain (map_err social_error (select (\<lambda>d. attended_by d u i))) (\<lambda>attended.
     chain (map_err social_error (select (\<lambda>d. find (\<lambda>s. ms_id s = i) (meeting_sessions d)))) (\<lambda>found.
     chain (result (ok_or meeting_not_found found)) (\<lambda>s.
     chain (if attended then ret ()
       else chain (missed_calls u [ms_room s]) (\<lambda>missed. guard (missed (ms_room s) \<noteq> None) meeting_not_found)) (\<lambda>_.
     chain (meeting_responses L [s] u None) (\<lambda>meetings.
     chain (apply_missed_flags u meetings) (\<lambda>meetings.
     result (ok_or meeting_not_found (if meetings = [] then None else Some (last meetings)))))))))))"

section \<open>Rooms\<close>

datatype room_status = Live | Ended

record room_summary_response =
  rsr_status :: room_status
  rsr_started :: instant
  rsr_ended :: "instant option"
  rsr_count :: nat
  rsr_live_count :: nat

definition latest_session :: "str \<Rightarrow> ('m site_scheme, api_error, meeting_session_row option) prog" where
  "latest_session room = map_err social_error (select (\<lambda>d.
     case order_desc ms_started (filter (\<lambda>s. ms_room s = room) (meeting_sessions d)) of [] \<Rightarrow> None | s # _ \<Rightarrow> Some s))"

text \<open>A link names a room, or a call session, whose room has an ID of its own.\<close>

definition linked_session :: "platform \<Rightarrow> str \<Rightarrow> ('m site_scheme, api_error, meeting_session_row option) prog" where
  "linked_session L room_ref =
     chain (latest_session room_ref) (\<lambda>found.
     case found of
       Some s \<Rightarrow> ret (Some s)
     | None \<Rightarrow>
         (case parse_uuid L room_ref of
            None \<Rightarrow> ret None
          | Some i \<Rightarrow>
              chain (map_err social_error (select (\<lambda>d. map_option cs_room (find (\<lambda>s. cs_id s = i) (call_sessions d))))) (\<lambda>room.
              case room of None \<Rightarrow> ret None | Some r \<Rightarrow> latest_session r)))"

definition get_room_summary :: "platform \<Rightarrow> str option \<Rightarrow> str \<Rightarrow> ('m site_scheme, api_error, room_summary_response) prog" where
  "get_room_summary L header room_ref =
     chain (caller L header) (\<lambda>_.
     chain (guard (is_valid_room_id room_ref) (BAD_REQUEST, lit ''Invalid room ID'')) (\<lambda>_.
     chain (map_err social_error connect) (\<lambda>_.
     chain (linked_session L room_ref) (\<lambda>found.
     chain (result (ok_or meeting_not_found found)) (\<lambda>s.
     chain (load_connections [ms_id s]) (\<lambda>connections.
     let people = group_people L connections None in
     ret \<lparr>rsr_status = (if ms_ended s \<noteq> None then Ended else Live), rsr_started = ms_started s, rsr_ended = ms_ended s,
          rsr_count = length people, rsr_live_count = length (filter (\<lambda>p. pe_left p = None) people)\<rparr>))))))"

record participant_presence_response =
  pp_participant :: str
  pp_user :: uuid
  pp_status :: "user_status option"
  pp_avatar_url :: "str option"

definition connected_users :: "database \<Rightarrow> uuid \<Rightarrow> (str \<times> uuid) list" where
  "connected_users d i = List.map_filter (\<lambda>p. map_option (Pair (mp_participant p)) (mp_user p))
     (filter (\<lambda>p. mp_session p = i \<and> mp_left p = None) (meeting_participants d))"

definition participant_presence ::
  "platform \<Rightarrow> uuid \<Rightarrow> user_row list \<Rightarrow> str \<times> uuid \<Rightarrow> participant_presence_response option" where
  "participant_presence L viewer accounts p = (case p of (participant, u) \<Rightarrow>
     map_option (\<lambda>x. \<lparr>pp_participant = participant, pp_user = u,
         pp_status = (if can_see (visibility_for u) (if u = viewer then SELF else MEETING_PEER)
                      then status_from_db_value (us_status x) else None),
         pp_avatar_url = map_option (user_avatar_url L u) (us_avatar_key x)\<rparr>)
       (find (\<lambda>x. us_id x = u) accounts))"

definition get_room_presence ::
  "platform \<Rightarrow> str option \<Rightarrow> str \<Rightarrow> ('m site_scheme, api_error, participant_presence_response list) prog" where
  "get_room_presence L header room =
     chain (caller L header) (\<lambda>u.
     chain (guard (is_valid_room_id room) (BAD_REQUEST, lit ''Invalid room ID'')) (\<lambda>_.
     chain (map_err social_error connect) (\<lambda>_.
     chain (map_err social_error (select (\<lambda>d. find (\<lambda>s. ms_room s = room \<and> ms_ended s = None) (meeting_sessions d)))) (\<lambda>found.
     chain (result (ok_or meeting_not_found found)) (\<lambda>s.
     chain (map_err social_error (select (\<lambda>d. connected_users d (ms_id s)))) (\<lambda>connected.
     chain (guard (list_ex (\<lambda>p. snd p = u) connected) meeting_not_found) (\<lambda>_.
     chain (map_err social_error (select (\<lambda>d. filter (\<lambda>x. us_id x \<in> set (map snd connected)) (users d)))) (\<lambda>accounts.
     ret (List.map_filter (participant_presence L u accounts) connected)))))))))"

section \<open>The read state of a missed call\<close>

text \<open>\<open>ON CONFLICT DO NOTHING\<close>.\<close>

definition insert_call_read :: "uuid \<Rightarrow> uuid \<Rightarrow> database \<Rightarrow> db_error + unit \<times> database" where
  "insert_call_read i u d =
     (if (i, u) \<in> set (call_read_states d) then Inr ((), d)
      else if \<not> list_ex (\<lambda>s. cs_id s = i) (call_sessions d) \<or> \<not> user_exists d u then Inl ForeignKeyViolation
      else Inr ((), d\<lparr>call_read_states := call_read_states d @ [(i, u)]\<rparr>))"

definition missed_call_of ::
  "platform \<Rightarrow> str option \<Rightarrow> uuid \<Rightarrow> ('m site_scheme, api_error, uuid \<times> missed_call_row option) prog" where
  "missed_call_of L header i =
     chain (caller L header) (\<lambda>u.
     chain (map_err social_error connect) (\<lambda>_.
     chain (map_err social_error (select (\<lambda>d. map_option ms_room (find (\<lambda>s. ms_id s = i) (meeting_sessions d))))) (\<lambda>found.
     chain (result (ok_or meeting_not_found found)) (\<lambda>room.
     chain (missed_calls u [room]) (\<lambda>missed. ret (u, missed room))))))"

definition mark_meeting_read :: "platform \<Rightarrow> str option \<Rightarrow> uuid \<Rightarrow> ('m site_scheme, api_error, unit) prog" where
  "mark_meeting_read L header i =
     chain (missed_call_of L header i) (\<lambda>(u, call).
     case call of
       None \<Rightarrow> ret ()
     | Some c \<Rightarrow>
         chain (map_err social_error (statement (insert_call_read (mi_call c) u))) (\<lambda>_.
         publish [u] social_resource.Calls))"

definition mark_meeting_unread :: "platform \<Rightarrow> str option \<Rightarrow> uuid \<Rightarrow> ('m site_scheme, api_error, unit) prog" where
  "mark_meeting_unread L header i =
     chain (missed_call_of L header i) (\<lambda>(u, call).
     case call of
       None \<Rightarrow> throw (BAD_REQUEST, lit ''Only missed calls can be unread'')
     | Some c \<Rightarrow>
         chain (map_err social_error (execute (\<lambda>d. d\<lparr>call_read_states := delete_where
           (\<lambda>r. r = (mi_call c, u)) (call_read_states d)\<rparr>))) (\<lambda>_.
         publish [u] social_resource.Calls))"

end
