(* ===== verification/MessageTexts.thy ===== *)
theory MessageTexts
  imports Conversations
begin

text \<open>
  What a message may hold (\<open>src/social/messages.rs\<close>): its text, its attachments as they arrive in a multipart
  body, voice details, and the header that serves an attachment. \<open>serde_json\<close> is the parameter \<open>json\<close>.
\<close>

section \<open>Bytes as text\<close>

text \<open>
  \<open>String::from_utf8\<close>: the scalar values of a well-formed byte sequence, without overlong forms and
  surrogates.
\<close>

definition continues :: "8 word \<Rightarrow> bool" where
  "continues b \<longleftrightarrow> unat b div 64 = 2"

definition low_bits :: "8 word \<Rightarrow> nat" where
  "low_bits b = unat b mod 64"

definition scalar_value :: "nat \<Rightarrow> nat \<Rightarrow> str option" where
  "scalar_value least c = (if least \<le> c \<and> c < 1114112 \<and> (c < 55296 \<or> 57344 \<le> c) then Some [c] else None)"

fun from_utf8 :: "8 word list \<Rightarrow> str option" where
  "from_utf8 [] = Some []"
| "from_utf8 (a # as) =
     (let join = (\<lambda>c rest. Option.bind c (\<lambda>c. map_option ((@) c) rest)) in
      if unat a < 128 then join (Some [unat a]) (from_utf8 as)
      else if unat a div 32 = 6 then
        (case as of b # bs \<Rightarrow> if continues b
           then join (scalar_value 128 ((unat a mod 32) * 64 + low_bits b)) (from_utf8 bs) else None
         | _ \<Rightarrow> None)
      else if unat a div 16 = 14 then
        (case as of b # c # bs \<Rightarrow> if continues b \<and> continues c
           then join (scalar_value 2048 (((unat a mod 16) * 64 + low_bits b) * 64 + low_bits c)) (from_utf8 bs) else None
         | _ \<Rightarrow> None)
      else if unat a div 8 = 30 then
        (case as of b # c # e # bs \<Rightarrow> if continues b \<and> continues c \<and> continues e
           then join (scalar_value 65536 ((((unat a mod 8) * 64 + low_bits b) * 64 + low_bits c) * 64 + low_bits e))
             (from_utf8 bs) else None
         | _ \<Rightarrow> None)
      else None)"

text \<open>\<open>str::parse::<i64>\<close>: an optional sign and at least one digit, within the range.\<close>

definition parse_digits :: "str \<Rightarrow> int option" where
  "parse_digits s = (if s \<noteq> [] \<and> list_all is_ascii_digit s
     then Some (foldl (\<lambda>n c. n * 10 + int (c - 48)) 0 s) else None)"

definition parse_i64 :: "str \<Rightarrow> int option" where
  "parse_i64 s =
     (let n = (case s of [] \<Rightarrow> None
               | c # cs \<Rightarrow> if c = 45 then map_option uminus (parse_digits cs)
                           else if c = 43 then parse_digits cs else parse_digits s) in
      case n of None \<Rightarrow> None | Some k \<Rightarrow> if - (2 ^ 63) \<le> k \<and> k < 2 ^ 63 then Some k else None)"

section \<open>Limits and checks\<close>

definition MAX_ATTACHMENT_BYTES :: nat where "MAX_ATTACHMENT_BYTES = 25 * 1024 * 1024"
definition MAX_ATTACHMENT_TOTAL_BYTES :: nat where "MAX_ATTACHMENT_TOTAL_BYTES = 25 * 1024 * 1024"
definition MAX_ATTACHMENTS_PER_MESSAGE :: nat where "MAX_ATTACHMENTS_PER_MESSAGE = 10"
definition MAX_FILE_NAME_BYTES :: nat where "MAX_FILE_NAME_BYTES = 255"
definition MAX_CONTENT_TYPE_BYTES :: nat where "MAX_CONTENT_TYPE_BYTES = 255"
definition MAX_REPLY_TO_SEQUENCE_BYTES :: nat where "MAX_REPLY_TO_SEQUENCE_BYTES = 64"
definition MAX_MESSAGE_CONTENT_BYTES :: nat where "MAX_MESSAGE_CONTENT_BYTES = 8000"
definition MAX_VOICE_DETAILS_BYTES :: nat where "MAX_VOICE_DETAILS_BYTES = 1024"
definition MAX_VOICE_WAVEFORM_BARS :: nat where "MAX_VOICE_WAVEFORM_BARS = 64"
definition MAX_VOICE_DURATION_MS :: int where "MAX_VOICE_DURATION_MS = 60 * 60 * 1000"

definition validate_message_content :: "str \<Rightarrow> api_error + str" where
  "validate_message_content content =
     (let content = trim content in
      if 1 \<le> length content \<and> length content \<le> 2000 then Inr content
      else Inl (BAD_REQUEST, lit ''Message content must contain 1 to 2000 characters''))"

definition validate_attachment_content :: "str \<Rightarrow> api_error + str" where
  "validate_attachment_content content =
     (let content = trim content in
      if 2000 < length content then Inl (BAD_REQUEST, lit ''Message content must not exceed 2000 characters'')
      else Inr content)"

definition parse_reply_to_sequence :: "str \<Rightarrow> api_error + int" where
  "parse_reply_to_sequence v =
     ok_or (BAD_REQUEST, lit ''replyToSequence must be a positive integer'')
       (case parse_i64 (trim v) of None \<Rightarrow> None | Some k \<Rightarrow> if 0 < k then Some k else None)"

definition validate_attachment_metadata :: "str option \<Rightarrow> str option \<Rightarrow> nat \<Rightarrow> api_error + str \<times> str" where
  "validate_attachment_metadata file_name content_type n =
     (if n = 0 \<or> MAX_ATTACHMENT_BYTES < n then Inl (BAD_REQUEST, lit ''Attachment must be between 1 and 26214400 bytes'')
      else let name = trim (case file_name of None \<Rightarrow> [] | Some s \<Rightarrow> s) in
        if name = [] \<or> MAX_FILE_NAME_BYTES < byte_len name \<or> list_ex is_control name
        then Inl (BAD_REQUEST, lit ''Attachment file name is invalid'')
        else let t = (case content_type of None \<Rightarrow> lit ''application/octet-stream'' | Some t \<Rightarrow> t) in
          if t = [] \<or> MAX_CONTENT_TYPE_BYTES < byte_len t \<or> list_ex is_control t
          then Inl (BAD_REQUEST, lit ''Attachment content type is invalid'')
          else Inr (name, map to_ascii_lower t))"

text \<open>The page of a listing: the cursor and the limit are 64-bit integers of the query.\<close>

definition validate_message_page :: "int option \<Rightarrow> int option \<Rightarrow> api_error + int option \<times> nat" where
  "validate_message_page before limit =
     (if (case before of None \<Rightarrow> False | Some b \<Rightarrow> b \<le> 0)
      then Inl (BAD_REQUEST, lit ''before must be a positive server sequence'')
      else let k = (case limit of None \<Rightarrow> 50 | Some k \<Rightarrow> k) in
        if k < 1 \<or> 50 < k then Inl (BAD_REQUEST, lit ''limit must be between 1 and 50'')
        else Inr (before, nat k))"

text \<open>Only images and videos that a browser may show are served inline, under a name of safe characters.\<close>

definition inline_types :: "str list" where
  "inline_types = [lit ''image/jpeg'', lit ''image/png'', lit ''image/webp'', lit ''image/gif'', lit ''video/mp4'',
     lit ''video/webm'']"

definition safe_character :: "uchar \<Rightarrow> uchar" where
  "safe_character c =
     (if is_ascii_lowercase c \<or> is_ascii_uppercase c \<or> is_ascii_digit c \<or> c \<in> set (lit '' .-_()'') then c else 95)"

definition safe_file_name :: "str \<Rightarrow> str" where
  "safe_file_name name =
     (let s = trim (take 180 (map safe_character name)) in if s = [] then lit ''attachment'' else s)"

definition content_disposition :: "str \<Rightarrow> str \<Rightarrow> str" where
  "content_disposition file_name content_type =
     (if content_type \<in> set inline_types then lit ''inline'' else lit ''attachment'') @
     lit ''; filename='' @ [34] @ safe_file_name file_name @ [34]"

section \<open>Voice messages\<close>

record voice_message_details =
  vd_duration_ms :: int
  vd_waveform :: "8 word list"

definition voice_from_columns :: "nat option \<Rightarrow> 8 word list option \<Rightarrow> voice_message_details option" where
  "voice_from_columns duration waveform =
     Option.bind duration (\<lambda>ms. map_option (\<lambda>bars. \<lparr>vd_duration_ms = int ms, vd_waveform = bars\<rparr>) waveform)"

type_synonym json_voice = "8 word list \<Rightarrow> voice_message_details option"

definition parse_voice_details :: "json_voice \<Rightarrow> 8 word list \<Rightarrow> str \<Rightarrow> api_error + voice_message_details" where
  "parse_voice_details json bytes content_type =
     (if \<not> starts_with (lit ''audio/'') content_type
      then Inl (BAD_REQUEST, lit ''voice details are only accepted for audio files'')
      else and_then (ok_or (BAD_REQUEST, lit ''voice must be JSON with durationMs and waveform'') (json bytes)) (\<lambda>v.
      if vd_duration_ms v < 1 \<or> MAX_VOICE_DURATION_MS < vd_duration_ms v
      then Inl (BAD_REQUEST, lit ''voice durationMs is out of range'')
      else if vd_waveform v = [] \<or> MAX_VOICE_WAVEFORM_BARS < length (vd_waveform v)
      then Inl (BAD_REQUEST, lit ''voice waveform must have between 1 and 64 bars'')
      else Inr v))"

section \<open>The multipart body\<close>

text \<open>A field with the chunks of its data; a chunk or a field that cannot be read is \<open>None\<close>.\<close>

record message_part =
  mp_field :: "str option"
  mp_file_name :: "str option"
  mp_content_type :: "str option"
  mp_chunks :: "8 word list option list"

record pending_attachment =
  pa_id :: uuid
  pa_key :: str
  pa_file_name :: str
  pa_content_type :: str
  pa_bytes :: "8 word list"
  pa_voice :: "voice_message_details option"

definition part_error :: api_error where
  "part_error = (BAD_REQUEST, lit ''Invalid message attachment upload'')"

fun read_multipart_field :: "nat \<Rightarrow> 8 word list \<Rightarrow> 8 word list option list \<Rightarrow> api_error + 8 word list" where
  "read_multipart_field max_bytes bytes [] = Inr bytes"
| "read_multipart_field max_bytes bytes (None # cs) = Inl part_error"
| "read_multipart_field max_bytes bytes (Some c # cs) =
     (if max_bytes - length bytes < length c
      then Inl (PAYLOAD_TOO_LARGE, lit ''Attachment must not exceed 26214400 bytes'')
      else read_multipart_field max_bytes (bytes @ c) cs)"

record parsed_message =
  pm_content :: "str option"
  pm_reply_to :: "int option"
  pm_attachments :: "pending_attachment list"
  pm_bytes :: nat

definition no_parts :: parsed_message where
  "no_parts = \<lparr>pm_content = None, pm_reply_to = None, pm_attachments = [], pm_bytes = 0\<rparr>"

definition content_part :: "message_part \<Rightarrow> parsed_message \<Rightarrow> api_error + parsed_message" where
  "content_part f m =
     (if pm_content m \<noteq> None then Inl (BAD_REQUEST, lit ''content may only be provided once'')
      else and_then (read_multipart_field MAX_MESSAGE_CONTENT_BYTES [] (mp_chunks f)) (\<lambda>bytes.
      and_then (ok_or (BAD_REQUEST, lit ''content must be valid UTF-8'') (from_utf8 bytes)) (\<lambda>text.
      Inr (m\<lparr>pm_content := Some text\<rparr>))))"

definition reply_part :: "message_part \<Rightarrow> parsed_message \<Rightarrow> api_error + parsed_message" where
  "reply_part f m =
     (if pm_reply_to m \<noteq> None then Inl (BAD_REQUEST, lit ''replyToSequence may only be provided once'')
      else and_then (read_multipart_field MAX_REPLY_TO_SEQUENCE_BYTES [] (mp_chunks f)) (\<lambda>bytes.
      and_then (ok_or (BAD_REQUEST, lit ''replyToSequence must be an integer'') (from_utf8 bytes)) (\<lambda>text.
      and_then (parse_reply_to_sequence text) (\<lambda>k.
      Inr (m\<lparr>pm_reply_to := Some k\<rparr>)))))"

definition attachment_key :: "platform \<Rightarrow> uuid \<Rightarrow> uuid \<Rightarrow> str" where
  "attachment_key L c i = lit ''message-attachments/'' @ show_uuid L c @ lit ''/'' @ show_uuid L i"

text \<open>What is checked of a file before it gets its ID.\<close>

definition file_part :: "message_part \<Rightarrow> parsed_message \<Rightarrow> api_error + 8 word list \<times> str \<times> str" where
  "file_part f m =
     (if length (pm_attachments m) = MAX_ATTACHMENTS_PER_MESSAGE
      then Inl (BAD_REQUEST, lit ''A message may contain at most 10 attachments'')
      else and_then (read_multipart_field MAX_ATTACHMENT_BYTES [] (mp_chunks f)) (\<lambda>bytes.
      if MAX_ATTACHMENT_TOTAL_BYTES < pm_bytes m + length bytes
      then Inl (PAYLOAD_TOO_LARGE, lit ''Message attachments must not exceed 26214400 bytes'')
      else and_then (validate_attachment_metadata (mp_file_name f) (mp_content_type f) (length bytes)) (\<lambda>(name, t).
      Inr (bytes, name, t))))"

definition add_file :: "platform \<Rightarrow> uuid \<Rightarrow> uuid \<Rightarrow> 8 word list \<times> str \<times> str \<Rightarrow> parsed_message \<Rightarrow> parsed_message" where
  "add_file L c i file m = (case file of (bytes, name, t) \<Rightarrow>
     m\<lparr>pm_attachments := pm_attachments m @ [\<lparr>pa_id = i, pa_key = attachment_key L c i, pa_file_name = name,
         pa_content_type = t, pa_bytes = bytes, pa_voice = None\<rparr>],
       pm_bytes := pm_bytes m + length bytes\<rparr>)"

text \<open>Voice details describe the file just before them.\<close>

definition voice_part :: "json_voice \<Rightarrow> message_part \<Rightarrow> parsed_message \<Rightarrow> api_error + parsed_message" where
  "voice_part json f m =
     and_then (read_multipart_field MAX_VOICE_DETAILS_BYTES [] (mp_chunks f)) (\<lambda>bytes.
     if pm_attachments m = [] then Inl (BAD_REQUEST, lit ''voice must follow the file it describes'')
     else let a = last (pm_attachments m) in
       if pa_voice a \<noteq> None then Inl (BAD_REQUEST, lit ''voice may only be provided once per file'')
       else and_then (parse_voice_details json bytes (pa_content_type a)) (\<lambda>v.
         Inr (m\<lparr>pm_attachments := butlast (pm_attachments m) @ [a\<lparr>pa_voice := Some v\<rparr>]\<rparr>)))"

fun parse_parts ::
  "platform \<Rightarrow> json_voice \<Rightarrow> uuid \<Rightarrow> message_part option list \<Rightarrow> parsed_message \<Rightarrow> ('s, api_error, parsed_message) prog" where
  "parse_parts L json c [] m = ret m"
| "parse_parts L json c (None # fs) m = throw part_error"
| "parse_parts L json c (Some f # fs) m =
     (case mp_field f of
        None \<Rightarrow> throw (BAD_REQUEST, lit ''Multipart field name is required'')
      | Some name \<Rightarrow>
          chain (if name = lit ''content'' then result (content_part f m)
            else if name = lit ''replyToSequence'' then result (reply_part f m)
            else if name = lit ''file'' then
              chain (result (file_part f m)) (\<lambda>file.
              chain new_uuid (\<lambda>i. ret (add_file L c i file m)))
            else if name = lit ''voice'' then result (voice_part json f m)
            else throw (BAD_REQUEST, lit ''Unexpected multipart field'')) (\<lambda>m.
          parse_parts L json c fs m))"

definition parse_attachment_message ::
  "platform \<Rightarrow> json_voice \<Rightarrow> uuid \<Rightarrow> message_part option list
     \<Rightarrow> ('s, api_error, str \<times> int option \<times> pending_attachment list) prog" where
  "parse_attachment_message L json c parts =
     chain (parse_parts L json c parts no_parts) (\<lambda>m.
     chain (result (validate_attachment_content (case pm_content m of None \<Rightarrow> [] | Some s \<Rightarrow> s))) (\<lambda>content.
     chain (guard (content \<noteq> [] \<or> pm_attachments m \<noteq> [])
       (BAD_REQUEST, lit ''Message must contain content or an attachment'')) (\<lambda>_.
     ret (content, pm_reply_to m, pm_attachments m))))"

end
