(* ===== verification/Messages.thy ===== *)
theory Messages
  imports Prelude
begin

text \<open>
  The signaling protocol of \<open>src/signaling/message.rs\<close>: chat payloads, reactions and the message
  type, and the queues that carry messages to the sockets (\<open>mpsc::UnboundedSender\<close>). The two text
  helpers of \<open>src/social/messages.rs\<close> that meeting chat uses, \<open>excerpt\<close> and \<open>validate_reaction\<close>, are
  here too.
\<close>

section \<open>Message types\<close>

record chat_reply_preview =
  rp_id :: nat
  rp_participant_id :: str
  rp_participant_name :: str
  rp_message :: str

record chat_message_reaction =
  emoji :: str
  participant_ids :: "str list"

record chat_message_payload =
  cm_id :: nat
  cm_participant_id :: str
  cm_participant_name :: str
  cm_message :: str
  cm_timestamp :: nat
  cm_reply_to :: "chat_reply_preview option"
  cm_reactions :: "chat_message_reaction list"

datatype signaling_message =
    Authenticate "16 word" "str option"
  | Authenticated "16 word" bool
  | Join str str "str option" "str option"
  | Joined str str
  | Offer str str
  | Answer str str
  | IceCandidate str str "str option" "16 word option"
  | ParticipantJoined str str "str option"
  | ParticipantLeft str
  | StreamOwner str str str
  | MediaStateChanged str bool bool
  | ChatMessage nat str str str nat "nat option" "chat_reply_preview option" "chat_message_reaction list"
  | ChatReaction nat str
  | ChatReactionsChanged nat "chat_message_reaction list"
  | ChatHistory "chat_message_payload list"
  | Error str

definition into_signaling_message :: "chat_message_payload \<Rightarrow> signaling_message" where
  "into_signaling_message m =
     ChatMessage (cm_id m) (cm_participant_id m) (cm_participant_name m) (cm_message m)
       (cm_timestamp m) None (cm_reply_to m) (cm_reactions m)"

section \<open>Outgoing queues\<close>

text \<open>
  Every socket owns one unbounded queue, named by the connection's participant ID. \<open>None\<close> is a queue
  whose receiver is gone: sending to it fails and has no effect.
\<close>

type_synonym outbox = "str \<rightharpoonup> signaling_message list"

definition chan_send :: "outbox \<Rightarrow> str \<Rightarrow> signaling_message \<Rightarrow> (unit + unit) \<times> outbox" where
  "chan_send net ch m =
     (case net ch of None \<Rightarrow> (Inl (), net) | Some q \<Rightarrow> (Inr (), net(ch \<mapsto> q @ [m])))"

text \<open>\<open>let _ = tx.send(m)\<close>: the result is dropped.\<close>

definition push :: "outbox \<Rightarrow> str \<Rightarrow> signaling_message \<Rightarrow> outbox" where
  "push net ch m = snd (chan_send net ch m)"

lemma push_apply:
  "push net ch m c = (if c = ch then map_option (\<lambda>q. q @ [m]) (net c) else net c)"
  by (simp add: push_def chan_send_def split: option.splits)

lemma push_other [simp]: "c \<noteq> ch \<Longrightarrow> push net ch m c = net c"
  by (simp add: push_apply)

lemma push_same [simp]: "push net ch m ch = map_option (\<lambda>q. q @ [m]) (net ch)"
  by (simp add: push_apply)

lemma dom_push [simp]: "dom (push net ch m) = dom net"
  by (auto simp: dom_def push_apply)

section \<open>Text helpers of chat\<close>

definition REPLY_PREVIEW_CHARACTERS :: nat where "REPLY_PREVIEW_CHARACTERS = 140"
definition MAX_REACTION_BYTES :: nat where "MAX_REACTION_BYTES = 32"

text \<open>\<open>excerpt\<close>: the first 140 characters, and an ellipsis (U+2026) when there were more.\<close>

definition excerpt :: "str \<Rightarrow> str" where
  "excerpt content =
     (let preview = take REPLY_PREVIEW_CHARACTERS content;
          rest = drop REPLY_PREVIEW_CHARACTERS content
      in if rest \<noteq> [] then preview @ [8230] else preview)"

lemma length_excerpt: "length (excerpt s) \<le> 141"
  by (simp add: excerpt_def REPLY_PREVIEW_CHARACTERS_def Let_def)

text \<open>
  \<open>validate_reaction\<close>; \<open>alnum\<close> is the standard library's \<open>char::is_alphanumeric\<close>, a Unicode table.
\<close>

definition validate_reaction :: "(uchar \<Rightarrow> bool) \<Rightarrow> str \<Rightarrow> api_error + str" where
  "validate_reaction alnum e =
     (let e = trim e;
          valid = (e \<noteq> [] \<and> byte_len e \<le> MAX_REACTION_BYTES \<and>
                   list_all (\<lambda>c. \<not> alnum c \<and> \<not> is_whitespace c \<and> \<not> is_control c) e)
      in if valid then Inr e else Inl (BAD_REQUEST, lit ''Reaction must be a single emoji''))"

end
