(* ===== verification/MessageHandlers.thy ===== *)
theory MessageHandlers
  imports MessageTexts DirectMessages Messages
begin

text \<open>
  Messages of conversations (\<open>src/social/messages.rs\<close>): sending with and without attachments, reactions,
  pages of the history, read and unread, and the attachments themselves. The number of a message comes from a
  sequence of the database, which the world stands for; numbers need not be committed in their order. The
  attachments of a message are inserted by one statement, so they have the same creation time.
\<close>

section \<open>Access\<close>

definition access_denied_here :: api_error where
  "access_denied_here = (FORBIDDEN, lit ''Conversation access denied'')"

definition conversation_row_of :: "uuid \<Rightarrow> database \<Rightarrow> conversation_row option" where
  "conversation_row_of c d = find (\<lambda>x. cv_id x = c) (conversations d)"

definition authorize_conversation_access :: "uuid \<Rightarrow> uuid \<Rightarrow> ('m site_scheme, api_error, unit) prog" where
  "authorize_conversation_access c u =
     chain (map_err (\<lambda>e. if e = NotFound then (NOT_FOUND, lit ''Conversation not found'') else social_error e)
       (first (conversation_row_of c))) (\<lambda>x.
     if cv_kind x = lit ''group'' then
       chain (map_err social_error (select (\<lambda>d. is_member d c u))) (\<lambda>member. guard member access_denied_here)
     else if cv_kind x = lit ''direct'' then
       guard (cv_low x = Some u \<or> cv_high x = Some u) access_denied_here
     else throw internal)"

definition conversation_participants :: "uuid \<Rightarrow> ('m site_scheme, api_error, uuid list) prog" where
  "conversation_participants c =
     chain (map_err social_error (first (conversation_row_of c))) (\<lambda>x.
     if cv_kind x = lit ''direct'' then ret (List.map_filter (\<lambda>v. v) [cv_low x, cv_high x])
     else map_err social_error (select (\<lambda>d. map me_user (members_of d c))))"

definition message_in :: "database \<Rightarrow> uuid \<Rightarrow> int \<Rightarrow> bool" where
  "message_in d c k \<longleftrightarrow> list_ex (\<lambda>m. int (mg_sequence m) = k \<and> mg_conversation m = c) (conversation_messages d)"

definition ensure_message_in_conversation :: "uuid \<Rightarrow> int \<Rightarrow> ('m site_scheme, api_error, unit) prog" where
  "ensure_message_in_conversation c k =
     chain (map_err social_error (select (\<lambda>d. message_in d c k))) (\<lambda>found.
     guard found (NOT_FOUND, lit ''Message not found''))"

section \<open>What is answered about messages\<close>

record message_reply_preview =
  mq_sequence :: nat
  mq_sender :: uuid
  mq_sender_name :: str
  mq_sender_nickname :: str
  mq_content :: str
  mq_attachment_file_name :: "str option"
  mq_attachment_count :: "nat option"

record message_reaction_summary =
  rx_emoji :: str
  rx_count :: nat
  rx_reacted_by_me :: bool

record message_attachment_response =
  ma_id :: uuid
  ma_file_name :: str
  ma_content_type :: str
  ma_byte_size :: nat
  ma_url :: str
  ma_voice :: "voice_message_details option"

record conversation_message_response =
  cmr_sequence :: nat
  cmr_conversation :: uuid
  cmr_sender :: uuid
  cmr_sender_name :: str
  cmr_sender_nickname :: str
  cmr_content :: str
  cmr_created :: instant
  cmr_reply_to :: "message_reply_preview option"
  cmr_reactions :: "message_reaction_summary list"
  cmr_attachments :: "message_attachment_response list"

definition message_response ::
  "message_row \<Rightarrow> str \<Rightarrow> message_reply_preview option \<Rightarrow> message_reaction_summary list
     \<Rightarrow> message_attachment_response list \<Rightarrow> conversation_message_response" where
  "message_response m nickname reply reactions attachments =
     \<lparr>cmr_sequence = mg_sequence m, cmr_conversation = mg_conversation m, cmr_sender = mg_sender m,
      cmr_sender_name = mg_sender_name m, cmr_sender_nickname = nickname, cmr_content = mg_content m,
      cmr_created = mg_created m, cmr_reply_to = reply, cmr_reactions = reactions, cmr_attachments = attachments\<rparr>"

definition attachment_url :: "platform \<Rightarrow> uuid \<Rightarrow> uuid \<Rightarrow> str" where
  "attachment_url L c i = lit ''/social/conversations/'' @ show_uuid L c @ lit ''/attachments/'' @ show_uuid L i"

text \<open>
  The quoted messages, by their numbers: the text, and the name of the first attachment in the order of the
  random IDs with the number of attachments.
\<close>

definition attachment_names :: "database \<Rightarrow> uuid \<Rightarrow> nat list \<Rightarrow> (nat \<times> str) list" where
  "attachment_names d c ks =
     map (\<lambda>a. (at_message a, at_file_name a)) (order_asc at_message (order_asc at_id
       (filter (\<lambda>a. at_message a \<in> set ks \<and> message_in d c (int (at_message a))) (message_attachments d))))"

definition attachment_metadata :: "(nat \<times> str) list \<Rightarrow> nat \<Rightarrow> (str \<times> nat) option" where
  "attachment_metadata names k =
     (case filter (\<lambda>x. fst x = k) names of [] \<Rightarrow> None | x # xs \<Rightarrow> Some (snd x, Suc (length xs)))"

definition reply_preview :: "(nat \<times> str) list \<Rightarrow> message_row \<times> str \<Rightarrow> message_reply_preview" where
  "reply_preview names x = (case x of (m, nickname) \<Rightarrow>
     \<lparr>mq_sequence = mg_sequence m, mq_sender = mg_sender m, mq_sender_name = mg_sender_name m,
      mq_sender_nickname = nickname, mq_content = excerpt (mg_content m),
      mq_attachment_file_name = map_option fst (attachment_metadata names (mg_sequence m)),
      mq_attachment_count = map_option snd (attachment_metadata names (mg_sequence m))\<rparr>)"

definition with_nickname :: "database \<Rightarrow> message_row \<Rightarrow> (message_row \<times> str) option" where
  "with_nickname d m = map_option (\<lambda>x. (m, us_nickname x)) (user_row_of (mg_sender m) d)"

definition reply_previews ::
  "uuid \<Rightarrow> nat list \<Rightarrow> ('m site_scheme, api_error, nat \<Rightarrow> message_reply_preview option) prog" where
  "reply_previews c ks =
     (if ks = [] then ret (\<lambda>_. None)
      else chain (map_err social_error (select (\<lambda>d. List.map_filter (with_nickname d)
          (filter (\<lambda>m. mg_conversation m = c \<and> mg_sequence m \<in> set ks) (conversation_messages d))))) (\<lambda>rows.
        chain (map_err social_error (select (\<lambda>d. attachment_names d c ks))) (\<lambda>names.
        ret (map_of (map (\<lambda>x. (mg_sequence (fst x), reply_preview names x)) rows)))))"

text \<open>
  \<open>GROUP BY message_sequence, emoji\<close> for one message, in the order of the first reactions; \<open>rank\<close> is the order
  of the emoji in the collation of the database.
\<close>

definition reactions_of :: "database \<Rightarrow> nat \<Rightarrow> reaction_row list" where
  "reactions_of d k = filter (\<lambda>r. re_message r = k) (message_reactions d)"

definition reaction_summary :: "(str \<Rightarrow> nat) \<Rightarrow> database \<Rightarrow> uuid \<Rightarrow> nat \<Rightarrow> message_reaction_summary list" where
  "reaction_summary rank d u k =
     (let rs = reactions_of d k; of_emoji = (\<lambda>e. filter (\<lambda>r. re_emoji r = e) rs) in
      map (\<lambda>e. \<lparr>rx_emoji = e, rx_count = length (of_emoji e),
             rx_reacted_by_me = list_ex (\<lambda>r. re_user r = u) (of_emoji e)\<rparr>)
        (order_asc (\<lambda>e. Min (set (map re_created (of_emoji e)))) (order_asc rank (remdups (map re_emoji rs)))))"

definition reaction_summaries ::
  "(str \<Rightarrow> nat) \<Rightarrow> uuid \<Rightarrow> nat list \<Rightarrow> ('m site_scheme, api_error, nat \<Rightarrow> message_reaction_summary list) prog" where
  "reaction_summaries rank u ks =
     (if ks = [] then ret (\<lambda>_. [])
      else map_err social_error (select (\<lambda>d k. if k \<in> set ks then reaction_summary rank d u k else [])))"

definition stored_attachment :: "platform \<Rightarrow> uuid \<Rightarrow> attachment_row \<Rightarrow> message_attachment_response" where
  "stored_attachment L c a = \<lparr>ma_id = at_id a, ma_file_name = at_file_name a, ma_content_type = at_content_type a,
     ma_byte_size = at_size a, ma_url = attachment_url L c (at_id a),
     ma_voice = voice_from_columns (at_voice_ms a) (at_waveform a)\<rparr>"

definition message_attachments_of ::
  "platform \<Rightarrow> uuid \<Rightarrow> nat list \<Rightarrow> ('m site_scheme, api_error, nat \<Rightarrow> message_attachment_response list) prog" where
  "message_attachments_of L c ks =
     (if ks = [] then ret (\<lambda>_. [])
      else map_err social_error (select (\<lambda>d k.
        if k \<in> set ks \<and> message_in d c (int k)
        then map (stored_attachment L c) (filter (\<lambda>a. at_message a = k) (message_attachments d)) else [])))"

section \<open>Sending\<close>

text \<open>\<open>nextval\<close> of the sequence of messages.\<close>

definition next_sequence :: "('s, 'e, nat) prog" where
  "next_sequence = chain new_uuid (\<lambda>i. ret (unat i))"

definition insert_message :: "message_row \<Rightarrow> database \<Rightarrow> db_error + message_row \<times> database" where
  "insert_message m d =
     (if 2 ^ 63 \<le> mg_sequence m then Inl OtherError
      else if 255 < length (mg_sender_name m) then Inl OtherError
      else if 2000 < length (mg_content m) then Inl CheckViolation
      else if list_ex (\<lambda>x. mg_sequence x = mg_sequence m) (conversation_messages d) then Inl UniqueViolation
      else if conversation_row_of (mg_conversation m) d = None \<or> \<not> user_exists d (mg_sender m) \<or>
        (case mg_reply_to m of None \<Rightarrow> False
         | Some k \<Rightarrow> \<not> list_ex (\<lambda>x. mg_sequence x = k) (conversation_messages d)) then Inl ForeignKeyViolation
      else Inr (m, d\<lparr>conversation_messages := conversation_messages d @ [m]\<rparr>))"

record uploaded_attachment =
  ua_id :: uuid
  ua_key :: str
  ua_file_name :: str
  ua_content_type :: str
  ua_size :: nat
  ua_voice :: "voice_message_details option"

definition attachment_response :: "platform \<Rightarrow> uuid \<Rightarrow> uploaded_attachment \<Rightarrow> message_attachment_response" where
  "attachment_response L c a = \<lparr>ma_id = ua_id a, ma_file_name = ua_file_name a, ma_content_type = ua_content_type a,
     ma_byte_size = ua_size a, ma_url = attachment_url L c (ua_id a), ma_voice = ua_voice a\<rparr>"

definition attachment_row_of :: "nat \<Rightarrow> uploaded_attachment \<Rightarrow> attachment_row" where
  "attachment_row_of k a = \<lparr>at_id = ua_id a, at_message = k, at_key = ua_key a, at_file_name = ua_file_name a,
     at_content_type = ua_content_type a, at_size = ua_size a,
     at_voice_ms = map_option (\<lambda>v. nat (vd_duration_ms v)) (ua_voice a),
     at_waveform = map_option vd_waveform (ua_voice a)\<rparr>"

definition valid_attachment_row :: "attachment_row \<Rightarrow> bool" where
  "valid_attachment_row a \<longleftrightarrow> 1 \<le> at_size a \<and> at_size a \<le> 26214400 \<and>
     length (at_file_name a) \<le> 255 \<and> length (at_content_type a) \<le> 255 \<and>
     (case at_voice_ms a of None \<Rightarrow> True | Some ms \<Rightarrow> 1 \<le> ms \<and> ms \<le> 3600000) \<and>
     (case at_waveform a of None \<Rightarrow> True | Some bars \<Rightarrow> 1 \<le> length bars \<and> length bars \<le> 64)"

definition insert_attachments :: "attachment_row list \<Rightarrow> database \<Rightarrow> db_error + unit \<times> database" where
  "insert_attachments rows d =
     (if \<not> list_all valid_attachment_row rows then Inl CheckViolation
      else if \<not> distinct (map at_id (message_attachments d @ rows)) \<or> \<not> distinct (map at_key (message_attachments d @ rows))
      then Inl UniqueViolation
      else if \<not> list_all (\<lambda>a. list_ex (\<lambda>m. mg_sequence m = at_message a) (conversation_messages d)) rows
      then Inl ForeignKeyViolation
      else Inr ((), d\<lparr>message_attachments := message_attachments d @ rows\<rparr>))"

text \<open>The transaction of a message; one without attachments inserts none.\<close>

definition message_rows ::
  "uuid \<Rightarrow> uuid \<Rightarrow> str \<Rightarrow> int option \<Rightarrow> uploaded_attachment list
     \<Rightarrow> ('m site_scheme, api_error, message_row \<times> str \<times> uuid list) prog" where
  "message_rows c u content reply attachments =
     chain (authorize_conversation_access c u) (\<lambda>_.
     chain (case reply of None \<Rightarrow> ret () | Some k \<Rightarrow> ensure_message_in_conversation c k) (\<lambda>_.
     chain (conversation_participants c) (\<lambda>recipients.
     chain (map_err social_error (first (user_row_of u))) (\<lambda>sender.
     chain next_sequence (\<lambda>k.
     chain utc_now (\<lambda>now.
     chain (map_err social_error (statement (insert_message \<lparr>mg_sequence = k, mg_conversation = c, mg_sender = u,
       mg_sender_name = us_name sender, mg_content = content, mg_created = now,
       mg_reply_to = map_option nat reply\<rparr>))) (\<lambda>m.
     chain (if attachments = [] then ret ()
       else map_err social_error (statement (insert_attachments (map (attachment_row_of (mg_sequence m)) attachments)))) (\<lambda>_.
     chain (touch_group c) (\<lambda>_.
     chain (map_err social_error (execute (\<lambda>d. d\<lparr>conversation_hidden_states :=
       delete_where (\<lambda>h. fst h = c \<and> snd h \<noteq> u) (conversation_hidden_states d)\<rparr>))) (\<lambda>_.
     ret (m, us_nickname sender, recipients)))))))))))"

definition sender_avatar_url :: "platform \<Rightarrow> uuid \<Rightarrow> ('m site_scheme, 'e, str option) prog" where
  "sender_avatar_url L u =
     chain (attempt (first (user_row_of u))) (\<lambda>r.
     ret (case r of Inl _ \<Rightarrow> None | Inr x \<Rightarrow> map_option (user_avatar_url L u) (us_avatar_key x)))"

definition alert_new_message ::
  "platform \<Rightarrow> message_row \<Rightarrow> uuid list \<Rightarrow> bool \<Rightarrow> ('m site_scheme, 'e, unit) prog" where
  "alert_new_message L m participants has_attachments =
     chain (attempt (first (conversation_row_of (mg_conversation m)))) (\<lambda>r.
     let found = (case r of Inl _ \<Rightarrow> None | Inr x \<Rightarrow> Some x) in
     chain (case found of
         Some x \<Rightarrow> if cv_kind x = lit ''group'' then ret (group_avatar_url L x) else sender_avatar_url L (mg_sender m)
       | None \<Rightarrow> sender_avatar_url L (mg_sender m)) (\<lambda>avatar.
     alert (filter (\<lambda>v. v \<noteq> mg_sender m) participants)
       (MessageAlert (mg_conversation m) (mg_sequence m) (mg_sender m) (mg_sender_name m)
         (Option.bind found cv_title) avatar (excerpt (mg_content m)) has_attachments)))"

text \<open>After the commit: the events and the response.\<close>

definition sent_message ::
  "platform \<Rightarrow> uuid \<Rightarrow> message_row \<times> str \<times> uuid list \<Rightarrow> message_attachment_response list
     \<Rightarrow> ('m site_scheme, api_error, conversation_message_response) prog" where
  "sent_message L c sent attachments = (case sent of (m, nickname, recipients) \<Rightarrow>
     chain (publish recipients Conversations) (\<lambda>_.
     chain (alert_new_message L m recipients (attachments \<noteq> [])) (\<lambda>_.
     chain (case mg_reply_to m of
         None \<Rightarrow> ret None
       | Some k \<Rightarrow> chain (reply_previews c [k]) (\<lambda>previews. ret (previews k))) (\<lambda>reply.
     ret (message_response m nickname reply [] attachments)))))"

definition create_message ::
  "platform \<Rightarrow> str option \<Rightarrow> uuid \<Rightarrow> str \<Rightarrow> int option \<Rightarrow> ('m site_scheme, api_error, conversation_message_response) prog" where
  "create_message L header c content reply =
     chain (caller L header) (\<lambda>u.
     chain (result (validate_message_content content)) (\<lambda>content.
     chain (map_err social_error connect) (\<lambda>_.
     chain (require_permission u MessagesSend) (\<lambda>_.
     chain (transaction_as social_error (message_rows c u content reply [])) (\<lambda>sent.
     sent_message L c sent [])))))"

text \<open>Uploading the files one by one; after a failure those uploaded so far are removed again.\<close>

definition delete_uploaded_attachments :: "str list \<Rightarrow> ('m site_scheme, 'e, unit) prog" where
  "delete_uploaded_attachments ks = for_each (\<lambda>k. chain (attempt (object_delete k)) (\<lambda>_. ret ())) ks"

definition attachment_storage_error :: api_error where
  "attachment_storage_error = (SERVICE_UNAVAILABLE, lit ''Attachment storage is unavailable'')"

definition uploaded_of :: "pending_attachment \<Rightarrow> uploaded_attachment" where
  "uploaded_of a = \<lparr>ua_id = pa_id a, ua_key = pa_key a, ua_file_name = pa_file_name a,
     ua_content_type = pa_content_type a, ua_size = length (pa_bytes a), ua_voice = pa_voice a\<rparr>"

fun upload_attachments ::
  "str list \<Rightarrow> uploaded_attachment list \<Rightarrow> pending_attachment list
     \<Rightarrow> ('m site_scheme, api_error, uploaded_attachment list) prog" where
  "upload_attachments ks uploaded [] = ret uploaded"
| "upload_attachments ks uploaded (a # as) =
     (let ks = ks @ [pa_key a] in
      chain (attempt (object_upload (pa_key a) (pa_content_type a) (pa_bytes a))) (\<lambda>r.
      case r of
        Inl _ \<Rightarrow> chain (delete_uploaded_attachments ks) (\<lambda>_. throw attachment_storage_error)
      | Inr _ \<Rightarrow> upload_attachments ks (uploaded @ [uploaded_of a]) as))"

definition create_message_with_attachments ::
  "platform \<Rightarrow> json_voice \<Rightarrow> str option \<Rightarrow> uuid \<Rightarrow> message_part option list
     \<Rightarrow> ('m site_scheme, api_error, conversation_message_response) prog" where
  "create_message_with_attachments L json header c parts =
     chain (caller L header) (\<lambda>u.
     chain (map_err social_error connect) (\<lambda>_.
     chain (require_permission u MessagesSend) (\<lambda>_.
     chain (authorize_conversation_access c u) (\<lambda>_.
     chain (parse_attachment_message L json c parts) (\<lambda>(content, reply, pending).
     chain (upload_attachments [] [] pending) (\<lambda>uploaded.
     let ks = map ua_key uploaded in
     chain (attempt (chain (map_err social_error connect) (\<lambda>_.
       transaction_as social_error (message_rows c u content reply uploaded)))) (\<lambda>r.
     case r of
       Inl e \<Rightarrow> chain (delete_uploaded_attachments ks) (\<lambda>_. throw e)
     | Inr sent \<Rightarrow> sent_message L c sent (map (attachment_response L c) uploaded))))))))"

section \<open>Attachments\<close>

record attachment_reply =
  ar_content_type :: str
  ar_disposition :: str
  ar_bytes :: "8 word list"

definition attachment_in :: "uuid \<Rightarrow> uuid \<Rightarrow> database \<Rightarrow> attachment_row option" where
  "attachment_in c i d = find (\<lambda>a. at_id a = i \<and> message_in d c (int (at_message a))) (message_attachments d)"

definition get_message_attachment ::
  "platform \<Rightarrow> str option \<Rightarrow> uuid \<Rightarrow> uuid \<Rightarrow> ('m site_scheme, api_error, attachment_reply) prog" where
  "get_message_attachment L header c i =
     chain (caller L header) (\<lambda>u.
     chain (map_err social_error connect) (\<lambda>_.
     chain (authorize_conversation_access c u) (\<lambda>_.
     chain (map_err (\<lambda>e. if e = NotFound then (NOT_FOUND, lit ''Attachment not found'') else social_error e)
       (first (attachment_in c i))) (\<lambda>a.
     chain (map_err (\<lambda>_. attachment_storage_error) (object_download (at_key a))) (\<lambda>(_, bytes).
     ret \<lparr>ar_content_type = at_content_type a, ar_disposition = content_disposition (at_file_name a) (at_content_type a),
       ar_bytes = bytes\<rparr>)))))"

section \<open>Reactions\<close>

text \<open>\<open>ON CONFLICT DO NOTHING\<close>, with the number of rows inserted.\<close>

definition insert_reaction_if_absent :: "reaction_row \<Rightarrow> database \<Rightarrow> db_error + nat \<times> database" where
  "insert_reaction_if_absent r d =
     (if re_emoji r = [] \<or> 32 < byte_len (re_emoji r) then Inl CheckViolation
      else if list_ex (\<lambda>x. re_message x = re_message r \<and> re_user x = re_user r \<and> re_emoji x = re_emoji r) (message_reactions d)
      then Inr (0, d)
      else if \<not> list_ex (\<lambda>m. mg_sequence m = re_message r) (conversation_messages d) \<or> \<not> user_exists d (re_user r)
      then Inl ForeignKeyViolation
      else Inr (1, d\<lparr>message_reactions := message_reactions d @ [r]\<rparr>))"

definition reaction_rows :: "uuid \<Rightarrow> uuid \<Rightarrow> int \<Rightarrow> str \<Rightarrow> ('m site_scheme, api_error, uuid list) prog" where
  "reaction_rows c u k glyph =
     chain (authorize_conversation_access c u) (\<lambda>_.
     chain (ensure_message_in_conversation c k) (\<lambda>_.
     chain utc_now (\<lambda>now.
     chain (map_err social_error (statement (insert_reaction_if_absent
       \<lparr>re_message = nat k, re_user = u, re_emoji = glyph, re_created = now\<rparr>))) (\<lambda>inserted.
     chain (if inserted = 0
       then map_err social_error (execute (\<lambda>d. d\<lparr>message_reactions := delete_where
         (\<lambda>r. re_message r = nat k \<and> re_user r = u \<and> re_emoji r = glyph) (message_reactions d)\<rparr>))
       else ret ()) (\<lambda>_.
     conversation_participants c)))))"

definition toggle_message_reaction ::
  "platform \<Rightarrow> (uchar \<Rightarrow> bool) \<Rightarrow> (str \<Rightarrow> nat) \<Rightarrow> str option \<Rightarrow> uuid \<Rightarrow> int \<Rightarrow> str
     \<Rightarrow> ('m site_scheme, api_error, message_reaction_summary list) prog" where
  "toggle_message_reaction L alnum rank header c k glyph =
     chain (caller L header) (\<lambda>u.
     chain (result (validate_reaction alnum glyph)) (\<lambda>glyph.
     chain (map_err social_error connect) (\<lambda>_.
     chain (transaction_as social_error (reaction_rows c u k glyph)) (\<lambda>recipients.
     chain (publish recipients Conversations) (\<lambda>_.
     chain (reaction_summaries rank u [nat k]) (\<lambda>summaries.
     ret (summaries (nat k))))))))"

section \<open>The history\<close>

text \<open>\<open>INSERT ... ON CONFLICT DO UPDATE\<close> of a read state: progress never goes back.\<close>

definition read_state_reference_ok :: "uuid \<Rightarrow> uuid \<Rightarrow> database \<Rightarrow> bool" where
  "read_state_reference_ok c u d \<longleftrightarrow> conversation_row_of c d \<noteq> None \<and> user_exists d u"

definition upsert_read_state ::
  "uuid \<Rightarrow> uuid \<Rightarrow> (read_state_row \<Rightarrow> read_state_row) \<Rightarrow> read_state_row \<Rightarrow> database \<Rightarrow> db_error + unit \<times> database" where
  "upsert_read_state c u f new d =
     (if read_state_of d c u \<noteq> None
      then Inr ((), d\<lparr>conversation_read_states := update_where (\<lambda>r. rs_conversation r = c \<and> rs_user r = u) f
             (conversation_read_states d)\<rparr>)
      else if \<not> read_state_reference_ok c u d then Inl ForeignKeyViolation
      else Inr ((), d\<lparr>conversation_read_states := conversation_read_states d @ [new]\<rparr>))"

definition mark_messages_read :: "uuid \<Rightarrow> uuid \<Rightarrow> nat \<Rightarrow> ('m site_scheme, api_error, unit) prog" where
  "mark_messages_read c u k = map_err social_error (statement (upsert_read_state c u
     (\<lambda>r. r\<lparr>rs_last := max (rs_last r) k, rs_marked := False\<rparr>)
     \<lparr>rs_conversation = c, rs_user = u, rs_last = k, rs_marked = False\<rparr>))"

definition history :: "database \<Rightarrow> uuid \<Rightarrow> message_row list" where
  "history d c = filter (\<lambda>m. mg_conversation m = c) (conversation_messages d)"

definition first_unread :: "database \<Rightarrow> uuid \<Rightarrow> uuid \<Rightarrow> nat \<Rightarrow> nat option" where
  "first_unread d c u k =
     (case map mg_sequence (filter (\<lambda>m. mg_sender m \<noteq> u \<and> k < mg_sequence m) (history d c)) of
        [] \<Rightarrow> None | ks \<Rightarrow> Some (Min (set ks)))"

definition message_page :: "database \<Rightarrow> uuid \<Rightarrow> int option \<Rightarrow> nat \<Rightarrow> (message_row \<times> str) list" where
  "message_page d c before n =
     take (n + 1) (order_desc (\<lambda>x. mg_sequence (fst x)) (List.map_filter (with_nickname d)
       (filter (\<lambda>m. case before of None \<Rightarrow> True | Some b \<Rightarrow> int (mg_sequence m) < b) (history d c))))"

text \<open>One row more than the limit says that there is a next page, which starts before the last row shown.\<close>

definition split_page :: "nat \<Rightarrow> (message_row \<times> 'a) list \<Rightarrow> (message_row \<times> 'a) list \<times> nat option" where
  "split_page n rows =
     (if n < length rows then (take n rows, Some (mg_sequence (fst (last (take n rows))))) else (rows, None))"

record conversation_messages_response =
  pg_messages :: "conversation_message_response list"
  pg_next_before :: "nat option"
  pg_first_unread :: "nat option"

definition list_messages ::
  "platform \<Rightarrow> (str \<Rightarrow> nat) \<Rightarrow> str option \<Rightarrow> uuid \<Rightarrow> int option \<Rightarrow> int option
     \<Rightarrow> ('m site_scheme, api_error, conversation_messages_response) prog" where
  "list_messages L rank header c before limit =
     chain (caller L header) (\<lambda>u.
     let latest = (before = None) in
     chain (result (validate_message_page before limit)) (\<lambda>(before, n).
     chain (map_err social_error connect) (\<lambda>_.
     chain (authorize_conversation_access c u) (\<lambda>_.
     chain (if latest
       then chain (map_err social_error (select (\<lambda>d. last_read d c u))) (\<lambda>k.
            map_err social_error (select (\<lambda>d. first_unread d c u k)))
       else ret None) (\<lambda>unread.
     chain (map_err social_error (select (\<lambda>d. message_page d c before n))) (\<lambda>rows.
     let (messages, next_before) = split_page n rows in
     chain (if latest
       then mark_messages_read c u (case messages of [] \<Rightarrow> 0 | x # _ \<Rightarrow> mg_sequence (fst x))
       else ret ()) (\<lambda>_.
     let ks = map (\<lambda>x. mg_sequence (fst x)) messages;
         quoted = List.map_filter (\<lambda>x. mg_reply_to (fst x)) messages in
     chain (reply_previews c quoted) (\<lambda>replies.
     chain (reaction_summaries rank u ks) (\<lambda>reactions.
     chain (message_attachments_of L c ks) (\<lambda>attachments.
     ret \<lparr>pg_messages = map (\<lambda>(m, nickname). message_response m nickname (Option.bind (mg_reply_to m) replies)
            (reactions (mg_sequence m)) (attachments (mg_sequence m))) messages,
          pg_next_before = next_before, pg_first_unread = unread\<rparr>))))))))))"

definition mark_conversation_read :: "platform \<Rightarrow> str option \<Rightarrow> uuid \<Rightarrow> ('m site_scheme, api_error, unit) prog" where
  "mark_conversation_read L header c =
     chain (caller L header) (\<lambda>u.
     chain (map_err social_error connect) (\<lambda>_.
     chain (authorize_conversation_access c u) (\<lambda>_.
     chain (map_err social_error (select (\<lambda>d. case map mg_sequence (history d c) of [] \<Rightarrow> 0 | ks \<Rightarrow> Max (set ks)))) (\<lambda>k.
     chain (mark_messages_read c u k) (\<lambda>_.
     publish [u] Conversations)))))"

definition mark_conversation_unread :: "platform \<Rightarrow> str option \<Rightarrow> uuid \<Rightarrow> ('m site_scheme, api_error, unit) prog" where
  "mark_conversation_unread L header c =
     chain (caller L header) (\<lambda>u.
     chain (map_err social_error connect) (\<lambda>_.
     chain (authorize_conversation_access c u) (\<lambda>_.
     chain (map_err social_error (statement (upsert_read_state c u (\<lambda>r. r\<lparr>rs_marked := True\<rparr>)
       \<lparr>rs_conversation = c, rs_user = u, rs_last = 0, rs_marked = True\<rparr>))) (\<lambda>_.
     publish [u] Conversations))))"

end
