(* ===== verification/SocialRequests.thy ===== *)
theory SocialRequests
  imports Friendships GroupViews Calls MessageHandlers
begin

text \<open>
  All requests of the social API (the routes of \<open>src/social/\<close>), by the part of the API, and the handler
  that answers each of them.
\<close>

section \<open>The requests\<close>

text \<open>The libraries that the handlers use: see the theories that name the parameters.\<close>

record libraries =
  li_platform :: platform
  li_render :: renderer
  li_json :: json_voice
  li_alnum :: "uchar \<Rightarrow> bool"
  li_fold :: "uchar \<Rightarrow> uchar"
  li_names :: "str \<times> str \<Rightarrow> nat"
  li_text :: "str \<Rightarrow> nat"

definition finished :: "('s, 'e, 'a) prog \<Rightarrow> ('s, 'e, unit) prog" where
  "finished m = chain m (\<lambda>_. ret ())"

datatype people_request =
    SearchUsers str | GetUserProfile uuid | GetSelfProfile
  | UpdateSelfProfile "str option" "str option" "user_status option" "str option"
  | GetUserAvatar "str list" uuid avatar_size | UploadAvatar "multipart_field option list" | RemoveAvatar
  | ListFriends | CreateFriendRequest "uuid option" "str option" | AcceptFriendRequest uuid
  | DeleteFriendship uuid | UpdatePresence | ListMeetings | RecordMeeting str | DeleteMeeting uuid
  | ListNotifications | MarkNotificationRead uuid

primrec answer_people :: "libraries \<Rightarrow> str option \<Rightarrow> people_request \<Rightarrow> ('m social_site_scheme, api_error, unit) prog" where
  "answer_people X h (SearchUsers q) = finished (search_users (li_platform X) (li_fold X) (li_names X) h q)"
| "answer_people X h (GetUserProfile v) = finished (get_user_profile (li_platform X) h v)"
| "answer_people X h GetSelfProfile = finished (get_self_profile (li_platform X) h)"
| "answer_people X h (UpdateSelfProfile name nick status text) = finished (update_self_profile (li_platform X) h name nick status text)"
| "answer_people X h (GetUserAvatar tags v sz) = finished (get_user_avatar (li_platform X) (li_render X) h tags v sz)"
| "answer_people X h (UploadAvatar fs) = finished (upload_avatar (li_platform X) (li_render X) h fs)"
| "answer_people X h RemoveAvatar = remove_avatar (li_platform X) h"
| "answer_people X h ListFriends = finished (list_friends (li_platform X) h)"
| "answer_people X h (CreateFriendRequest v email) = create_friend_request (li_platform X) h v email"
| "answer_people X h (AcceptFriendRequest i) = accept_friend_request (li_platform X) h i"
| "answer_people X h (DeleteFriendship i) = delete_friendship (li_platform X) h i"
| "answer_people X h UpdatePresence = update_presence (li_platform X) h"
| "answer_people X h ListMeetings = finished (list_meetings (li_platform X) h)"
| "answer_people X h (RecordMeeting r) = finished (record_meeting (li_platform X) h r)"
| "answer_people X h (DeleteMeeting i) = delete_meeting (li_platform X) h i"
| "answer_people X h ListNotifications = finished (list_notifications (li_platform X) h)"
| "answer_people X h (MarkNotificationRead i) = mark_notification_read (li_platform X) h i"

datatype group_request =
    ListGroups | CreateGroup str group_access_policy "str option" "uuid list" | JoinGroup uuid "str option"
  | JoinGroupByCode str "str option" | UpdateGroup uuid update_group_request
  | UpdateGroupPolicy uuid group_access_policy "str option" | AddGroupMember uuid uuid
  | RemoveGroupMember uuid uuid | LeaveGroup uuid | UpdateGroupMemberRole uuid uuid group_member_role_value
  | DeleteGroup uuid | GetGroupInfo uuid | GetGroupInfoByCode str | ListGroupMembers uuid "64 word option"
  | ListGroupCandidates uuid str "64 word option" | GetGroupAvatar "str list" uuid avatar_size
  | RemoveGroupAvatar uuid | UploadGroupAvatar uuid "multipart_field option list"
  | CreateGroupInvitation uuid uuid | ListGroupInvitations | AcceptGroupInvitation uuid "str option"
  | DeclineGroupInvitation uuid

primrec answer_group :: "libraries \<Rightarrow> str option \<Rightarrow> group_request \<Rightarrow> ('m social_site_scheme, api_error, unit) prog" where
  "answer_group X h ListGroups = finished (list_groups (li_platform X) h)"
| "answer_group X h (CreateGroup title p password ids) = finished (create_group (li_platform X) h title p password ids)"
| "answer_group X h (JoinGroup g password) = finished (join_group (li_platform X) h g password)"
| "answer_group X h (JoinGroupByCode c password) = finished (join_group_by_code (li_platform X) h c password)"
| "answer_group X h (UpdateGroup g r) = finished (update_group (li_platform X) h g r)"
| "answer_group X h (UpdateGroupPolicy g p password) = finished (update_group_policy (li_platform X) h g p password)"
| "answer_group X h (AddGroupMember g v) = finished (add_group_member (li_platform X) h g v)"
| "answer_group X h (RemoveGroupMember g v) = remove_group_member (li_platform X) h g v"
| "answer_group X h (LeaveGroup g) = leave_group (li_platform X) h g"
| "answer_group X h (UpdateGroupMemberRole g v r) = update_group_member_role (li_platform X) h g v r"
| "answer_group X h (DeleteGroup g) = delete_group (li_platform X) h g"
| "answer_group X h (GetGroupInfo g) = finished (get_group_info (li_platform X) h g)"
| "answer_group X h (GetGroupInfoByCode c) = finished (get_group_info_by_code (li_platform X) h c)"
| "answer_group X h (ListGroupMembers g k) = finished (list_group_members (li_platform X) h g k)"
| "answer_group X h (ListGroupCandidates g q k) = finished (list_group_candidates (li_platform X) (li_fold X) (li_names X) h g q k)"
| "answer_group X h (GetGroupAvatar tags g sz) = finished (get_group_avatar (li_platform X) (li_render X) h tags g sz)"
| "answer_group X h (RemoveGroupAvatar g) = remove_group_avatar (li_platform X) h g"
| "answer_group X h (UploadGroupAvatar g fs) = finished (upload_group_avatar (li_platform X) (li_render X) h g fs)"
| "answer_group X h (CreateGroupInvitation g v) = create_group_invitation (li_platform X) h g v"
| "answer_group X h ListGroupInvitations = finished (list_group_invitations (li_platform X) h)"
| "answer_group X h (AcceptGroupInvitation i password) = finished (accept_group_invitation (li_platform X) h i password)"
| "answer_group X h (DeclineGroupInvitation i) = decline_group_invitation (li_platform X) h i"

datatype talk_request =
    ListConversations | OpenDirectConversation uuid | ListDirectMessageRequests
  | RespondToDirectMessageRequest uuid bool | HideDirectConversation uuid
  | CreateMessage uuid str "int option" | CreateMessageWithAttachments uuid "message_part option list"
  | GetMessageAttachment uuid uuid | ToggleMessageReaction uuid int str
  | ListMessages uuid "int option" "int option" | MarkConversationRead uuid | MarkConversationUnread uuid

primrec answer_talk :: "libraries \<Rightarrow> str option \<Rightarrow> talk_request \<Rightarrow> ('m social_site_scheme, api_error, unit) prog" where
  "answer_talk X h ListConversations = finished (list_conversations (li_platform X) h)"
| "answer_talk X h (OpenDirectConversation v) = finished (open_direct_conversation (li_platform X) h v)"
| "answer_talk X h ListDirectMessageRequests = finished (list_direct_message_requests (li_platform X) h)"
| "answer_talk X h (RespondToDirectMessageRequest i b) = finished (respond_to_direct_message_request (li_platform X) h i b)"
| "answer_talk X h (HideDirectConversation c) = hide_direct_conversation (li_platform X) h c"
| "answer_talk X h (CreateMessage c text k) = finished (create_message (li_platform X) h c text k)"
| "answer_talk X h (CreateMessageWithAttachments c fs) = finished (create_message_with_attachments (li_platform X) (li_json X) h c fs)"
| "answer_talk X h (GetMessageAttachment c i) = finished (get_message_attachment (li_platform X) h c i)"
| "answer_talk X h (ToggleMessageReaction c k e) = finished (toggle_message_reaction (li_platform X) (li_alnum X) (li_text X) h c k e)"
| "answer_talk X h (ListMessages c b k) = finished (list_messages (li_platform X) (li_text X) h c b k)"
| "answer_talk X h (MarkConversationRead c) = mark_conversation_read (li_platform X) h c"
| "answer_talk X h (MarkConversationUnread c) = mark_conversation_unread (li_platform X) h c"

datatype call_request =
    CreateCallInvitation uuid | ListIncomingCalls | RespondToCall uuid bool | StartCallSession uuid
  | ListIncomingCallSessions | GetCallSession uuid | CancelCallSession uuid
  | RespondToCallSession uuid bool

primrec answer_call_request :: "libraries \<Rightarrow> str option \<Rightarrow> call_request \<Rightarrow> ('m social_site_scheme, api_error, unit) prog" where
  "answer_call_request X h (CreateCallInvitation v) = finished (create_call_invitation (li_platform X) h v)"
| "answer_call_request X h ListIncomingCalls = finished (list_incoming_calls (li_platform X) h)"
| "answer_call_request X h (RespondToCall i b) = finished (respond_to_call (li_platform X) h i b)"
| "answer_call_request X h (StartCallSession c) = finished (start_call_session (li_platform X) h c)"
| "answer_call_request X h ListIncomingCallSessions = finished (list_incoming_call_sessions (li_platform X) h)"
| "answer_call_request X h (GetCallSession i) = finished (get_call_session (li_platform X) h i)"
| "answer_call_request X h (CancelCallSession i) = cancel_call_session (li_platform X) h i"
| "answer_call_request X h (RespondToCallSession i b) = finished (respond_to_call_session (li_platform X) h i b)"

datatype social_request = People people_request | Groups group_request | Talks talk_request | Ringing call_request

primrec social_answer ::
  "libraries \<Rightarrow> str option \<Rightarrow> social_request \<Rightarrow> ('m social_site_scheme, api_error, unit) prog" where
  "social_answer X h (People r) = answer_people X h r"
| "social_answer X h (Groups r) = answer_group X h r"
| "social_answer X h (Talks r) = answer_talk X h r"
| "social_answer X h (Ringing r) = answer_call_request X h r"

end
