(* ===== verification/Transactions.thy ===== *)
theory Transactions
  imports Social
begin

text \<open>
  Reasoning about the body of a transaction. It runs alone, and its changes only count when it succeeds, so
  what matters is \<open>commits w m Q s\<close>: started at \<open>s\<close>, the body ends with an error or with \<open>Q\<close>. There is one
  rule for each way of building handlers; they are applied from the outside in.
\<close>

definition commits :: "'s world \<Rightarrow> ('s, 'e, 'a) prog \<Rightarrow> ('a \<Rightarrow> 's \<Rightarrow> bool) \<Rightarrow> 's \<Rightarrow> bool" where
  "commits w m Q s \<longleftrightarrow> (\<forall>n. case m (alone w) n s of (Inl _, _, _) \<Rightarrow> True | (Inr x, _, s') \<Rightarrow> Q x s')"

named_theorems committing \<open>rules for the bodies of transactions\<close>

lemma commitsI: "(\<And>n x n' s'. m (alone w) n s = (Inr x, n', s') \<Longrightarrow> Q x s') \<Longrightarrow> commits w m Q s"
  unfolding commits_def by (auto split: prod.splits sum.splits)

lemma commitsD: "commits w m Q s \<Longrightarrow> m (alone w) n s = (Inr x, n', s') \<Longrightarrow> Q x s'"
  unfolding commits_def by (drule spec [of _ n]) simp

lemma commits_chain [committing]: "commits w m (\<lambda>x. commits w (k x) Q) s \<Longrightarrow> commits w (chain m k) Q s"
  by (rule commitsI) (auto simp: chain_def split: prod.splits sum.splits dest!: commitsD)

lemma commits_mono: "commits w m Q' s \<Longrightarrow> (\<And>x s. Q' x s \<Longrightarrow> Q x s) \<Longrightarrow> commits w m Q s"
  by (rule commitsI) (auto dest: commitsD)

lemma commits_ret [committing]: "Q x s \<Longrightarrow> commits w (ret x) Q s"
  and commits_result [committing]: "(\<And>y. r = Inr y \<Longrightarrow> Q' y s) \<Longrightarrow> commits w (result r) Q' s"
  and commits_throw [committing]: "commits w (throw e) Q'' s"
  and commits_guard [committing]: "(c \<Longrightarrow> G () s) \<Longrightarrow> commits w (guard c e') G s"
  and commits_now [committing]: "(\<And>t. T t s) \<Longrightarrow> commits w utc_now T s"
  and commits_uuid [committing]: "(\<And>i. U i s) \<Longrightarrow> commits w new_uuid U s"
  by (auto intro!: commitsI simp: prog_defs split: if_splits)

lemma commits_map_err [committing]: "commits w m Q s \<Longrightarrow> commits w (map_err f m) Q s"
  by (rule commitsI) (auto simp: map_err_def split: prod.splits sum.splits dest: commitsD)

lemma commits_statement [committing]:
  "(\<And>x d. q (tables s) = Inr (x, d) \<Longrightarrow> Q x (s\<lparr>tables := d\<rparr>)) \<Longrightarrow> commits w (statement q) Q s"
  by (rule commitsI) (auto simp: statement_def alone_def Let_def split: if_splits sum.splits prod.splits)

lemma commits_select [committing]: "Q (f (tables s)) s \<Longrightarrow> commits w (select f) Q s"
  unfolding select_def by (rule commits_statement) auto

lemma commits_execute [committing]: "Q () (s\<lparr>tables := f (tables s)\<rparr>) \<Longrightarrow> commits w (execute f) Q s"
  unfolding execute_def by (rule commits_statement) auto

lemma commits_first [committing]: "(\<And>x. q (tables s) = Some x \<Longrightarrow> Q x s) \<Longrightarrow> commits w (first q) Q s"
  unfolding first_def by (rule commits_statement) (auto split: option.splits)

lemma commits_split [committing]:
  "(c \<Longrightarrow> commits w m Q s) \<Longrightarrow> (\<not> c \<Longrightarrow> commits w m' Q s) \<Longrightarrow> commits w (if c then m else m') Q s"
  "(x = None \<Longrightarrow> commits w m Q s) \<Longrightarrow> (\<And>y. x = Some y \<Longrightarrow> commits w (k y) Q s) \<Longrightarrow>
     commits w (case x of None \<Rightarrow> m | Some y \<Rightarrow> k y) Q s"
  "(\<And>a b. p = (a, b) \<Longrightarrow> commits w (h a b) Q s) \<Longrightarrow> commits w (case p of (a, b) \<Rightarrow> h a b) Q s"
  by (auto split: option.splits prod.splits)

text \<open>What a transaction keeps.\<close>

lemma keeps_transaction_as_commits:
  assumes st: "steady w P" and m: "\<And>s. P s \<Longrightarrow> commits w m (\<lambda>_. P) s"
  shows "keeps w P (transaction_as f m)"
proof (rule keepsI)
  fix n s assume "P s"
  then have start: "P (meanwhile w n s)" using st by (simp add: steady_def)
  have "P s'" if "m (w\<lparr>meanwhile := \<lambda>_ s. s\<rparr>) (Suc n) (meanwhile w n s) = (Inr x, n', s')" for x n' s'
    using commitsD [OF m [OF start]] that by (simp add: alone_def)
  with start show "P (snd (snd (transaction_as f m w n s)))"
    by (auto simp: transaction_as_def Let_def split: prod.splits sum.splits)
qed

lemma transaction_id: "transaction m = transaction_as (\<lambda>e. e) m"
  by (intro ext) (simp only: transaction_def transaction_as_def)

lemma keeps_transaction_commits:
  "steady w P \<Longrightarrow> (\<And>s. P s \<Longrightarrow> commits w m (\<lambda>_. P) s) \<Longrightarrow> keeps w P (transaction m)"
  unfolding transaction_id by (rule keeps_transaction_as_commits)

end
