(* ===== verification/Signing.thy ===== *)
theory Signing
  imports SocialRequests Transactions
begin

text \<open>
  Reasoning about signed requests: whose tokens a header may hold, and the rules for what handlers are built of
  beyond the statements (loops, matches on errors, a result that is dropped).
\<close>

definition signs :: "platform \<Rightarrow> str option \<Rightarrow> uuid set \<Rightarrow> bool" where
  "signs L header V \<longleftrightarrow> (\<forall>now u. extract_user_id L now header = Inr u \<longrightarrow> u \<in> V)"

lemma keeps_caller_chain:
  assumes "signs L header V" and "\<And>u. u \<in> V \<Longrightarrow> keeps w P (k u)"
  shows "keeps w P (chain (caller L header) k)"
proof (rule keepsI)
  fix n s assume "P s"
  show "P (snd (snd (chain (caller L header) k w n s)))"
  proof (cases "extract_user_id L (clock w n) header")
    case (Inl e) then show ?thesis using \<open>P s\<close> by (simp add: prog_defs caller_def)
  next
    case (Inr u)
    then have "keeps w P (k u)" using assms unfolding signs_def by blast
    from keepsD [OF this \<open>P s\<close>] Inr show ?thesis by (simp add: prog_defs caller_def)
  qed
qed

lemma keeps_finished [keeping]: "keeps w P m \<Longrightarrow> keeps w P (finished m)"
  unfolding finished_def by (intro keeping)

lemma keeps_for_each [keeping]: "(\<And>x. keeps w P (body x)) \<Longrightarrow> keeps w P (for_each body xs)"
  by (induction xs) (auto intro: keeping)

lemma keeps_Let [keeping]: "keeps w P (k x) \<Longrightarrow> keeps w P (let y = x in k y)"
  by simp

lemma keeps_error_case [keeping]:
  "keeps w P a \<Longrightarrow> keeps w P b \<Longrightarrow> keeps w P c \<Longrightarrow> keeps w P f \<Longrightarrow> keeps w P g \<Longrightarrow>
     keeps w P (case e of NotFound \<Rightarrow> a | UniqueViolation \<Rightarrow> b | ForeignKeyViolation \<Rightarrow> c | CheckViolation \<Rightarrow> f | OtherError \<Rightarrow> g)"
  by (cases e) auto

lemma keeps_size_case [keeping]:
  "keeps w P a \<Longrightarrow> keeps w P b \<Longrightarrow> keeps w P (case z of Thumb \<Rightarrow> a | Full \<Rightarrow> b)"
  by (cases z) auto

text \<open>A step of a transaction that keeps a predicate, and what comes after it.\<close>

lemma commits_keeps:
  assumes "keeps (alone w) P m" and "P s"
  shows "commits w m (\<lambda>_. P) s"
proof (rule commitsI)
  fix n x n' s' assume "m (alone w) n s = (Inr x, n', s')"
  then show "P s'" using keepsD [OF assms, of n] by simp
qed

lemma commits_keeps_chain:
  assumes "keeps (alone w) P m" "P s" and "\<And>x s'. P s' \<Longrightarrow> commits w (k x) Q s'"
  shows "commits w (chain m k) Q s"
  by (rule commits_chain, rule commits_mono [OF commits_keeps [OF assms(1,2)]]) (rule assms(3))

text \<open>What is known of a row that was found.\<close>

lemma keeps_found:
  assumes st: "steady w P" and k: "\<And>x d. q d = Some x \<Longrightarrow> keeps w P (k x)"
  shows "keeps w P (chain (map_err f (first q)) k)"
proof (rule keepsI)
  fix n s assume "P s"
  then have p: "P (meanwhile w n s)" using st by (simp add: steady_def)
  show "P (snd (snd (chain (map_err f (first q)) k w n s)))"
  proof (cases "fails w n")
    case True then show ?thesis using p by (simp add: prog_defs Let_def)
  next
    case False
    show ?thesis
    proof (cases "q (tables (meanwhile w n s))")
      case None then show ?thesis using p False by (simp add: prog_defs Let_def)
    next
      case (Some x)
      then have "chain (map_err f (first q)) k w n s = k x w (Suc n) (meanwhile w n s)"
        using False by (simp add: prog_defs Let_def)
      with keepsD [OF k [OF Some] p] show ?thesis by simp
    qed
  qed
qed

section \<open>Serving requests\<close>

text \<open>Requests one after the other, each in a world of its own and with whatever header it brings.\<close>

type_synonym 'm served = "'m social_site_scheme world \<times> nat \<times> str option \<times> social_request"

primrec serve :: "libraries \<Rightarrow> 'm served list \<Rightarrow> 'm social_site_scheme \<Rightarrow> 'm social_site_scheme" where
  "serve X [] s = s"
| "serve X (q # qs) s = (case q of (w, n, h, r) \<Rightarrow> serve X qs (snd (snd (social_answer X h r w n s))))"

section \<open>A sample world\<close>

definition sample_social_world :: "social_site world" where
  "sample_social_world = \<lparr>fails = \<lambda>_. False, meanwhile = \<lambda>_ s. s, clock = \<lambda>_. 5, fresh = \<lambda>n. of_nat (n + 100)\<rparr>"

definition sample_libraries :: libraries where
  "sample_libraries = \<lparr>li_platform = sample_platform, li_render = \<lambda>_. None, li_json = \<lambda>_. None, li_alnum = \<lambda>_. True,
     li_fold = \<lambda>c. c, li_names = \<lambda>_. 0, li_text = \<lambda>_. 0\<rparr>"

definition sample_token :: str where
  "sample_token = lit ''Bearer '' @ the (create_access_token sample_platform 7 5)"

lemma sample_signs: "signs sample_platform (Some sample_token) {7}"
  unfolding signs_def
proof (intro allI impI)
  fix now u assume u: "extract_user_id sample_platform now (Some sample_token) = Inr u"
  obtain t where t: "create_access_token sample_platform 7 5 = Some t"
    by (simp add: create_access_token_def sample_platform_def)
  then have "strip_prefix (lit ''Bearer '') sample_token = Some t" by (simp add: strip_prefix_Some sample_token_def)
  with u have "validate_access_token sample_platform now t = Some u"
    by (auto simp: extract_user_id_def ok_or_def split: option.splits)
  with t show "u \<in> {7}"
    by (auto simp: create_access_token_def validate_access_token_def validate_access_token_with_expiration_def
        sample_platform_def Let_def split: if_splits)
qed

lemma sample_answer: "extract_user_id sample_platform 5 (Some sample_token) = Inr 7"
proof -
  obtain t where t: "create_access_token sample_platform 7 5 = Some t"
    by (simp add: create_access_token_def sample_platform_def)
  then have "strip_prefix (lit ''Bearer '') sample_token = Some t" by (simp add: strip_prefix_Some sample_token_def)
  moreover have "validate_access_token sample_platform 5 t = Some 7"
    using t by (auto simp: create_access_token_def validate_access_token_def validate_access_token_with_expiration_def
        sample_platform_def timestamp_def seconds_def Let_def)
  ultimately show ?thesis by (simp add: extract_user_id_def ok_or_def)
qed

end
