(* ===== verification/HistoryPages.thy ===== *)
theory HistoryPages
  imports Signing "HOL-Library.Multiset"
begin

text \<open>
  Reading a conversation page by page: a client that follows the cursor of every page gets all messages.
\<close>

section \<open>Handlers that succeed\<close>

text \<open>\<open>goes w m Q n s\<close>: the handler succeeds, with a result and a site that satisfy \<open>Q\<close>.\<close>

definition goes :: "'s world \<Rightarrow> ('s, 'e, 'a) prog \<Rightarrow> ('a \<Rightarrow> 's \<Rightarrow> bool) \<Rightarrow> nat \<Rightarrow> 's \<Rightarrow> bool" where
  "goes w m Q n s \<longleftrightarrow> (\<exists>x n' s'. m w n s = (Inr x, n', s') \<and> Q x s')"

named_theorems going \<open>rules for handlers that succeed\<close>

lemma goes_chain [going]: "goes w m (\<lambda>x s'. \<forall>n'. goes w (k x) Q n' s') n s \<Longrightarrow> goes w (chain m k) Q n s"
  unfolding goes_def by (fastforce simp: chain_def)

lemma goes_pure [going]:
  "Q x s \<Longrightarrow> goes w (ret x) Q n s"
  "r = Inr x' \<Longrightarrow> Q' x' s \<Longrightarrow> goes w (result r) Q' n s"
  "c \<Longrightarrow> G () s \<Longrightarrow> goes w (guard c e) G n s"
  by (simp_all add: goes_def ret_def result_def guard_def)

lemma goes_map_err [going]: "goes w m Q n s \<Longrightarrow> goes w (map_err f m) Q n s"
  unfolding goes_def by (fastforce simp: map_err_def)

lemma goes_split [going]:
  "(c \<Longrightarrow> goes w m Q n s) \<Longrightarrow> (\<not> c \<Longrightarrow> goes w m' Q n s) \<Longrightarrow> goes w (if c then m else m') Q n s"
  "(\<And>a b. p = (a, b) \<Longrightarrow> goes w (h a b) Q n s) \<Longrightarrow> goes w (case p of (a, b) \<Rightarrow> h a b) Q n s"
  by (auto split: prod.splits)

lemma goes_mono: "goes w m Q' n s \<Longrightarrow> (\<And>x s. Q' x s \<Longrightarrow> Q x s) \<Longrightarrow> goes w m Q n s"
  unfolding goes_def by blast

lemma goes_quiet:
  assumes "quiet w"
  shows "Q (f (tables s)) s \<Longrightarrow> goes w (select f) Q n s"
    and "h (tables s) = Some y \<Longrightarrow> Q' y s \<Longrightarrow> goes w (first h) Q' n s"
    and "q (tables s) = Inr (z, d) \<Longrightarrow> R z (s\<lparr>tables := d\<rparr>) \<Longrightarrow> goes w (statement q) R n s"
    and "C () s \<Longrightarrow> goes w connect C n s"
  by (simp_all add: goes_def quiet_statement [OF assms])

section \<open>One page\<close>

text \<open>A user who may read the conversation: they exist, and are a member or one of the two of it.\<close>

definition reader :: "database \<Rightarrow> uuid \<Rightarrow> uuid \<Rightarrow> bool" where
  "reader d c u \<longleftrightarrow> user_exists d u \<and> (case conversation_row_of c d of None \<Rightarrow> False | Some x \<Rightarrow>
     (cv_kind x = lit ''group'' \<and> is_member d c u) \<or> (cv_kind x = lit ''direct'' \<and> (cv_low x = Some u \<or> cv_high x = Some u)))"

lemma kinds_differ [simp]: "lit ''direct'' \<noteq> lit ''group''"
  by (simp add: lit_def)

lemma goes_access:
  assumes q: "quiet w" and r: "reader (tables s) c u"
  shows "goes w (authorize_conversation_access c u) (\<lambda>_ s'. s' = s) n s"
proof -
  obtain x where x: "conversation_row_of c (tables s) = Some x" using r by (auto simp: reader_def split: option.splits)
  show ?thesis unfolding authorize_conversation_access_def
    by (rule goes_chain, rule goes_map_err, rule goes_quiet(2) [where h = "conversation_row_of c", OF q x], rule allI, rule goes_split(1))
      (use r x in \<open>auto simp: reader_def intro!: goes_chain goes_map_err goes_quiet(1) [OF q] goes_pure(3) goes_split(1)\<close>)
qed

lemma goes_extras:
  assumes q: "quiet w"
  shows "goes w (reply_previews c ks) (\<lambda>_ s'. s' = s) n s" and "goes w (reaction_summaries rank u ks) (\<lambda>_ s'. s' = s) n s"
    and "goes w (message_attachments_of L c ks) (\<lambda>_ s'. s' = s) n s"
  unfolding reply_previews_def reaction_summaries_def message_attachments_of_def
  by (auto intro!: goes_chain goes_map_err goes_quiet(1) [OF q] goes_pure(1) goes_split(1))

definition marked :: "database \<Rightarrow> database \<Rightarrow> bool" where
  "marked d d' \<longleftrightarrow> (\<exists>rs. d' = d\<lparr>conversation_read_states := rs\<rparr>)"

lemma marked_refl [simp]: "marked d d"
  by (auto simp: marked_def intro: exI [of _ "conversation_read_states d"])

lemma marked_trans: "marked d d' \<Longrightarrow> marked d' d'' \<Longrightarrow> marked d d''"
  by (auto simp: marked_def)

lemma goes_mark:
  assumes q: "quiet w" and r: "reader (tables s) c u"
  shows "goes w (mark_messages_read c u k) (\<lambda>_ s'. marked (tables s) (tables s')) n s"
proof -
  let ?new = "\<lparr>rs_conversation = c, rs_user = u, rs_last = k, rs_marked = False\<rparr>"
  let ?f = "\<lambda>r. r\<lparr>rs_last := max (rs_last r) k, rs_marked := False\<rparr>"
  have "read_state_reference_ok c u (tables s)"
    using r by (auto simp: reader_def read_state_reference_ok_def split: option.splits)
  then have "\<exists>d'. upsert_read_state c u ?f ?new (tables s) = Inr ((), d') \<and> marked (tables s) d'"
    by (cases "read_state_of (tables s) c u = None") (simp_all add: upsert_read_state_def marked_def, blast+)
  then obtain d' where d': "upsert_read_state c u ?f ?new (tables s) = Inr ((), d')" "marked (tables s) d'" by blast
  show ?thesis unfolding mark_messages_read_def
    by (rule goes_map_err, rule goes_quiet(3) [where q = "upsert_read_state c u ?f ?new", OF q d'(1)]) (simp add: d'(2))
qed

text \<open>What a page answers: the rows of the query, cut, and the cursor.\<close>

definition page_of :: "database \<Rightarrow> uuid \<Rightarrow> int option \<Rightarrow> nat \<Rightarrow> nat list \<times> nat option" where
  "page_of d c before n = (case split_page n (message_page d c before n) of (rows, b) \<Rightarrow> (map (\<lambda>x. mg_sequence (fst x)) rows, b))"

lemma marked_views:
  assumes "marked d d'"
  shows "history d' c = history d c" "with_nickname d' = with_nickname d" "is_member d' = is_member d"
    "conversations d' = conversations d" "users d' = users d" "conversation_messages d' = conversation_messages d"
  using assms by (auto simp: marked_def history_def with_nickname_def user_row_of_def is_member_def fun_eq_iff)

lemma page_of_marked: "marked d d' \<Longrightarrow> page_of d' c before n = page_of d c before n"
  by (simp add: page_of_def message_page_def marked_views)

lemma reader_marked: "marked d d' \<Longrightarrow> reader d' c u = reader d c u"
  by (simp add: reader_def conversation_row_of_def user_exists_def marked_views split: option.split)

lemma goes_caller: "extract_user_id L (clock w n) h = Inr u \<Longrightarrow> Q u s \<Longrightarrow> goes w (caller L h) Q n s"
  by (simp add: goes_def caller_def chain_def utc_now_def result_def)

lemma goes_same: "goes w m (\<lambda>_ s'. s' = s) n s \<Longrightarrow> (\<And>x. Q x s) \<Longrightarrow> goes w m Q n s"
  by (erule goes_mono) simp

lemma list_messages_page:
  assumes q: "quiet w" and h: "extract_user_id L (clock w m) h = Inr u" and r: "reader (tables s) c u"
    and n: "1 \<le> n" "n \<le> 50" and b: "\<And>k. before = Some k \<Longrightarrow> 0 < k"
  shows "goes w (list_messages L rank h c before (Some (int n)))
    (\<lambda>p s'. marked (tables s) (tables s') \<and> (map cmr_sequence (pg_messages p), pg_next_before p) = page_of (tables s) c before n) m s"
proof -
  obtain rows next_before where p: "split_page n (message_page (tables s) c before n) = (rows, next_before)" by fastforce
  have v: "validate_message_page before (Some (int n)) = Inr (before, n)"
    using n b by (auto simp: validate_message_page_def Let_def split: option.splits)
  have unread: "goes w (if latest
      then chain (map_err social_error (select (\<lambda>d. last_read d c u))) (\<lambda>k.
           map_err social_error (select (\<lambda>d. first_unread d c u k)))
      else ret None) (\<lambda>_ s'. s' = s) k s" for latest k
    by (auto intro!: goes_chain goes_map_err goes_quiet(1) [OF q] goes_pure(1))
  have mark: "goes w (if latest then mark_messages_read c u k else ret ()) (\<lambda>_ s'. marked (tables s) (tables s')) k' s" for latest k k'
    by (auto intro!: goes_mark [OF q r] goes_pure(1))
  have answer: "goes w (chain (reply_previews c quoted) (\<lambda>replies.
      chain (reaction_summaries rank u ks) (\<lambda>reactions.
      chain (message_attachments_of L c ks) (\<lambda>attachments.
      ret \<lparr>pg_messages = map (\<lambda>(m, nickname). message_response m nickname (Option.bind (mg_reply_to m) replies)
            (reactions (mg_sequence m)) (attachments (mg_sequence m))) rows,
          pg_next_before = next_before, pg_first_unread = unread\<rparr>))))
      (\<lambda>p s'. marked (tables s) (tables s') \<and> (map cmr_sequence (pg_messages p), pg_next_before p) = page_of (tables s) c before n) k s'"
    if "marked (tables s) (tables s')" for quoted ks unread k s'
    by (rule goes_chain, rule goes_same [OF goes_extras(1) [OF q]], rule allI,
        rule goes_chain, rule goes_same [OF goes_extras(2) [OF q]], rule allI,
        rule goes_chain, rule goes_same [OF goes_extras(3) [OF q]], rule allI, rule goes_pure(1))
      (use that in \<open>simp add: page_of_def p message_response_def comp_def split_def\<close>)
  show ?thesis unfolding list_messages_def Let_def
    by (rule goes_chain, rule goes_caller [OF h], rule allI, rule goes_chain, rule goes_pure(2) [OF v], unfold prod.case, rule allI,
        rule goes_chain, rule goes_map_err, rule goes_quiet(4) [OF q], rule allI,
        rule goes_chain, rule goes_same [OF goes_access [OF q r]], rule allI, rule goes_chain, rule goes_same [OF unread], rule allI,
        rule goes_chain, rule goes_map_err, rule goes_quiet(1) [OF q], rule allI, unfold p prod.case,
        rule goes_chain, rule goes_mono [OF mark], rule allI, rule answer)
qed

section \<open>All pages\<close>

text \<open>The numbers of the messages before a cursor, the newest first.\<close>

definition numbers_before :: "database \<Rightarrow> uuid \<Rightarrow> int option \<Rightarrow> nat list" where
  "numbers_before d c before = rev (sort (map mg_sequence
     (filter (\<lambda>m. case before of None \<Rightarrow> True | Some b \<Rightarrow> int (mg_sequence m) < b) (history d c))))"

definition senders_exist :: "database \<Rightarrow> bool" where
  "senders_exist d \<longleftrightarrow> (\<forall>m \<in> set (conversation_messages d). user_exists d (mg_sender m))"

lemma with_nickname_rows:
  assumes "\<forall>m \<in> set ms. user_exists d (mg_sender m)"
  shows "map fst (List.map_filter (with_nickname d) ms) = ms"
  using assms
proof (induction ms)
  case (Cons m ms)
  then have "user_row_of (mg_sender m) d \<noteq> None" by (auto simp: user_exists_def user_row_of_def list_ex_iff find_None_set)
  with Cons show ?case by (auto simp: map_filter_simps with_nickname_def)
qed (simp add: map_filter_simps)

lemma map_order_desc: "map k (order_desc k rs) = rev (sort (map k rs))"
proof -
  have "sort (map k rs) = map k (sort_key k (rev rs))" by (rule properties_for_sort) simp_all
  then show ?thesis by (simp add: order_desc_def rev_map)
qed

lemma page_of_numbers:
  assumes "senders_exist d" and n: "1 \<le> n"
  shows "page_of d c before n = (let ks = numbers_before d c before in
    (take n ks, if n < length ks then Some (ks ! (n - 1)) else None))"
proof -
  let ?rows = "filter (\<lambda>m. case before of None \<Rightarrow> True | Some b \<Rightarrow> int (mg_sequence m) < b) (history d c)"
  have "map fst (List.map_filter (with_nickname d) ?rows) = ?rows"
    by (rule with_nickname_rows) (use assms in \<open>auto simp: senders_exist_def history_def\<close>)
  from arg_cong [where f = "map mg_sequence", OF this]
  have "map (\<lambda>x. mg_sequence (fst x)) (List.map_filter (with_nickname d) ?rows) = map mg_sequence ?rows"
    by (simp only: map_map comp_def)
  then have ks: "map (\<lambda>x. mg_sequence (fst x)) (message_page d c before n) = take (n + 1) (numbers_before d c before)"
    by (simp add: message_page_def numbers_before_def take_map [symmetric] map_order_desc)
  have len: "length (message_page d c before n) = min (n + 1) (length (numbers_before d c before))"
    using arg_cong [OF ks, of length] by simp
  show ?thesis
  proof (cases "n < length (numbers_before d c before)")
    case True
    have "map (\<lambda>x. mg_sequence (fst x)) (take n (message_page d c before n)) = take n (numbers_before d c before)"
      using arg_cong [OF ks, of "take n"] by (simp add: take_map)
    moreover have "mg_sequence (fst (last (take n (message_page d c before n)))) = numbers_before d c before ! (n - 1)"
    proof -
      have "last (take n (message_page d c before n)) = message_page d c before n ! (n - 1)"
        using len True n by (subst last_conv_nth) (auto simp: nth_take)
      moreover have "map (\<lambda>x. mg_sequence (fst x)) (message_page d c before n) ! (n - 1) = numbers_before d c before ! (n - 1)"
        using n True by (simp add: ks)
      ultimately show ?thesis using len True n by simp
    qed
    ultimately show ?thesis using True len by (simp add: page_of_def split_page_def Let_def)
  next
    case False
    then show ?thesis using len ks by (simp add: page_of_def split_page_def Let_def)
  qed
qed

text \<open>The numbers before the last one of a page are those after the page.\<close>

lemma numbers_before_last:
  assumes d: "distinct (map mg_sequence (conversation_messages d))" and n: "1 \<le> n" "n < length (numbers_before d c before)"
  shows "numbers_before d c (Some (int (numbers_before d c before ! (n - 1)))) = drop n (numbers_before d c before)"
proof -
  define rows where "rows = filter (\<lambda>m. case before of None \<Rightarrow> True | Some b \<Rightarrow> int (mg_sequence m) < b) (history d c)"
  define ks where "ks = numbers_before d c before"
  define b where "b = ks ! (n - 1)"
  have "distinct (map mg_sequence rows)" using d by (simp add: rows_def history_def distinct_map_filter)
  then have dks: "distinct ks" by (simp add: ks_def numbers_before_def rows_def)
  have sks: "sorted_wrt (\<ge>) ks" by (simp add: ks_def numbers_before_def sorted_wrt_rev)
  have ordered: "ks ! j < ks ! i" if "i < j" "j < length ks" for i j
    using sorted_wrt_nth_less [OF sks that] dks that by (metis le_neq_implies_less nth_eq_iff_index_eq less_trans order_less_irrefl)
  have mem: "set ks = mg_sequence ` set rows" by (simp add: ks_def numbers_before_def rows_def)
  have bmem: "b \<in> set ks" using n by (simp add: b_def ks_def)
  have below: "x < b \<Longrightarrow> int x < k" if "before = Some k" for x k
    using bmem that unfolding mem rows_def by auto
  have "filter (\<lambda>x. x < b) ks = drop n ks"
  proof -
    have "filter (\<lambda>x. x < b) (take n ks) = []" 
    proof (rule filter_False, rule ballI)
      fix x assume "x \<in> set (take n ks)"
      then obtain i where i: "i < n" "x = ks ! i" using n by (auto simp: in_set_conv_nth ks_def)
      show "\<not> x < b"
      proof (cases "i = n - 1")
        case False
        have "ks ! (n - 1) < ks ! i" by (rule ordered) (use False i(1) n(2) in \<open>simp_all add: ks_def\<close>)
        then show ?thesis by (simp add: b_def i(2))
      qed (simp add: b_def i(2))
    qed
    moreover have "filter (\<lambda>x. x < b) (drop n ks) = drop n ks"
    proof (rule filter_True, rule ballI)
      fix x assume "x \<in> set (drop n ks)"
      then obtain i where "i < length (drop n ks)" "x = drop n ks ! i" unfolding in_set_conv_nth by metis
      then have i: "n + i < length ks" "x = ks ! (n + i)" by simp_all
      show "x < b" using ordered [of "n - 1" "n + i"] i n by (simp add: b_def)
    qed
    ultimately show ?thesis by (metis append_Nil append_take_drop_id filter_append)
  qed
  moreover have "numbers_before d c (Some (int b)) = filter (\<lambda>x. x < b) ks"
  proof -
    have "filter (\<lambda>m. int (mg_sequence m) < int b) (history d c) = filter (\<lambda>m. mg_sequence m < b) rows"
      unfolding rows_def filter_filter by (rule filter_cong) (auto split: option.splits dest: below)
    moreover have "filter (\<lambda>x. x < b) (sort (map mg_sequence rows)) = sort (map mg_sequence (filter (\<lambda>m. mg_sequence m < b) rows))"
      by (simp add: filter_sort filter_map comp_def)
    ultimately show ?thesis by (simp add: numbers_before_def ks_def rows_def [symmetric] rev_filter [symmetric])
  qed
  ultimately show ?thesis by (simp add: ks_def b_def)
qed

text \<open>A client that starts at the newest page and follows the cursors, at most \<open>k\<close> pages.\<close>

primrec scroll ::
  "nat \<Rightarrow> platform \<Rightarrow> (str \<Rightarrow> nat) \<Rightarrow> str option \<Rightarrow> uuid \<Rightarrow> nat \<Rightarrow> (nat \<Rightarrow> 'm site_scheme world \<times> nat) \<Rightarrow> int option
     \<Rightarrow> 'm site_scheme \<Rightarrow> nat list option" where
  "scroll 0 L rank h c n worlds before s = None"
| "scroll (Suc k) L rank h c n worlds before s =
     (case list_messages L rank h c before (Some (int n)) (fst (worlds k)) (snd (worlds k)) s of
        (Inl _, _, _) \<Rightarrow> None
      | (Inr p, _, s) \<Rightarrow>
          (case pg_next_before p of
             None \<Rightarrow> Some (map cmr_sequence (pg_messages p))
           | Some b \<Rightarrow> map_option ((@) (map cmr_sequence (pg_messages p))) (scroll k L rank h c n worlds (Some (int b)) s)))"

lemma scroll_numbers:
  assumes n: "1 \<le> n" "n \<le> 50"
    and worlds: "\<And>k. quiet (fst (worlds k)) \<and> extract_user_id L (clock (fst (worlds k)) (snd (worlds k))) h = Inr u"
  shows "length (numbers_before (tables s) c before) < k \<Longrightarrow> (\<And>b. before = Some b \<Longrightarrow> 0 < b) \<Longrightarrow> reader (tables s) c u \<Longrightarrow>
     senders_exist (tables s) \<Longrightarrow> distinct (map mg_sequence (conversation_messages (tables s))) \<Longrightarrow>
     (\<forall>m \<in> set (conversation_messages (tables s)). 0 < mg_sequence m) \<Longrightarrow>
     scroll k L rank h c n worlds before s = Some (numbers_before (tables s) c before)"
proof (induction k arbitrary: before s)
  case (Suc k)
  let ?ks = "numbers_before (tables s) c before"
  obtain p n' s' where p: "list_messages L rank h c before (Some (int n)) (fst (worlds k)) (snd (worlds k)) s = (Inr p, n', s')"
    and m: "marked (tables s) (tables s')" and page: "(map cmr_sequence (pg_messages p), pg_next_before p) = page_of (tables s) c before n"
    using list_messages_page [of "fst (worlds k)" L "snd (worlds k)" h u s c n before rank] worlds [of k] Suc.prems(2,3) n
    unfolding goes_def by blast
  have msgs: "map cmr_sequence (pg_messages p) = take n ?ks"
      "pg_next_before p = (if n < length ?ks then Some (?ks ! (n - 1)) else None)"
    using page page_of_numbers [OF Suc.prems(4) n(1)] by (simp_all add: Let_def)
  show ?case
  proof (cases "n < length ?ks")
    case True
    let ?b = "?ks ! (n - 1)"
    have rest: "numbers_before (tables s') c (Some (int ?b)) = drop n ?ks"
      using numbers_before_last [OF Suc.prems(5) n(1) True] by (simp add: numbers_before_def marked_views [OF m])
    have "?b \<in> set ?ks" using True by simp
    then have "0 < ?b" using Suc.prems(6) by (auto simp: numbers_before_def history_def)
    have "scroll k L rank h c n worlds (Some (int ?b)) s' = Some (numbers_before (tables s') c (Some (int ?b)))"
    proof (rule Suc.IH)
      show "length (numbers_before (tables s') c (Some (int ?b))) < k"
        unfolding rest using Suc.prems(1) True n(1) by simp
      show "reader (tables s') c u" using Suc.prems(3) reader_marked [OF m] by simp
    qed (use Suc.prems(4-6) \<open>0 < ?b\<close> in \<open>simp_all add: senders_exist_def user_exists_def marked_views [OF m]\<close>)
    then show ?thesis unfolding rest using p True msgs by simp
  qed (use p msgs in simp)
qed simp

text \<open>
  C36. Scrolling through a conversation shows every message once. A reader who starts at the newest page and
  follows the cursor of each page gets the numbers of all messages of the conversation, the newest first, without
  a gap and without a repetition, whatever size from 1 to 50 the pages have.
\<close>

theorem scrolling_shows_everything:
  assumes "1 \<le> n" "n \<le> 50" and "reader (tables s) c u" "senders_exist (tables s)"
    and "distinct (map mg_sequence (conversation_messages (tables s)))"
    and "\<forall>m \<in> set (conversation_messages (tables s)). 0 < mg_sequence m"
    and "\<forall>k. quiet (fst (worlds k)) \<and> extract_user_id L (clock (fst (worlds k)) (snd (worlds k))) h = Inr u"
  shows "scroll (Suc (length (history (tables s) c))) L rank h c n worlds None s =
    Some (rev (sort (map mg_sequence (history (tables s) c))))"
proof -
  have "length (numbers_before (tables s) c None) < Suc (length (history (tables s) c))" by (simp add: numbers_before_def)
  from scroll_numbers [OF assms(1,2) _ this _ assms(3-6)] assms(7) show ?thesis by (simp add: numbers_before_def)
qed

text \<open>Three messages of a direct conversation, two on a page.\<close>

definition sample_history :: database where
  "sample_history = empty_database\<lparr>users := [sample_user, sample_user\<lparr>us_id := 8\<rparr>],
     conversations := [\<lparr>cv_id = 50, cv_kind = lit ''direct'', cv_creator = 8, cv_title = None, cv_policy = None, cv_password_hash = None,
       cv_low = Some 7, cv_high = Some 8, cv_code = None, cv_legacy_code = None, cv_avatar_key = None,
       cv_created = 1, cv_updated = 1\<rparr>],
     conversation_messages := map (\<lambda>(k, u). \<lparr>mg_sequence = k, mg_conversation = 50, mg_sender = u, mg_sender_name = lit ''Bob'',
       mg_content = lit ''Hi'', mg_created = k, mg_reply_to = None\<rparr>) [(3, 8), (9, 7), (4, 8)]\<rparr>"

definition sample_history_site :: social_site where
  "sample_history_site = \<lparr>tables = sample_history, published = [], objects = Map.empty, media = []\<rparr>"

theorem scrolling_shows_everything_witness:
  "scroll 4 sample_platform (\<lambda>_. 0) (Some sample_token) 50 2 (\<lambda>k. (sample_social_world, k)) None sample_history_site = Some [9, 4, 3]"
proof -
  have t: "tables sample_history_site = sample_history" by (simp add: sample_history_site_def)
  have h: "history sample_history 50 = conversation_messages sample_history" "map mg_sequence (conversation_messages sample_history) = [3, 9, 4]"
    by (simp_all add: history_def sample_history_def)
  have "reader sample_history 50 7"
    by (simp add: reader_def sample_history_def empty_database_def user_exists_def conversation_row_of_def sample_user_def)
  moreover have "senders_exist sample_history"
    by (simp add: senders_exist_def sample_history_def empty_database_def user_exists_def sample_user_def)
  moreover have "\<forall>m \<in> set (conversation_messages sample_history). 0 < mg_sequence m" by (simp add: sample_history_def)
  moreover have "quiet sample_social_world" "clock sample_social_world k = 5" for k
    by (simp_all add: quiet_def sample_social_world_def)
  ultimately have "scroll (Suc (length (history sample_history 50))) sample_platform (\<lambda>_. 0) (Some sample_token) 50 2
      (\<lambda>k. (sample_social_world, k)) None sample_history_site = Some (rev (sort (map mg_sequence (history sample_history 50))))"
    using scrolling_shows_everything [of 2 sample_history_site 50 7 "\<lambda>k. (sample_social_world, k)" sample_platform "Some sample_token" "\<lambda>_. 0"]
      sample_answer by (simp add: t h)
  moreover have "Suc (length (history sample_history 50)) = 4" by (simp add: history_def sample_history_def)
  ultimately show ?thesis by (simp add: h del: scroll.simps)
qed

end
