(* ===== verification/Badges.thy ===== *)
theory Badges
  imports MeetingHistory HistoryPages
begin

text \<open>
  The badges of the sidebar (\<open>src/social/badges.rs\<close>): conversations with something unread and requests to answer,
  incoming friend requests, and missed calls that were not read. One statement of SQL counts all three. The counts
  are compared with the list of conversations that the sidebar shows.
\<close>

section \<open>Counting\<close>

record badge_counts =
  bc_messages :: nat
  bc_friends :: nat
  bc_calls :: nat

definition badge_error :: "db_error \<Rightarrow> api_error" where
  "badge_error _ = (INTERNAL_SERVER_ERROR, lit ''Internal server error'')"

text \<open>The conversations of the sidebar: groups of the user, and direct conversations that are not hidden.\<close>

definition in_sidebar :: "database \<Rightarrow> uuid \<Rightarrow> conversation_row \<Rightarrow> bool" where
  "in_sidebar d u c \<longleftrightarrow> (cv_kind c = lit ''group'' \<and> is_member d (cv_id c) u) \<or>
     (cv_kind c = lit ''direct'' \<and> (cv_low c = Some u \<or> cv_high c = Some u) \<and>
      (cv_id c, u) \<notin> set (conversation_hidden_states d))"

definition has_unread :: "database \<Rightarrow> uuid \<Rightarrow> uuid \<Rightarrow> bool" where
  "has_unread d u c \<longleftrightarrow> list_ex (\<lambda>m. mg_conversation m = c \<and> mg_sender m \<noteq> u \<and> last_read d c u < mg_sequence m)
     (conversation_messages d)"

definition is_marked :: "database \<Rightarrow> uuid \<Rightarrow> uuid \<Rightarrow> bool" where
  "is_marked d u c \<longleftrightarrow> list_ex (\<lambda>r. rs_conversation r = c \<and> rs_user r = u \<and> rs_marked r) (conversation_read_states d)"

definition badges_of :: "database \<Rightarrow> instant \<Rightarrow> uuid \<Rightarrow> badge_counts" where
  "badges_of d now u =
     \<lparr>bc_messages = length (filter (\<lambda>c. in_sidebar d u c \<and> (has_unread d u (cv_id c) \<or> is_marked d u (cv_id c))) (conversations d)) +
        length (filter (\<lambda>r. dr_recipient r = u \<and> dr_status r = lit ''pending'') (direct_message_requests d)) +
        length (filter (\<lambda>i. gi_invitee i = u \<and> gi_status i = lit ''pending'') (group_invitations d)),
      bc_friends = length (filter (\<lambda>f. fr_addressee f = u \<and> fr_status f = lit ''pending'') (friendships d)),
      bc_calls = length (concat (map (\<lambda>m. filter (\<lambda>s. cs_id s = cm_session m \<and> cm_user m = u \<and> missed_call d now s m \<and>
        (cs_id s, u) \<notin> set (call_read_states d)) (call_sessions d)) (call_session_members d)))\<rparr>"

definition load_badges :: "uuid \<Rightarrow> ('m site_scheme, api_error, badge_counts) prog" where
  "load_badges u = chain utc_now (\<lambda>now. map_err badge_error (select (\<lambda>d. badges_of d now u)))"

definition get_badges :: "platform \<Rightarrow> str option \<Rightarrow> ('m site_scheme, api_error, badge_counts) prog" where
  "get_badges L header =
     chain (caller L header) (\<lambda>u.
     chain (map_err badge_error connect) (\<lambda>_.
     load_badges u))"

section \<open>The list beside the badges\<close>

text \<open>A conversation that the list shows as unread.\<close>

definition shown_unread :: "conversation_response \<Rightarrow> bool" where
  "shown_unread c \<longleftrightarrow> 0 < cr_unread_count c \<or> cr_marked_unread c"

definition has_messages :: "database \<Rightarrow> uuid \<Rightarrow> bool" where
  "has_messages d c \<longleftrightarrow> list_ex (\<lambda>m. mg_conversation m = c) (conversation_messages d)"

definition requests_to :: "database \<Rightarrow> uuid \<Rightarrow> nat" where
  "requests_to d u = length (filter (\<lambda>r. dr_recipient r = u \<and> dr_status r = lit ''pending'') (direct_message_requests d)) +
     length (filter (\<lambda>i. gi_invitee i = u \<and> gi_status i = lit ''pending'') (group_invitations d))"

text \<open>Read states are unique, as their primary key says, and so are conversations.\<close>

definition keys_ok :: "database \<Rightarrow> bool" where
  "keys_ok d \<longleftrightarrow> distinct (map cv_id (conversations d)) \<and>
     distinct (map (\<lambda>r. (rs_conversation r, rs_user r)) (conversation_read_states d)) \<and>
     (\<forall>c \<in> set (conversations d). cv_kind c = lit ''group'' \<or> cv_kind c = lit ''direct'')"

lemma is_marked_state:
  assumes "keys_ok d"
  shows "is_marked d u c \<longleftrightarrow> (case read_state_of d c u of None \<Rightarrow> False | Some r \<Rightarrow> rs_marked r)"
proof (cases "read_state_of d c u")
  case None
  then have "\<forall>r \<in> set (conversation_read_states d). \<not> (rs_conversation r = c \<and> rs_user r = u)"
    unfolding read_state_of_def find_None_set .
  then show ?thesis by (auto simp: None is_marked_def list_ex_iff)
next
  case (Some r)
  then have r: "r \<in> set (conversation_read_states d)" "rs_conversation r = c" "rs_user r = u"
    unfolding read_state_of_def by (auto dest!: find_Some_set)
  have "q = r" if "q \<in> set (conversation_read_states d)" "rs_conversation q = c" "rs_user q = u" for q
  proof -
    have "inj_on (\<lambda>r. (rs_conversation r, rs_user r)) (set (conversation_read_states d))"
      using assms by (simp add: keys_ok_def distinct_map)
    then show ?thesis by (rule inj_onD) (use r that in auto)
  qed
  then have "is_marked d u c \<longleftrightarrow> rs_marked r" unfolding is_marked_def list_ex_iff using r by metis
  then show ?thesis by (simp add: Some)
qed

text \<open>What the list says of one conversation.\<close>

lemma counts_shown:
  assumes "keys_ok d"
  shows "(case counts_of d u c of None \<Rightarrow> False | Some k \<Rightarrow> 0 < mc_unread k \<or> mc_marked k) \<longleftrightarrow>
    has_unread d u c \<or> (is_marked d u c \<and> has_messages d c)"
proof (cases "has_messages d c")
  case True
  then have "counts_of d u c \<noteq> None" by (auto simp: counts_of_def has_messages_def list_ex_iff filter_empty_conv Let_def)
  then show ?thesis using True
    by (auto simp: counts_of_def is_marked_state [OF assms] has_unread_def list_ex_iff Let_def filter_empty_conv
        split: if_splits option.splits)
next
  case False
  then have "counts_of d u c = None" "\<not> has_unread d u c"
    by (auto simp: counts_of_def has_messages_def has_unread_def list_ex_iff filter_empty_conv Let_def)
  with False show ?thesis by simp
qed

text \<open>From the list back to the rows.\<close>

lemma collect_responses_ids:
  "collect_responses (map (\<lambda>c. conversation_response_of L c u (role c)) cs) = Inr rs \<Longrightarrow> map cr_id rs = map cv_id cs"
proof (induction cs arbitrary: rs)
  case (Cons c cs)
  then show ?case
    by (auto simp: and_then_def conversation_response_of_def split: sum.splits)
qed simp

lemma find_counts:
  assumes "c \<in> set ids"
  shows "find (\<lambda>k. mc_conversation k = c) (List.map_filter (counts_of d u) (remdups ids)) = counts_of d u c"
proof -
  have own: "mc_conversation k = i" if "counts_of d u i = Some k" for i k
    using that by (auto simp: counts_of_def Let_def split: if_splits)
  have "find (\<lambda>k. mc_conversation k = c) (List.map_filter (counts_of d u) is) = (if c \<in> set is then counts_of d u c else None)"
    if "distinct is" for "is"
    using that
  proof (induction "is")
    case (Cons i "is")
    show ?case
    proof (cases "counts_of d u i")
      case None then show ?thesis using Cons by (auto simp: map_filter_simps)
    next
      case (Some k) then show ?thesis using Cons own [OF Some] by (auto simp: map_filter_simps)
    qed
  qed (simp add: map_filter_simps)
  from this [of "remdups ids"] assms show ?thesis by simp
qed

lemma shown_with_counts:
  assumes "cr_id c \<in> set ids"
  shows "shown_unread (with_counts (List.map_filter (counts_of d u) (remdups ids)) c) \<longleftrightarrow>
    (case counts_of d u (cr_id c) of None \<Rightarrow> False | Some k \<Rightarrow> 0 < mc_unread k \<or> mc_marked k)"
  by (simp add: with_counts_def find_counts [OF assms] shown_unread_def split: option.splits)

lemma length_filter_order_desc: "length (filter P (order_desc k xs)) = length (filter P xs)"
  by (simp add: order_desc_def filter_sort rev_filter [symmetric])

lemma shown_rows:
  assumes k: "keys_ok d" and c: "collect_responses (map (\<lambda>c. conversation_response_of L c u (role c)) rows) = Inr rs"
    and "counts = (if map cr_id rs = [] then [] else List.map_filter (counts_of d u) (remdups (map cr_id rs)))"
  shows "length (filter shown_unread (order_desc cr_updated (map (with_counts counts) rs))) =
    length (filter (\<lambda>c. has_unread d u (cv_id c) \<or> (is_marked d u (cv_id c) \<and> has_messages d (cv_id c))) rows)"
proof -
  let ?Q = "\<lambda>i. has_unread d u i \<or> (is_marked d u i \<and> has_messages d i)"
  have "filter (\<lambda>c. shown_unread (with_counts counts c)) rs = filter (\<lambda>c. ?Q (cr_id c)) rs"
  proof (rule filter_cong)
    fix c assume "c \<in> set rs"
    then have i: "cr_id c \<in> set (map cr_id rs)" "map cr_id rs \<noteq> []" by auto
    then have "counts = List.map_filter (counts_of d u) (remdups (map cr_id rs))" using assms(3) by simp
    then show "shown_unread (with_counts counts c) = ?Q (cr_id c)" using shown_with_counts [OF i(1)] counts_shown [OF k] by simp
  qed simp
  then have "length (filter shown_unread (order_desc cr_updated (map (with_counts counts) rs))) =
      length (filter ?Q (map cr_id rs))"
    by (simp add: length_filter_order_desc filter_map comp_def)
  also have "\<dots> = length (filter ?Q (map cv_id rows))" by (simp only: collect_responses_ids [OF c])
  finally show ?thesis by (simp add: filter_map comp_def)
qed

lemma length_filter_sum:
  "(\<And>x. x \<in> set xs \<Longrightarrow> P x \<longleftrightarrow> A x \<or> B x) \<Longrightarrow> (\<And>x. x \<in> set xs \<Longrightarrow> \<not> (A x \<and> B x)) \<Longrightarrow>
     length (filter P xs) = length (filter A xs) + length (filter B xs)"
proof (induction xs)
  case (Cons x xs)
  then show ?case using Cons.prems [of x] by auto
qed simp

lemma listed_rows:
  assumes "quiet w" "extract_user_id L (clock w n) h = Inr u" and "list_conversations L h w n s = (Inr cs, n', s')"
  obtains role rs where "collect_responses (map (\<lambda>c. conversation_response_of L c u (role c))
      (filter (\<lambda>c. cv_kind c = lit ''group'' \<and> is_member (tables s) (cv_id c) u) (conversations (tables s)) @
       filter (\<lambda>c. cv_kind c = lit ''direct'' \<and> (cv_id c, u) \<notin> set (conversation_hidden_states (tables s)) \<and>
         (cv_low c = Some u \<or> cv_high c = Some u)) (conversations (tables s)))) = Inr rs"
    "cs = order_desc cr_updated (map (with_counts (if map cr_id rs = [] then []
       else List.map_filter (counts_of (tables s) u) (remdups (map cr_id rs)))) rs)"
proof -
  let ?ms = "filter (\<lambda>m. me_user m = u) (conversation_members (tables s))"
  have groups: "(\<exists>x. x \<in> set (conversation_members (tables s)) \<and> me_user x = u \<and> cv_id c = me_conversation x) \<longleftrightarrow> is_member (tables s) (cv_id c) u" for c
    by (auto simp: is_member_def list_ex_iff)
  have pick: "cv_id c \<in> fst ` (\<lambda>x. (me_conversation x, me_role x)) ` {x \<in> set (conversation_members (tables s)). me_user x = u} \<longleftrightarrow>
    is_member (tables s) (cv_id c) u" for c
    unfolding groups [symmetric] by (auto simp: image_iff)
  note q = quiet_statement [OF assms(1)]
  from assms(3) show thesis
    by (simp add: list_conversations_def caller_def pure_defs q assms(2) message_counts_for_conversations_def pick Let_def
      split: sum.splits prod.splits if_splits) (auto intro: that)
qed

section \<open>The badge against the list\<close>

text \<open>A conversation that was marked unread and has no messages is counted by the badge; the list shows it as read.\<close>

definition silent_mark :: "database \<Rightarrow> uuid \<Rightarrow> conversation_row \<Rightarrow> bool" where
  "silent_mark d u c \<longleftrightarrow> in_sidebar d u c \<and> is_marked d u (cv_id c) \<and> \<not> has_messages d (cv_id c)"

lemma unread_has_messages: "has_unread d u c \<Longrightarrow> has_messages d c"
  by (auto simp: has_unread_def has_messages_def list_ex_iff)

lemma goes_get_badges:
  assumes "quiet w" "extract_user_id L (clock w n) h = Inr u"
  shows "\<exists>now n'. get_badges L h w n s = (Inr (badges_of (tables s) now u), n', s)"
  by (auto simp: get_badges_def load_badges_def caller_def pure_defs quiet_statement [OF assms(1)] assms(2))

lemma sidebar_rows:
  assumes "keys_ok d"
  shows "length (filter (\<lambda>c. in_sidebar d u c \<and> P c) (conversations d)) =
    length (filter P (filter (\<lambda>c. cv_kind c = lit ''group'' \<and> is_member d (cv_id c) u) (conversations d) @
       filter (\<lambda>c. cv_kind c = lit ''direct'' \<and> (cv_id c, u) \<notin> set (conversation_hidden_states d) \<and>
         (cv_low c = Some u \<or> cv_high c = Some u)) (conversations d)))"
proof -
  have "length (filter (\<lambda>c. in_sidebar d u c \<and> P c) (conversations d)) =
      length (filter (\<lambda>c. (cv_kind c = lit ''group'' \<and> is_member d (cv_id c) u) \<and> P c) (conversations d)) +
      length (filter (\<lambda>c. (cv_kind c = lit ''direct'' \<and> (cv_id c, u) \<notin> set (conversation_hidden_states d) \<and>
         (cv_low c = Some u \<or> cv_high c = Some u)) \<and> P c) (conversations d))"
    by (rule length_filter_sum) (auto simp: in_sidebar_def)
  then show ?thesis by (simp add: conj_ac)
qed

text \<open>
  C38. When the list of conversations answers, the message badge of the same user over the same tables is the number
  of conversations that the list shows as unread, plus the requests to answer, plus exactly the conversations that
  the user marked unread and that have no messages: those the list shows as read.
\<close>

theorem badges_match_the_list:
  assumes "quiet w" "extract_user_id L (clock w n) h = Inr u" "quiet w'" "extract_user_id L (clock w' m) h' = Inr u"
    and k: "keys_ok (tables s)" and l: "list_conversations L h w n s = (Inr cs, n', s')"
  shows "\<exists>b m'. get_badges L h' w' m s = (Inr b, m', s) \<and>
    bc_messages b = length (filter shown_unread cs) + requests_to (tables s) u +
      length (filter (silent_mark (tables s) u) (conversations (tables s)))"
proof -
  let ?d = "tables s"
  let ?Q = "\<lambda>c. has_unread ?d u (cv_id c) \<or> (is_marked ?d u (cv_id c) \<and> has_messages ?d (cv_id c))"
  obtain role rs where "collect_responses (map (\<lambda>c. conversation_response_of L c u (role c))
      (filter (\<lambda>c. cv_kind c = lit ''group'' \<and> is_member ?d (cv_id c) u) (conversations ?d) @
       filter (\<lambda>c. cv_kind c = lit ''direct'' \<and> (cv_id c, u) \<notin> set (conversation_hidden_states ?d) \<and>
         (cv_low c = Some u \<or> cv_high c = Some u)) (conversations ?d))) = Inr rs"
    "cs = order_desc cr_updated (map (with_counts (if map cr_id rs = [] then []
       else List.map_filter (counts_of ?d u) (remdups (map cr_id rs)))) rs)"
    by (rule listed_rows [OF assms(1,2) l])
  from shown_rows [OF k this(1) refl] this(2)
  have cs: "length (filter shown_unread cs) = length (filter (\<lambda>c. in_sidebar ?d u c \<and> ?Q c) (conversations ?d))"
    by (simp only: sidebar_rows [OF k])
  have "length (filter (\<lambda>c. in_sidebar ?d u c \<and> (has_unread ?d u (cv_id c) \<or> is_marked ?d u (cv_id c))) (conversations ?d)) =
      length (filter (\<lambda>c. in_sidebar ?d u c \<and> ?Q c) (conversations ?d)) + length (filter (silent_mark ?d u) (conversations ?d))"
    by (rule length_filter_sum) (auto simp: silent_mark_def dest: unread_has_messages)
  then have "bc_messages (badges_of ?d now u) = length (filter shown_unread cs) + requests_to ?d u +
      length (filter (silent_mark ?d u) (conversations ?d))" for now
    by (simp add: badges_of_def cs requests_to_def)
  then show ?thesis using goes_get_badges [OF assms(3,4), of s] by metis
qed

text \<open>A user marks a new, empty conversation as unread: the badge says one, the list shows nothing.\<close>

definition sample_marked :: social_site where
  "sample_marked = sample_history_site\<lparr>tables := sample_history\<lparr>conversation_messages := [],
     conversation_read_states := [\<lparr>rs_conversation = 50, rs_user = 7, rs_last = 0, rs_marked = True\<rparr>]\<rparr>\<rparr>"

theorem badges_match_the_list_witness:
  "\<exists>cs b n' m'. list_conversations sample_platform (Some sample_token) sample_social_world 0 sample_marked = (Inr cs, n', sample_marked) \<and>
     get_badges sample_platform (Some sample_token) sample_social_world 0 sample_marked = (Inr b, m', sample_marked) \<and>
     filter shown_unread cs = [] \<and> bc_messages b = 1"
proof -
  have q: "quiet sample_social_world" and "clock sample_social_world k = 5" for k
    by (simp_all add: quiet_def sample_social_world_def)
  then have u: "extract_user_id sample_platform (clock sample_social_world 0) (Some sample_token) = Inr 7" using sample_answer by simp
  have k: "keys_ok (tables sample_marked)" by (simp add: keys_ok_def sample_marked_def sample_history_def)
  have "\<exists>cs n'. list_conversations sample_platform (Some sample_token) sample_social_world 0 sample_marked = (Inr cs, n', sample_marked) \<and>
      filter shown_unread cs = []"
    by (simp add: list_conversations_def caller_def pure_defs quiet_statement [OF q] u message_counts_for_conversations_def Let_def
        sample_marked_def sample_history_site_def sample_history_def empty_database_def conversation_response_of_def
        kind_from_db_value_def and_then_def ok_or_def other_participant_def order_desc_def with_counts_def shown_unread_def
        counts_of_def map_filter_simps)
  then obtain cs n' where l: "list_conversations sample_platform (Some sample_token) sample_social_world 0 sample_marked = (Inr cs, n', sample_marked)"
    and e: "filter shown_unread cs = []" by blast
  have "requests_to (tables sample_marked) 7 = 0" "filter (silent_mark (tables sample_marked) 7) (conversations (tables sample_marked)) =
      conversations (tables sample_marked)" "length (conversations (tables sample_marked)) = 1"
    by (simp_all add: requests_to_def sample_marked_def sample_history_site_def sample_history_def empty_database_def silent_mark_def
        in_sidebar_def is_marked_def has_messages_def)
  then show ?thesis using badges_match_the_list [OF q u q u k l] l e by auto
qed

end
