(* ===== verification/CallRules.thy ===== *)
theory CallRules
  imports Signing
begin

text \<open>
  What the tables of calls always look like, and whose doing it is that somebody is in a call. The predicate
  \<open>calls_kept\<close> joins both; every handler of the call API keeps it, whatever fails and whatever other requests
  that keep it do in between.
\<close>

section \<open>The tables of calls\<close>

definition pending_pair :: "call_invitation_row \<Rightarrow> call_invitation_row \<Rightarrow> bool" where
  "pending_pair i j \<longleftrightarrow> ci_status i = lit ''pending'' \<and> ci_status j = lit ''pending'' \<and>
     call_between (ci_caller i) (ci_callee i) j"

definition invitations_ok :: "call_invitation_row list \<Rightarrow> bool" where
  "invitations_ok is \<longleftrightarrow> distinct (map ci_id is) \<and>
     (\<forall>i \<in> set is. ci_caller i \<noteq> ci_callee i \<and> is_valid_room_id (ci_room i) \<and> ci_created i < ci_expires i) \<and>
     (\<forall>i \<in> set is. \<forall>j \<in> set is. pending_pair i j \<longrightarrow> ci_id i = ci_id j)"

definition sessions_ok :: "call_session_row list \<Rightarrow> bool" where
  "sessions_ok ss \<longleftrightarrow> distinct (map cs_id ss) \<and> distinct (map cs_room ss) \<and>
     (\<forall>s \<in> set ss. \<forall>t \<in> set ss. cs_status s = lit ''active'' \<and> cs_status t = lit ''active'' \<and>
        cs_conversation s = cs_conversation t \<longrightarrow> cs_id s = cs_id t)"

definition call_statuses :: "str set" where
  "call_statuses = {lit ''pending'', lit ''accepted'', lit ''declined''}"

definition memberships_ok :: "call_session_row list \<Rightarrow> call_member_row list \<Rightarrow> bool" where
  "memberships_ok ss ms \<longleftrightarrow> distinct (map (\<lambda>m. (cm_session m, cm_user m)) ms) \<and>
     (\<forall>m \<in> set ms. cm_status m \<in> call_statuses \<and> cm_session m \<in> set (map cs_id ss) \<and>
        ((cm_session m, cm_user m) \<in> set (map (\<lambda>s. (cs_id s, cs_initiator s)) ss) \<longrightarrow> cm_status m \<noteq> lit ''pending''))"

definition calls_ok :: "database \<Rightarrow> bool" where
  "calls_ok d \<longleftrightarrow> invitations_ok (call_invitations d) \<and> sessions_ok (call_sessions d) \<and>
     memberships_ok (call_sessions d) (call_session_members d)"

text \<open>Who has accepted which session.\<close>

definition acceptances :: "call_member_row list \<Rightarrow> (uuid \<times> uuid) set" where
  "acceptances ms = {(cm_session m, cm_user m) |m. m \<in> set ms \<and> cm_status m = lit ''accepted''}"

definition calls_kept :: "uuid set \<Rightarrow> (uuid \<times> uuid) set \<Rightarrow> 'm site_scheme \<Rightarrow> bool" where
  "calls_kept V A s \<longleftrightarrow> calls_ok (tables s) \<and>
     (\<forall>i u. (i, u) \<in> acceptances (call_session_members (tables s)) \<longrightarrow> u \<in> V \<or> (i, u) \<in> A)"

lemma call_names [simp]:
  "lit ''accepted'' \<noteq> lit ''pending''" "lit ''declined'' \<noteq> lit ''pending''" "lit ''declined'' \<noteq> lit ''accepted''"
  "lit ''expired'' \<noteq> lit ''pending''" "lit ''expired'' \<noteq> lit ''active''" "lit ''pending'' \<noteq> lit ''accepted''"
  by (simp_all add: lit_def)

lemma call_statuses [simp]:
  "lit ''pending'' \<in> call_statuses" "lit ''accepted'' \<in> call_statuses" "lit ''declined'' \<in> call_statuses"
  by (simp_all add: call_statuses_def)

declare lit_def [simp del]

section \<open>The statements\<close>

lemma update_keeps_key: "(\<And>r. k (f r) = k r) \<Longrightarrow> map k (update_where P f rs) = map k rs"
  by (simp add: update_where_def)

lemma invitations_updated:
  assumes "invitations_ok is" and "\<And>i. ci_id (f i) = ci_id i \<and> ci_caller (f i) = ci_caller i \<and> ci_callee (f i) = ci_callee i \<and>
      ci_room (f i) = ci_room i \<and> ci_created (f i) = ci_created i \<and> ci_expires (f i) = ci_expires i \<and>
      ci_status (f i) \<noteq> lit ''pending''"
  shows "invitations_ok (update_where P f is)"
  using assms(1) update_keeps_key [of ci_id f P "is"] assms(2)
  unfolding invitations_ok_def set_update_where pending_pair_def call_between_def by (auto split: if_splits)

lemma invitations_deleted: "invitations_ok is \<Longrightarrow> invitations_ok (delete_where P is)"
  unfolding invitations_ok_def by (auto simp: delete_where_def distinct_map_filter)

lemma invitations_added:
  assumes "invitations_ok is" and i: "ci_caller i \<noteq> ci_callee i" "is_valid_room_id (ci_room i)" "ci_created i < ci_expires i"
    and new: "\<forall>j \<in> set is. ci_id j \<noteq> ci_id i \<and> \<not> (ci_status j = lit ''pending'' \<and> call_between (ci_caller i) (ci_callee i) j)"
  shows "invitations_ok (is @ [i])"
proof -
  have "\<not> pending_pair i j" "\<not> pending_pair j i" if "j \<in> set is" for j
    using new that by (auto simp: pending_pair_def call_between_def same_pair_def)
  with assms show ?thesis by (auto simp: invitations_ok_def)
qed

lemma untouched_row: "x \<in> set (update_where P f rs) \<Longrightarrow> (\<And>r. \<not> Q (f r)) \<Longrightarrow> Q x \<Longrightarrow> x \<in> set rs"
  by (auto simp: set_update_where split: if_splits)

lemma sessions_updated:
  assumes "sessions_ok ss" and "\<And>s. cs_id (f s) = cs_id s \<and> cs_room (f s) = cs_room s \<and> cs_status (f s) \<noteq> lit ''active''"
  shows "sessions_ok (update_where P f ss)"
proof -
  have *: "x \<in> set ss" if "x \<in> set (update_where P f ss)" "cs_status x = lit ''active''" for x
    by (rule untouched_row [where Q = "\<lambda>x. cs_status x = lit ''active''", OF that(1)]) (simp_all add: assms(2) that(2))
  have "map cs_id (update_where P f ss) = map cs_id ss" "map cs_room (update_where P f ss) = map cs_room ss"
    by (rule update_keeps_key, simp add: assms(2))+
  with assms(1) * show ?thesis unfolding sessions_ok_def by metis
qed

lemma memberships_sessions_updated:
  assumes "memberships_ok ss ms" and "\<And>s. cs_id (f s) = cs_id s \<and> cs_initiator (f s) = cs_initiator s"
  shows "memberships_ok (update_where P f ss) ms"
proof -
  have "map cs_id (update_where P f ss) = map cs_id ss"
      "map (\<lambda>s. (cs_id s, cs_initiator s)) (update_where P f ss) = map (\<lambda>s. (cs_id s, cs_initiator s)) ss"
    by (rule update_keeps_key, simp add: assms(2))+
  with assms(1) show ?thesis unfolding memberships_ok_def by simp
qed

lemma sessions_added:
  assumes ok: "sessions_ok ss" and new: "\<forall>t \<in> set ss. cs_id t \<noteq> cs_id s \<and> cs_room t \<noteq> cs_room s \<and>
      \<not> (cs_conversation t = cs_conversation s \<and> cs_status t = lit ''active'')"
  shows "sessions_ok (ss @ [s])"
proof -
  have fresh: "cs_id s \<notin> cs_id ` set ss" "cs_room s \<notin> cs_room ` set ss" using new by fastforce+
  have one: "cs_id t = cs_id u" if "t \<in> set (ss @ [s])" "u \<in> set (ss @ [s])" "cs_status t = lit ''active''"
      "cs_status u = lit ''active''" "cs_conversation t = cs_conversation u" for t u
  proof -
    have no: "r \<notin> set ss" if "cs_status r = lit ''active''" "cs_conversation r = cs_conversation s" for r
      using new that by blast
    have "t = s \<or> t \<in> set ss" "u = s \<or> u \<in> set ss" using that(1,2) by auto
    then consider "t = u" | "t = s" "u \<in> set ss" | "u = s" "t \<in> set ss" | "t \<in> set ss" "u \<in> set ss" by blast
    then show ?thesis
    proof cases
      case 2 then show ?thesis using no [of u] that(4,5) by simp
    next
      case 3 then show ?thesis using no [of t] that(3,5) by simp
    next
      case 4 then show ?thesis using ok that(3-5) unfolding sessions_ok_def by blast
    qed simp
  qed
  show ?thesis unfolding sessions_ok_def
  proof (intro conjI ballI impI; (elim conjE)?)
    show "distinct (map cs_id (ss @ [s]))" "distinct (map cs_room (ss @ [s]))"
      using ok fresh by (simp_all add: sessions_ok_def)
  qed (rule one)
qed

lemma memberships_session_added:
  assumes "memberships_ok ss ms" and "\<forall>t \<in> set ss. cs_id t \<noteq> cs_id s"
  shows "memberships_ok (ss @ [s]) ms"
proof -
  have "cm_session m \<noteq> cs_id s" if "m \<in> set ms" for m
  proof -
    have "cm_session m \<in> set (map cs_id ss)" using assms(1) that unfolding memberships_ok_def by blast
    with assms(2) show ?thesis by fastforce
  qed
  with assms(1) show ?thesis by (simp add: memberships_ok_def)
qed

lemma memberships_updated:
  assumes "memberships_ok ss ms" and "status \<in> call_statuses" "status \<noteq> lit ''pending''"
  shows "memberships_ok ss (update_where P (\<lambda>m. m\<lparr>cm_status := status\<rparr>) ms)"
proof -
  have "map (\<lambda>m. (cm_session m, cm_user m)) (update_where P (\<lambda>m. m\<lparr>cm_status := status\<rparr>) ms) =
      map (\<lambda>m. (cm_session m, cm_user m)) ms"
    by (rule update_keeps_key) simp
  with assms show ?thesis unfolding memberships_ok_def by (simp add: set_update_where del: set_map) auto
qed

lemma memberships_added:
  assumes "memberships_ok ss ms" and "memberships_ok ss ks"
    and "\<forall>m \<in> set ks. \<forall>k \<in> set ms. \<not> (cm_session k = cm_session m \<and> cm_user k = cm_user m)"
  shows "memberships_ok ss (ms @ ks)"
  using assms unfolding memberships_ok_def by fastforce

section \<open>Keeping the rules\<close>

lemma kept_effects [simp]: "calls_kept V A (s\<lparr>published := p\<rparr>) = calls_kept V A s"
  by (simp add: calls_kept_def)

lemma calls_keptI:
  assumes "calls_kept V A s" and "invitations_ok (call_invitations (tables s)) \<Longrightarrow> invitations_ok (call_invitations d)"
    and "sessions_ok (call_sessions (tables s)) \<Longrightarrow> sessions_ok (call_sessions d)"
    and "memberships_ok (call_sessions (tables s)) (call_session_members (tables s)) \<Longrightarrow>
      memberships_ok (call_sessions d) (call_session_members d)"
    and "\<And>i u. (i, u) \<in> acceptances (call_session_members d) \<Longrightarrow>
      u \<in> V \<or> (i, u) \<in> acceptances (call_session_members (tables s))"
  shows "calls_kept V A (s\<lparr>tables := d\<rparr>)"
  using assms unfolding calls_kept_def calls_ok_def by (simp; blast)

lemma kept_insert_call: "calls_kept V A s \<Longrightarrow> insert_call i (tables s) = Inr (x, d) \<Longrightarrow> calls_kept V A (s\<lparr>tables := d\<rparr>)"
  by (erule calls_keptI) (auto simp: insert_call_def list_ex_iff not_le split: if_splits intro!: invitations_added)

lemma kept_answer_call:
  assumes "calls_kept V A s" "answer_call hit status now (tables s) = Inr (x, d)" "status \<noteq> lit ''pending''"
  shows "calls_kept V A (s\<lparr>tables := d\<rparr>)"
  using assms(2,3) by (auto simp: answer_call_def Let_def split: option.splits intro!: calls_keptI [OF assms(1)] invitations_updated)

lemma kept_expire_calls: "calls_kept V A s \<Longrightarrow> calls_kept V A (s\<lparr>tables := expire_calls u v now (tables s)\<rparr>)"
  by (erule calls_keptI) (simp_all add: expire_calls_def invitations_updated)

lemma kept_prune_calls: "calls_kept V A s \<Longrightarrow> calls_kept V A (s\<lparr>tables := prune_calls u (tables s)\<rparr>)"
  by (erule calls_keptI) (simp_all add: prune_calls_def Let_def invitations_deleted)

lemma kept_expire_sessions: "calls_kept V A s \<Longrightarrow> calls_kept V A (s\<lparr>tables := expire_call_sessions now (tables s)\<rparr>)"
  by (erule calls_keptI) (simp_all add: expire_call_sessions_def sessions_updated memberships_sessions_updated)

lemma kept_expire_ended: "calls_kept V A s \<Longrightarrow> calls_kept V A (s\<lparr>tables := expire_ended c (tables s)\<rparr>)"
  by (erule calls_keptI) (simp_all add: expire_ended_def sessions_updated memberships_sessions_updated)

lemma kept_cancel_row: "calls_kept V A s \<Longrightarrow> cancel_row i u (tables s) = Inr (x, d) \<Longrightarrow> calls_kept V A (s\<lparr>tables := d\<rparr>)"
  by (erule calls_keptI) (auto simp: cancel_row_def Let_def sessions_updated memberships_sessions_updated)

lemma kept_answers:
  assumes "calls_kept V A s" and "status \<in> call_statuses" "status \<noteq> lit ''pending''"
    and "status = lit ''accepted'' \<Longrightarrow> (\<And>m. hit m \<Longrightarrow> cm_user m \<in> V)"
  shows "calls_kept V A (s\<lparr>tables := (tables s)\<lparr>call_session_members := update_where hit
    (\<lambda>m. m\<lparr>cm_status := status\<rparr>) (call_session_members (tables s))\<rparr>\<rparr>)"
proof (rule calls_keptI [OF assms(1)])
  fix i u assume "(i, u) \<in> acceptances (call_session_members ((tables s)\<lparr>call_session_members :=
    update_where hit (\<lambda>m. m\<lparr>cm_status := status\<rparr>) (call_session_members (tables s))\<rparr>))"
  then obtain m where m: "m \<in> set (call_session_members (tables s))" "i = cm_session m" "u = cm_user m"
      "if hit m then status = lit ''accepted'' else cm_status m = lit ''accepted''"
    by (auto simp: acceptances_def set_update_where split: if_splits)
  then show "u \<in> V \<or> (i, u) \<in> acceptances (call_session_members (tables s))"
    using assms(4) by (cases "hit m") (auto simp: acceptances_def)
qed (simp_all add: assms memberships_updated)

lemma kept_start:
  assumes P: "calls_kept V A s" and u: "u \<in> V"
    and s: "insert_call_session t (tables s) = Inr (t', d)" "cs_initiator t = u"
    and m: "insert_call_members (map (\<lambda>v. \<lparr>cm_session = cs_id t', cm_user = v,
      cm_status = if v = u then lit ''accepted'' else lit ''pending''\<rparr>) people) d = Inr (x, d')"
  shows "calls_kept V A (s\<lparr>tables := d'\<rparr>)"
proof -
  let ?new = "map (\<lambda>v. \<lparr>cm_session = cs_id t', cm_user = v, cm_status = if v = u then lit ''accepted'' else lit ''pending''\<rparr>) people"
  have t: "t' = t" "d = (tables s)\<lparr>call_sessions := call_sessions (tables s) @ [t]\<rparr>"
      "\<forall>r \<in> set (call_sessions (tables s)). cs_id r \<noteq> cs_id t \<and> cs_room r \<noteq> cs_room t \<and>
        \<not> (cs_conversation r = cs_conversation t \<and> cs_status r = lit ''active'')"
    using s(1) by (auto simp: insert_call_session_def list_ex_iff split: if_splits)
  have d': "d' = d\<lparr>call_session_members := call_session_members d @ ?new\<rparr>"
      "distinct (map (\<lambda>m. (cm_session m, cm_user m)) ?new)"
      "\<forall>m \<in> set ?new. \<forall>k \<in> set (call_session_members (tables s)). \<not> (cm_session k = cm_session m \<and> cm_user k = cm_user m)"
    using m by (auto simp: insert_call_members_def list_ex_iff t(2) simp del: set_map split: if_splits)
  have new: "memberships_ok (call_sessions (tables s) @ [t]) ?new"
    using d'(2) t(3) s(2) unfolding memberships_ok_def by (auto simp: t(1))
  show ?thesis
  proof (rule calls_keptI [OF P])
    show "memberships_ok (call_sessions d') (call_session_members d')"
      if "memberships_ok (call_sessions (tables s)) (call_session_members (tables s))"
      using memberships_added [OF memberships_session_added [OF that] new d'(3)] t(3) by (simp add: d'(1) t(2))
    show "sessions_ok (call_sessions d')" if "sessions_ok (call_sessions (tables s))"
      using sessions_added [OF that t(3)] by (simp add: d'(1) t(2))
  qed (use u in \<open>auto simp: d'(1) t(2) acceptances_def split: if_splits\<close>)
qed

section \<open>The handlers\<close>

named_theorems calling \<open>introduction rules for handlers that keep the rules of calls\<close>

lemma keeps_call_statements [calling]:
  assumes "steady w (calls_kept V A)"
  shows "keeps w (calls_kept V A) (statement (insert_call i))" "keeps w (calls_kept V A) (execute (expire_calls u v now))"
    "keeps w (calls_kept V A) (execute (prune_calls u))" "keeps w (calls_kept V A) (execute (expire_call_sessions now))"
    "keeps w (calls_kept V A) (execute (expire_ended c))" "keeps w (calls_kept V A) (statement (cancel_row j u))"
    "status \<noteq> lit ''pending'' \<Longrightarrow> keeps w (calls_kept V A) (statement (answer_call hit status now))"
  by (auto intro!: keeps_statement [OF assms] keeps_execute [OF assms] intro: kept_insert_call kept_expire_calls
      kept_prune_calls kept_expire_sessions kept_expire_ended kept_cancel_row kept_answer_call)

lemma keeps_call_events [calling]:
  "keeps w (calls_kept V A) (publish us r)" "steady w (calls_kept V A) \<Longrightarrow> keeps w (calls_kept V A) (alert us a)"
  unfolding alert_def by (intro keeping kept_effects; assumption?)+

lemma keeps_call_parts [calling]:
  assumes st: "steady w (calls_kept V A)"
  shows "keeps w (calls_kept V A) (alert_incoming_call L u us a)" "keeps w (calls_kept V A) (reuse_pending_call u v now)"
    "keeps w (calls_kept V A) (place_call L u v now)" "keeps w (calls_kept V A) (load_conversation_for_update c)"
    "keeps w (calls_kept V A) (participants_of x u)" "keeps w (calls_kept V A) (expire_sessions now)"
    "keeps w (calls_kept V A) (call_session_member_ids i)"
  unfolding alert_incoming_call_def reuse_pending_call_def place_call_def load_conversation_for_update_def
    participants_of_def expire_sessions_def call_session_member_ids_def Let_def
  by (intro keeping calling st call_names)+

lemma keeps_respond_rows:
  assumes st: "steady w (calls_kept V A)" and u: "u \<in> V"
  shows "keeps w (calls_kept V A) (respond_rows i u now accept)"
proof -
  have answers: "keeps w (calls_kept V A) (execute (\<lambda>d. d\<lparr>call_session_members := update_where
      (\<lambda>k. cm_session k = cm_session m \<and> cm_user k = cm_user m)
      (\<lambda>k. k\<lparr>cm_status := if accept then lit ''accepted'' else lit ''declined''\<rparr>) (call_session_members d)\<rparr>))"
    if "cm_user m \<in> V" for m
    by (rule keeps_execute [OF st], rule kept_answers) (use that in auto)
  show ?thesis unfolding respond_rows_def
    by (intro keeping calling st keeps_found [OF st] answers) (use u in \<open>auto dest!: find_Some_set\<close>)
qed

lemma commits_call_rows:
  assumes P: "calls_kept V A s" and u: "u \<in> V"
  shows "commits w (call_rows L c u now) (\<lambda>_. calls_kept V A) s"
proof -
  note st = steady_alone [of w "calls_kept V A"]
  have start: "commits w (chain (map_err f (statement (insert_call_session t))) (\<lambda>r.
      chain (map_err g (statement (insert_call_members (map (\<lambda>v. \<lparr>cm_session = cs_id r, cm_user = v,
        cm_status = if v = u then lit ''accepted'' else lit ''pending''\<rparr>) people)))) (\<lambda>_. ret (h r)))) (\<lambda>_. calls_kept V A) s'"
    if "calls_kept V A s'" "cs_initiator t = u" for s' t f g h people
    by (intro committing) (use kept_start [OF that(1) u _ that(2)] in auto)
  show ?thesis unfolding call_rows_def
    by ((rule commits_keeps_chain [where P = "calls_kept V A"], (intro keeping calling st)[1], (rule P | assumption))+, rule start, assumption, simp)
qed

lemma keeps_call_transactions [calling]:
  assumes st: "steady w (calls_kept V A)" and u: "u \<in> V"
  shows "keeps w (calls_kept V A) (transaction_as f (call_rows L c u now))"
    and "keeps w (calls_kept V A) (transaction_as g (respond_rows i u now' accept))"
  by (rule keeps_transaction_as_commits [OF st], erule commits_call_rows [OF _ u])
    (rule keeps_transaction_as [OF st], rule keeps_respond_rows [OF steady_alone u])

lemma keeps_call_requests:
  assumes st: "steady w (calls_kept V A)" and h: "signs L h V" and "li_platform X = L"
  shows "keeps w (calls_kept V A) (answer_call_request X h q)"
proof -
  note defs = create_call_invitation_def list_incoming_calls_def respond_to_call_def start_call_session_def
    list_incoming_call_sessions_def get_call_session_def cancel_call_session_def respond_to_call_session_def Let_def
  have "keeps w (calls_kept V A) (create_call_invitation L h c1)" "keeps w (calls_kept V A) (list_incoming_calls L h)"
      "keeps w (calls_kept V A) (respond_to_call L h c3 d3)" "keeps w (calls_kept V A) (start_call_session L h c4)"
      "keeps w (calls_kept V A) (list_incoming_call_sessions L h)" "keeps w (calls_kept V A) (get_call_session L h c6)"
      "keeps w (calls_kept V A) (cancel_call_session L h c7)" "keeps w (calls_kept V A) (respond_to_call_session L h c8 d8)"
    for c1 c3 d3 c4 c6 c7 c8 d8
    unfolding defs by ((rule keeps_caller_chain [OF h])?, (intro keeping calling st; (assumption | simp)?))+
  then show ?thesis by (cases q) (simp_all only: answer_call_request.simps assms(3) keeps_finished)
qed

section \<open>Properties\<close>

text \<open>What the other requests do: nothing that breaks the rules, and nothing in the name of others.\<close>

definition respectful :: "uuid set \<Rightarrow> 'm social_site_scheme world \<Rightarrow> bool" where
  "respectful V w \<longleftrightarrow> (\<forall>A. steady w (calls_kept V A))"

definition calls_of :: "platform \<Rightarrow> uuid set \<Rightarrow> 'm served list \<Rightarrow> bool" where
  "calls_of L V qs \<longleftrightarrow> list_all (\<lambda>(w, n, h, r). respectful V w \<and> signs L h V \<and> (\<exists>q. r = Ringing q)) qs"

lemma serve_calls:
  "calls_kept V A s \<Longrightarrow> calls_of (li_platform X) V qs \<Longrightarrow> calls_kept V A (serve X qs s)"
proof (induction qs arbitrary: s)
  case (Cons q qs)
  obtain w n h c where q: "q = (w, n, h, Ringing c)" and ok: "respectful V w" "signs (li_platform X) h V"
    using Cons.prems(2) by (cases q) (auto simp: calls_of_def)
  have "keeps w (calls_kept V A) (answer_call_request X h c)"
    using ok by (intro keeps_call_requests) (auto simp: respectful_def)
  then have "calls_kept V A (snd (snd (answer_call_request X h c w n s)))" using Cons.prems(1) by (rule keepsD)
  with Cons.prems(2) show ?case by (simp add: q Cons.IH calls_of_def)
qed simp

text \<open>
  C33. The call API keeps its tables in order, whichever statements fail and whatever requests run in between:
  two users have at most one pending invitation, a conversation has at most one active call, rooms are not
  shared, everybody has one seat in a call and the initiator is never rung.
\<close>

theorem calls_stay_in_order:
  assumes "calls_ok (tables s)" and "calls_of (li_platform X) V qs"
  shows "calls_ok (tables (serve X qs s))"
proof -
  have "calls_kept V (acceptances (call_session_members (tables s))) s" using assms(1) by (simp add: calls_kept_def)
  from serve_calls [OF this assms(2)] show ?thesis by (simp add: calls_kept_def)
qed

text \<open>
  C34. Nobody is drafted into a call. Whoever may enter the room of a call after any number of requests by other
  users had accepted that very call before: only a user's own request makes an acceptance.
\<close>

theorem nobody_is_drafted:
  assumes "calls_ok (tables s)" and "calls_of (li_platform X) V qs" and "u \<notin> V"
    and "authorize_sfu_room (Some (tables (serve X qs s))) now i (Some u) = Inr Authorized"
  shows "\<exists>c \<in> set (call_sessions (tables (serve X qs s))). cs_room c = i \<and> cs_status c = lit ''active'' \<and>
     (\<exists>m \<in> set (call_session_members (tables s)). cm_session m = cs_id c \<and> cm_user m = u \<and> cm_status m = lit ''accepted'')"
proof -
  have "calls_kept V (acceptances (call_session_members (tables s))) s" using assms(1) by (simp add: calls_kept_def)
  from serve_calls [OF this assms(2)]
  have new: "(k, u) \<in> acceptances (call_session_members (tables s))"
    if "(k, u) \<in> acceptances (call_session_members (tables (serve X qs s)))" for k
    using that assms(3) by (auto simp: calls_kept_def)
  obtain c m where c: "c \<in> set (call_sessions (tables (serve X qs s)))" "cs_room c = i" "cs_status c = lit ''active''"
    and m: "m \<in> set (call_session_members (tables (serve X qs s)))" "cm_session m = cs_id c" "cm_user m = u"
      "cm_status m = lit ''accepted''"
    using assms(4) by (auto simp: authorize_sfu_room_Authorized has_accepted_membership_def list_ex_iff)
  have "(cs_id c, u) \<in> acceptances (call_session_members (tables s))"
    by (rule new) (use m in \<open>auto simp: acceptances_def intro!: bexI [of _ m] exI [of _ m]\<close>)
  with c(2,3) show ?thesis by (intro bexI [OF _ c(1)]) (auto simp: acceptances_def)
qed

text \<open>A call of user 8 that rings user 7, who declines it.\<close>

definition sample_call_tables :: database where
  "sample_call_tables = empty_database\<lparr>
     conversations := [\<lparr>cv_id = 50, cv_kind = lit ''direct'', cv_creator = 8, cv_title = None, cv_policy = None, cv_password_hash = None,
       cv_low = Some 7, cv_high = Some 8, cv_code = None, cv_legacy_code = None, cv_avatar_key = None,
       cv_created = 1, cv_updated = 1\<rparr>],
     call_sessions := [\<lparr>cs_id = 60, cs_conversation = 50, cs_initiator = 8, cs_room = lit ''r'',
       cs_status = lit ''active'', cs_expires = 100, cs_created = 1\<rparr>],
     call_session_members := [\<lparr>cm_session = 60, cm_user = 8, cm_status = lit ''accepted''\<rparr>,
       \<lparr>cm_session = 60, cm_user = 7, cm_status = lit ''pending''\<rparr>]\<rparr>"

definition sample_call_site :: social_site where
  "sample_call_site = \<lparr>tables = sample_call_tables, published = [], objects = Map.empty, media = []\<rparr>"

definition sample_call_requests :: "(social_site world \<times> nat \<times> str option \<times> social_request) list" where
  "sample_call_requests = [(sample_social_world, 0, Some sample_token, Ringing (RespondToCallSession 60 False))]"

lemma sample_calls_ok: "calls_ok (tables sample_call_site)"
  by (simp add: sample_call_site_def sample_call_tables_def empty_database_def calls_ok_def invitations_ok_def sessions_ok_def
      memberships_ok_def)

lemma sample_calls_served: "calls_of sample_platform {7} sample_call_requests"
  using sample_signs by (simp add: calls_of_def sample_call_requests_def respectful_def steady_def sample_social_world_def)

theorem calls_stay_in_order_witness:
  "calls_ok (tables (serve sample_libraries sample_call_requests sample_call_site))"
  using calls_stay_in_order [of sample_call_site sample_libraries "{7}" sample_call_requests]
    sample_calls_ok sample_calls_served by (simp add: sample_libraries_def)

lemma sample_declined:
  "tables (serve sample_libraries sample_call_requests sample_call_site) = sample_call_tables\<lparr>call_session_members :=
     [\<lparr>cm_session = 60, cm_user = 8, cm_status = lit ''accepted''\<rparr>,
      \<lparr>cm_session = 60, cm_user = 7, cm_status = lit ''declined''\<rparr>]\<rparr>"
proof -
  have q: "quiet sample_social_world" by (simp add: quiet_def sample_social_world_def)
  have c: "clock sample_social_world n = 5" "\<not> fails sample_social_world n" "meanwhile sample_social_world n s = s" for n s
    by (simp_all add: sample_social_world_def)
  have a: "(lit ''active'' = lit ''expired'') = False" by (simp add: lit_def)
  show ?thesis
    by (simp add: sample_call_requests_def sample_libraries_def finished_def respond_to_call_session_def caller_def c
        quiet_statement [OF q] sample_answer transaction_as_def quiet_alone [OF q] respond_rows_def expire_sessions_def live_session_def
        call_session_member_ids_def sample_call_site_def sample_call_tables_def empty_database_def expire_call_sessions_def
        update_where_def pure_defs Let_def)
qed

theorem nobody_is_drafted_witness:
  "\<exists>c \<in> set (call_sessions sample_call_tables). cs_room c = lit ''r'' \<and>
     (\<exists>m \<in> set (call_session_members sample_call_tables). cm_session m = cs_id c \<and> cm_user m = 8 \<and> cm_status m = lit ''accepted'')"
proof -
  have "authorize_sfu_room (Some (tables (serve sample_libraries sample_call_requests sample_call_site))) 5 (lit ''r'') (Some 8)
      = Inr Authorized"
    by (simp add: sample_declined authorize_sfu_room_Authorized has_accepted_membership_def sample_call_tables_def empty_database_def)
  moreover have "calls_of (li_platform sample_libraries) {7} sample_call_requests" "(8 :: uuid) \<notin> {7}"
    using sample_calls_served by (simp_all add: sample_libraries_def)
  ultimately have "\<exists>c \<in> set (call_sessions (tables (serve sample_libraries sample_call_requests sample_call_site))).
      cs_room c = lit ''r'' \<and> cs_status c = lit ''active'' \<and> (\<exists>m \<in> set (call_session_members (tables sample_call_site)).
        cm_session m = cs_id c \<and> cm_user m = 8 \<and> cm_status m = lit ''accepted'')"
    by (intro nobody_is_drafted [OF sample_calls_ok])
  moreover have "tables sample_call_site = sample_call_tables" by (simp add: sample_call_site_def)
  ultimately show ?thesis by (auto simp: sample_declined)
qed

end
