(* ===== verification/Admin.thy ===== *)
theory Admin
  imports Auth
begin

text \<open>
  The admin API (\<open>src/admin\<close>): who may use it, roles and their permissions, the accounts of users, and the
  overview of live rooms. An admin may only hand out permissions they hold themselves.
\<close>

section \<open>Authorization\<close>

definition admin_error :: "db_error \<Rightarrow> api_error" where
  "admin_error _ = (INTERNAL_SERVER_ERROR, lit ''Internal server error'')"

definition forbidden :: api_error where
  "forbidden = (FORBIDDEN, lit ''You are not allowed to do this'')"

record admin =
  ad_id :: uuid
  ad_role :: str
  ad_permissions :: "str list"

definition can :: "admin \<Rightarrow> permission \<Rightarrow> bool" where
  "can a p \<longleftrightarrow> key p \<in> set (ad_permissions a)"

definition holds_all :: "admin \<Rightarrow> str list \<Rightarrow> bool" where
  "holds_all a ks \<longleftrightarrow> list_all (\<lambda>k. k \<in> set (ad_permissions a)) ks"

definition admin_authorize ::
  "platform \<Rightarrow> str option \<Rightarrow> permission option \<Rightarrow> ('m site_scheme, api_error, admin) prog" where
  "admin_authorize L header required =
     chain (caller L header) (\<lambda>u.
     chain (map_err admin_error connect) (\<lambda>_.
     chain (map_err (\<lambda>_. (UNAUTHORIZED, lit ''User not found''))
       (first (\<lambda>d. map_option us_role (find (\<lambda>x. us_id x = u) (users d))))) (\<lambda>role.
     chain (map_err admin_error (user_permissions u)) (\<lambda>ks.
     let a = \<lparr>ad_id = u, ad_role = role, ad_permissions = remdups ks\<rparr> in
     if list_all (can a) (AdminAccess # (case required of None \<Rightarrow> [] | Some p \<Rightarrow> [p]))
     then ret a else throw forbidden))))"

definition keys_of_role :: "database \<Rightarrow> str \<Rightarrow> str list" where
  "keys_of_role d role = map snd (filter (\<lambda>rp. fst rp = role) (role_permissions d))"

definition role_permission_keys :: "str \<Rightarrow> ('m site_scheme, db_error, str list) prog" where
  "role_permission_keys role = select (\<lambda>d. order_asc (\<lambda>k. k) (keys_of_role d role))"

record admin_me_response =
  am_id :: uuid
  am_email :: str
  am_name :: str
  am_nickname :: str
  am_role :: str
  am_permissions :: "str list"

definition admin_me :: "platform \<Rightarrow> str option \<Rightarrow> ('m site_scheme, api_error, admin_me_response) prog" where
  "admin_me L header =
     chain (admin_authorize L header None) (\<lambda>a.
     chain (map_err admin_error (first (\<lambda>d. map_option (\<lambda>x. (us_email x, us_name x, us_nickname x))
       (find (\<lambda>x. us_id x = ad_id a) (users d))))) (\<lambda>(email, name, nickname).
     ret \<lparr>am_id = ad_id a, am_email = email, am_name = name, am_nickname = nickname, am_role = ad_role a,
       am_permissions = order_asc (\<lambda>k. k) (ad_permissions a)\<rparr>))"

section \<open>Roles\<close>

definition ADMIN_ROLE :: str where "ADMIN_ROLE = lit ''admin''"

record role_response =
  rr_name :: str
  rr_description :: str
  rr_is_system :: bool
  rr_is_locked :: bool
  rr_permissions :: "str list"
  rr_user_count :: nat
  rr_created :: instant
  rr_updated :: instant

definition role_not_found :: api_error where
  "role_not_found = (NOT_FOUND, lit ''Role not found'')"

definition slug :: "str \<Rightarrow> bool" where
  "slug name \<longleftrightarrow> 2 \<le> byte_len name \<and> byte_len name \<le> 50 \<and>
     (case name of [] \<Rightarrow> False | c # cs \<Rightarrow> is_ascii_lowercase c \<and>
        list_all (\<lambda>c. is_ascii_lowercase c \<or> is_ascii_digit c \<or> c = 95 \<or> c = 45) cs)"

definition validate_role_name :: "(uchar \<Rightarrow> str) \<Rightarrow> str \<Rightarrow> api_error + str" where
  "validate_role_name uni name =
     (let name = to_lowercase uni (trim name) in
      if slug name then Inr name
      else Inl (BAD_REQUEST,
        lit ''Role names are 2 to 50 lowercase letters, numbers, hyphens, or underscores and start with a letter''))"

definition validate_description :: "str \<Rightarrow> api_error + str" where
  "validate_description description =
     (let description = trim description in
      if 255 < length description then Inl (BAD_REQUEST, lit ''Descriptions are at most 255 characters'')
      else Inr description)"

text \<open>A \<open>BTreeSet\<close> of keys is a sorted list without repetitions.\<close>

fun validate_permissions :: "str list \<Rightarrow> api_error + str list" where
  "validate_permissions [] = Inr []"
| "validate_permissions (k # ks) =
     (case from_key k of
        None \<Rightarrow> Inl (BAD_REQUEST, lit ''Unknown permission: '' @ k)
      | Some p \<Rightarrow> and_then (validate_permissions ks) (\<lambda>ks. Inr (insort_insert_key (\<lambda>k. k) (key p) ks)))"

definition load_roles :: "str option \<Rightarrow> ('m site_scheme, api_error, role_response list) prog" where
  "load_roles only =
     chain (map_err admin_error (select (\<lambda>d. order_desc ro_system (order_asc ro_name
       (filter (\<lambda>r. case only of None \<Rightarrow> True | Some name \<Rightarrow> ro_name r = name) (roles d)))))) (\<lambda>rows.
     let names = map ro_name rows in
     chain (map_err admin_error (select (\<lambda>d. order_asc snd
       (filter (\<lambda>rp. fst rp \<in> set names) (role_permissions d))))) (\<lambda>permission_rows.
     chain (map_err admin_error (select (\<lambda>d. map us_role
       (filter (\<lambda>x. us_role x \<in> set names) (users d))))) (\<lambda>user_roles.
     ret (map (\<lambda>r. \<lparr>rr_name = ro_name r, rr_description = ro_description r, rr_is_system = ro_system r,
       rr_is_locked = (ro_name r = ADMIN_ROLE),
       rr_permissions = map snd (filter (\<lambda>rp. fst rp = ro_name r) permission_rows),
       rr_user_count = length (filter (\<lambda>x. x = ro_name r) user_roles),
       rr_created = ro_created r, rr_updated = ro_updated r\<rparr>) rows))))"

definition load_role :: "str \<Rightarrow> ('m site_scheme, api_error, role_response) prog" where
  "load_role name = chain (load_roles (Some name)) (\<lambda>rs.
     result (ok_or role_not_found (if rs = [] then None else Some (last rs))))"

definition list_permissions :: "platform \<Rightarrow> str option \<Rightarrow> ('m site_scheme, api_error, (str \<times> str) list) prog" where
  "list_permissions L header =
     chain (admin_authorize L header None) (\<lambda>_.
     chain (map_err admin_error (select permissions)) (\<lambda>rows.
     ret (List.map_filter (\<lambda>p. map_option (Pair (key p)) (map_of (rev rows) (key p))) all_permissions)))"

definition list_roles :: "platform \<Rightarrow> str option \<Rightarrow> ('m site_scheme, api_error, role_response list) prog" where
  "list_roles L header = chain (admin_authorize L header None) (\<lambda>_. load_roles None)"

text \<open>The statements on \<open>roles\<close> and \<open>role_permissions\<close> under their constraints.\<close>

definition insert_role :: "role_row \<Rightarrow> database \<Rightarrow> db_error + unit \<times> database" where
  "insert_role r d =
     (if 50 < length (ro_name r) \<or> 255 < length (ro_description r) then Inl OtherError
      else if \<not> slug (ro_name r) then Inl CheckViolation
      else if list_ex (\<lambda>x. ro_name x = ro_name r) (roles d) then Inl UniqueViolation
      else Inr ((), d\<lparr>roles := roles d @ [r]\<rparr>))"

definition insert_role_permissions :: "str \<Rightarrow> str list \<Rightarrow> database \<Rightarrow> db_error + unit \<times> database" where
  "insert_role_permissions role ks d =
     (if \<not> distinct ks \<or> list_ex (\<lambda>k. (role, k) \<in> set (role_permissions d)) ks then Inl UniqueViolation
      else if \<not> list_ex (\<lambda>r. ro_name r = role) (roles d) \<or> \<not> list_all (\<lambda>k. k \<in> set (map fst (permissions d))) ks
      then Inl ForeignKeyViolation
      else Inr ((), d\<lparr>role_permissions := role_permissions d @ map (Pair role) ks\<rparr>))"

definition delete_role_row :: "str \<Rightarrow> database \<Rightarrow> db_error + unit \<times> database" where
  "delete_role_row role d =
     (if list_ex (\<lambda>x. us_role x = role) (users d) then Inl ForeignKeyViolation
      else Inr ((), d\<lparr>roles := delete_where (\<lambda>r. ro_name r = role) (roles d),
                    role_permissions := delete_where (\<lambda>rp. fst rp = role) (role_permissions d)\<rparr>))"

definition replace_permissions :: "str \<Rightarrow> str list \<Rightarrow> ('m site_scheme, db_error, unit) prog" where
  "replace_permissions role ks =
     chain (execute (\<lambda>d. d\<lparr>role_permissions := delete_where (\<lambda>rp. fst rp = role) (role_permissions d)\<rparr>)) (\<lambda>_.
     if ks = [] then ret () else statement (insert_role_permissions role ks))"

text \<open>The transactions of \<open>create_role\<close> and \<open>update_role\<close>.\<close>

definition create_role_rows :: "str \<Rightarrow> str \<Rightarrow> str list \<Rightarrow> ('m site_scheme, db_error, unit) prog" where
  "create_role_rows name description ks =
     chain utc_now (\<lambda>now.
     chain (statement (insert_role \<lparr>ro_name = name, ro_description = description, ro_system = False,
       ro_created = now, ro_updated = now\<rparr>)) (\<lambda>_.
     replace_permissions name ks))"

definition update_role_rows ::
  "str \<Rightarrow> str option \<Rightarrow> str list option \<Rightarrow> ('m site_scheme, db_error, unit) prog" where
  "update_role_rows name description ks =
     chain (case description of None \<Rightarrow> ret () | Some t \<Rightarrow>
       execute (\<lambda>d. d\<lparr>roles := update_where (\<lambda>r. ro_name r = name) (\<lambda>r. r\<lparr>ro_description := t\<rparr>) (roles d)\<rparr>)) (\<lambda>_.
     chain (case ks of None \<Rightarrow> ret () | Some ks \<Rightarrow> replace_permissions name ks) (\<lambda>_.
     chain utc_now (\<lambda>now.
     execute (\<lambda>d. d\<lparr>roles := update_where (\<lambda>r. ro_name r = name) (\<lambda>r. r\<lparr>ro_updated := now\<rparr>) (roles d)\<rparr>))))"

definition create_role ::
  "platform \<Rightarrow> str option \<Rightarrow> str \<Rightarrow> str \<Rightarrow> str list \<Rightarrow> ('m site_scheme, api_error, role_response) prog" where
  "create_role L header name description ks =
     chain (admin_authorize L header (Some AdminRolesManage)) (\<lambda>a.
     chain (result (validate_role_name (lower_table L) name)) (\<lambda>name.
     chain (result (validate_description description)) (\<lambda>description.
     chain (result (validate_permissions ks)) (\<lambda>ks.
     chain (guard (holds_all a ks) forbidden) (\<lambda>_.
     chain (map_err (\<lambda>e. if e = UniqueViolation then (CONFLICT, lit ''A role with this name already exists'')
                        else admin_error e)
       (transaction (create_role_rows name description ks))) (\<lambda>_.
     load_role name))))))"

definition ensure_role_exists :: "str \<Rightarrow> ('m site_scheme, api_error, unit) prog" where
  "ensure_role_exists name =
     chain (map_err admin_error (select (\<lambda>d. list_ex (\<lambda>r. ro_name r = name) (roles d)))) (\<lambda>ok.
     guard ok role_not_found)"

text \<open>\<open>Option::transpose\<close> of a validation.\<close>

definition transpose_check :: "('a \<Rightarrow> 'e + 'b) \<Rightarrow> 'a option \<Rightarrow> 'e + 'b option" where
  "transpose_check f x = (case x of None \<Rightarrow> Inr None | Some y \<Rightarrow> and_then (f y) (\<lambda>z. Inr (Some z)))"

definition permission_change_allowed ::
  "admin \<Rightarrow> str \<Rightarrow> str list \<Rightarrow> ('m site_scheme, api_error, unit) prog" where
  "permission_change_allowed a name ks =
     chain (guard (name \<noteq> ADMIN_ROLE) (BAD_REQUEST, lit ''The admin role always has every permission'')) (\<lambda>_.
     chain (guard (name \<noteq> ad_role a) (BAD_REQUEST, lit ''You cannot change the permissions of your own role'')) (\<lambda>_.
     chain (map_err admin_error (role_permission_keys name)) (\<lambda>current.
     guard (holds_all a ks \<and> holds_all a current) forbidden)))"

definition update_role ::
  "platform \<Rightarrow> str option \<Rightarrow> str \<Rightarrow> str option \<Rightarrow> str list option
     \<Rightarrow> ('m site_scheme, api_error, role_response) prog" where
  "update_role L header name description ks =
     chain (admin_authorize L header (Some AdminRolesManage)) (\<lambda>a.
     chain (ensure_role_exists name) (\<lambda>_.
     chain (result (transpose_check validate_description description)) (\<lambda>description.
     chain (result (transpose_check validate_permissions ks)) (\<lambda>ks.
     chain (case ks of None \<Rightarrow> ret () | Some ks \<Rightarrow> permission_change_allowed a name ks) (\<lambda>_.
     chain (map_err admin_error (transaction (update_role_rows name description ks))) (\<lambda>_.
     load_role name))))))"

definition delete_role :: "platform \<Rightarrow> str option \<Rightarrow> str \<Rightarrow> ('m site_scheme, api_error, unit) prog" where
  "delete_role L header name =
     chain (admin_authorize L header (Some AdminRolesManage)) (\<lambda>a.
     chain (map_err admin_error (optional (first (\<lambda>d. map_option ro_system
       (find (\<lambda>r. ro_name r = name) (roles d)))))) (\<lambda>row.
     chain (result (ok_or role_not_found row)) (\<lambda>is_system.
     chain (guard (\<not> is_system) (BAD_REQUEST, lit ''System roles cannot be deleted'')) (\<lambda>_.
     chain (map_err admin_error (role_permission_keys name)) (\<lambda>current.
     chain (guard (holds_all a current) forbidden) (\<lambda>_.
     chain (map_err admin_error (select (\<lambda>d. length (filter (\<lambda>x. us_role x = name) (users d))))) (\<lambda>assigned.
     chain (guard (assigned = 0) (CONFLICT,
       lit ''Move the '' @ show_nat assigned @ lit '' users with this role to another role first'')) (\<lambda>_.
     map_err (\<lambda>e. if e = ForeignKeyViolation then (CONFLICT, lit ''Users still have this role'') else admin_error e)
       (statement (delete_role_row name))))))))))"

end
