(* ===== verification/AdminPanel.thy ===== *)
theory AdminPanel
  imports Admin Search Presence
begin

text \<open>
  The rest of the admin API: the list of users and their roles (\<open>src/admin/accounts.rs\<close>), the live rooms as
  the recorder sees them (\<open>src/admin/rooms.rs\<close>) and the numbers of the overview (\<open>src/admin/overview.rs\<close>).
\<close>

section \<open>Users\<close>

record admin_user =
  au_id :: uuid
  au_email :: str
  au_name :: str
  au_nickname :: str
  au_role :: str
  au_status :: str
  au_created :: instant
  au_last_seen :: "instant option"

definition admin_user_of :: "database \<Rightarrow> user_row \<Rightarrow> admin_user" where
  "admin_user_of d x = \<lparr>au_id = us_id x, au_email = us_email x, au_name = us_name x, au_nickname = us_nickname x,
     au_role = us_role x, au_status = us_status x, au_created = us_created x,
     au_last_seen = map_of (user_presence d) (us_id x)\<rparr>"

record users_page =
  up_users :: "admin_user list"
  up_total :: nat
  up_page :: "64 word"
  up_page_size :: "64 word"

definition DEFAULT_PAGE_SIZE :: "64 word" where "DEFAULT_PAGE_SIZE = 25"
definition MAX_PAGE_SIZE :: "64 word" where "MAX_PAGE_SIZE = 100"

text \<open>\<open>i64::max\<close> and \<open>i64::clamp\<close> on signed words.\<close>

definition clamp64 :: "64 word \<Rightarrow> 64 word \<Rightarrow> 64 word \<Rightarrow> 64 word" where
  "clamp64 low high x = (if sint x < sint low then low else if sint high < sint x then high else x)"

definition max64 :: "64 word \<Rightarrow> 64 word \<Rightarrow> 64 word" where
  "max64 x y = (if sint x \<le> sint y then y else x)"

text \<open>\<open>(page - 1) * page_size\<close> in a release build, where overflow wraps around.\<close>

definition page_start :: "64 word \<Rightarrow> 64 word \<Rightarrow> 64 word" where
  "page_start page page_size = (page - 1) * page_size"

text \<open>\<open>LIMIT\<close> and \<open>OFFSET\<close>; a negative offset is an error of the statement.\<close>

definition limit_offset :: "64 word \<Rightarrow> 64 word \<Rightarrow> 'a list \<Rightarrow> db_error + 'a list" where
  "limit_offset limit offset rows =
     (if sint limit < 0 \<or> sint offset < 0 then Inl OtherError
      else Inr (take (nat (sint limit)) (drop (nat (sint offset)) rows)))"

definition matches_users_query :: "(uchar \<Rightarrow> uchar) \<Rightarrow> str option \<Rightarrow> str option \<Rightarrow> user_row \<Rightarrow> bool" where
  "matches_users_query cf pattern role x \<longleftrightarrow>
     (case pattern of None \<Rightarrow> True
      | Some p \<Rightarrow> like cf p (us_email x) \<or> like cf p (us_name x) \<or> like cf p (us_nickname x)) \<and>
     (case role of None \<Rightarrow> True | Some r \<Rightarrow> us_role x = r)"

definition search_pattern :: "str option \<Rightarrow> str option" where
  "search_pattern search = (case search of None \<Rightarrow> None | Some s \<Rightarrow>
     (let s = trim s in if s = [] then None else Some ([37] @ escape_like (take 100 s) @ [37])))"

definition list_users ::
  "platform \<Rightarrow> (uchar \<Rightarrow> uchar) \<Rightarrow> str option \<Rightarrow> str option \<Rightarrow> str option \<Rightarrow> 64 word option \<Rightarrow> 64 word option
     \<Rightarrow> ('m site_scheme, api_error, users_page) prog" where
  "list_users L cf header search role page page_size =
     chain (admin_authorize L header None) (\<lambda>_.
     let page = max64 (case page of None \<Rightarrow> 1 | Some p \<Rightarrow> p) 1;
         page_size = clamp64 1 MAX_PAGE_SIZE (case page_size of None \<Rightarrow> DEFAULT_PAGE_SIZE | Some k \<Rightarrow> k);
         pattern = search_pattern search;
         role = (case role of Some r \<Rightarrow> if r = [] then None else Some r | None \<Rightarrow> None) in
     chain (map_err admin_error (select (\<lambda>d. length (filter (matches_users_query cf pattern role) (users d))))) (\<lambda>total.
     chain (map_err admin_error (statement (\<lambda>d.
       map_sum (\<lambda>e. e) (\<lambda>rows. (map (admin_user_of d) rows, d))
         (limit_offset page_size (page_start page page_size)
           (order_desc us_created (order_asc us_id (filter (matches_users_query cf pattern role) (users d)))))))) (\<lambda>rows.
     ret \<lparr>up_users = rows, up_total = total, up_page = page, up_page_size = page_size\<rparr>)))"

definition end_sessions :: "uuid \<Rightarrow> ('m site_scheme, api_error, unit) prog" where
  "end_sessions u = map_err admin_error
     (execute (\<lambda>d. d\<lparr>refresh_tokens := delete_where (\<lambda>t. rt_user t = u) (refresh_tokens d)\<rparr>))"

definition load_user :: "uuid \<Rightarrow> ('m site_scheme, api_error, admin_user) prog" where
  "load_user u = map_err admin_error
     (first (\<lambda>d. map_option (admin_user_of d) (find (\<lambda>x. us_id x = u) (users d))))"

text \<open>\<open>UPDATE users SET role\<close>; the role must exist.\<close>

definition set_user_role :: "uuid \<Rightarrow> str \<Rightarrow> database \<Rightarrow> db_error + unit \<times> database" where
  "set_user_role u role d =
     (if list_ex (\<lambda>x. us_id x = u) (users d) \<and> \<not> list_ex (\<lambda>r. ro_name r = role) (roles d) then Inl ForeignKeyViolation
      else Inr ((), d\<lparr>users := update_where (\<lambda>x. us_id x = u) (\<lambda>x. x\<lparr>us_role := role\<rparr>) (users d)\<rparr>))"

definition update_user ::
  "platform \<Rightarrow> str option \<Rightarrow> uuid \<Rightarrow> str \<Rightarrow> ('m site_scheme, api_error, admin_user) prog" where
  "update_user L header u role =
     chain (admin_authorize L header (Some AdminUsersManage)) (\<lambda>a.
     chain (guard (ad_id a \<noteq> u) (BAD_REQUEST, lit ''You cannot change your own role'')) (\<lambda>_.
     chain (map_err admin_error (optional (first (\<lambda>d. map_option us_role (find (\<lambda>x. us_id x = u) (users d)))))) (\<lambda>row.
     chain (result (ok_or (NOT_FOUND, lit ''User not found'') row)) (\<lambda>current_role.
     chain (map_err admin_error (select (\<lambda>d. list_ex (\<lambda>r. ro_name r = role) (roles d)))) (\<lambda>role_exists.
     chain (guard role_exists (BAD_REQUEST, lit ''Role does not exist'')) (\<lambda>_.
     chain (map_err admin_error (role_permission_keys current_role)) (\<lambda>current.
     chain (map_err admin_error (role_permission_keys role)) (\<lambda>new.
     chain (guard (holds_all a current \<and> holds_all a new) forbidden) (\<lambda>_.
     chain (map_err admin_error (statement (set_user_role u role))) (\<lambda>_.
     chain (if key AppLogin \<in> set new then ret () else end_sessions u) (\<lambda>_.
     load_user u)))))))))))"

section \<open>Live rooms\<close>

datatype room_kind = Meeting | Call | Instant

record user_summary =
  sm_id :: uuid
  sm_name :: str
  sm_nickname :: str

record live_participant =
  lp_participant :: str
  lp_name :: str
  lp_user :: "user_summary option"
  lp_joined :: instant

record live_room =
  lr_room :: str
  lr_session :: uuid
  lr_started :: instant
  lr_kind :: room_kind
  lr_policy :: "str option"
  lr_owner :: "user_summary option"
  lr_participants :: "live_participant list"

definition user_summary_of :: "user_row \<Rightarrow> user_summary" where
  "user_summary_of x = \<lparr>sm_id = us_id x, sm_name = us_name x, sm_nickname = us_nickname x\<rparr>"

definition find_user :: "database \<Rightarrow> uuid \<Rightarrow> user_row option" where
  "find_user d u = find (\<lambda>x. us_id x = u) (users d)"

definition list_live_rooms :: "platform \<Rightarrow> str option \<Rightarrow> ('m site_scheme, api_error, live_room list) prog" where
  "list_live_rooms L header =
     chain (admin_authorize L header None) (\<lambda>_.
     chain (map_err admin_error (select (\<lambda>d. order_desc ms_started
       (filter (\<lambda>s. ms_ended s = None) (meeting_sessions d))))) (\<lambda>sessions.
     let session_ids = map ms_id sessions; room_ids = map ms_room sessions in
     chain (map_err admin_error (select (\<lambda>d. map (\<lambda>p. (mp_session p, \<lparr>lp_participant = mp_participant p,
         lp_name = mp_name p, lp_user = Option.bind (mp_user p) (\<lambda>u. map_option user_summary_of (find_user d u)),
         lp_joined = mp_joined p\<rparr>))
       (order_asc mp_joined (filter (\<lambda>p. mp_session p \<in> set session_ids \<and> mp_left p = None)
         (meeting_participants d)))))) (\<lambda>participants.
     chain (map_err admin_error (select (\<lambda>d. List.map_filter (\<lambda>r. map_option (\<lambda>x. (mr_room_id r, (mr_access_policy r,
         user_summary_of x))) (find_user d (mr_owner_id r)))
       (filter (\<lambda>r. mr_room_id r \<in> set room_ids) (meeting_rooms d))))) (\<lambda>meetings.
     chain (map_err admin_error (select (\<lambda>d. map cs_room (filter (\<lambda>c. cs_room c \<in> set room_ids) (call_sessions d))))) (\<lambda>call_rooms.
     ret (map (\<lambda>s. let meeting = map_of (rev meetings) (ms_room s) in
       \<lparr>lr_room = ms_room s, lr_session = ms_id s, lr_started = ms_started s,
        lr_kind = (if meeting \<noteq> None then Meeting else if ms_room s \<in> set call_rooms then Call else Instant),
        lr_policy = map_option fst meeting, lr_owner = map_option snd meeting,
        lr_participants = map snd (filter (\<lambda>p. fst p = ms_id s) participants)\<rparr>) sessions))))))"

section \<open>The overview\<close>

record overview =
  ov_users_total :: nat
  ov_users_new_last_7_days :: nat
  ov_users_online :: nat
  ov_live_rooms :: nat
  ov_live_participants :: nat
  ov_meetings_last_24_hours :: nat
  ov_messages_last_24_hours :: nat
  ov_users_by_role :: "(str \<times> nat) list"

definition count_rows :: "(database \<Rightarrow> 'r list) \<Rightarrow> ('r \<Rightarrow> bool) \<Rightarrow> ('m site_scheme, api_error, nat) prog" where
  "count_rows rows P = map_err admin_error (select (\<lambda>d. length (filter P (rows d))))"

definition roles_in_use :: "database \<Rightarrow> (str \<times> nat) list" where
  "roles_in_use d = map (\<lambda>r. (r, length (filter (\<lambda>x. us_role x = r) (users d))))
     (order_asc (\<lambda>r. r) (remdups (map us_role (users d))))"

definition get_overview :: "platform \<Rightarrow> str option \<Rightarrow> ('m site_scheme, api_error, overview) prog" where
  "get_overview L header =
     chain (admin_authorize L header None) (\<lambda>_.
     chain utc_now (\<lambda>now.
     chain (count_rows users (\<lambda>_. True)) (\<lambda>users_total.
     chain (count_rows users (\<lambda>x. now < us_created x + seconds (7 * 24 * 60 * 60))) (\<lambda>users_new.
     chain (count_rows user_presence (\<lambda>p. now < snd p + seconds ONLINE_WINDOW_SECONDS)) (\<lambda>online.
     chain (count_rows meeting_sessions (\<lambda>s. ms_ended s = None)) (\<lambda>live_rooms.
     chain (map_err admin_error (select (\<lambda>d. length (filter (\<lambda>p. mp_left p = None \<and>
       list_ex (\<lambda>s. ms_id s = mp_session p \<and> ms_ended s = None) (meeting_sessions d)) (meeting_participants d))))) (\<lambda>live_people.
     chain (count_rows meeting_sessions (\<lambda>s. now < ms_started s + seconds (24 * 60 * 60))) (\<lambda>meetings.
     chain (count_rows conversation_messages (\<lambda>m. now < mg_created m + seconds (24 * 60 * 60))) (\<lambda>messages.
     chain (map_err admin_error (select roles_in_use)) (\<lambda>by_role.
     ret \<lparr>ov_users_total = users_total, ov_users_new_last_7_days = users_new, ov_users_online = online,
       ov_live_rooms = live_rooms, ov_live_participants = live_people, ov_meetings_last_24_hours = meetings,
       ov_messages_last_24_hours = messages, ov_users_by_role = by_role\<rparr>))))))))))"

end
