(* ===== verification/Accounts.thy ===== *)
theory Accounts
  imports AdminPanel
begin

text \<open>
  What the tables of accounts look like at every moment: emails, nicknames and refresh tokens are unique,
  every user has a role that exists, roles only name permissions of the catalog, and the role \<open>admin\<close> holds
  all of them. Every statement of the account and admin handlers keeps this, also when other requests, which
  keep it too, come in between.
\<close>

section \<open>Well-formed accounts\<close>

definition users_ok :: "database \<Rightarrow> bool" where
  "users_ok d \<longleftrightarrow> distinct (map us_id (users d)) \<and> distinct (map us_email (users d)) \<and>
     distinct (map us_nickname (users d)) \<and>
     (\<forall>x \<in> set (users d). valid_nickname (us_nickname x) \<and> us_role x \<in> ro_name ` set (roles d))"

definition roles_ok :: "database \<Rightarrow> bool" where
  "roles_ok d \<longleftrightarrow> distinct (map ro_name (roles d)) \<and> distinct (role_permissions d) \<and>
     (\<forall>(r, k) \<in> set (role_permissions d). r \<in> ro_name ` set (roles d) \<and> k \<in> fst ` set (permissions d))"

definition tokens_ok :: "database \<Rightarrow> bool" where
  "tokens_ok d \<longleftrightarrow> distinct (map rt_id (refresh_tokens d)) \<and> distinct (map rt_hash (refresh_tokens d)) \<and>
     (\<forall>t \<in> set (refresh_tokens d). rt_user t \<in> us_id ` set (users d))"

definition BUILT_IN :: "str set" where
  "BUILT_IN = {lit ''admin'', lit ''user'', lit ''suspended''}"

definition catalog_ok :: "database \<Rightarrow> bool" where
  "catalog_ok d \<longleftrightarrow> fst ` set (permissions d) = range key \<and>
     (\<forall>name \<in> BUILT_IN. \<exists>r \<in> set (roles d). ro_name r = name \<and> ro_system r) \<and>
     (\<forall>p. (ADMIN_ROLE, key p) \<in> set (role_permissions d))"

definition accounts_ok :: "'m site_scheme \<Rightarrow> bool" where
  "accounts_ok s \<longleftrightarrow> users_ok (tables s) \<and> roles_ok (tables s) \<and> tokens_ok (tables s) \<and> catalog_ok (tables s)"

lemma accounts_okI:
  "users_ok d \<Longrightarrow> roles_ok d \<Longrightarrow> tokens_ok d \<Longrightarrow> catalog_ok d \<Longrightarrow> accounts_ok (s\<lparr>tables := d\<rparr>)"
  by (simp add: accounts_ok_def)

lemma accounts_okD:
  assumes "accounts_ok s"
  shows "users_ok (tables s)" "roles_ok (tables s)" "tokens_ok (tables s)" "catalog_ok (tables s)"
  using assms by (simp_all add: accounts_ok_def)

lemma catalog_okD:
  assumes "catalog_ok d"
  shows "fst ` set (permissions d) = range key" "(ADMIN_ROLE, key p) \<in> set (role_permissions d)"
    and "name \<in> BUILT_IN \<Longrightarrow> \<exists>r \<in> set (roles d). ro_name r = name \<and> ro_system r"
  using assms by (simp_all add: catalog_ok_def)

lemma roles_okD:
  assumes "roles_ok d"
  shows "distinct (map ro_name (roles d))" "distinct (role_permissions d)"
    and "(r, k) \<in> set (role_permissions d) \<Longrightarrow> r \<in> ro_name ` set (roles d)"
    and "(r, k) \<in> set (role_permissions d) \<Longrightarrow> k \<in> fst ` set (permissions d)"
  using assms by (auto simp: roles_ok_def)

lemma map_update_where: "(\<And>x. g (f x) = g x) \<Longrightarrow> map g (update_where P f xs) = map g xs"
  by (induction xs) (auto simp: update_where_def)

lemma image_update_where: "(\<And>x. g (f x) = g x) \<Longrightarrow> g ` set (update_where P f xs) = g ` set xs"
  using map_update_where [of g f P xs] by (metis list.set_map)

lemma distinct_map_delete_where: "distinct (map g xs) \<Longrightarrow> distinct (map g (delete_where P xs))"
  by (simp add: delete_where_def distinct_map inj_on_def)

lemma built_in_role: "catalog_ok d \<Longrightarrow> roles_ok d \<Longrightarrow> find (\<lambda>r. ro_name r = name) (roles d) = Some r \<Longrightarrow>
    name \<in> BUILT_IN \<Longrightarrow> ro_system r"
  unfolding catalog_ok_def roles_ok_def
  by (metis (mono_tags, lifting) distinct_map find_Some_set inj_onD)

lemma ADMIN_BUILT_IN: "ADMIN_ROLE \<in> BUILT_IN"
  by (simp add: ADMIN_ROLE_def BUILT_IN_def)

section \<open>Each statement keeps the accounts well formed\<close>

lemma accounts_insert_user:
  assumes ok: "accounts_ok s" and ins: "insert_user x (tables s) = Inr (y, d)"
  shows "accounts_ok (s\<lparr>tables := d\<rparr>)"
proof -
  have d: "d = (tables s)\<lparr>users := users (tables s) @ [x]\<rparr>"
    and new: "\<forall>y \<in> set (users (tables s)). us_id y \<noteq> us_id x \<and> us_email y \<noteq> us_email x \<and> us_nickname y \<noteq> us_nickname x"
    and nick: "valid_nickname (us_nickname x)"
    using ins by (auto simp: insert_user_def list_ex_iff split: if_splits)
  have role: "us_role x \<in> ro_name ` set (roles (tables s))"
    using ins by (force simp: insert_user_def list_ex_iff split: if_splits)
  note D = accounts_okD [OF ok]
  have "users_ok d" using D(1) new nick role unfolding users_ok_def d by auto
  moreover have "roles_ok d" "catalog_ok d" using D(2,4) by (simp_all add: roles_ok_def catalog_ok_def d)
  moreover have "tokens_ok d" using D(3) by (auto simp: tokens_ok_def d)
  ultimately show ?thesis by (intro accounts_okI)
qed

lemma accounts_tokens:
  assumes ok: "accounts_ok s" and t: "tokens_ok ((tables s)\<lparr>refresh_tokens := ts\<rparr>)"
  shows "accounts_ok (s\<lparr>tables := (tables s)\<lparr>refresh_tokens := ts\<rparr>\<rparr>)"
  using accounts_okD [OF ok] t by (intro accounts_okI) (simp_all add: users_ok_def roles_ok_def catalog_ok_def)

lemma accounts_insert_refresh_token:
  assumes ok: "accounts_ok s" and ins: "insert_refresh_token x (tables s) = Inr (y, d)"
  shows "accounts_ok (s\<lparr>tables := d\<rparr>)"
proof -
  have d: "d = (tables s)\<lparr>refresh_tokens := refresh_tokens (tables s) @ [x]\<rparr>"
    and new: "\<forall>y \<in> set (refresh_tokens (tables s)). rt_id y \<noteq> rt_id x \<and> rt_hash y \<noteq> rt_hash x"
    using ins by (auto simp: insert_refresh_token_def list_ex_iff split: if_splits)
  have user: "rt_user x \<in> us_id ` set (users (tables s))"
    using ins by (force simp: insert_refresh_token_def list_ex_iff split: if_splits)
  have "tokens_ok d" using accounts_okD(3) [OF ok] new user unfolding tokens_ok_def d by auto
  then show ?thesis unfolding d by (rule accounts_tokens [OF ok])
qed

lemma accounts_delete_tokens:
  assumes ok: "accounts_ok s"
  shows "accounts_ok (s\<lparr>tables := (tables s)\<lparr>refresh_tokens := delete_where P (refresh_tokens (tables s))\<rparr>\<rparr>)"
proof (rule accounts_tokens [OF ok])
  show "tokens_ok ((tables s)\<lparr>refresh_tokens := delete_where P (refresh_tokens (tables s))\<rparr>)"
    using accounts_okD(3) [OF ok] unfolding tokens_ok_def by (auto intro: distinct_map_delete_where)
qed

lemma accounts_set_user_role:
  assumes ok: "accounts_ok s" and up: "set_user_role u role (tables s) = Inr (y, d)"
  shows "accounts_ok (s\<lparr>tables := d\<rparr>)"
proof -
  let ?us = "update_where (\<lambda>x. us_id x = u) (\<lambda>x. x\<lparr>us_role := role\<rparr>) (users (tables s))"
  have d: "d = (tables s)\<lparr>users := ?us\<rparr>"
    using up by (auto simp: set_user_role_def split: if_splits)
  have role: "role \<in> ro_name ` set (roles (tables s))" if "x \<in> set (users (tables s))" "us_id x = u" for x
    using up that by (force simp: set_user_role_def list_ex_iff split: if_splits)
  note D = accounts_okD [OF ok]
  have maps: "map us_id ?us = map us_id (users (tables s))" "map us_email ?us = map us_email (users (tables s))"
    "map us_nickname ?us = map us_nickname (users (tables s))"
    by (simp_all add: map_update_where)
  have "users_ok d"
    using D(1) role unfolding users_ok_def d by (auto simp: maps set_update_where)
  moreover have "roles_ok d" "catalog_ok d" using D(2,4) by (simp_all add: roles_ok_def catalog_ok_def d)
  moreover have "tokens_ok d"
    using D(3) by (simp add: tokens_ok_def d image_update_where)
  ultimately show ?thesis by (intro accounts_okI)
qed

lemma accounts_update_roles:
  assumes ok: "accounts_ok s" and f: "\<And>r. ro_name (f r) = ro_name r" "\<And>r. ro_system (f r) = ro_system r"
  shows "accounts_ok (s\<lparr>tables := (tables s)\<lparr>roles := update_where P f (roles (tables s))\<rparr>\<rparr>)"
proof -
  let ?rs = "update_where P f (roles (tables s))"
  note D = accounts_okD [OF ok]
  have names: "map ro_name ?rs = map ro_name (roles (tables s))" "ro_name ` set ?rs = ro_name ` set (roles (tables s))"
    by (simp_all add: map_update_where image_update_where f)
  have "\<exists>r \<in> set ?rs. ro_name r = name \<and> ro_system r" if b: "name \<in> BUILT_IN" for name
  proof -
    obtain r where r: "r \<in> set (roles (tables s))" "ro_name r = name" "ro_system r"
      using catalog_okD(3) [OF D(4) b] by blast
    then have "(if P r then f r else r) \<in> set ?rs" by (auto simp: set_update_where)
    then show ?thesis using r f by (rule_tac x = "if P r then f r else r" in bexI) simp_all
  qed
  then show ?thesis
    using D by (intro accounts_okI)
      (simp_all add: users_ok_def roles_ok_def tokens_ok_def catalog_ok_def names)
qed

lemma accounts_delete_permissions:
  assumes ok: "accounts_ok s" and "name \<noteq> ADMIN_ROLE"
  shows "accounts_ok (s\<lparr>tables := (tables s)\<lparr>role_permissions := delete_where (\<lambda>rp. fst rp = name)
    (role_permissions (tables s))\<rparr>\<rparr>)"
  using accounts_okD [OF ok] assms(2)
  by (intro accounts_okI) (auto simp: users_ok_def roles_ok_def tokens_ok_def catalog_ok_def delete_where_def)

lemma accounts_insert_permissions:
  assumes ok: "accounts_ok s" and ins: "insert_role_permissions role ks (tables s) = Inr (y, d)"
  shows "accounts_ok (s\<lparr>tables := d\<rparr>)"
proof -
  have d: "d = (tables s)\<lparr>role_permissions := role_permissions (tables s) @ map (Pair role) ks\<rparr>"
    and new: "distinct ks" "\<forall>k \<in> set ks. (role, k) \<notin> set (role_permissions (tables s))"
    and fk: "role \<in> ro_name ` set (roles (tables s))" "\<forall>k \<in> set ks. k \<in> fst ` set (permissions (tables s))"
    using ins by (auto simp: insert_role_permissions_def list_ex_iff list_all_iff split: if_splits)
  note D = accounts_okD [OF ok]
  have "roles_ok d"
    using D(2) new fk unfolding roles_ok_def d by (auto simp: distinct_map inj_on_def)
  moreover have "users_ok d" "tokens_ok d" using D(1,3) by (simp_all add: users_ok_def tokens_ok_def d)
  moreover have "catalog_ok d" using D(4) by (auto simp: catalog_ok_def d)
  ultimately show ?thesis by (intro accounts_okI)
qed

lemma accounts_insert_role:
  assumes ok: "accounts_ok s" and ins: "insert_role r (tables s) = Inr (y, d)"
  shows "accounts_ok (s\<lparr>tables := d\<rparr>)" and "ro_name r \<noteq> ADMIN_ROLE"
proof -
  have d: "d = (tables s)\<lparr>roles := roles (tables s) @ [r]\<rparr>" and new: "ro_name r \<notin> ro_name ` set (roles (tables s))"
    using ins by (auto simp: insert_role_def list_ex_iff split: if_splits)
  note D = accounts_okD [OF ok]
  have "ADMIN_ROLE \<in> ro_name ` set (roles (tables s))"
    using D(4) ADMIN_BUILT_IN by (force simp: catalog_ok_def)
  then show "ro_name r \<noteq> ADMIN_ROLE" using new by metis
  show "accounts_ok (s\<lparr>tables := d\<rparr>)"
    using D new by (intro accounts_okI)
      (auto simp: d users_ok_def roles_ok_def tokens_ok_def catalog_ok_def)
qed

lemma accounts_delete_role:
  assumes ok: "accounts_ok s" and del: "delete_role_row name (tables s) = Inr (y, d)" and no: "name \<notin> BUILT_IN"
  shows "accounts_ok (s\<lparr>tables := d\<rparr>)"
proof -
  have d: "d = (tables s)\<lparr>roles := delete_where (\<lambda>r. ro_name r = name) (roles (tables s)),
      role_permissions := delete_where (\<lambda>rp. fst rp = name) (role_permissions (tables s))\<rparr>"
    and unused: "\<forall>x \<in> set (users (tables s)). us_role x \<noteq> name"
    using del by (auto simp: delete_role_row_def list_ex_iff split: if_splits)
  note D = accounts_okD [OF ok]
  have "users_ok d"
    using D(1) unused unfolding users_ok_def d by (auto simp: image_iff)
  moreover have "distinct (map ro_name (roles d))" "distinct (role_permissions d)"
    using D(2) by (auto simp: d roles_ok_def delete_where_def intro: distinct_map_delete_where [unfolded delete_where_def])
  moreover have "r \<in> ro_name ` set (roles d) \<and> k \<in> fst ` set (permissions d)" if "(r, k) \<in> set (role_permissions d)" for r k
  proof -
    have rk: "(r, k) \<in> set (role_permissions (tables s))" "r \<noteq> name" using that by (simp_all add: d)
    have "r \<in> ro_name ` set (roles d)"
      using roles_okD(3) [OF D(2) rk(1)] rk(2) by (force simp: d)
    then show ?thesis using roles_okD(4) [OF D(2) rk(1)] by (simp add: d)
  qed
  moreover have "tokens_ok d" using D(3) by (simp add: tokens_ok_def d)
  moreover have "catalog_ok d"
    using D(4) no ADMIN_BUILT_IN unfolding catalog_ok_def d by auto
  ultimately show ?thesis by (intro accounts_okI) (auto simp: roles_ok_def)
qed

section \<open>Every handler keeps the accounts well formed\<close>

text \<open>A step whose outcome says something, and the rest of the handler under what it says.\<close>

definition may_return :: "'s world \<Rightarrow> ('s \<Rightarrow> bool) \<Rightarrow> ('s, 'e, 'a) prog \<Rightarrow> 'a \<Rightarrow> bool" where
  "may_return w P m x \<longleftrightarrow> (\<exists>n s n' s'. P s \<and> m w n s = (Inr x, n', s'))"

lemma keeps_chain_fact:
  assumes "keeps w P m" and "\<And>x. may_return w P m x \<Longrightarrow> keeps w P (k x)"
  shows "keeps w P (chain m k)"
proof (rule keepsI)
  fix n s assume p: "P s"
  obtain r n' s' where m: "m w n s = (r, n', s')" by (metis prod_cases3)
  have p': "P s'" using keepsD [OF assms(1) p, of n] m by simp
  show "P (snd (snd (chain m k w n s)))"
  proof (cases r)
    case (Inl e) then show ?thesis using m p' by (simp add: chain_def)
  next
    case (Inr x)
    then have "may_return w P m x" using m p unfolding may_return_def by blast
    from keepsD [OF assms(2) [OF this] p'] show ?thesis using m Inr by (simp add: chain_def)
  qed
qed

lemma may_return_guard: "may_return w P (guard c e) x \<Longrightarrow> c"
  by (auto simp: may_return_def guard_def split: if_splits)

lemma may_return_result: "may_return w P (result r) x \<Longrightarrow> r = Inr x"
  by (auto simp: may_return_def result_def)

lemma may_return_chain:
  assumes "may_return w P (chain m k) y" and keep: "keeps w P m"
  shows "\<exists>x. may_return w P m x \<and> may_return w P (k x) y"
proof -
  obtain n s n' s' where run: "P s" "chain m k w n s = (Inr y, n', s')" using assms(1) by (auto simp: may_return_def)
  obtain r n1 s1 where m: "m w n s = (r, n1, s1)" by (metis prod_cases3)
  then obtain x where x: "r = Inr x" "k x w n1 s1 = (Inr y, n', s')" using run by (cases r) (simp_all add: chain_def)
  have "P s1" using keepsD [OF keep run(1), of n] m by simp
  then show ?thesis using m x run(1) unfolding may_return_def by blast
qed

lemma may_return_map_err:
  assumes "may_return w P (map_err f m) x" shows "may_return w P m x"
proof -
  obtain n s n' s' where run: "P s" "map_err f m w n s = (Inr x, n', s')" using assms by (auto simp: may_return_def)
  obtain r n1 s1 where m: "m w n s = (r, n1, s1)" by (metis prod_cases3)
  then have "r = Inr x" using run by (cases r) (simp_all add: map_err_def)
  then show ?thesis using m run(1) unfolding may_return_def by blast
qed

lemma may_return_statement:
  assumes "may_return w P (statement q) x" and "steady w P"
  shows "\<exists>s d. P s \<and> q (tables s) = Inr (x, d)"
proof -
  obtain n s n' s' where run: "P s" "statement q w n s = (Inr x, n', s')" using assms(1) by (auto simp: may_return_def)
  then have "P (meanwhile w n s)" using assms(2) by (simp add: steady_def)
  moreover have "\<exists>d. q (tables (meanwhile w n s)) = Inr (x, d)"
    using run(2) by (auto simp: statement_def Let_def split: if_splits sum.splits)
  ultimately show ?thesis by blast
qed

lemma may_return_optional_first:
  assumes "may_return w P (optional (first q)) x" and "steady w P"
  shows "\<exists>s. P s \<and> q (tables s) = x"
proof -
  obtain n s n' s' where run: "P s" "optional (first q) w n s = (Inr x, n', s')" using assms(1) by (auto simp: may_return_def)
  then have "P (meanwhile w n s)" using assms(2) by (simp add: steady_def)
  moreover have "q (tables (meanwhile w n s)) = x"
    using run(2) by (auto simp: optional_def first_def statement_def Let_def split: if_splits option.splits)
  ultimately show ?thesis by blast
qed

abbreviation steady_accounts :: "'m site_scheme world \<Rightarrow> bool" where
  "steady_accounts w \<equiv> steady w accounts_ok"

lemma accounts_published [simp]: "accounts_ok (s\<lparr>published := p\<rparr>) = accounts_ok s"
  by (simp add: accounts_ok_def)

lemma keeps_admin_authorize [keeping]: "steady w P \<Longrightarrow> keeps w P (admin_authorize L header p)"
  unfolding admin_authorize_def Let_def by (intro keeping)

lemma keeps_load_roles [keeping]: "steady w P \<Longrightarrow> keeps w P (load_roles only)"
  unfolding load_roles_def Let_def by (intro keeping)

lemma keeps_load_role [keeping]: "steady w P \<Longrightarrow> keeps w P (load_role name)"
  unfolding load_role_def by (intro keeping)

lemma keeps_delete_tokens [keeping]:
  "steady_accounts w \<Longrightarrow>
     keeps w accounts_ok (execute (\<lambda>d. d\<lparr>refresh_tokens := delete_where (Q d) (refresh_tokens d)\<rparr>))"
  by (rule keeps_execute) (auto intro: accounts_delete_tokens)

lemma keeps_create_tokens [keeping]: "steady_accounts w \<Longrightarrow> keeps w accounts_ok (create_tokens L x)"
  unfolding create_tokens_def Let_def
  by (intro keeping keeps_statement) (auto dest: accounts_insert_refresh_token)

lemma keeps_auth:
  assumes "steady_accounts w"
  shows "keeps w accounts_ok (register L email name nick password)"
    and "keeps w accounts_ok (login L email password)"
    and "keeps w accounts_ok (refresh_session L token)"
    and "keeps w accounts_ok (logout L token)"
    and "keeps w accounts_ok (auth_me L header)"
proof -
  note st = assms
  show "keeps w accounts_ok (register L email name nick password)"
    unfolding register_def by (intro keeping keeps_statement st) (auto dest: accounts_insert_user)
  show "keeps w accounts_ok (login L email password)"
    unfolding login_def by (intro keeping st)
  show "keeps w accounts_ok (refresh_session L token)"
    unfolding refresh_session_def Let_def by (intro keeping st)
  show "keeps w accounts_ok (logout L token)"
    unfolding logout_def Let_def by (intro keeping st)
  show "keeps w accounts_ok (auth_me L header)"
    unfolding auth_me_def by (intro keeping st)
qed

lemma keeps_replace_permissions:
  assumes st: "steady_accounts w" and "name \<noteq> ADMIN_ROLE"
  shows "keeps w accounts_ok (replace_permissions name ks)"
  unfolding replace_permissions_def
  by (intro keeping keeps_statement keeps_execute st) (use assms(2) in \<open>auto intro: accounts_delete_permissions dest: accounts_insert_permissions\<close>)

lemma keeps_create_role_rows:
  assumes st: "steady_accounts w"
  shows "keeps w accounts_ok (create_role_rows name description ks)"
proof -
  have "keeps w accounts_ok (chain (statement (insert_role r)) (\<lambda>_. replace_permissions (ro_name r) ks))" for r
  proof (rule keeps_chain_fact)
    show "keeps w accounts_ok (statement (insert_role r))"
      by (rule keeps_statement [OF st]) (auto dest: accounts_insert_role(1))
    fix x assume "may_return w accounts_ok (statement (insert_role r)) x"
    from may_return_statement [OF this st] have "ro_name r \<noteq> ADMIN_ROLE" by (auto dest: accounts_insert_role(2))
    then show "keeps w accounts_ok (replace_permissions (ro_name r) ks)"
      by (rule keeps_replace_permissions [OF st])
  qed
  note one = this [of "\<lparr>ro_name = name, ro_description = description, ro_system = False, ro_created = now, ro_updated = now\<rparr>" for now]
  show ?thesis unfolding create_role_rows_def by (rule keeps_chain, rule keeps_pure) (use one in simp)
qed

lemma keeps_update_role_rows:
  assumes st: "steady_accounts w" and "ks \<noteq> None \<Longrightarrow> name \<noteq> ADMIN_ROLE"
  shows "keeps w accounts_ok (update_role_rows name description ks)"
  unfolding update_role_rows_def
  by (intro keeping keeps_execute keeps_replace_permissions st) (use assms(2) in \<open>auto intro!: accounts_update_roles\<close>)

lemma keeps_permission_change_allowed [keeping]:
  "steady w P \<Longrightarrow> keeps w P (permission_change_allowed a name ks)"
  unfolding permission_change_allowed_def role_permission_keys_def by (intro keeping)

lemma keeps_ensure_role_exists [keeping]: "steady w P \<Longrightarrow> keeps w P (ensure_role_exists name)"
  unfolding ensure_role_exists_def by (intro keeping)

lemma permission_change_not_admin:
  assumes "may_return w P (permission_change_allowed a name ks) x" shows "name \<noteq> ADMIN_ROLE"
  using assms by (auto simp: may_return_def permission_change_allowed_def chain_def guard_def split: if_splits)

lemma keeps_update_role:
  assumes st: "steady_accounts w"
  shows "keeps w accounts_ok (update_role L header name description ks)"
proof -
  have rows: "keeps w accounts_ok (chain (case ks of None \<Rightarrow> ret () | Some ks \<Rightarrow> permission_change_allowed a name ks) (\<lambda>_.
      chain (map_err admin_error (transaction (update_role_rows name description ks))) (\<lambda>_. load_role name)))"
    for a description ks
  proof (rule keeps_chain_fact)
    show "keeps w accounts_ok (case ks of None \<Rightarrow> ret () | Some ks \<Rightarrow> permission_change_allowed a name ks)"
      by (intro keeping st)
    fix x
    assume x: "may_return w accounts_ok (case ks of None \<Rightarrow> ret () | Some ks \<Rightarrow> permission_change_allowed a name ks) x"
    have "name \<noteq> ADMIN_ROLE" if "ks \<noteq> None"
      using x that by (cases ks) (auto dest: permission_change_not_admin)
    then show "keeps w accounts_ok (chain (map_err admin_error (transaction (update_role_rows name description ks)))
        (\<lambda>_. load_role name))"
      by (intro keeping keeps_transaction keeps_update_role_rows st steady_alone)
  qed
  show ?thesis
    unfolding update_role_def
    by (rule keeps_chain, (intro keeping st)[1], rule keeps_chain, (intro keeping st)[1], rule keeps_chain,
        (intro keeping st)[1], rule keeps_chain, (intro keeping st)[1], rule rows)
qed

lemma keeps_role_permission_keys [keeping]: "steady w P \<Longrightarrow> keeps w P (role_permission_keys name)"
  unfolding role_permission_keys_def by (intro keeping)

lemma keeps_delete_role:
  fixes w :: "'m site_scheme world"
  assumes st: "steady_accounts w"
  shows "keeps w accounts_ok (delete_role L header name)"
proof -
  have "keeps w accounts_ok (statement (delete_role_row name))" if "name \<notin> BUILT_IN"
    using that by (intro keeps_statement st) (auto dest: accounts_delete_role)
  then have tail: "name \<notin> BUILT_IN \<Longrightarrow> keeps w accounts_ok (chain (map_err admin_error (role_permission_keys name)) (\<lambda>current.
     chain (guard (holds_all a current) forbidden) (\<lambda>_.
     chain (map_err admin_error (select (\<lambda>d. length (filter (\<lambda>x. us_role x = name) (users d))))) (\<lambda>assigned.
     chain (guard (assigned = 0) (CONFLICT,
       lit ''Move the '' @ show_nat assigned @ lit '' users with this role to another role first'')) (\<lambda>_.
     map_err (\<lambda>e. if e = ForeignKeyViolation then (CONFLICT, lit ''Users still have this role'') else admin_error e)
       (statement (delete_role_row name)))))))" for a
    by (intro keeping st)
  show ?thesis
    unfolding delete_role_def
  proof (rule keeps_chain, (intro keeping st)[1], rule keeps_chain_fact, (intro keeping st)[1], rule keeps_chain_fact,
      (intro keeping st)[1], rule keeps_chain_fact, (intro keeping st)[1])
    fix a row is_system u
    assume row: "may_return w accounts_ok (map_err admin_error (optional (first (\<lambda>d. map_option ro_system
       (find (\<lambda>r. ro_name r = name) (roles d)))))) row"
      and sys: "may_return w accounts_ok (result (ok_or role_not_found row)) is_system"
      and no: "may_return w accounts_ok (guard (\<not> is_system) (BAD_REQUEST, lit ''System roles cannot be deleted'')) u"
    have no_sys: "row = Some False"
      using may_return_result [OF sys] may_return_guard [OF no] by (cases row) simp_all
    from may_return_optional_first [OF may_return_map_err [OF row] st]
    obtain s :: "'m site_scheme" where s: "accounts_ok s" "map_option ro_system (find (\<lambda>r. ro_name r = name) (roles (tables s))) = row"
      by blast
    then obtain r where "find (\<lambda>r. ro_name r = name) (roles (tables s)) = Some r" "\<not> ro_system r"
      unfolding no_sys by auto
    then have "name \<notin> BUILT_IN" using built_in_role [OF accounts_okD(4,2) [OF s(1)]] by blast
    then show "keeps w accounts_ok (chain (map_err admin_error (role_permission_keys name)) (\<lambda>current.
     chain (guard (holds_all a current) forbidden) (\<lambda>_.
     chain (map_err admin_error (select (\<lambda>d. length (filter (\<lambda>x. us_role x = name) (users d))))) (\<lambda>assigned.
     chain (guard (assigned = 0) (CONFLICT,
       lit ''Move the '' @ show_nat assigned @ lit '' users with this role to another role first'')) (\<lambda>_.
     map_err (\<lambda>e. if e = ForeignKeyViolation then (CONFLICT, lit ''Users still have this role'') else admin_error e)
       (statement (delete_role_row name)))))))" by (rule tail)
  qed
qed

lemma keeps_update_user:
  assumes st: "steady_accounts w"
  shows "keeps w accounts_ok (update_user L header u role)"
proof -
  have "keeps w accounts_ok (statement (set_user_role u role))"
    by (intro keeps_statement st) (auto dest: accounts_set_user_role)
  then show ?thesis
    unfolding update_user_def end_sessions_def load_user_def by (intro keeping st)
qed

end
