(* ===== verification/Escalation.thy ===== *)
theory Escalation
  imports Accounts
begin

text \<open>
  Who can change what through the account and admin handlers: the tables stay well-formed over every
  sequence of requests, no admin hands out or takes away a permission they do not hold, and a user without
  \<open>app.login\<close> has no session left.
\<close>

section \<open>Handlers that run without interference\<close>

definition isolated :: "'s world \<Rightarrow> bool" where
  "isolated w \<longleftrightarrow> (\<forall>n s. meanwhile w n s = s)"

text \<open>\<open>reads w d m F\<close>: on the tables \<open>d\<close> the step \<open>m\<close> changes no table, and its results satisfy \<open>F\<close>.\<close>

definition reads :: "'m site_scheme world \<Rightarrow> database \<Rightarrow> ('m site_scheme, 'e, 'a) prog \<Rightarrow> ('a \<Rightarrow> bool) \<Rightarrow> bool" where
  "reads w d m F \<longleftrightarrow> (\<forall>n s r n' s'. tables s = d \<longrightarrow> m w n s = (r, n', s') \<longrightarrow>
     tables s' = d \<and> (\<forall>x. r = Inr x \<longrightarrow> F x))"

text \<open>\<open>leads w d m G\<close>: from the tables \<open>d\<close> the step \<open>m\<close> ends with tables that satisfy \<open>G\<close>.\<close>

definition leads :: "'m site_scheme world \<Rightarrow> database \<Rightarrow> ('m site_scheme, 'e, 'a) prog \<Rightarrow> (database \<Rightarrow> bool) \<Rightarrow> bool" where
  "leads w d m G \<longleftrightarrow> (\<forall>n s. tables s = d \<longrightarrow> G (tables (snd (snd (m w n s)))))"

lemma reads_select: "isolated w \<Longrightarrow> F (q d) \<Longrightarrow> reads w d (select q) F"
  by (auto simp: reads_def isolated_def select_def statement_def Let_def split: if_splits)

lemma reads_first: "isolated w \<Longrightarrow> (\<And>x. q d = Some x \<Longrightarrow> F x) \<Longrightarrow> reads w d (first q) F"
  by (auto simp: reads_def isolated_def first_def statement_def Let_def split: if_splits option.splits)

lemma reads_optional_first: "isolated w \<Longrightarrow> F (q d) \<Longrightarrow> reads w d (optional (first q)) F"
  by (auto simp: reads_def isolated_def optional_def first_def statement_def Let_def
      split: if_splits option.splits)

lemma reads_connect: "isolated w \<Longrightarrow> F () \<Longrightarrow> reads w d connect F"
  unfolding connect_def by (rule reads_select) auto

lemma reads_guard: "(c \<Longrightarrow> F ()) \<Longrightarrow> reads w d (guard c e) F"
  by (auto simp: reads_def guard_def)

lemma reads_result: "(\<And>x. r = Inr x \<Longrightarrow> F x) \<Longrightarrow> reads w d (result r) F"
  by (auto simp: reads_def result_def)

lemma reads_ret: "F x \<Longrightarrow> reads w d (ret x) F"
  by (auto simp: reads_def ret_def)

lemma reads_throw: "reads w d (throw e) F"
  by (auto simp: reads_def throw_def)

lemma reads_map_err:
  fixes w :: "'m site_scheme world"
  assumes "reads w d m F" shows "reads w d (map_err f m) F"
  unfolding reads_def
proof (intro allI impI)
  fix n r n' and s s' :: "'m site_scheme" assume s: "tables s = d" and run: "map_err f m w n s = (r, n', s')"
  obtain r1 n1 s1 where m: "m w n s = (r1, n1, s1)" by (metis prod_cases3)
  then have "tables s1 = d \<and> (\<forall>x. r1 = Inr x \<longrightarrow> F x)" using assms s unfolding reads_def by blast
  then show "tables s' = d \<and> (\<forall>x. r = Inr x \<longrightarrow> F x)"
    using run m by (cases r1) (auto simp: map_err_def)
qed

lemma reads_chain:
  fixes w :: "'m site_scheme world"
  assumes "reads w d m F'" and "\<And>x. F' x \<Longrightarrow> reads w d (k x) F" shows "reads w d (chain m k) F"
  unfolding reads_def
proof (intro allI impI)
  fix n r n' and s s' :: "'m site_scheme" assume s: "tables s = d" and run: "chain m k w n s = (r, n', s')"
  obtain r1 n1 s1 where m: "m w n s = (r1, n1, s1)" by (metis prod_cases3)
  then have *: "tables s1 = d \<and> (\<forall>x. r1 = Inr x \<longrightarrow> F' x)" using assms(1) s unfolding reads_def by blast
  show "tables s' = d \<and> (\<forall>x. r = Inr x \<longrightarrow> F x)"
  proof (cases r1)
    case (Inl e) then show ?thesis using run m * by (auto simp: chain_def)
  next
    case (Inr x)
    then have "k x w n1 s1 = (r, n', s')" using run m by (simp add: chain_def)
    then show ?thesis using assms(2) [of x] * Inr unfolding reads_def by blast
  qed
qed

lemma leads_read:
  fixes w :: "'m site_scheme world"
  assumes "reads w d m F" and "G d" shows "leads w d m G"
  unfolding leads_def
proof (intro allI impI)
  fix n and s :: "'m site_scheme" assume s: "tables s = d"
  obtain r n' s' where "m w n s = (r, n', s')" by (metis prod_cases3)
  then show "G (tables (snd (snd (m w n s))))" using assms s unfolding reads_def by (metis snd_conv)
qed

lemma leads_chain_read:
  fixes w :: "'m site_scheme world"
  assumes "reads w d m F" and "G d" and "\<And>x. F x \<Longrightarrow> leads w d (k x) G"
  shows "leads w d (chain m k) G"
  unfolding leads_def
proof (intro allI impI)
  fix n and s :: "'m site_scheme" assume s: "tables s = d"
  obtain r n' s' where m: "m w n s = (r, n', s')" by (metis prod_cases3)
  have *: "tables s' = d \<and> (\<forall>x. r = Inr x \<longrightarrow> F x)" using assms(1) s m unfolding reads_def by blast
  show "G (tables (snd (snd (chain m k w n s))))"
  proof (cases r)
    case (Inl e) then show ?thesis using m * assms(2) by (simp add: chain_def)
  next
    case (Inr x)
    then show ?thesis using m * assms(3) [of x] by (simp add: chain_def leads_def)
  qed
qed

lemma leads_chain:
  fixes w :: "'m site_scheme world"
  assumes "leads w d m G" and "\<And>x d'. G d' \<Longrightarrow> leads w d' (k x) G"
  shows "leads w d (chain m k) G"
  unfolding leads_def
proof (intro allI impI)
  fix n and s :: "'m site_scheme" assume s: "tables s = d"
  obtain r n' s' where m: "m w n s = (r, n', s')" by (metis prod_cases3)
  then have "G (tables s')" using assms(1) s unfolding leads_def by (metis snd_conv)
  then show "G (tables (snd (snd (chain m k w n s))))"
    using assms(2) [of "tables s'"] m by (cases r) (simp_all add: chain_def leads_def)
qed

lemma leads_map_err: "leads w d m G \<Longrightarrow> leads w d (map_err f m) G"
  unfolding leads_def map_err_def by (auto split: prod.splits sum.splits) (metis snd_conv)+

lemma leads_statement:
  "isolated w \<Longrightarrow> G d \<Longrightarrow> (\<And>x d'. q d = Inr (x, d') \<Longrightarrow> G d') \<Longrightarrow> leads w d (statement q) G"
  by (auto simp: leads_def isolated_def statement_def Let_def split: sum.splits prod.splits)

lemma leads_execute: "isolated w \<Longrightarrow> G d \<Longrightarrow> G (f d) \<Longrightarrow> leads w d (execute f) G"
  unfolding execute_def by (rule leads_statement) auto

lemma leads_chain_statement:
  fixes w :: "'m site_scheme world"
  assumes "isolated w" and "G d" and "\<And>x d'. q d = Inr (x, d') \<Longrightarrow> leads w d' (k x) G"
  shows "leads w d (chain (statement q) k) G"
  unfolding leads_def
proof (intro allI impI)
  fix n and s :: "'m site_scheme" assume s: "tables s = d"
  show "G (tables (snd (snd (chain (statement q) k w n s))))"
    using assms s
    by (cases "q d") (auto simp: chain_def statement_def isolated_def Let_def leads_def split: prod.splits)
qed

lemma isolated_alone: "isolated w \<Longrightarrow> w\<lparr>meanwhile := \<lambda>_ s. s\<rparr> = w"
  unfolding isolated_def by (cases w) (simp add: fun_eq_iff)

lemma leads_transaction:
  fixes w :: "'m site_scheme world"
  assumes "isolated w" and "G d" and "leads w d m G" shows "leads w d (transaction m) G"
  unfolding leads_def
proof (intro allI impI)
  fix n and s :: "'m site_scheme" assume s: "tables s = d"
  obtain r n' s' where m: "m w (Suc n) s = (r, n', s')" by (metis prod_cases3)
  then have "G (tables s')" using assms(3) s unfolding leads_def by (metis snd_conv)
  then show "G (tables (snd (snd (transaction m w n s))))"
    using assms(1,2) s m
    by (cases r) (simp_all add: transaction_def isolated_alone [OF assms(1)] isolated_def Let_def)
qed

lemmas reading = reads_select reads_first reads_optional_first reads_connect reads_guard reads_result reads_ret
  reads_throw reads_map_err reads_chain

lemma reads_weaken: "reads w d m F' \<Longrightarrow> (\<And>x. F' x \<Longrightarrow> F x) \<Longrightarrow> reads w d m F"
  unfolding reads_def by blast

lemma reads_caller:
  "reads w d (caller L header) (\<lambda>u. \<exists>n. extract_user_id L (clock w n) header = Inr u)"
  by (auto simp: reads_def caller_def chain_def utc_now_def result_def)

text \<open>What a successful authorization says about the admin.\<close>

definition acting_admin :: "platform \<Rightarrow> 's world \<Rightarrow> database \<Rightarrow> str option \<Rightarrow> admin \<Rightarrow> bool" where
  "acting_admin L w d header a \<longleftrightarrow> (\<exists>n. extract_user_id L (clock w n) header = Inr (ad_id a)) \<and>
     set (ad_permissions a) = set (keys_of_user d (ad_id a)) \<and>
     (\<exists>x \<in> set (users d). us_id x = ad_id a \<and> us_role x = ad_role a)"

lemma reads_admin_permission:
  assumes w: "isolated w"
  shows "reads w d (admin_authorize L header p)
    (\<lambda>x. acting_admin L w d header x \<and> (\<forall>q. p = Some q \<longrightarrow> can x AdminAccess \<and> can x q))"
proof -
  have last: "reads w d (let a = \<lparr>ad_id = u, ad_role = role, ad_permissions = remdups ks\<rparr> in
      if list_all (can a) (AdminAccess # (case p of None \<Rightarrow> [] | Some p \<Rightarrow> [p])) then ret a else throw forbidden)
      (\<lambda>x. acting_admin L w d header x \<and> (\<forall>q. p = Some q \<longrightarrow> can x AdminAccess \<and> can x q))"
    if u: "\<exists>n. extract_user_id L (clock w n) header = Inr u"
      and r: "map_option us_role (find (\<lambda>x. us_id x = u) (users d)) = Some role" and k: "set ks = set (keys_of_user d u)" for u role ks
  proof -
    obtain x where "find (\<lambda>x. us_id x = u) (users d) = Some x" "us_role x = role" using r by auto
    then have "\<exists>x \<in> set (users d). us_id x = u \<and> us_role x = role" using find_Some_set by fastforce
    then have "acting_admin L w d header \<lparr>ad_id = u, ad_role = role, ad_permissions = remdups ks\<rparr>"
      using u k by (simp add: acting_admin_def)
    then show ?thesis by (auto simp: Let_def intro!: reads_ret reads_throw)
  qed
  show ?thesis
    unfolding admin_authorize_def
    by (rule reads_chain [OF reads_caller], rule reads_chain [where F' = "\<lambda>_. True"],
        (intro reading w TrueI)[1],
        rule reads_chain [where F' = "\<lambda>role. map_option us_role (find (\<lambda>x. us_id x = _) (users d)) = Some role"],
        (intro reading w, assumption)[1],
        rule reads_chain [where F' = "\<lambda>ks. set ks = set (keys_of_user d _)"],
        (unfold user_permissions_def, intro reads_map_err reads_select w, simp)[1], rule last)
qed

lemma reads_admin_authorize:
  "isolated w \<Longrightarrow> reads w d (admin_authorize L header p) (acting_admin L w d header)"
  by (rule reads_weaken [OF reads_admin_permission]) auto

section \<open>No privilege escalation\<close>

text \<open>
  What an admin may do to the permissions of everybody: users gain nothing that the admin lacks, only users
  below the admin are touched, and the admin's own permissions stay.
\<close>

definition limited :: "uuid \<Rightarrow> database \<Rightarrow> database \<Rightarrow> bool" where
  "limited a d d' \<longleftrightarrow>
     (\<forall>v. set (keys_of_user d' v) \<subseteq> set (keys_of_user d v) \<union> set (keys_of_user d a)) \<and>
     (\<forall>v. set (keys_of_user d' v) \<noteq> set (keys_of_user d v) \<longrightarrow> set (keys_of_user d v) \<subseteq> set (keys_of_user d a)) \<and>
     set (keys_of_user d' a) = set (keys_of_user d a)"

lemma keys_of_role_iff: "k \<in> set (keys_of_role d r) \<longleftrightarrow> (r, k) \<in> set (role_permissions d)"
  by (force simp: keys_of_role_def)

lemma keys_of_user_role:
  assumes "users_ok d" and "x \<in> set (users d)"
  shows "set (keys_of_user d (us_id x)) = set (keys_of_role d (us_role x))"
proof -
  have one: "y = x" if "y \<in> set (users d)" "us_id y = us_id x" for y
    using assms that by (auto simp: users_ok_def distinct_map inj_on_def)
  show ?thesis unfolding set_eq_iff keys_of_user_iff keys_of_role_iff by (metis one assms(2))
qed

lemma limited_same:
  assumes "\<And>v. set (keys_of_user d' v) = set (keys_of_user d v)" shows "limited a d d'"
  using assms by (auto simp: limited_def)

lemma limited_cong:
  "users d1 = users d2 \<Longrightarrow> role_permissions d1 = role_permissions d2 \<Longrightarrow> limited a d d1 = limited a d d2"
  by (simp add: limited_def keys_of_user_def)

lemma filter_update_where_other:
  "(\<And>x. P x \<Longrightarrow> \<not> Q x \<and> \<not> Q (f x)) \<Longrightarrow> filter Q (update_where P f xs) = filter Q xs"
  by (induction xs) (auto simp: update_where_def)

text \<open>Giving one user another role.\<close>

lemma limited_set_role:
  assumes ok: "users_ok d" and x: "x \<in> set (users d)" "us_id x = u" and "u \<noteq> a"
    and old: "set (keys_of_role d (us_role x)) \<subseteq> set (keys_of_user d a)"
    and new: "set (keys_of_role d role) \<subseteq> set (keys_of_user d a)"
  shows "limited a d (d\<lparr>users := update_where (\<lambda>x. us_id x = u) (\<lambda>x. x\<lparr>us_role := role\<rparr>) (users d)\<rparr>)"
    (is "limited a d ?d'")
proof -
  have same: "set (keys_of_user ?d' v) = set (keys_of_user d v)" if "v \<noteq> u" for v
  proof -
    have "filter (\<lambda>x. us_id x = v) (users ?d') = filter (\<lambda>x. us_id x = v) (users d)"
      using that by (simp, intro filter_update_where_other) auto
    then show ?thesis unfolding keys_of_user_def by simp
  qed
  have "set (keys_of_user ?d' u) \<subseteq> set (keys_of_role d role)"
  proof
    fix k assume "k \<in> set (keys_of_user ?d' u)"
    then obtain y where y: "y \<in> set (update_where (\<lambda>x. us_id x = u) (\<lambda>x. x\<lparr>us_role := role\<rparr>) (users d))"
      "us_id y = u" "(us_role y, k) \<in> set (role_permissions d)"
      unfolding keys_of_user_iff by auto
    then obtain z where "y = (if us_id z = u then z\<lparr>us_role := role\<rparr> else z)" unfolding set_update_where by blast
    then have "us_role y = role" using y(2) by (cases "us_id z = u") auto
    then show "k \<in> set (keys_of_role d role)" using y(3) by (simp add: keys_of_role_iff)
  qed
  moreover have "set (keys_of_user d u) \<subseteq> set (keys_of_user d a)"
    using keys_of_user_role [OF ok x(1)] x(2) old by simp
  ultimately have "set (keys_of_user ?d' v) = set (keys_of_user d v) \<or>
      set (keys_of_user ?d' v) \<subseteq> set (keys_of_user d a) \<and> set (keys_of_user d v) \<subseteq> set (keys_of_user d a)" for v
    using same [of v] new by (cases "v = u") auto
  moreover have "set (keys_of_user ?d' a) = set (keys_of_user d a)" using same \<open>u \<noteq> a\<close> by simp
  ultimately show ?thesis unfolding limited_def by blast
qed

text \<open>Changing what one role may do.\<close>

definition role_frame :: "str \<Rightarrow> str set \<Rightarrow> database \<Rightarrow> database \<Rightarrow> bool" where
  "role_frame name K d d' \<longleftrightarrow> users d' = users d \<and>
     (\<forall>r. r \<noteq> name \<longrightarrow> set (keys_of_role d' r) = set (keys_of_role d r)) \<and> set (keys_of_role d' name) \<subseteq> K"

lemma role_frame_users:
  assumes "role_frame name K d d'" and "x \<in> set (users d)" and "users_ok d" and "us_role x \<noteq> name"
  shows "set (keys_of_user d' (us_id x)) = set (keys_of_user d (us_id x))"
proof -
  have "users_ok d \<Longrightarrow> set (keys_of_user d' (us_id x)) = set (keys_of_role d' (us_role x))"
    using assms(1,2) unfolding role_frame_def
    by (auto simp: keys_of_user_iff keys_of_role_iff users_ok_def distinct_map inj_on_def) metis
  then show ?thesis
    using keys_of_user_role [OF assms(3,2)] assms(1,3,4) unfolding role_frame_def by simp
qed

lemma limited_role:
  assumes fr: "role_frame name (set (keys_of_user d a)) d d'" and ok: "users_ok d"
    and old: "set (keys_of_role d name) \<subseteq> set (keys_of_user d a)"
    and a: "x \<in> set (users d)" "us_id x = a" "us_role x \<noteq> name"
  shows "limited a d d'"
proof -
  have "set (keys_of_user d' v) = set (keys_of_user d v) \<or>
      set (keys_of_user d' v) \<subseteq> set (keys_of_user d a) \<and> set (keys_of_user d v) \<subseteq> set (keys_of_user d a)" for v
  proof (cases "\<exists>y \<in> set (users d). us_id y = v")
    case True
    then obtain y where y: "y \<in> set (users d)" "us_id y = v" by blast
    show ?thesis
    proof (cases "us_role y = name")
      case True
      have "set (keys_of_user d v) = set (keys_of_role d name)" using keys_of_user_role [OF ok y(1)] y True by simp
      moreover have "set (keys_of_user d' v) \<subseteq> set (keys_of_role d' name)"
      proof
        fix k assume "k \<in> set (keys_of_user d' v)"
        then obtain z where "z \<in> set (users d)" "us_id z = v" "(us_role z, k) \<in> set (role_permissions d')"
          using fr by (auto simp: keys_of_user_iff role_frame_def)
        moreover have "z = y" using ok y calculation by (auto simp: users_ok_def distinct_map inj_on_def)
        ultimately show "k \<in> set (keys_of_role d' name)" using True by (simp add: keys_of_role_iff)
      qed
      ultimately show ?thesis using fr old unfolding role_frame_def by blast
    next
      case False
      then show ?thesis using role_frame_users [OF fr y(1) ok] y(2) by simp
    qed
  next
    case False
    then have "keys_of_user d v = []" "keys_of_user d' v = []"
      using fr by (auto simp: keys_of_user_def role_frame_def filter_empty_conv)
    then show ?thesis by simp
  qed
  moreover have "set (keys_of_user d' a) = set (keys_of_user d a)"
    using role_frame_users [OF fr a(1) ok a(3)] a(2) by simp
  ultimately show ?thesis unfolding limited_def by blast
qed

lemma limited_unused_role:
  assumes fr: "role_frame name UNIV d d'" and "\<forall>x \<in> set (users d). us_role x \<noteq> name"
  shows "limited a d d'"
proof (rule limited_same)
  show "set (keys_of_user d' v) = set (keys_of_user d v)" for v
    using assms unfolding role_frame_def by (auto simp: keys_of_user_iff keys_of_role_iff set_eq_iff)
qed

lemma leads_ret: "G d \<Longrightarrow> leads w d (ret x) G"
  by (simp add: leads_def ret_def)

lemma role_frame_refl: "set (keys_of_role d name) \<subseteq> K \<Longrightarrow> role_frame name K d d"
  by (simp add: role_frame_def)

lemma leads_replace_permissions:
  assumes w: "isolated w" and fr: "role_frame name K d0 d" and ks: "set ks \<subseteq> K"
  shows "leads w d (replace_permissions name ks) (role_frame name K d0)"
proof -
  have del: "role_frame name K d0 (d\<lparr>role_permissions := delete_where (\<lambda>rp. fst rp = name) (role_permissions d)\<rparr>)"
    using fr unfolding role_frame_def by (auto simp: set_eq_iff keys_of_role_iff)
  have ins: "role_frame name K d0 d'"
    if "role_frame name K d0 d1" "insert_role_permissions name ks d1 = Inr (x, d')" for d1 d' x
    using that ks unfolding role_frame_def
    by (auto simp: insert_role_permissions_def set_eq_iff subset_iff keys_of_role_iff split: if_splits)
  show ?thesis
    unfolding replace_permissions_def
    by (rule leads_chain, rule leads_execute [OF w], rule fr, rule del)
      (auto intro: leads_ret leads_statement [OF w _ ins])
qed

lemma leads_update_roles:
  assumes w: "isolated w" and fr: "role_frame name K d0 d"
  shows "leads w d (execute (\<lambda>d. d\<lparr>roles := f d\<rparr>)) (role_frame name K d0)"
  using fr by (intro leads_execute w) (simp_all add: role_frame_def keys_of_role_def)

lemma leads_update_role_rows:
  assumes w: "isolated w" and fr: "role_frame name K d0 d" and ks: "\<And>l. ks = Some l \<Longrightarrow> set l \<subseteq> K"
  shows "leads w d (update_role_rows name description ks) (role_frame name K d0)"
  unfolding update_role_rows_def
proof (rule leads_chain)
  show "leads w d (case description of None \<Rightarrow> ret () | Some t \<Rightarrow>
      execute (\<lambda>d. d\<lparr>roles := update_where (\<lambda>r. ro_name r = name) (\<lambda>r. r\<lparr>ro_description := t\<rparr>) (roles d)\<rparr>))
      (role_frame name K d0)"
    using leads_update_roles [OF w fr] leads_ret [of "role_frame name K d0", OF fr] by (cases description) auto
  fix x :: unit and d' assume d': "role_frame name K d0 d'"
  show "leads w d' (chain (case ks of None \<Rightarrow> ret () | Some ks \<Rightarrow> replace_permissions name ks) (\<lambda>_.
     chain utc_now (\<lambda>now.
     execute (\<lambda>d. d\<lparr>roles := update_where (\<lambda>r. ro_name r = name) (\<lambda>r. r\<lparr>ro_updated := now\<rparr>) (roles d)\<rparr>))))
     (role_frame name K d0)"
  proof (rule leads_chain)
    show "leads w d' (case ks of None \<Rightarrow> ret () | Some ks \<Rightarrow> replace_permissions name ks) (role_frame name K d0)"
      using leads_replace_permissions [OF w d'] ks leads_ret [of "role_frame name K d0", OF d'] by (cases ks) auto
    fix x :: unit and d'' assume d'': "role_frame name K d0 d''"
    show "leads w d'' (chain utc_now (\<lambda>now.
     execute (\<lambda>d. d\<lparr>roles := update_where (\<lambda>r. ro_name r = name) (\<lambda>r. r\<lparr>ro_updated := now\<rparr>) (roles d)\<rparr>)))
     (role_frame name K d0)"
      by (rule leads_chain_read [where F = "\<lambda>_. True"])
        (auto simp: reads_def utc_now_def d'' intro: leads_update_roles [OF w d''])
  qed
qed

text \<open>The requests of accounts and of the admin panel.\<close>

datatype account_request =
    Register str str str str
  | Login str str
  | RefreshSession str
  | Logout str
  | Me
  | AdminMe
  | ListPermissions
  | ListRoles
  | CreateRole str str "str list"
  | UpdateRole str "str option" "str list option"
  | DeleteRole str
  | ListUsers "str option" "str option" "64 word option" "64 word option"
  | UpdateUser uuid str
  | LiveRooms
  | Overview

definition done_with :: "('s, 'e, 'a) prog \<Rightarrow> ('s, 'e, unit) prog" where
  "done_with m = chain m (\<lambda>_. ret ())"

fun perform ::
  "platform \<Rightarrow> (uchar \<Rightarrow> uchar) \<Rightarrow> str option \<Rightarrow> account_request \<Rightarrow> ('m site_scheme, api_error, unit) prog" where
  "perform L cf h (Register email name nick password) = done_with (register L email name nick password)"
| "perform L cf h (Login email password) = done_with (login L email password)"
| "perform L cf h (RefreshSession t) = done_with (refresh_session L t)"
| "perform L cf h (Logout t) = done_with (logout L t)"
| "perform L cf h Me = done_with (auth_me L h)"
| "perform L cf h AdminMe = done_with (admin_me L h)"
| "perform L cf h ListPermissions = done_with (list_permissions L h)"
| "perform L cf h ListRoles = done_with (list_roles L h)"
| "perform L cf h (CreateRole name description ks) = done_with (create_role L h name description ks)"
| "perform L cf h (UpdateRole name description ks) = done_with (update_role L h name description ks)"
| "perform L cf h (DeleteRole name) = done_with (delete_role L h name)"
| "perform L cf h (ListUsers search role page count) = done_with (list_users L cf h search role page count)"
| "perform L cf h (UpdateUser u role) = done_with (update_user L h u role)"
| "perform L cf h LiveRooms = done_with (list_live_rooms L h)"
| "perform L cf h Overview = done_with (get_overview L h)"

lemma keeps_views:
  assumes "steady w P"
  shows "keeps w P (admin_me L h)" and "keeps w P (list_permissions L h)" and "keeps w P (list_roles L h)"
    and "keeps w P (list_live_rooms L h)" and "keeps w P (get_overview L h)"
    and "keeps w P (list_users L cf h search role page count)"
proof -
  note st = assms
  show "keeps w P (admin_me L h)" unfolding admin_me_def by (intro keeping st)
  show "keeps w P (list_permissions L h)" unfolding list_permissions_def by (intro keeping st)
  show "keeps w P (list_roles L h)" unfolding list_roles_def by (intro keeping st)
  show "keeps w P (list_live_rooms L h)" unfolding list_live_rooms_def Let_def by (intro keeping st)
  show "keeps w P (get_overview L h)" unfolding get_overview_def count_rows_def by (intro keeping st)
  show "keeps w P (list_users L cf h search role page count)"
    unfolding list_users_def Let_def
    by (intro keeping st keeps_statement) (auto simp: limit_offset_def split: if_splits)
qed

lemma keeps_perform: 
  assumes st: "steady_accounts w"
  shows "keeps w accounts_ok (perform L cf h req)"
proof -
  have "keeps w accounts_ok (create_role L h name description ks)" for name description ks
    unfolding create_role_def by (intro keeping keeps_transaction keeps_create_role_rows st steady_alone)
  then show ?thesis
    using keeps_auth [OF st] keeps_views [OF st] keeps_update_role [OF st] keeps_delete_role [OF st]
      keeps_update_user [OF st]
    by (cases req) (simp_all add: done_with_def keeps_chain keeps_pure)
qed

text \<open>The four requests that change what users may do.\<close>

text \<open>The reading steps of a handler, one rule each.\<close>

lemma leads_step:
  assumes "G d"
  shows leads_guard: "(c \<Longrightarrow> leads w d (k ()) G) \<Longrightarrow> leads w d (chain (guard c e) k) G"
    and leads_result: "(\<And>x. r = Inr x \<Longrightarrow> leads w d (h x) G) \<Longrightarrow> leads w d (chain (result r) h) G"
    and leads_select: "isolated w \<Longrightarrow> leads w d (l (q d)) G \<Longrightarrow> leads w d (chain (map_err f (select q)) l) G"
    and leads_find: "isolated w \<Longrightarrow> leads w d (j (p d)) G \<Longrightarrow>
        leads w d (chain (map_err f (optional (first p))) j) G"
    and leads_admin: "isolated w \<Longrightarrow> (\<And>a. acting_admin L w d header a \<Longrightarrow> leads w d (i a) G) \<Longrightarrow>
        leads w d (chain (admin_authorize L header required) i) G"
proof -
  show "(c \<Longrightarrow> leads w d (k ()) G) \<Longrightarrow> leads w d (chain (guard c e) k) G"
    by (rule leads_chain_read [OF reads_guard [of c "\<lambda>_. c"]]) (use assms in simp_all)
  show "(\<And>x. r = Inr x \<Longrightarrow> leads w d (h x) G) \<Longrightarrow> leads w d (chain (result r) h) G"
    by (rule leads_chain_read [OF reads_result [of r "\<lambda>x. r = Inr x"]]) (use assms in simp_all)
  show "isolated w \<Longrightarrow> leads w d (l (q d)) G \<Longrightarrow> leads w d (chain (map_err f (select q)) l) G"
    by (rule leads_chain_read [OF reads_map_err [OF reads_select [of w "\<lambda>x. x = q d"]]]) (use assms in simp_all)
  show "isolated w \<Longrightarrow> leads w d (j (p d)) G \<Longrightarrow> leads w d (chain (map_err f (optional (first p))) j) G"
    by (rule leads_chain_read [OF reads_map_err [OF reads_optional_first [of w "\<lambda>x. x = p d"]]]) (use assms in simp_all)
  show "isolated w \<Longrightarrow> (\<And>a. acting_admin L w d header a \<Longrightarrow> leads w d (i a) G) \<Longrightarrow>
        leads w d (chain (admin_authorize L header required) i) G"
    by (rule leads_chain_read [OF reads_admin_authorize]) (use assms in simp_all)
qed

lemma leads_mono: "leads w d m G' \<Longrightarrow> (\<And>d. G' d \<Longrightarrow> G d) \<Longrightarrow> leads w d m G"
  by (simp add: leads_def)

lemma leads_load_role: "isolated w \<Longrightarrow> G d \<Longrightarrow> leads w d (load_role name) G"
  unfolding load_role_def load_roles_def Let_def
  by (intro leads_read [where F = "\<lambda>_. True"] reads_chain [where F' = "\<lambda>_. True"] reading TrueI)

lemma acting_admin_keys:
  assumes "acting_admin L w d h x" and "\<And>n v. extract_user_id L (clock w n) h = Inr v \<Longrightarrow> v = a"
  shows "ad_id x = a" and "set (ad_permissions x) = set (keys_of_user d a)"
    and "\<exists>y \<in> set (users d). us_id y = a \<and> us_role y = ad_role x"
  using assms by (auto simp: acting_admin_def)

lemma set_holds_all: "holds_all x ks \<longleftrightarrow> set ks \<subseteq> set (ad_permissions x)"
  by (auto simp: holds_all_def list_all_iff)

lemma reads_role_permission_keys:
  "isolated w \<Longrightarrow> reads w d (role_permission_keys r) (\<lambda>ks. set ks = set (keys_of_role d r))"
  unfolding role_permission_keys_def by (rule reads_select) simp_all

lemma update_user_limited:
  assumes w: "isolated w" and ok: "users_ok d" and a: "\<And>n v. extract_user_id L (clock w n) h = Inr v \<Longrightarrow> v = a"
  shows "leads w d (update_user L h u role) (limited a d)"
proof -
  have refl: "limited a d d" by (simp add: limited_same)
  have tail: "leads w d (chain (map_err admin_error (statement (set_user_role u role))) (\<lambda>_.
     chain (if c then ret () else end_sessions u) (\<lambda>_. load_user u))) (limited a d)"
    if x: "x \<in> set (users d)" "us_id x = u" "u \<noteq> a" "set (keys_of_role d (us_role x)) \<subseteq> set (keys_of_user d a)"
      "set (keys_of_role d role) \<subseteq> set (keys_of_user d a)" for c x
  proof (rule leads_chain)
    show "leads w d (map_err admin_error (statement (set_user_role u role))) (limited a d)"
      by (intro leads_map_err leads_statement w refl)
        (auto simp: set_user_role_def intro: limited_set_role [OF ok x] split: if_splits)
    fix x :: unit and d' assume lim: "limited a d d'"
    show "leads w d' (chain (if c then ret () else end_sessions u) (\<lambda>_. load_user u)) (limited a d)"
    proof (rule leads_chain)
      have "limited a d (d'\<lparr>refresh_tokens := ts\<rparr>)" for ts using lim by (simp add: limited_def keys_of_user_def)
      then show "leads w d' (if c then ret () else end_sessions u) (limited a d)"
        using lim by (auto simp: end_sessions_def intro!: leads_ret leads_map_err leads_execute [OF w])
      fix x :: unit and d'' assume "limited a d d''"
      then show "leads w d'' (load_user u) (limited a d)"
        unfolding load_user_def by (intro leads_read [where F = "\<lambda>_. True"] reads_map_err reads_first w) auto
    qed
  qed
  have found: "\<exists>x \<in> set (users d). us_id x = u \<and> us_role x = r"
    if "ok_or e (map_option us_role (find (\<lambda>x. us_id x = u) (users d))) = Inr r" for r and e :: api_error
    using that find_Some_set by (cases "find (\<lambda>x. us_id x = u) (users d)") fastforce+
  show ?thesis
    unfolding update_user_def role_permission_keys_def
  proof (rule leads_admin, rule refl, rule w, rule leads_guard, rule refl, rule leads_find, rule refl, rule w,
      rule leads_result, rule refl, rule leads_select, rule refl, rule w, rule leads_guard, rule refl,
      rule leads_select, rule refl, rule w, rule leads_select, rule refl, rule w, rule leads_guard, rule refl)
    fix x r
    assume x: "acting_admin L w d h x" "ad_id x \<noteq> u"
      and r: "ok_or (NOT_FOUND, lit ''User not found'') (map_option us_role (find (\<lambda>x. us_id x = u) (users d))) = Inr r"
      and holds: "holds_all x (order_asc (\<lambda>k. k) (keys_of_role d r)) \<and> holds_all x (order_asc (\<lambda>k. k) (keys_of_role d role))"
    from found [OF r] obtain y where y: "y \<in> set (users d)" "us_id y = u" "us_role y = r" by blast
    show "leads w d (chain (map_err admin_error (statement (set_user_role u role))) (\<lambda>_.
        chain (if key AppLogin \<in> set (order_asc (\<lambda>k. k) (keys_of_role d role)) then ret () else end_sessions u)
          (\<lambda>_. load_user u))) (limited a d)"
      by (rule tail [OF y(1,2)])
        (use acting_admin_keys [OF x(1) a] x(2) y(3) holds in \<open>simp_all add: set_holds_all\<close>)
  qed
qed

lemma create_role_limited:
  assumes w: "isolated w" and ok: "users_ok d"
  shows "leads w d (create_role L h name description ks) (limited a d)"
proof -
  have refl: "limited a d d" by (simp add: limited_same)
  have rows: "leads w d (create_role_rows name description ks) (limited a d)" for name description ks
    unfolding create_role_rows_def
  proof (rule leads_chain_read [where F = "\<lambda>_. True"])
    show "reads w d utc_now (\<lambda>_. True)" by (simp add: reads_def utc_now_def)
    show "limited a d d" by (rule refl)
    fix now
    let ?r = "\<lparr>ro_name = name, ro_description = description, ro_system = False, ro_created = now, ro_updated = now\<rparr>"
    show "leads w d (chain (statement (insert_role ?r)) (\<lambda>_. replace_permissions name ks)) (limited a d)"
    proof (rule leads_chain_statement, rule w, rule refl)
      fix x d' assume "insert_role ?r d = Inr (x, d')"
      then have d': "d' = d\<lparr>roles := roles d @ [?r]\<rparr>" and new: "name \<notin> ro_name ` set (roles d)"
        by (auto simp: insert_role_def list_ex_iff split: if_splits)
      have unused: "\<forall>x \<in> set (users d). us_role x \<noteq> name" using ok new unfolding users_ok_def by metis
      have "role_frame name UNIV d d'" by (simp add: role_frame_def d' keys_of_role_def)
      from leads_replace_permissions [OF w this] show "leads w d' (replace_permissions name ks) (limited a d)"
        by (rule leads_mono [OF _ limited_unused_role]) (use unused in auto)
    qed
  qed
  show ?thesis
    unfolding create_role_def
  proof (rule leads_admin, rule refl, rule w, rule leads_result, rule refl, rule leads_result, rule refl,
      rule leads_result, rule refl, rule leads_guard, rule refl, rule leads_chain)
    fix name description ks and f :: "db_error \<Rightarrow> api_error"
    show "leads w d (map_err f (transaction (create_role_rows name description ks))) (limited a d)"
      by (intro leads_map_err leads_transaction w refl rows)
  qed (rule leads_load_role [OF w])
qed

lemma update_role_limited:
  assumes w: "isolated w" and ok: "users_ok d" and a: "\<And>n v. extract_user_id L (clock w n) h = Inr v \<Longrightarrow> v = a"
  shows "leads w d (update_role L h name description ks) (limited a d)"
proof -
  have refl: "limited a d d" by (simp add: limited_same)
  let ?same = "\<lambda>d'. users d' = users d \<and> role_permissions d' = role_permissions d"
  have roles_only: "leads w d1 (execute (\<lambda>d. d\<lparr>roles := g d\<rparr>)) ?same" if "?same d1" for d1 g
    by (rule leads_execute [OF w]) (use that in simp_all)
  have "leads w d (update_role_rows name t None) ?same" for t
    unfolding update_role_rows_def
    by (rule leads_chain, use roles_only [of d] in \<open>auto intro: leads_ret split: option.split\<close>)
      (rule leads_chain, auto intro!: leads_ret leads_chain_read [where F = "\<lambda>_. True"] roles_only simp: reads_def utc_now_def)
  then have no_keys: "leads w d (update_role_rows name t None) (limited a d)" for t
    by (rule leads_mono) (auto intro: limited_same simp: keys_of_user_def)
  have keys: "leads w d (update_role_rows name t (Some l)) (limited a d)"
    if x: "acting_admin L w d h x" and ne: "name \<noteq> ad_role x" and l: "set l \<subseteq> set (keys_of_user d a)"
      and old: "set (keys_of_role d name) \<subseteq> set (keys_of_user d a)" for x t l
  proof -
    have "\<exists>y \<in> set (users d). us_id y = a \<and> us_role y = ad_role x"
      by (rule acting_admin_keys(3) [OF x]) (rule a)
    then obtain y where y: "y \<in> set (users d)" "us_id y = a" "us_role y \<noteq> name" using ne by blast
    show ?thesis
      by (rule leads_mono [OF leads_update_role_rows [OF w role_frame_refl [OF old]]])
        (use l limited_role [OF _ ok old y] in auto)
  qed
  have last: "leads w d (chain (map_err admin_error (transaction m)) (\<lambda>_. load_role name)) (limited a d)"
    if "leads w d m (limited a d)" for m :: "('a site_scheme, db_error, unit) prog"
    by (rule leads_chain, intro leads_map_err leads_transaction w refl that) (rule leads_load_role [OF w])
  have checked: "leads w d (chain (case l of None \<Rightarrow> ret () | Some l \<Rightarrow> permission_change_allowed x name l) (\<lambda>_.
      chain (map_err admin_error (transaction (update_role_rows name t l))) (\<lambda>_. load_role name))) (limited a d)"
    if x: "acting_admin L w d h x" for x t l
  proof (rule leads_chain_read [where F = "\<lambda>_. \<forall>ks. l = Some ks \<longrightarrow> name \<noteq> ad_role x \<and>
      set ks \<subseteq> set (keys_of_user d a) \<and> set (keys_of_role d name) \<subseteq> set (keys_of_user d a)"])
    have "reads w d (permission_change_allowed x name ks) (\<lambda>_. name \<noteq> ad_role x \<and>
        set ks \<subseteq> set (keys_of_user d a) \<and> set (keys_of_role d name) \<subseteq> set (keys_of_user d a))" for ks
      unfolding permission_change_allowed_def
      by (rule reads_chain [OF reads_guard [of _ "\<lambda>_. True", OF TrueI]],
          rule reads_chain [OF reads_guard [of _ "\<lambda>_. name \<noteq> ad_role x"]], assumption,
          rule reads_chain [OF reads_map_err [OF reads_role_permission_keys [OF w]]], rule reads_guard)
        (use acting_admin_keys(2) [OF x a] in \<open>auto simp: set_holds_all\<close>)
    then show "reads w d (case l of None \<Rightarrow> ret () | Some l \<Rightarrow> permission_change_allowed x name l) (\<lambda>_. \<forall>ks. l = Some ks \<longrightarrow>
        name \<noteq> ad_role x \<and> set ks \<subseteq> set (keys_of_user d a) \<and> set (keys_of_role d name) \<subseteq> set (keys_of_user d a))"
      by (cases l) (simp_all add: reads_ret)
    show "limited a d d" by (rule refl)
    fix u :: unit
    assume "\<forall>ks. l = Some ks \<longrightarrow> name \<noteq> ad_role x \<and> set ks \<subseteq> set (keys_of_user d a) \<and>
        set (keys_of_role d name) \<subseteq> set (keys_of_user d a)"
    then have "leads w d (update_role_rows name t l) (limited a d)"
      using no_keys keys [OF x] by (cases l) simp_all
    then show "leads w d (chain (map_err admin_error (transaction (update_role_rows name t l))) (\<lambda>_. load_role name))
        (limited a d)" by (rule last)
  qed
  show ?thesis
    unfolding update_role_def
  proof (rule leads_admin, rule refl, rule w, rule leads_chain_read [where F = "\<lambda>_. True"])
    show "reads w d (ensure_role_exists name) (\<lambda>_. True)"
      unfolding ensure_role_exists_def by (rule reads_chain [where F' = "\<lambda>_. True"]) (intro reading w TrueI)+
    show "limited a d d" by (rule refl)
    fix x and u :: unit
    assume "acting_admin L w d h x"
    then show "leads w d (chain (result (transpose_check validate_description description)) (\<lambda>description.
      chain (result (transpose_check validate_permissions ks)) (\<lambda>ks.
      chain (case ks of None \<Rightarrow> ret () | Some ks \<Rightarrow> permission_change_allowed x name ks) (\<lambda>_.
      chain (map_err admin_error (transaction (update_role_rows name description ks))) (\<lambda>_. load_role name))))) (limited a d)"
      by (intro leads_result refl checked)
  qed
qed

lemma delete_role_limited:
  assumes w: "isolated w"
  shows "leads w d (delete_role L h name) (limited a d)"
proof -
  have refl: "limited a d d" by (simp add: limited_same)
  have "leads w d (statement (delete_role_row name)) (limited a d)"
  proof (rule leads_statement, rule w, rule refl)
    fix x d' assume del: "delete_role_row name d = Inr (x, d')"
    then have "role_frame name UNIV d d'" "\<forall>x \<in> set (users d). us_role x \<noteq> name"
      by (auto simp: delete_role_row_def role_frame_def keys_of_role_iff set_eq_iff list_ex_iff split: if_splits)
    then show "limited a d d'" by (rule limited_unused_role)
  qed
  then show ?thesis
    unfolding delete_role_def role_permission_keys_def
    by (intro leads_admin leads_find leads_result leads_guard leads_select leads_map_err refl w)
qed

section \<open>Properties\<close>

text \<open>Requests served one after the other, each in a world of its own.\<close>

fun serve ::
  "platform \<Rightarrow> (uchar \<Rightarrow> uchar) \<Rightarrow> ('m site_scheme world \<times> str option \<times> account_request) list
     \<Rightarrow> 'm site_scheme \<Rightarrow> 'm site_scheme" where
  "serve L cf [] s = s"
| "serve L cf ((w, h, req) # rs) s = serve L cf rs (snd (snd (perform L cf h req w 0 s)))"

text \<open>
  C25. The accounts stay well formed. Whatever requests of the account and admin APIs are served, with
  statements failing anywhere and with other requests that keep the accounts well formed running between
  any two statements: emails, nicknames and token hashes stay unique, every user has an existing role, every
  grant names an existing role and a permission of the catalog, and the built-in roles stay, with every
  permission for the admin role, so that the panel always has somebody who can manage it.
\<close>

theorem accounts_stay_well_formed:
  assumes ok: "accounts_ok s" and st: "\<forall>(w, h, req) \<in> set rs. steady_accounts w"
  shows "accounts_ok (serve L cf rs s) \<and>
    (\<forall>x p. x \<in> set (users (tables (serve L cf rs s))) \<and> us_role x = ADMIN_ROLE \<longrightarrow>
       key p \<in> set (keys_of_user (tables (serve L cf rs s)) (us_id x)))"
proof -
  have keep: "accounts_ok (serve L cf rs s)"
    using ok st
  proof (induction L cf rs s rule: serve.induct)
    case (2 L cf w h req rs s)
    have "accounts_ok (snd (snd (perform L cf h req w 0 s)))"
      using keepsD [OF keeps_perform 2(2)] 2(3) by simp
    then show ?case using 2(1,3) by simp
  qed simp
  then show ?thesis
    using catalog_okD(2) [OF accounts_okD(4) [OF keep]] by (auto simp: keys_of_user_iff)
qed

text \<open>The requests of the admin panel and what they need.\<close>

fun admin_request :: "account_request \<Rightarrow> bool" where
  "admin_request (Register _ _ _ _) = False"
| "admin_request (Login _ _) = False"
| "admin_request (RefreshSession _) = False"
| "admin_request (Logout _) = False"
| "admin_request Me = False"
| "admin_request _ = True"

definition managing :: "uuid \<Rightarrow> database \<Rightarrow> database \<Rightarrow> bool" where
  "managing a d d' \<longleftrightarrow> d' = d \<or> key AdminAccess \<in> set (keys_of_user d a) \<and>
     (key AdminUsersManage \<in> set (keys_of_user d a) \<or> key AdminRolesManage \<in> set (keys_of_user d a))"

lemma admin_needs_permission:
  assumes w: "isolated w" and a: "\<And>n v. extract_user_id L (clock w n) h = Inr v \<Longrightarrow> v = a"
    and p: "p = AdminUsersManage \<or> p = AdminRolesManage"
  shows "leads w d (chain (admin_authorize L h (Some p)) k) (managing a d)"
proof (rule leads_chain_read [OF reads_admin_permission [OF w]])
  fix x assume "acting_admin L w d h x \<and> (\<forall>q. Some p = Some q \<longrightarrow> can x AdminAccess \<and> can x q)"
  then have "key AdminAccess \<in> set (keys_of_user d a) \<and> key p \<in> set (keys_of_user d a)"
    using acting_admin_keys(2) [of L w d h x a] a unfolding can_def by blast
  then have "managing a d d'" for d' using p unfolding managing_def by blast
  then show "leads w d (k x) (managing a d)" by (simp add: leads_def)
qed (simp add: managing_def)

lemma leads_done: "leads w d m G \<Longrightarrow> leads w d (done_with m) G"
  unfolding done_with_def by (rule leads_chain) (auto intro: leads_ret)

lemma views_change_nothing:
  assumes "isolated w" and "\<And>P. steady w P \<Longrightarrow> keeps w P m"
  shows "leads w d m (\<lambda>d'. d' = d)"
proof -
  have "steady w (\<lambda>s. tables s = d)" using assms(1) by (simp add: steady_def isolated_def)
  from assms(2) [OF this] show ?thesis by (simp add: keeps_iff leads_def)
qed

lemma perform_limited:
  assumes w: "isolated w" and ok: "users_ok d" and a: "\<And>n v. extract_user_id L (clock w n) h = Inr v \<Longrightarrow> v = a"
    and req: "admin_request req"
  shows "leads w d (perform L cf h req) (limited a d)"
    and "leads w d (perform L cf h req) (managing a d)"
proof -
  have same: "leads w d m (\<lambda>d'. d' = d) \<Longrightarrow> leads w d (done_with m) (limited a d) \<and> leads w d (done_with m) (managing a d)"
    for m :: "('a site_scheme, api_error, 'b) prog"
    by (intro conjI leads_done) (auto elim!: leads_mono intro: limited_same simp: managing_def)
  note view = same [OF views_change_nothing [OF w keeps_views(1)]] same [OF views_change_nothing [OF w keeps_views(2)]]
    same [OF views_change_nothing [OF w keeps_views(3)]] same [OF views_change_nothing [OF w keeps_views(4)]]
    same [OF views_change_nothing [OF w keeps_views(5)]] same [OF views_change_nothing [OF w keeps_views(6)]]
  show "leads w d (perform L cf h req) (limited a d)"
    using req view
    by (cases req) (auto intro!: leads_done create_role_limited [OF w ok] update_role_limited [OF w ok a]
        delete_role_limited [OF w] update_user_limited [OF w ok a])
  show "leads w d (perform L cf h req) (managing a d)"
    using req view
    by (cases req) (auto simp: create_role_def update_role_def delete_role_def update_user_def
        intro!: leads_done admin_needs_permission [OF w a])
qed


lemma update_user_quiet:
  assumes q: "quiet w" and run: "update_user L h u role w n s = (Inr x, n', s')"
  shows "tables s' = (tables s)\<lparr>users := update_where (\<lambda>x. us_id x = u) (\<lambda>x. x\<lparr>us_role := role\<rparr>) (users (tables s)),
    refresh_tokens := (if key AppLogin \<in> set (keys_of_role (tables s) role) then refresh_tokens (tables s)
      else delete_where (\<lambda>t. rt_user t = u) (refresh_tokens (tables s)))\<rparr>"
proof -
  obtain r1 n1 s1 where au: "admin_authorize L h (Some AdminUsersManage) w n s = (r1, n1, s1)" by (metis prod_cases3)
  have iso: "isolated w" using q by (simp add: quiet_def isolated_def)
  have s1: "s1 = s"
  proof -
    have "keeps w (\<lambda>s'. s' = s) (admin_authorize L h (Some AdminUsersManage))"
      by (intro keeping) (use q in \<open>simp add: quiet_def steady_def\<close>)
    from keepsD [OF this, of s n] show ?thesis using au by simp
  qed
  obtain a where r1: "r1 = Inr a"
    using run au by (cases r1) (auto simp: update_user_def chain_def)
  show ?thesis
    using run
    by (auto simp: update_user_def chain_def au r1 s1 guard_def map_err_def optional_def quiet_statement [OF q]
        result_def role_permission_keys_def set_user_role_def ret_def end_sessions_def load_user_def
        split: if_splits option.splits)
qed

text \<open>
  C27. Suspending works. After an admin moved a user to a role without \<open>app.login\<close>, none of the user's
  refresh tokens can be exchanged any more, and the user cannot sign in with the password either, whatever
  it is, as long as the tables stay as they are.
\<close>

theorem suspension_ends_sessions:
  assumes q: "quiet w" and ok: "accounts_ok s" and run: "update_user L h u role w n s = (Inr x, n', s')"
    and no: "key AppLogin \<notin> set (keys_of_role (tables s) role)" and q': "quiet w'"
  shows "(\<forall>token row. row \<in> set (refresh_tokens (tables s)) \<and> rt_user row = u \<and> hash_refresh_token L token = rt_hash row \<longrightarrow>
      fst (refresh_session L token w' k s') = Inl (UNAUTHORIZED, lit ''Invalid refresh token'')) \<and>
    (\<forall>email password user tokens. fst (login L email password w' k s') = Inr (user, tokens) \<longrightarrow> ur_id user \<noteq> u)"
proof (intro conjI allI impI)
  note d' = update_user_quiet [OF q run]
  have tokens: "refresh_tokens (tables s') = delete_where (\<lambda>t. rt_user t = u) (refresh_tokens (tables s))"
    using d' no by simp
  fix token row
  assume row: "row \<in> set (refresh_tokens (tables s)) \<and> rt_user row = u \<and> hash_refresh_token L token = rt_hash row"
  have "rt_hash y \<noteq> hash_refresh_token L token" if "y \<in> set (refresh_tokens (tables s'))" for y
  proof
    assume h: "rt_hash y = hash_refresh_token L token"
    have y: "y \<in> set (refresh_tokens (tables s))" "rt_user y \<noteq> u" using that by (simp_all add: tokens)
    have "inj_on rt_hash (set (refresh_tokens (tables s)))"
      using accounts_okD(3) [OF ok] by (simp add: tokens_ok_def distinct_map)
    then have "y = row" using y(1) row h by (auto dest: inj_onD)
    then show False using y(2) row by simp
  qed
  then show "fst (refresh_session L token w' k s') = Inl (UNAUTHORIZED, lit ''Invalid refresh token'')"
    by (subst refresh_unknown [OF q']) auto
next
  note d' = update_user_quiet [OF q run]
  fix email password user tokens
  assume "fst (login L email password w' k s') = Inr (user, tokens)"
  then obtain k' s'' where "login L email password w' k s' = (Inr (user, tokens), k', s'')" by (metis prod.collapse)
  from login_quiet [OF q' this] obtain y where y: "user = user_response_of y"
    "may_sign_in L (tables s') email password y" by auto
  have in': "key AppLogin \<in> set (keys_of_user (tables s') (us_id y))" using y(2) by (simp add: may_sign_in_def)
  show "ur_id user \<noteq> u"
  proof
    assume u: "ur_id user = u"
    then have "us_id y = u" using y(1) by (simp add: user_response_of_def)
    then obtain z where z: "z \<in> set (update_where (\<lambda>x. us_id x = u) (\<lambda>x. x\<lparr>us_role := role\<rparr>) (users (tables s)))"
      "us_id z = u" "(us_role z, key AppLogin) \<in> set (role_permissions (tables s))"
      using in' by (auto simp: keys_of_user_iff d' simp del: key.simps)
    then obtain z0 where "z = (if us_id z0 = u then z0\<lparr>us_role := role\<rparr> else z0)" unfolding set_update_where by blast
    then have "us_role z = role" using z(2) by (cases "us_id z0 = u") auto
    then show False using no z(3) by (simp add: keys_of_role_iff del: key.simps)
  qed
qed

text \<open>A panel with an admin and a user who is signed in.\<close>

definition role_of :: "str \<Rightarrow> role_row" where
  "role_of name = \<lparr>ro_name = name, ro_description = [], ro_system = True, ro_created = 0, ro_updated = 0\<rparr>"

definition sample_panel :: site where
  "sample_panel = \<lparr>tables = empty_database
     \<lparr>users := [sample_user\<lparr>us_role := ADMIN_ROLE\<rparr>, sample_user\<lparr>us_id := 8, us_email := lit ''bob@x.org'', us_nickname := lit ''bob''\<rparr>],
      roles := map role_of [lit ''admin'', lit ''user'', lit ''suspended''],
      permissions := map (\<lambda>p. (key p, [])) all_permissions,
      role_permissions := map (\<lambda>p. (ADMIN_ROLE, key p)) all_permissions @ [(lit ''user'', key AppLogin)],
      refresh_tokens := [\<lparr>rt_id = 1, rt_user = 8, rt_hash = hash_refresh_token sample_platform (lit ''t''), rt_expires = 100\<rparr>]\<rparr>,
     published = [], objects = Map.empty\<rparr>"

definition sample_header :: str where
  "sample_header = lit ''Bearer '' @ the (create_access_token sample_platform 7 5)"

lemma sample_caller: "extract_user_id sample_platform 5 (Some sample_header) = Inr 7"
proof -
  obtain t where t: "create_access_token sample_platform 7 5 = Some t"
    by (simp add: create_access_token_def sample_platform_def)
  have "validate_access_token sample_platform 5 t = Some 7"
    by (rule access_token_round_trip [OF sample_platform_laws t]) simp
  moreover have "strip_prefix (lit ''Bearer '') sample_header = Some t"
    by (simp add: strip_prefix_Some sample_header_def t)
  ultimately show ?thesis by (simp add: extract_user_id_def)
qed

lemma sample_panel_tables:
  "users (tables sample_panel) = [sample_user\<lparr>us_role := ADMIN_ROLE\<rparr>, sample_user\<lparr>us_id := 8, us_email := lit ''bob@x.org'', us_nickname := lit ''bob''\<rparr>]"
  "roles (tables sample_panel) = map role_of [lit ''admin'', lit ''user'', lit ''suspended'']"
  "permissions (tables sample_panel) = map (\<lambda>p. (key p, [])) all_permissions"
  "role_permissions (tables sample_panel) = map (\<lambda>p. (ADMIN_ROLE, key p)) all_permissions @ [(lit ''user'', key AppLogin)]"
  "refresh_tokens (tables sample_panel) = [\<lparr>rt_id = 1, rt_user = 8, rt_hash = hash_refresh_token sample_platform (lit ''t''), rt_expires = 100\<rparr>]"
  by (simp_all add: sample_panel_def)

lemma sample_panel_ok: "accounts_ok sample_panel"
proof -
  have "users_ok (tables sample_panel)"
    by (auto simp: users_ok_def sample_panel_tables sample_user_def role_of_def valid_nickname_def lit_def
        is_ascii_lowercase_def ADMIN_ROLE_def)
  moreover have "roles_ok (tables sample_panel)"
    by (auto simp: roles_ok_def sample_panel_tables role_of_def ADMIN_ROLE_def all_permissions_def)
  moreover have "tokens_ok (tables sample_panel)"
    by (simp add: tokens_ok_def sample_panel_tables sample_user_def)
  moreover have "catalog_ok (tables sample_panel)"
  proof -
    have "fst ` set (map (\<lambda>p. (key p, [] :: str)) all_permissions) = range key"
      using all_permissions_complete by (auto simp: image_iff simp del: key.simps)
    moreover have "(ADMIN_ROLE, key p) \<in> set (map (\<lambda>p. (ADMIN_ROLE, key p)) all_permissions)" for p
      using all_permissions_complete [of p] by (simp add: image_iff del: key.simps)
    ultimately show ?thesis
      by (auto simp: catalog_ok_def sample_panel_tables role_of_def BUILT_IN_def simp del: key.simps)
  qed
  ultimately show ?thesis by (simp add: accounts_ok_def)
qed

lemma quiet_steady: "quiet w \<Longrightarrow> steady w P" "quiet w \<Longrightarrow> isolated w"
  by (simp_all add: quiet_def steady_def isolated_def)

theorem accounts_stay_well_formed_witness:
  "accounts_ok (serve sample_platform id
     [(sample_world, Some sample_header, UpdateUser 8 (lit ''suspended'')),
      (sample_world, Some sample_header, CreateRole (lit ''Helpers'') [] [key MessagesSend]),
      (sample_world, None, Register (lit ''c@x.org'') (lit ''C'') (lit ''carl'') (lit ''pw''))] sample_panel)"
  by (rule conjunct1 [OF accounts_stay_well_formed [OF sample_panel_ok]])
    (use quiet_steady(1) [OF sample_world_quiet] in simp)

lemma sample_who: "\<forall>n v. extract_user_id sample_platform (clock sample_world n) (Some sample_header) = Inr v \<longrightarrow> v = 7"
  using sample_caller by (simp add: sample_world_def)


lemma sample_suspension:
  "\<exists>x n s. update_user sample_platform (Some sample_header) 8 (lit ''suspended'') sample_world 0 sample_panel = (Inr x, n, s)"
proof -
  have time: "clock sample_world k = 5" for k by (simp add: sample_world_def)
  have keys: "keys_of_user (tables sample_panel) 7 = map key all_permissions"
    "keys_of_role (tables sample_panel) (lit ''user'') = [key AppLogin]"
    "keys_of_role (tables sample_panel) (lit ''suspended'') = []"
    by (simp_all add: keys_of_user_def keys_of_role_def sample_panel_tables sample_user_def ADMIN_ROLE_def all_permissions_def)
  have held: "key p \<in> key ` set all_permissions" for p
    using all_permissions_complete [of p] by blast
  have orders: "order_asc (\<lambda>k. k) [k] = [k]" "order_asc (\<lambda>k. k) [] = []" "set (order_asc (\<lambda>k. k) ks) = set ks"
    for k :: str and ks by (simp_all add: order_asc_def)
  have names: "ro_name (role_of r) = r" for r by (simp add: role_of_def)
  have row: "set_user_role 8 (lit ''suspended'') (tables sample_panel) = Inr ((), tables sample_panel\<lparr>users :=
      [sample_user\<lparr>us_role := ADMIN_ROLE\<rparr>, sample_user\<lparr>us_id := 8, us_email := lit ''bob@x.org'',
         us_nickname := lit ''bob'', us_role := lit ''suspended''\<rparr>]\<rparr>)"
    by (simp add: set_user_role_def sample_panel_tables names sample_user_def update_where_def)
  show ?thesis
    unfolding update_user_def admin_authorize_def caller_def
    by (simp add: pure_defs quiet_statement [OF sample_world_quiet] sample_caller time user_permissions_def keys held
        can_def holds_all_def role_permission_keys_def sample_panel_tables sample_user_def orders names row
        end_sessions_def load_user_def del: key.simps lit_def)
qed

theorem suspension_ends_sessions_witness:
  "\<exists>s. s = snd (snd (update_user sample_platform (Some sample_header) 8 (lit ''suspended'') sample_world 0 sample_panel)) \<and>
     fst (refresh_session sample_platform (lit ''t'') sample_world 0 s) = Inl (UNAUTHORIZED, lit ''Invalid refresh token'')"
proof -
  obtain x n s where run: "update_user sample_platform (Some sample_header) 8 (lit ''suspended'') sample_world 0 sample_panel
      = (Inr x, n, s)" using sample_suspension by blast
  have no: "key AppLogin \<notin> set (keys_of_role (tables sample_panel) (lit ''suspended''))"
    by (simp add: keys_of_role_def sample_panel_tables ADMIN_ROLE_def all_permissions_def)
  from suspension_ends_sessions [OF sample_world_quiet sample_panel_ok run no sample_world_quiet]
  show ?thesis by (simp add: run sample_panel_tables)
qed

end
