(* ===== verification/EventSocket.thy ===== *)
theory EventSocket
  imports Auth Avatars
begin

text \<open>
  The web socket that delivers events (\<open>src/social/events.rs\<close>): the check of the origin, authentication by the first
  message, and the loop that waits for a frame of the client, an event, the heartbeat or the end of the access token.
  Which of them is ready is the input of the loop. The broadcast channel belongs to a library: its receiver yields
  the published events in their order, and reports how many it skipped when it was too slow.
\<close>

section \<open>Frames and messages\<close>

datatype ws_frame = TextFrame str | BinaryFrame "8 word list" | PingFrame | PongFrame | CloseFrame

datatype event_message = Authenticated | ErrorMessage str | RefreshMessage social_resource | AlertMessage social_alert

datatype socket_output = OutText event_message | OutPing

definition AUTH_TIMEOUT :: nat where "AUTH_TIMEOUT = seconds 5"
definition AUTH_MAX_MESSAGE_SIZE :: nat where "AUTH_MAX_MESSAGE_SIZE = 4 * 1024"

text \<open>A receiver of the hub: an event, the number of events it missed, or the end of the channel.\<close>

datatype recv_result = Got "uuid list \<times> social_payload" | Lagged nat | ChannelClosed

datatype socket_input = Incoming "ws_frame option" | EventReceived recv_result | HeartbeatTick | TokenExpired

record event_socket =
  es_out :: "socket_output list"
  es_sends :: nat
  es_awaiting_pong :: bool
  es_open :: bool

definition new_event_socket :: event_socket where
  "new_event_socket = \<lparr>es_out = [], es_sends = 0, es_awaiting_pong = False, es_open = True\<rparr>"

text \<open>The socket hands out no frame above the limit: it fails instead, like a closed connection.\<close>

definition within_limit :: "ws_frame option \<Rightarrow> ws_frame option" where
  "within_limit f = (case f of
     Some (TextFrame t) \<Rightarrow> if AUTH_MAX_MESSAGE_SIZE < byte_len t then None else f
   | Some (BinaryFrame b) \<Rightarrow> if AUTH_MAX_MESSAGE_SIZE < length b then None else f
   | _ \<Rightarrow> f)"

section \<open>Sending\<close>

text \<open>\<open>fails k\<close>: the k-th send fails, which ends the task.\<close>

definition close_socket :: "event_socket \<Rightarrow> event_socket" where
  "close_socket s = s\<lparr>es_open := False\<rparr>"

definition send_frame :: "(nat \<Rightarrow> bool) \<Rightarrow> socket_output \<Rightarrow> event_socket \<Rightarrow> event_socket" where
  "send_frame fails_at f s =
     (if fails_at (es_sends s) then close_socket (s\<lparr>es_sends := es_sends s + 1\<rparr>)
      else s\<lparr>es_out := es_out s @ [f], es_sends := es_sends s + 1\<rparr>)"

fun send_frames :: "(nat \<Rightarrow> bool) \<Rightarrow> socket_output list \<Rightarrow> event_socket \<Rightarrow> event_socket" where
  "send_frames fails_at [] s = s"
| "send_frames fails_at (f # fs) s =
     (let s' = send_frame fails_at f s in if es_open s' then send_frames fails_at fs s' else s')"

section \<open>Opening\<close>

definition default_origins :: str where
  "default_origins = lit ''http://localhost:5173,http://127.0.0.1:5173,http://localhost:5174,http://127.0.0.1:5174''"

definition is_allowed_origin :: "str option \<Rightarrow> str option \<Rightarrow> bool" where
  "is_allowed_origin configured origin_header =
     (case origin_header of None \<Rightarrow> False
      | Some origin \<Rightarrow> list_ex (\<lambda>allowed. trim allowed = origin)
          (split_at 44 (case configured of None \<Rightarrow> default_origins | Some origins \<Rightarrow> origins)))"

text \<open>The first frame, \<open>None\<close> if none came in time. The answer is the identity or the error to send, if any.\<close>

definition authenticate ::
  "platform \<Rightarrow> (str \<Rightarrow> str option) \<Rightarrow> instant \<Rightarrow> ws_frame option \<Rightarrow> event_message option + uuid \<times> int" where
  "authenticate L json now frame =
     (case frame of None \<Rightarrow> Inl None
      | Some (TextFrame payload) \<Rightarrow>
          (case json payload of None \<Rightarrow> Inl (Some (ErrorMessage (lit ''Authentication required'')))
           | Some t \<Rightarrow> (case validate_access_token_with_expiration L now t of
                None \<Rightarrow> Inl (Some (ErrorMessage (lit ''Invalid access token'')))
              | Some identity \<Rightarrow> Inr identity))
      | Some _ \<Rightarrow> Inl (Some (ErrorMessage (lit ''Authentication required''))))"

section \<open>The loop\<close>

definition message_of :: "social_payload \<Rightarrow> event_message" where
  "message_of p = (case p of Refresh r \<Rightarrow> RefreshMessage r | Alert a \<Rightarrow> AlertMessage a)"

text \<open>What the user is told: their events, and everything again when events were missed.\<close>

definition event_answers :: "uuid \<Rightarrow> recv_result \<Rightarrow> event_message list" where
  "event_answers u r = (case r of
     Got (us, p) \<Rightarrow> if u \<in> set us then [message_of p] else []
   | Lagged _ \<Rightarrow> map RefreshMessage [Calls, Conversations, Friends, Notifications]
   | ChannelClosed \<Rightarrow> [])"

fun socket_step :: "uuid \<Rightarrow> (nat \<Rightarrow> bool) \<Rightarrow> socket_input \<Rightarrow> event_socket \<Rightarrow> event_socket" where
  "socket_step u fails_at (Incoming f) s =
     (case within_limit f of None \<Rightarrow> close_socket s | Some CloseFrame \<Rightarrow> close_socket s
      | Some PongFrame \<Rightarrow> s\<lparr>es_awaiting_pong := False\<rparr> | Some _ \<Rightarrow> s)"
| "socket_step u fails_at (EventReceived r) s =
     (if r = ChannelClosed then close_socket s else send_frames fails_at (map OutText (event_answers u r)) s)"
| "socket_step u fails_at HeartbeatTick s =
     (if es_awaiting_pong s then close_socket s else send_frame fails_at OutPing (s\<lparr>es_awaiting_pong := True\<rparr>))"
| "socket_step u fails_at TokenExpired s =
     close_socket (send_frame fails_at (OutText (ErrorMessage (lit ''Access token expired''))) s)"

fun event_loop :: "uuid \<Rightarrow> (nat \<Rightarrow> bool) \<Rightarrow> socket_input list \<Rightarrow> event_socket \<Rightarrow> event_socket" where
  "event_loop u fails_at [] s = s"
| "event_loop u fails_at (i # is) s =
     (let s' = socket_step u fails_at i s in if es_open s' then event_loop u fails_at is s' else s')"

text \<open>How long the access token lasts, in seconds, when the loop starts.\<close>

definition token_seconds :: "int \<Rightarrow> instant \<Rightarrow> nat" where
  "token_seconds expires_at now = nat (max 0 (expires_at - timestamp now))"

definition handle_socket ::
  "platform \<Rightarrow> (str \<Rightarrow> str option) \<Rightarrow> (nat \<Rightarrow> bool) \<Rightarrow> instant \<Rightarrow> ws_frame option \<Rightarrow> socket_input list \<Rightarrow> event_socket" where
  "handle_socket L json fails_at now frame inputs =
     (case authenticate L json now (within_limit frame) of
        Inl answer \<Rightarrow> close_socket (case answer of None \<Rightarrow> new_event_socket
          | Some e \<Rightarrow> send_frame fails_at (OutText e) new_event_socket)
      | Inr (u, expires_at) \<Rightarrow>
          (let s = send_frame fails_at (OutText Authenticated) new_event_socket in
           if es_open s then event_loop u fails_at inputs s else s))"

definition social_events_handler ::
  "platform \<Rightarrow> (str \<Rightarrow> str option) \<Rightarrow> str option \<Rightarrow> str option \<Rightarrow> (nat \<Rightarrow> bool) \<Rightarrow> instant \<Rightarrow> ws_frame option
     \<Rightarrow> socket_input list \<Rightarrow> status + event_socket" where
  "social_events_handler L json configured origin fails_at now frame inputs =
     (if \<not> is_allowed_origin configured origin then Inl FORBIDDEN
      else Inr (handle_socket L json fails_at now frame inputs))"

section \<open>What a subscriber hears\<close>

text \<open>The receiver yields the events in order; a lagging one skips the oldest and says how many.\<close>

fun explains :: "(uuid list \<times> social_payload) list \<Rightarrow> recv_result list \<Rightarrow> bool" where
  "explains ps [] = True"
| "explains ps (Got e # rs) = (ps \<noteq> [] \<and> hd ps = e \<and> explains (tl ps) rs)"
| "explains ps (Lagged n # rs) = (0 < n \<and> n \<le> length ps \<and> explains (drop n ps) rs)"
| "explains ps (ChannelClosed # rs) = (ps = [] \<and> rs = [])"

text \<open>The events that each answer of the receiver stands for.\<close>

fun segments :: "(uuid list \<times> social_payload) list \<Rightarrow> recv_result list \<Rightarrow> (uuid list \<times> social_payload) list list" where
  "segments ps [] = []"
| "segments ps (Got e # rs) = [e] # segments (tl ps) rs"
| "segments ps (Lagged n # rs) = take n ps # segments (drop n ps) rs"
| "segments ps (ChannelClosed # rs) = [] # segments ps rs"

definition received :: "socket_input list \<Rightarrow> recv_result list" where
  "received is = List.map_filter (\<lambda>i. case i of EventReceived r \<Rightarrow> Some r | _ \<Rightarrow> None) is"

definition texts :: "socket_output list \<Rightarrow> event_message list" where
  "texts fs = List.map_filter (\<lambda>f. case f of OutText m \<Rightarrow> Some m | OutPing \<Rightarrow> None) fs"

lemma map_filter_append [simp]: "List.map_filter f (xs @ ys) = List.map_filter f xs @ List.map_filter f ys"
  by (simp add: List.map_filter_def)

lemma texts_append [simp]: "texts (xs @ ys) = texts xs @ texts ys"
  by (simp add: texts_def)

lemma texts_of [simp]: "texts [] = []" "texts (OutText m # fs) = m # texts fs" "texts (OutPing # fs) = texts fs"
  "texts (map OutText ms) = ms"
  by (simp_all add: texts_def map_filter_simps) (induction ms, simp_all add: map_filter_simps)

lemma received_simps [simp]: "received [] = []" "received (EventReceived r # is) = r # received is"
  "received (Incoming f # is) = received is" "received (HeartbeatTick # is) = received is"
  "received (TokenExpired # is) = received is"
  by (simp_all add: received_def map_filter_simps)

text \<open>Sends that succeed append.\<close>

lemma send_frame_open: "es_open (send_frame fl f s) \<Longrightarrow> es_open s \<and> es_out (send_frame fl f s) = es_out s @ [f] \<and>
    es_awaiting_pong (send_frame fl f s) = es_awaiting_pong s"
  by (simp add: send_frame_def close_socket_def split: if_splits)

lemma send_frames_open:
  "es_open (send_frames fl fs s) \<Longrightarrow> es_open s \<and> es_out (send_frames fl fs s) = es_out s @ fs \<and>
     es_awaiting_pong (send_frames fl fs s) = es_awaiting_pong s"
proof (induction fs arbitrary: s)
  case (Cons f fs)
  from Cons.prems have o: "es_open (send_frame fl f s)" "es_open (send_frames fl fs (send_frame fl f s))"
    by (simp_all add: Let_def split: if_splits)
  then show ?case using Cons.IH [OF o(2)] send_frame_open [OF o(1)] by (simp add: Let_def)
qed simp

text \<open>One round of the loop that stays open.\<close>

lemma socket_step_open:
  assumes "es_open (socket_step u fl i s)"
  shows "texts (es_out (socket_step u fl i s)) = texts (es_out s) @
      (case i of EventReceived r \<Rightarrow> event_answers u r | _ \<Rightarrow> []) \<and>
    i \<noteq> TokenExpired \<and> i \<noteq> EventReceived ChannelClosed \<and> (i = HeartbeatTick \<longrightarrow> \<not> es_awaiting_pong s) \<and>
    es_awaiting_pong (socket_step u fl i s) = (i = HeartbeatTick \<or> (es_awaiting_pong s \<and> i \<noteq> Incoming (Some PongFrame)))"
proof (cases i)
  case (Incoming f)
  with assms show ?thesis by (auto simp: close_socket_def within_limit_def split: option.splits ws_frame.splits if_splits)
next
  case (EventReceived r)
  with assms have "es_open (send_frames fl (map OutText (event_answers u r)) s)" "r \<noteq> ChannelClosed"
    by (auto simp: close_socket_def split: if_splits)
  with send_frames_open [OF this(1)] EventReceived show ?thesis by simp
next
  case HeartbeatTick
  with assms have "es_open (send_frame fl OutPing (s\<lparr>es_awaiting_pong := True\<rparr>))" "\<not> es_awaiting_pong s"
    by (auto simp: close_socket_def split: if_splits)
  with send_frame_open [OF this(1)] HeartbeatTick show ?thesis by simp
qed (use assms in \<open>simp add: close_socket_def\<close>)

lemma event_loop_open:
  assumes "es_open (event_loop u fl is s)"
  shows "texts (es_out (event_loop u fl is s)) = texts (es_out s) @ concat (map (event_answers u) (received is)) \<and>
    TokenExpired \<notin> set is \<and> ChannelClosed \<notin> set (received is)"
  using assms
proof (induction "is" arbitrary: s)
  case (Cons i "is")
  from Cons.prems have o: "es_open (socket_step u fl i s)" "es_open (event_loop u fl is (socket_step u fl i s))"
    by (simp_all add: Let_def split: if_splits)
  with Cons.IH [OF o(2)] socket_step_open [OF o(1)] show ?case by (cases i) auto
qed simp

text \<open>A socket that is still open has answered every ping before the next.\<close>

declare event_loop.simps(2) [simp del] socket_step.simps [simp del]

lemma loop_Cons_open [simp]:
  "es_open (event_loop u fl (i # is) s) \<longleftrightarrow>
     es_open (socket_step u fl i s) \<and> es_open (event_loop u fl is (socket_step u fl i s))"
  by (auto simp: Let_def event_loop.simps(2))

lemma loop_Cons: "es_open (event_loop u fl (i # is) s) \<Longrightarrow> event_loop u fl (i # is) s = event_loop u fl is (socket_step u fl i s)"
  by (simp only: loop_Cons_open) (simp add: Let_def event_loop.simps(2))

lemma loop_append:
  "es_open (event_loop u fl (xs @ ys) s) \<Longrightarrow> es_open (event_loop u fl ys (event_loop u fl xs s))"
proof (induction xs arbitrary: s)
  case (Cons x xs)
  then have "es_open (socket_step u fl x s)" by simp
  with Cons show ?case by (simp add: Let_def event_loop.simps(2))
qed simp

lemma loop_prefix: "es_open (event_loop u fl (xs @ ys) s) \<Longrightarrow> es_open s \<Longrightarrow> es_open (event_loop u fl xs s)"
  by (induction xs arbitrary: s) auto

lemma awaiting_until_pong:
  assumes "es_open (event_loop u fl ys s)" "es_awaiting_pong s" "Incoming (Some PongFrame) \<notin> set ys"
  shows "es_awaiting_pong (event_loop u fl ys s) \<and> HeartbeatTick \<notin> set ys"
  using assms
proof (induction ys arbitrary: s)
  case (Cons i ys)
  from Cons.prems(1) have o: "es_open (socket_step u fl i s)" "es_open (event_loop u fl ys (socket_step u fl i s))"
    by simp_all
  from socket_step_open [OF o(1)] Cons.prems(2,3) have "es_awaiting_pong (socket_step u fl i s)" "i \<noteq> HeartbeatTick" by auto
  with Cons.IH [OF o(2)] Cons.prems(3) o show ?case by (simp add: Let_def event_loop.simps(2))
qed simp

lemma pong_between_ticks:
  assumes "es_open (event_loop u fl (xs @ HeartbeatTick # ys @ HeartbeatTick # zs) s)"
  shows "Incoming (Some PongFrame) \<in> set ys"
proof (rule ccontr)
  assume n: "Incoming (Some PongFrame) \<notin> set ys"
  let ?t = "socket_step u fl HeartbeatTick (event_loop u fl xs s)"
  from loop_append [OF assms] have t: "es_open ?t" "es_open (event_loop u fl ((ys @ [HeartbeatTick]) @ zs) ?t)"
    by simp_all
  from socket_step_open [OF t(1)] have a: "es_awaiting_pong ?t" by simp
  have "es_open (event_loop u fl (ys @ [HeartbeatTick]) ?t)" by (rule loop_prefix [OF t(2,1)])
  from awaiting_until_pong [OF this a] n show False by simp
qed

text \<open>The segments cover what was published, in its order.\<close>

lemma segments_cover:
  "explains ps rs \<Longrightarrow> length (segments ps rs) = length rs \<and> (\<exists>k \<le> length ps. concat (segments ps rs) = take k ps)"
proof (induction ps rs rule: segments.induct)
  case (2 ps e rs)
  then obtain k where "k \<le> length (tl ps)" "concat (segments (tl ps) rs) = take k (tl ps)" "length (segments (tl ps) rs) = length rs" by auto
  with 2(2) show ?case by (cases ps) (auto intro!: exI [of _ "Suc k"])
next
  case (3 ps n rs)
  then obtain k where "k \<le> length (drop n ps)" "concat (segments (drop n ps) rs) = take k (drop n ps)"
    "length (segments (drop n ps) rs) = length rs" by auto
  with 3(2) show ?case by (auto simp: take_add intro!: exI [of _ "n + k"])
qed auto

lemma segment_answers:
  "explains ps rs \<Longrightarrow> i < length rs \<Longrightarrow> (us, Refresh r) \<in> set (segments ps rs ! i) \<Longrightarrow> u \<in> set us \<Longrightarrow>
     RefreshMessage r \<in> set (event_answers u (rs ! i))"
proof (induction ps rs arbitrary: i rule: segments.induct)
  case (2 ps e rs)
  then show ?case by (cases i) (auto simp: event_answers_def message_of_def)
next
  case (3 ps n rs)
  then show ?case by (cases i; cases r) (auto simp: event_answers_def)
qed auto

text \<open>
  C40. A socket that gets anything but an error has shown a valid token of a user. While it is open it has sent exactly
  the acknowledgement, then the events addressed to that user in the order of the hub, and every resource again
  wherever events were missed: whatever was published since it subscribed, whether received or skipped, was told to
  the user as a refresh of its resource, or still waits in the channel. Pings are answered between any two heartbeats,
  and the socket has not outlived the token.
\<close>

theorem events_reach_subscribers:
  assumes h: "social_events_handler L json configured origin fl now frame is = Inr st" and o: "es_open st"
    and x: "explains (drop k (published s)) (received is)"
  shows "\<exists>payload t u e. frame = Some (TextFrame payload) \<and> json payload = Some t \<and>
    validate_access_token_with_expiration L now t = Some (u, e) \<and> is_allowed_origin configured origin \<and>
    texts (es_out st) = Authenticated # concat (map (event_answers u) (received is)) \<and>
    (\<exists>j. concat (segments (drop k (published s)) (received is)) = take j (drop k (published s))) \<and>
    (\<forall>i < length (received is). \<forall>(us, p) \<in> set (segments (drop k (published s)) (received is) ! i).
       \<forall>r. p = Refresh r \<and> u \<in> set us \<longrightarrow> RefreshMessage r \<in> set (event_answers u (received is ! i))) \<and>
    (\<forall>xs ys zs. is = xs @ HeartbeatTick # ys @ HeartbeatTick # zs \<longrightarrow> Incoming (Some PongFrame) \<in> set ys) \<and>
    TokenExpired \<notin> set is"
proof -
  from h have st: "st = handle_socket L json fl now frame is" and a: "is_allowed_origin configured origin"
    by (auto simp: social_events_handler_def split: if_splits)
  obtain u e where u: "authenticate L json now (within_limit frame) = Inr (u, e)"
    using o by (auto simp: st handle_socket_def close_socket_def split: sum.splits option.splits)
  then obtain payload t where f: "within_limit frame = Some (TextFrame payload)" "json payload = Some t"
    "validate_access_token_with_expiration L now t = Some (u, e)"
    by (auto simp: authenticate_def split: option.splits ws_frame.splits)
  then have f': "frame = Some (TextFrame payload)" by (auto simp: within_limit_def split: option.splits ws_frame.splits if_splits)
  let ?s = "send_frame fl (OutText Authenticated) new_event_socket"
  from o u have l: "st = event_loop u fl is ?s" "es_open (event_loop u fl is ?s)" "es_open ?s"
    by (simp_all add: st handle_socket_def Let_def split: if_splits)
  have out: "texts (es_out st) = Authenticated # concat (map (event_answers u) (received is))" "TokenExpired \<notin> set is"
    using event_loop_open [OF l(2)] send_frame_open [OF l(3)] by (simp_all add: l(1) new_event_socket_def)
  have "\<forall>i < length (received is). \<forall>(us, p) \<in> set (segments (drop k (published s)) (received is) ! i).
       \<forall>r. p = Refresh r \<and> u \<in> set us \<longrightarrow> RefreshMessage r \<in> set (event_answers u (received is ! i))"
    using segment_answers [OF x] by blast
  moreover have "\<forall>xs ys zs. is = xs @ HeartbeatTick # ys @ HeartbeatTick # zs \<longrightarrow> Incoming (Some PongFrame) \<in> set ys"
    using pong_between_ticks l(2) by blast
  ultimately show ?thesis using f f' a out segments_cover [OF x] by blast
qed

text \<open>User 7 hears of a friend request, misses two events, and answers a ping.\<close>

definition sample_events :: site where
  "sample_events = sample_site\<lparr>published := [([7], Refresh Friends), ([8], Refresh Calls), ([7], Refresh Conversations)]\<rparr>"

definition sample_inputs :: "socket_input list" where
  "sample_inputs = [EventReceived (Got ([7], Refresh Friends)), HeartbeatTick, Incoming (Some PongFrame), HeartbeatTick,
     EventReceived (Lagged 2)]"

definition sample_access :: str where "sample_access = [0, 900, 0, 0, 7]"

theorem events_reach_subscribers_witness:
  "\<exists>st. social_events_handler sample_platform Some None (Some (lit ''http://localhost:5173'')) (\<lambda>_. False) 5
     (Some (TextFrame sample_access)) sample_inputs = Inr st \<and> es_open st \<and>
     texts (es_out st) = [Authenticated, RefreshMessage Friends, RefreshMessage Calls, RefreshMessage Conversations,
       RefreshMessage Friends, RefreshMessage Notifications]"
proof -
  have o: "is_allowed_origin None (Some (lit ''http://localhost:5173''))" by code_simp
  have v: "validate_access_token_with_expiration sample_platform 5 sample_access = Some (7, 900)"
    by (simp add: validate_access_token_with_expiration_def sample_platform_def sample_access_def timestamp_def seconds_def Let_def)
  have b: "\<not> 4096 < byte_len sample_access" by (simp add: sample_access_def byte_len_def len_utf8_def)
  obtain st where st: "social_events_handler sample_platform Some None (Some (lit ''http://localhost:5173'')) (\<lambda>_. False) 5
     (Some (TextFrame sample_access)) sample_inputs = Inr st" using o by (simp add: social_events_handler_def)
  have loop: "st = event_loop 7 (\<lambda>_. False) sample_inputs (send_frame (\<lambda>_. False) (OutText Authenticated) new_event_socket)"
    using st o b v by (simp add: social_events_handler_def handle_socket_def within_limit_def AUTH_MAX_MESSAGE_SIZE_def
        authenticate_def send_frame_def new_event_socket_def split: if_splits)
  have open_st: "es_open st"
    unfolding loop by (simp add: sample_inputs_def socket_step.simps send_frame_def new_event_socket_def event_answers_def
        within_limit_def)
  have "explains (drop 0 (published sample_events)) (received sample_inputs)"
    by (simp add: sample_events_def sample_inputs_def)
  from events_reach_subscribers [OF st open_st this] v
  have "texts (es_out st) = Authenticated # concat (map (event_answers 7) (received sample_inputs))" by auto
  with st open_st show ?thesis by (simp add: sample_inputs_def event_answers_def message_of_def)
qed

end
