(* ===== verification/Participant.thy ===== *)
theory Participant
  imports Messages
begin

text \<open>
  Participants and their connections (\<open>src/sfu/participant.rs\<close>). A connection holds the name of its
  outgoing queue and, once set, its WebRTC peer connection, a library object named by a handle.
\<close>

type_synonym pc_handle = nat

record participant =
  pt_id :: str
  pt_name :: str
  audio_enabled :: bool
  video_enabled :: bool
  pt_user_id :: "uuid option"
  screen_share_of :: "str option"

definition new_participant :: "str \<Rightarrow> str \<Rightarrow> participant" where
  "new_participant i n = \<lparr>pt_id = i, pt_name = n, audio_enabled = True, video_enabled = True,
     pt_user_id = None, screen_share_of = None\<rparr>"

definition toggle_audio :: "participant \<Rightarrow> bool \<Rightarrow> participant" where
  "toggle_audio p enabled = p\<lparr>audio_enabled := enabled\<rparr>"

definition toggle_video :: "participant \<Rightarrow> bool \<Rightarrow> participant" where
  "toggle_video p enabled = p\<lparr>video_enabled := enabled\<rparr>"

record participant_connection =
  participant :: participant
  sender :: str
  peer_connection :: "pc_handle option"

definition new_connection :: "participant \<Rightarrow> str \<Rightarrow> participant_connection" where
  "new_connection p ch = \<lparr>participant = p, sender = ch, peer_connection = None\<rparr>"

definition set_peer_connection ::
  "participant_connection \<Rightarrow> pc_handle \<Rightarrow> participant_connection" where
  "set_peer_connection c pc = c\<lparr>peer_connection := Some pc\<rparr>"

definition conn_send ::
  "participant_connection \<Rightarrow> signaling_message \<Rightarrow> outbox \<Rightarrow> (unit + unit) \<times> outbox" where
  "conn_send c m net = chan_send net (sender c) m"

lemma snd_conn_send [simp]: "snd (conn_send c m net) = push net (sender c) m"
  by (simp add: conn_send_def push_def)

end
