(* ===== verification/Room.thy ===== *)
theory Room
  imports Participant RateLimit
begin

text \<open>
  The meeting room of \<open>src/sfu/room.rs\<close>: membership, broadcasting, screen shares, chat history and
  reactions, and the bookkeeping of forwarded and negotiated tracks.
\<close>

section \<open>State\<close>

definition CHAT_HISTORY_CAPACITY :: nat where "CHAT_HISTORY_CAPACITY = 500"
definition MAX_CHAT_MESSAGE_REACTIONS :: nat where "MAX_CHAT_MESSAGE_REACTIONS = 20"

datatype track_kind = Audio | Video

text \<open>A remote track of the WebRTC library, by what the code reads of it.\<close>

record remote_track =
  track_id :: str
  stream_id :: str
  track_ssrc :: "32 word"
  kind :: track_kind
  codec :: nat

record sender_track_info =
  track :: remote_track
  sender_peer_connection :: pc_handle
  sender_ssrc :: "32 word"
  packet_broadcaster :: nat

type_synonym rtp_sender = nat
type_synonym track_sets = "str \<rightharpoonup> str set"

record room =
  room_id :: str
  participants :: "(str \<times> participant_connection) list"
  revoked :: bool
  denied_user_ids :: "uuid set"
  participant_tracks :: "(str \<times> sender_track_info list) list"
  negotiated_tracks :: track_sets
  pending_negotiated_tracks :: track_sets
  forwarded_tracks :: track_sets
  forwarded_senders :: "(str \<times> (str \<times> rtp_sender) list) list"
  chat_history :: "chat_message_payload list"
  last_chat_message_id :: nat
  recent_chat_messages :: "instant list"

definition new_room :: "str \<Rightarrow> room" where
  "new_room i = \<lparr>room_id = i, participants = [], revoked = False, denied_user_ids = {},
     participant_tracks = [], negotiated_tracks = Map.empty,
     pending_negotiated_tracks = Map.empty, forwarded_tracks = Map.empty, forwarded_senders = [],
     chat_history = [], last_chat_message_id = 0, recent_chat_messages = []\<rparr>"

definition deny_user :: "uuid \<Rightarrow> room \<Rightarrow> room" where
  "deny_user u r = r\<lparr>denied_user_ids := insert u (denied_user_ids r)\<rparr>"

definition is_user_denied :: "room \<Rightarrow> uuid \<Rightarrow> bool" where
  "is_user_denied r u \<longleftrightarrow> u \<in> denied_user_ids r"

definition contains_participant :: "room \<Rightarrow> str \<Rightarrow> bool" where
  "contains_participant r i \<longleftrightarrow> map_of (participants r) i \<noteq> None"

definition has_active_participant :: "room \<Rightarrow> str \<Rightarrow> uuid option \<Rightarrow> bool" where
  "has_active_participant r i u \<longleftrightarrow>
     \<not> revoked r \<and> \<not> (case u of None \<Rightarrow> False | Some u \<Rightarrow> is_user_denied r u) \<and>
     contains_participant r i"

section \<open>Broadcasting\<close>

definition broadcast :: "room \<Rightarrow> signaling_message \<Rightarrow> outbox \<Rightarrow> outbox" where
  "broadcast r m net = fold (\<lambda>(i, c) net. snd (conn_send c m net)) (participants r) net"

definition broadcast_except :: "room \<Rightarrow> str \<Rightarrow> signaling_message \<Rightarrow> outbox \<Rightarrow> outbox" where
  "broadcast_except r ex m net =
     fold (\<lambda>(i, c) net. if i \<noteq> ex then snd (conn_send c m net) else net) (participants r) net"

definition send_to :: "room \<Rightarrow> str \<Rightarrow> signaling_message \<Rightarrow> outbox \<Rightarrow> (unit + unit) \<times> outbox" where
  "send_to r target m net =
     (case map_of (participants r) target of None \<Rightarrow> (Inl (), net) | Some c \<Rightarrow> conn_send c m net)"

definition participant_count :: "room \<Rightarrow> nat" where
  "participant_count r = length (participants r)"

definition room_is_empty :: "room \<Rightarrow> bool" where
  "room_is_empty r \<longleftrightarrow> participants r = []"

definition get_participants_info :: "room \<Rightarrow> (str \<times> str) list" where
  "get_participants_info r = map (\<lambda>(i, c). (i, pt_name (participant c))) (participants r)"

definition get_participants_with_media_state ::
  "room \<Rightarrow> (str \<times> str \<times> bool \<times> bool \<times> str option) list" where
  "get_participants_with_media_state r =
     map (\<lambda>(i, c). (i, pt_name (participant c), audio_enabled (participant c),
                    video_enabled (participant c), screen_share_of (participant c)))
       (participants r)"

section \<open>Screen shares\<close>

definition share_owner :: "room \<Rightarrow> str \<Rightarrow> str option" where
  "share_owner r i = Option.bind (map_of (participants r) i) (\<lambda>c. screen_share_of (participant c))"

definition should_forward :: "room \<Rightarrow> str \<Rightarrow> str \<Rightarrow> bool" where
  "should_forward r sender_id receiver_id \<longleftrightarrow>
     (if sender_id = receiver_id then False
      else share_owner r receiver_id = None \<and> share_owner r sender_id \<noteq> Some receiver_id)"

definition screen_shares_of :: "room \<Rightarrow> str \<Rightarrow> str list" where
  "screen_shares_of r owner =
     map fst (filter (\<lambda>(i, c). screen_share_of (participant c) = Some owner) (participants r))"

section \<open>Joining\<close>

definition add_participant :: "participant_connection \<Rightarrow> room \<times> outbox \<Rightarrow> room \<times> outbox" where
  "add_participant c = (\<lambda>(r, net).
     let i = pt_id (participant c);
         r' = r\<lparr>participants := AList.update i c (participants r)\<rparr>
     in (r', broadcast_except r' i
               (ParticipantJoined i (pt_name (participant c)) (screen_share_of (participant c))) net))"

section \<open>Leaving\<close>

text \<open>
  What a removal starts outside the room lock: closing the departed peer connection, and the tasks
  that detach the departed participant's senders from a receiver.
\<close>

datatype effect = ClosePeer pc_handle | RetireSenders str pc_handle "rtp_sender list"

definition remove_participant_tracks :: "str \<Rightarrow> room \<Rightarrow> room" where
  "remove_participant_tracks i r =
     r\<lparr>participant_tracks := AList.delete i (participant_tracks r)\<rparr>"

text \<open>\<open>map.remove(id)\<close>, then \<open>retain\<close> on every remaining set of track IDs.\<close>

definition forget_tracks :: "str \<Rightarrow> str list \<Rightarrow> track_sets \<Rightarrow> track_sets" where
  "forget_tracks i removed m = (\<lambda>k. if k = i then None else map_option (\<lambda>s. s - set removed) (m k))"

definition retire_senders_from :: "str \<Rightarrow> room \<Rightarrow> room \<times> effect list" where
  "retire_senders_from source r =
     (let senders = AList.delete source (forwarded_senders r);
          kept = map (\<lambda>(receiver, es). (receiver, filter (\<lambda>e. fst e \<noteq> source) es)) senders;
          stale = List.map_filter (\<lambda>(receiver, es).
                    let gone = filter (\<lambda>e. fst e = source) es
                    in if gone \<noteq> [] then Some (receiver, map snd gone) else None) senders;
          tasks = List.map_filter (\<lambda>(receiver, ss).
                    Option.bind (map_of (participants r) receiver) (\<lambda>c.
                      Option.bind (peer_connection c) (\<lambda>pc. Some (RetireSenders receiver pc ss)))) stale
      in (r\<lparr>forwarded_senders := kept\<rparr>, tasks))"

definition track_ids_of :: "room \<Rightarrow> str \<Rightarrow> str list" where
  "track_ids_of r i = (case map_of (participant_tracks r) i of
     None \<Rightarrow> [] | Some ts \<Rightarrow> map (\<lambda>t. track_id (track t)) ts)"

definition remove_participant :: "str \<Rightarrow> room \<times> outbox \<Rightarrow> room \<times> outbox \<times> effect list" where
  "remove_participant i = (\<lambda>(r, net).
     case map_of (participants r) i of
       None \<Rightarrow> (r, net, [])
     | Some c \<Rightarrow>
         (let close = (case peer_connection c of None \<Rightarrow> [] | Some pc \<Rightarrow> [ClosePeer pc]);
              r1 = r\<lparr>participants := AList.delete i (participants r)\<rparr>;
              removed = track_ids_of r1 i;
              r2 = remove_participant_tracks i r1;
              r3 = r2\<lparr>negotiated_tracks := forget_tracks i removed (negotiated_tracks r2),
                      pending_negotiated_tracks :=
                        forget_tracks i removed (pending_negotiated_tracks r2),
                      forwarded_tracks := forget_tracks i removed (forwarded_tracks r2)\<rparr>;
              (r4, tasks) = retire_senders_from i r3
          in (r4, broadcast r4 (ParticipantLeft i) net, close @ tasks)))"

section \<open>Chat\<close>

definition room_allow_chat_message :: "instant \<Rightarrow> room \<Rightarrow> bool \<times> room" where
  "room_allow_chat_message now r =
     (let (ok, recent) = allow_chat_message now (recent_chat_messages r)
      in (ok, r\<lparr>recent_chat_messages := recent\<rparr>))"

definition record_chat_message :: "chat_message_payload \<Rightarrow> room \<Rightarrow> chat_message_payload \<times> room" where
  "record_chat_message m r =
     (let last = last_chat_message_id r + 1;
          m = m\<lparr>cm_id := last\<rparr>;
          h = chat_history r;
          h = (if length h = CHAT_HISTORY_CAPACITY then tl h else h)
      in (m, r\<lparr>last_chat_message_id := last, chat_history := h @ [m]\<rparr>))"

definition chat_reply_preview_of :: "room \<Rightarrow> nat \<Rightarrow> chat_reply_preview option" where
  "chat_reply_preview_of r mid =
     map_option (\<lambda>m. \<lparr>rp_id = cm_id m, rp_participant_id = cm_participant_id m,
                      rp_participant_name = cm_participant_name m,
                      rp_message = excerpt (cm_message m)\<rparr>)
       (find (\<lambda>m. cm_id m = mid) (chat_history r))"

text \<open>\<open>position(p)\<close>: the index of the first element that satisfies \<open>p\<close>.\<close>

fun position :: "('a \<Rightarrow> bool) \<Rightarrow> 'a list \<Rightarrow> nat option" where
  "position P [] = None"
| "position P (x # xs) = (if P x then Some 0 else map_option Suc (position P xs))"

text \<open>\<open>Vec::remove(index)\<close>.\<close>

definition remove_at :: "nat \<Rightarrow> 'a list \<Rightarrow> 'a list" where
  "remove_at k xs = take k xs @ drop (Suc k) xs"

definition toggle_reactions ::
  "str \<Rightarrow> str \<Rightarrow> chat_message_reaction list \<Rightarrow> chat_message_reaction list option" where
  "toggle_reactions who e rs =
     (case position (\<lambda>x. emoji x = e) rs of
        Some k \<Rightarrow>
          (let x = rs ! k in
           case position (\<lambda>i. i = who) (participant_ids x) of
             Some j \<Rightarrow>
               (let ids = remove_at j (participant_ids x)
                in Some (if ids = [] then remove_at k rs else rs[k := x\<lparr>participant_ids := ids\<rparr>]))
           | None \<Rightarrow> Some (rs[k := x\<lparr>participant_ids := participant_ids x @ [who]\<rparr>]))
      | None \<Rightarrow>
          (if length rs < MAX_CHAT_MESSAGE_REACTIONS
           then Some (rs @ [\<lparr>emoji = e, participant_ids = [who]\<rparr>]) else None))"

definition toggle_chat_reaction ::
  "nat \<Rightarrow> str \<Rightarrow> str \<Rightarrow> room \<Rightarrow> chat_message_reaction list option \<times> room" where
  "toggle_chat_reaction mid who e r =
     (case position (\<lambda>m. cm_id m = mid) (chat_history r) of
        None \<Rightarrow> (None, r)
      | Some k \<Rightarrow>
          (let m = chat_history r ! k in
           case toggle_reactions who e (cm_reactions m) of
             None \<Rightarrow> (None, r)
           | Some rs \<Rightarrow>
               (Some rs, r\<lparr>chat_history := (chat_history r)[k := m\<lparr>cm_reactions := rs\<rparr>]\<rparr>)))"

section \<open>Well-formed rooms\<close>

text \<open>
  Hash maps have distinct keys, and a participant is stored under its own ID with the queue of its
  own connection.
\<close>

definition wf_room :: "room \<Rightarrow> bool" where
  "wf_room r \<longleftrightarrow>
     distinct (map fst (participants r)) \<and>
     (\<forall>(i, c) \<in> set (participants r). pt_id (participant c) = i \<and> sender c = i) \<and>
     distinct (map fst (participant_tracks r)) \<and> distinct (map fst (forwarded_senders r))"

abbreviation member_ids :: "room \<Rightarrow> str set" where
  "member_ids r \<equiv> fst ` set (participants r)"

lemma contains_participant_iff: "contains_participant r i \<longleftrightarrow> i \<in> member_ids r"
  by (simp add: contains_participant_def map_of_eq_None_iff)

lemma wf_room_new [simp]: "wf_room (new_room i)"
  by (simp add: wf_room_def new_room_def)

lemma wf_room_senders: "wf_room r \<Longrightarrow> \<forall>(i, c) \<in> set (participants r). sender c = i"
  by (auto simp: wf_room_def)

lemma wf_room_distinct: "wf_room r \<Longrightarrow> distinct (map fst (participants r))"
  by (simp add: wf_room_def)

lemma wf_room_sender: "wf_room r \<Longrightarrow> (i, c) \<in> set (participants r) \<Longrightarrow> sender c = i"
  by (auto simp: wf_room_def)

lemma fold_push_apply:
  assumes "distinct (map fst cs)" and "\<forall>(i, c) \<in> set cs. sender c = i"
  shows "fold (\<lambda>(i, c) net. if P i then snd (conn_send c m net) else net) cs net j =
     (if j \<in> fst ` set cs \<and> P j then map_option (\<lambda>q. q @ [m]) (net j) else net j)"
  using assms
proof (induction cs arbitrary: net)
  case Nil
  show ?case by simp
next
  case (Cons a cs)
  obtain i c where a: "a = (i, c)" by (cases a)
  with Cons show ?case by (auto simp: push_apply)
qed

text \<open>A broadcast appends one message to the queue of each member, and to no other queue.\<close>

lemma broadcast_except_apply:
  assumes "wf_room r"
  shows "broadcast_except r ex m net j =
     (if j \<in> member_ids r \<and> j \<noteq> ex then map_option (\<lambda>q. q @ [m]) (net j) else net j)"
  unfolding broadcast_except_def
  using fold_push_apply [OF wf_room_distinct wf_room_senders, OF assms assms, of "\<lambda>i. i \<noteq> ex"]
  by simp

lemma broadcast_apply:
  assumes "wf_room r"
  shows "broadcast r m net j =
     (if j \<in> member_ids r then map_option (\<lambda>q. q @ [m]) (net j) else net j)"
  unfolding broadcast_def
  using fold_push_apply [OF wf_room_distinct wf_room_senders, OF assms assms, of "\<lambda>_. True"]
  by simp

lemma dom_broadcast: "wf_room r \<Longrightarrow> dom (broadcast r m net) = dom net"
  by (auto simp: dom_def broadcast_apply)

lemma dom_broadcast_except: "wf_room r \<Longrightarrow> dom (broadcast_except r ex m net) = dom net"
  by (auto simp: dom_def broadcast_except_apply)

section \<open>Membership lemmas\<close>

lemma add_participant_room:
  "fst (add_participant c (r, net)) =
     r\<lparr>participants := AList.update (pt_id (participant c)) c (participants r)\<rparr>"
  by (simp add: add_participant_def Let_def)

lemma wf_add_participant:
  assumes "wf_room r" and "sender c = pt_id (participant c)"
  shows "wf_room (fst (add_participant c (r, net)))"
  using assms
  by (auto simp: wf_room_def add_participant_room AList.distinct_update dest: hm_set_update)

lemma member_ids_add [hm_simps]:
  "member_ids (fst (add_participant c (r, net))) = insert (pt_id (participant c)) (member_ids r)"
  by (simp add: add_participant_room hm_simps)

text \<open>Removing a participant: the room afterwards, field by field.\<close>

lemma remove_participant_absent:
  "i \<notin> member_ids r \<Longrightarrow> remove_participant i (r, net) = (r, net, [])"
  by (simp add: remove_participant_def map_of_eq_None_iff [THEN iffD2])

definition kept_senders :: "str \<Rightarrow> room \<Rightarrow> (str \<times> (str \<times> rtp_sender) list) list" where
  "kept_senders i r =
     map (\<lambda>(receiver, es). (receiver, filter (\<lambda>e. fst e \<noteq> i) es)) (AList.delete i (forwarded_senders r))"

lemma track_ids_of_participants [simp]:
  "track_ids_of (r\<lparr>participants := ps\<rparr>) i = track_ids_of r i"
  by (simp add: track_ids_of_def)

lemma remove_participant_room:
  assumes "i \<in> member_ids r"
  shows "fst (remove_participant i (r, net)) =
     r\<lparr>participants := AList.delete i (participants r),
       participant_tracks := AList.delete i (participant_tracks r),
       negotiated_tracks := forget_tracks i (track_ids_of r i) (negotiated_tracks r),
       pending_negotiated_tracks := forget_tracks i (track_ids_of r i) (pending_negotiated_tracks r),
       forwarded_tracks := forget_tracks i (track_ids_of r i) (forwarded_tracks r),
       forwarded_senders := kept_senders i r\<rparr>"
proof -
  from assms obtain c where "map_of (participants r) i = Some c"
    by (metis map_of_eq_None_iff option.exhaust)
  then show ?thesis
    by (simp add: remove_participant_def Let_def split_beta retire_senders_from_def kept_senders_def
        remove_participant_tracks_def)
qed

lemma remove_participant_net:
  assumes "i \<in> member_ids r"
  shows "fst (snd (remove_participant i (r, net))) =
     broadcast (fst (remove_participant i (r, net))) (ParticipantLeft i) net"
proof -
  from assms obtain c where "map_of (participants r) i = Some c"
    by (metis map_of_eq_None_iff option.exhaust)
  then show ?thesis
    by (simp add: remove_participant_def Let_def split_beta)
qed

lemma member_ids_remove [hm_simps]:
  "member_ids (fst (remove_participant i (r, net))) = member_ids r - {i}"
  by (cases "i \<in> member_ids r")
     (simp_all add: remove_participant_room remove_participant_absent hm_simps)

lemma wf_remove_participant:
  assumes "wf_room r"
  shows "wf_room (fst (remove_participant i (r, net)))"
proof (cases "i \<in> member_ids r")
  case True
  have "map fst (kept_senders i r) = map fst (AList.delete i (forwarded_senders r))"
    by (simp add: kept_senders_def split_beta comp_def)
  then show ?thesis
    using assms True
    by (auto simp: wf_room_def remove_participant_room hm_set_delete AList.distinct_delete)
next
  case False
  then show ?thesis using assms by (simp add: remove_participant_absent)
qed

text \<open>The tasks a removal schedules: exactly the live receivers that were getting the media.\<close>

lemma retire_tasks:
  assumes "distinct (map fst (forwarded_senders r))"
  shows "RetireSenders receiver pc ss \<in> set (snd (retire_senders_from i r)) \<longleftrightarrow>
     (\<exists>es c. receiver \<noteq> i \<and> map_of (forwarded_senders r) receiver = Some es \<and>
        ss = map snd (filter (\<lambda>e. fst e = i) es) \<and> ss \<noteq> [] \<and>
        map_of (participants r) receiver = Some c \<and> peer_connection c = Some pc)"
proof -
  have mem: "(a, es) \<in> set (AList.delete i (forwarded_senders r)) \<longleftrightarrow>
      a \<noteq> i \<and> map_of (forwarded_senders r) a = Some es" for a es
    using assms by (auto simp: hm_set_delete)
  let ?stale = "List.map_filter (\<lambda>(receiver, es).
      if filter (\<lambda>e. fst e = i) es \<noteq> []
      then Some (receiver, map snd (filter (\<lambda>e. fst e = i) es)) else None)
      (AList.delete i (forwarded_senders r))"
  have stale: "(a, xs) \<in> set ?stale \<longleftrightarrow>
      (\<exists>es. a \<noteq> i \<and> map_of (forwarded_senders r) a = Some es \<and>
         xs = map snd (filter (\<lambda>e. fst e = i) es) \<and> xs \<noteq> [])" for a xs
  proof
    assume "(a, xs) \<in> set ?stale"
    then show "\<exists>es. a \<noteq> i \<and> map_of (forwarded_senders r) a = Some es \<and>
        xs = map snd (filter (\<lambda>e. fst e = i) es) \<and> xs \<noteq> []"
      by (auto simp: set_map_filter_iff mem split: if_splits)
  next
    assume "\<exists>es. a \<noteq> i \<and> map_of (forwarded_senders r) a = Some es \<and>
        xs = map snd (filter (\<lambda>e. fst e = i) es) \<and> xs \<noteq> []"
    then obtain es where "(a, es) \<in> set (AList.delete i (forwarded_senders r))"
        "xs = map snd (filter (\<lambda>e. fst e = i) es)" "xs \<noteq> []" unfolding mem by blast
    then show "(a, xs) \<in> set ?stale"
      unfolding set_map_filter_iff by (intro bexI [of _ "(a, es)"]) simp_all
  qed
  have "RetireSenders receiver pc ss \<in> set (snd (retire_senders_from i r)) \<longleftrightarrow>
      (\<exists>a xs c. (a, xs) \<in> set ?stale \<and> map_of (participants r) a = Some c \<and>
         peer_connection c = Some pc \<and> receiver = a \<and> ss = xs)"
    unfolding retire_senders_from_def Let_def snd_conv set_map_filter_iff
      [where xs = ?stale]
    by (auto simp: bind_eq_Some_conv Bex_def)
  then show ?thesis unfolding stale by blast
qed

text \<open>A room in which nothing refers to a participant or to the given tracks.\<close>

definition no_trace :: "str \<Rightarrow> str list \<Rightarrow> room \<Rightarrow> bool" where
  "no_trace i tids r \<longleftrightarrow>
     i \<notin> member_ids r \<and> i \<notin> fst ` set (participant_tracks r) \<and>
     i \<notin> fst ` set (forwarded_senders r) \<and>
     (\<forall>(receiver, es) \<in> set (forwarded_senders r). \<forall>e \<in> set es. fst e \<noteq> i) \<and>
     (\<forall>m \<in> {negotiated_tracks r, pending_negotiated_tracks r, forwarded_tracks r}.
        m i = None \<and> (\<forall>j s. m j = Some s \<longrightarrow> s \<inter> set tids = {}))"

lemma no_trace_remove:
  assumes "i \<in> member_ids r"
  shows "no_trace i (track_ids_of r i) (fst (remove_participant i (r, net)))"
  using assms
  by (auto simp: no_trace_def remove_participant_room hm_set_delete forget_tracks_def kept_senders_def
      split: if_splits)

lemma remove_participant_effects:
  assumes "wf_room r" and "i \<in> member_ids r"
  shows "RetireSenders receiver pc ss \<in> set (snd (snd (remove_participant i (r, net)))) \<longleftrightarrow>
     (\<exists>es c. receiver \<noteq> i \<and> map_of (forwarded_senders r) receiver = Some es \<and>
        ss = map snd (filter (\<lambda>e. fst e = i) es) \<and> ss \<noteq> [] \<and>
        map_of (participants r) receiver = Some c \<and> peer_connection c = Some pc)"
proof -
  from assms(2) obtain c where c: "map_of (participants r) i = Some c"
    by (metis map_of_eq_None_iff option.exhaust)
  let ?r = "r\<lparr>participants := AList.delete i (participants r),
       participant_tracks := AList.delete i (participant_tracks r),
       negotiated_tracks := forget_tracks i (track_ids_of r i) (negotiated_tracks r),
       pending_negotiated_tracks := forget_tracks i (track_ids_of r i) (pending_negotiated_tracks r),
       forwarded_tracks := forget_tracks i (track_ids_of r i) (forwarded_tracks r)\<rparr>"
  have "snd (snd (remove_participant i (r, net))) =
      (case peer_connection c of None \<Rightarrow> [] | Some pc \<Rightarrow> [ClosePeer pc]) @ snd (retire_senders_from i ?r)"
    using c by (simp add: remove_participant_def Let_def split_beta remove_participant_tracks_def)
  then have "RetireSenders receiver pc ss \<in> set (snd (snd (remove_participant i (r, net)))) \<longleftrightarrow>
      RetireSenders receiver pc ss \<in> set (snd (retire_senders_from i ?r))"
    by (auto split: option.splits)
  also have "\<dots> \<longleftrightarrow> (\<exists>es c. receiver \<noteq> i \<and> map_of (forwarded_senders r) receiver = Some es \<and>
        ss = map snd (filter (\<lambda>e. fst e = i) es) \<and> ss \<noteq> [] \<and>
        map_of (participants r) receiver = Some c \<and> peer_connection c = Some pc)"
    using assms(1) by (subst retire_tasks) (auto simp: wf_room_def hm_get_delete)
  finally show ?thesis .
qed

section \<open>Chat lemmas\<close>

lemma position_Some:
  "position P xs = Some k \<longleftrightarrow> k < length xs \<and> P (xs ! k) \<and> (\<forall>j < k. \<not> P (xs ! j))"
  by (induction xs arbitrary: k) (auto simp: less_Suc_eq_0_disj split: nat.splits, (case_tac k; auto)+)

lemma position_None: "position P xs = None \<longleftrightarrow> (\<forall>x \<in> set xs. \<not> P x)"
  by (induction xs) auto

lemma remove_at_lemmas:
  assumes "k < length xs" and "distinct xs"
  shows "set (remove_at k xs) = set xs - {xs ! k}" and "distinct (remove_at k xs)"
    and "length (remove_at k xs) = length xs - 1"
proof -
  have xs: "xs = take k xs @ xs ! k # drop (Suc k) xs"
    using assms(1) by (rule id_take_nth_drop)
  with assms(2) have "distinct (take k xs @ xs ! k # drop (Suc k) xs)" by simp
  then show "distinct (remove_at k xs)" by (auto simp: remove_at_def)
  from xs have "set xs = insert (xs ! k) (set (take k xs) \<union> set (drop (Suc k) xs))"
    by (metis Un_insert_right list.simps(15) set_append)
  moreover have "xs ! k \<notin> set (take k xs) \<union> set (drop (Suc k) xs)"
    using \<open>distinct (take k xs @ xs ! k # drop (Suc k) xs)\<close> by auto
  ultimately show "set (remove_at k xs) = set xs - {xs ! k}" by (auto simp: remove_at_def)
  show "length (remove_at k xs) = length xs - 1" using assms(1) by (simp add: remove_at_def)
qed

lemma map_remove_at: "map f (remove_at k xs) = remove_at k (map f xs)"
  by (simp add: remove_at_def take_map drop_map)

definition reactions_wf :: "chat_message_reaction list \<Rightarrow> bool" where
  "reactions_wf rs \<longleftrightarrow>
     distinct (map emoji rs) \<and> length rs \<le> MAX_CHAT_MESSAGE_REACTIONS \<and>
     (\<forall>x \<in> set rs. participant_ids x \<noteq> [] \<and> distinct (participant_ids x))"

text \<open>Who reacted with what: the meaning of a reaction list.\<close>

definition reaction_rel :: "chat_message_reaction list \<Rightarrow> (str \<times> str) set" where
  "reaction_rel rs = {(e, i). \<exists>x \<in> set rs. emoji x = e \<and> i \<in> set (participant_ids x)}"

lemma reactions_emoji_nth:
  assumes "reactions_wf rs" and "k < length rs" and "x \<in> set rs" and "emoji x = emoji (rs ! k)"
  shows "x = rs ! k"
  using assms unfolding reactions_wf_def
  by (metis distinct_map in_set_conv_nth inj_on_def)

lemma reaction_rel_update:
  assumes wf: "reactions_wf rs" and k: "k < length rs"
  shows "reaction_rel (rs[k := x\<lparr>participant_ids := ids\<rparr>]) =
     {(e, i) \<in> reaction_rel rs. e \<noteq> emoji (rs ! k)} \<union> {emoji x} \<times> set ids"
    (is "?L = ?R")
proof -
  have "set (rs[k := y]) = insert y (set rs - {rs ! k})" for y
    using wf k unfolding reactions_wf_def by (simp add: set_update_distinct distinct_map)
  then show ?thesis
    using reactions_emoji_nth [OF wf k] k by (fastforce simp: reaction_rel_def)
qed

lemma reaction_rel_remove:
  assumes wf: "reactions_wf rs" and k: "k < length rs"
  shows "reaction_rel (remove_at k rs) = {(e, i) \<in> reaction_rel rs. e \<noteq> emoji (rs ! k)}"
proof -
  have "set (remove_at k rs) = set rs - {rs ! k}"
    using wf k unfolding reactions_wf_def by (intro remove_at_lemmas) (simp_all add: distinct_map)
  then show ?thesis
    using reactions_emoji_nth [OF wf k] k by (fastforce simp: reaction_rel_def)
qed

lemma reaction_rel_nth:
  assumes "reactions_wf rs" and "k < length rs"
  shows "(emoji (rs ! k), i) \<in> reaction_rel rs \<longleftrightarrow> i \<in> set (participant_ids (rs ! k))"
  using assms reactions_emoji_nth [OF assms] by (auto simp: reaction_rel_def)

lemma reactions_wf_update:
  assumes wf: "reactions_wf rs" and k: "k < length rs" and ids: "ids \<noteq> []" "distinct ids"
  shows "reactions_wf (rs[k := (rs ! k)\<lparr>participant_ids := ids\<rparr>])"
proof -
  have "map emoji (rs[k := (rs ! k)\<lparr>participant_ids := ids\<rparr>]) = map emoji rs"
    using k by (simp add: map_update list_update_same_conv)
  with wf ids show ?thesis
    unfolding reactions_wf_def by (auto dest!: set_update_subset_insert [THEN subsetD])
qed

lemma reactions_wf_remove:
  assumes wf: "reactions_wf rs" and k: "k < length rs"
  shows "reactions_wf (remove_at k rs)"
proof -
  have "distinct (map emoji rs)" using wf by (simp add: reactions_wf_def)
  then have "distinct (map emoji (remove_at k rs))"
    using k by (simp add: map_remove_at remove_at_lemmas)
  moreover have "set (remove_at k rs) \<subseteq> set rs"
    by (auto simp: remove_at_def dest: in_set_takeD in_set_dropD)
  ultimately show ?thesis
    using wf k unfolding reactions_wf_def by (auto simp: remove_at_def)
qed

text \<open>One toggle keeps the list well formed and flips exactly one pair of its relation.\<close>

lemma toggle_reactions_correct:
  assumes wf: "reactions_wf rs" and t: "toggle_reactions who e rs = Some rs'"
  shows "reactions_wf rs' \<and> reaction_rel rs' =
     (if (e, who) \<in> reaction_rel rs then reaction_rel rs - {(e, who)}
      else insert (e, who) (reaction_rel rs))"
proof (cases "position (\<lambda>x. emoji x = e) rs")
  case None
  then have no: "\<forall>x \<in> set rs. emoji x \<noteq> e" by (simp add: position_None)
  with t None have rs': "rs' = rs @ [\<lparr>emoji = e, participant_ids = [who]\<rparr>]"
      "length rs < MAX_CHAT_MESSAGE_REACTIONS"
    by (auto simp: toggle_reactions_def split: if_splits)
  with wf no show ?thesis by (auto simp: reactions_wf_def reaction_rel_def)
next
  case (Some k)
  then have k: "k < length rs" and e: "e = emoji (rs ! k)" by (auto simp: position_Some)
  let ?x = "rs ! k" and ?ids = "participant_ids (rs ! k)"
  have d: "distinct ?ids" using wf k by (auto simp: reactions_wf_def)
  note rel = reaction_rel_nth [OF wf k]
  define R where "R = {(f, i) \<in> reaction_rel rs. f \<noteq> e}"
  have old: "reaction_rel rs = R \<union> {e} \<times> set ?ids"
    using rel e by (auto simp: R_def)
  have notR: "(e, i) \<notin> R" for i by (simp add: R_def)
  have upd: "reaction_rel (rs[k := ?x\<lparr>participant_ids := ids\<rparr>]) = R \<union> {e} \<times> set ids" for ids
    using e by (simp add: reaction_rel_update [OF wf k] R_def)
  have del: "reaction_rel (remove_at k rs) = R"
    using e by (simp add: reaction_rel_remove [OF wf k] R_def)
  show ?thesis
  proof (cases "position (\<lambda>i. i = who) ?ids")
    case None
    then have no: "who \<notin> set ?ids" by (auto simp: position_None)
    with t Some None have "rs' = rs[k := ?x\<lparr>participant_ids := ?ids @ [who]\<rparr>]"
      by (simp add: toggle_reactions_def Let_def)
    then show ?thesis
      using no d notR reactions_wf_update [OF wf k, of "?ids @ [who]"]
      by (auto simp: old upd)
  next
    case (Some j)
    then have j: "j < length ?ids" "?ids ! j = who" by (auto simp: position_Some)
    let ?ids' = "remove_at j ?ids"
    have ids': "set ?ids' = set ?ids - {who}" "distinct ?ids'"
      using remove_at_lemmas [OF j(1) d] j(2) by simp_all
    have who: "who \<in> set ?ids" using j by auto
    have rs': "rs' = (if ?ids' = [] then remove_at k rs else rs[k := ?x\<lparr>participant_ids := ?ids'\<rparr>])"
      using t Some \<open>position (\<lambda>x. emoji x = e) rs = Some k\<close>
      by (simp add: toggle_reactions_def Let_def split: if_splits)
    show ?thesis
    proof (cases "?ids' = []")
      case True
      then have "set ?ids = {who}" using ids' j by (metis Diff_eq_empty_iff list.set(1) nth_mem
        subset_singleton_iff empty_iff)
      with True rs' notR show ?thesis
        by (auto simp: old del reactions_wf_remove [OF wf k])
    next
      case False
      with rs' have "rs' = rs[k := ?x\<lparr>participant_ids := ?ids'\<rparr>]" by simp
      then show ?thesis
        using False who ids' notR reactions_wf_update [OF wf k False] by (auto simp: old upd)
    qed
  qed
qed

lemma toggle_reactions_None:
  "toggle_reactions who e rs = None \<longleftrightarrow>
     (\<forall>x \<in> set rs. emoji x \<noteq> e) \<and> MAX_CHAT_MESSAGE_REACTIONS \<le> length rs"
proof (cases "position (\<lambda>x. emoji x = e) rs")
  case None
  then have "\<forall>x \<in> set rs. emoji x \<noteq> e" by (simp add: position_None)
  with None show ?thesis by (simp add: toggle_reactions_def not_less)
next
  case (Some k)
  then have "k < length rs" "emoji (rs ! k) = e" by (simp_all add: position_Some)
  then have "\<exists>x \<in> set rs. emoji x = e" by (metis nth_mem)
  with Some show ?thesis by (simp add: toggle_reactions_def Let_def split: option.splits)
qed

lemma position_append_new:
  "\<forall>x \<in> set xs. \<not> P x \<Longrightarrow> P y \<Longrightarrow> position P (xs @ [y]) = Some (length xs)"
  by (induction xs) auto

lemma remove_at_append_new [simp]: "remove_at (length xs) (xs @ [y]) = xs"
  by (simp add: remove_at_def)

text \<open>A reaction that was just added is removed again by the second toggle, exactly.\<close>

lemma toggle_reactions_undo:
  assumes wf: "reactions_wf rs" and t: "toggle_reactions who e rs = Some rs'"
    and new: "(e, who) \<notin> reaction_rel rs"
  shows "toggle_reactions who e rs' = Some rs"
proof (cases "position (\<lambda>x. emoji x = e) rs")
  case None
  with t have rs': "rs' = rs @ [\<lparr>emoji = e, participant_ids = [who]\<rparr>]"
    by (auto simp: toggle_reactions_def split: if_splits)
  from None have "position (\<lambda>x. emoji x = e) rs' = Some (length rs)"
    unfolding rs' by (intro position_append_new) (simp_all add: position_None)
  then show ?thesis by (simp add: toggle_reactions_def rs' Let_def remove_at_def)
next
  case (Some k)
  then have k: "k < length rs" and e: "e = emoji (rs ! k)"
    and first: "\<forall>j < k. emoji (rs ! j) \<noteq> e" by (auto simp: position_Some)
  let ?x = "rs ! k" and ?ids = "participant_ids (rs ! k)"
  have no: "\<forall>i \<in> set ?ids. i \<noteq> who" using new reaction_rel_nth [OF wf k] e by auto
  then have "position (\<lambda>i. i = who) ?ids = None" by (simp add: position_None)
  with t Some have rs': "rs' = rs[k := ?x\<lparr>participant_ids := ?ids @ [who]\<rparr>]"
    by (simp add: toggle_reactions_def Let_def)
  have "position (\<lambda>x. emoji x = e) rs' = Some k"
    using k e first by (simp add: rs' position_Some)
  moreover have "position (\<lambda>i. i = who) (?ids @ [who]) = Some (length ?ids)"
    using no by (intro position_append_new) auto
  moreover have "?ids \<noteq> []" using wf k by (auto simp: reactions_wf_def)
  ultimately show ?thesis using k by (simp add: toggle_reactions_def rs' Let_def)
qed

section \<open>Chat history\<close>

text \<open>
  The history holds the last 500 messages under consecutive IDs that end with the last one given
  out, and every reaction list in it is well formed.
\<close>

definition chat_wf :: "room \<Rightarrow> bool" where
  "chat_wf r \<longleftrightarrow>
     length (chat_history r) = min (last_chat_message_id r) CHAT_HISTORY_CAPACITY \<and>
     map cm_id (chat_history r) =
       [last_chat_message_id r + 1 - length (chat_history r) ..< last_chat_message_id r + 1] \<and>
     (\<forall>m \<in> set (chat_history r). reactions_wf (cm_reactions m))"

lemma chat_wf_new: "chat_wf (new_room i)"
  by (simp add: chat_wf_def new_room_def)

lemma chat_wf_record:
  assumes "chat_wf r" and "reactions_wf (cm_reactions m)"
  shows "chat_wf (snd (record_chat_message m r))"
proof -
  let ?h = "chat_history r" and ?n = "last_chat_message_id r"
  let ?h' = "if length ?h = CHAT_HISTORY_CAPACITY then tl ?h else ?h"
  from assms(1) have h: "length ?h = min ?n CHAT_HISTORY_CAPACITY"
      "map cm_id ?h = [?n + 1 - length ?h ..< ?n + 1]"
    and wf: "\<forall>m \<in> set ?h. reactions_wf (cm_reactions m)" by (auto simp: chat_wf_def)
  have C: "0 < CHAT_HISTORY_CAPACITY" by (simp add: CHAT_HISTORY_CAPACITY_def)
  have len: "length ?h' + 1 = min (?n + 1) CHAT_HISTORY_CAPACITY"
    using h(1) C by (auto simp: min_def)
  have ids: "map cm_id ?h' = [?n + 1 - length ?h' ..< ?n + 1]"
  proof (cases "length ?h = CHAT_HISTORY_CAPACITY")
    case True
    then have "CHAT_HISTORY_CAPACITY \<le> ?n" using h(1) by (simp add: min_def split: if_splits)
    then have "Suc (?n + 1 - CHAT_HISTORY_CAPACITY) = ?n + 1 - (CHAT_HISTORY_CAPACITY - 1)"
      using C by linarith
    then show ?thesis using h(2) True by (simp add: map_tl tl_upt del: upt_Suc)
  next
    case False
    then show ?thesis using h(2) by simp
  qed
  let ?m = "m\<lparr>cm_id := ?n + 1\<rparr>"
  have r': "chat_history (snd (record_chat_message m r)) = ?h' @ [?m]"
      "last_chat_message_id (snd (record_chat_message m r)) = ?n + 1"
    by (simp_all add: record_chat_message_def Let_def)
  have 1: "length (?h' @ [?m]) = min (?n + 1) CHAT_HISTORY_CAPACITY" using len by simp
  have "length ?h' \<le> ?n" using len by (simp add: min_def split: if_splits)
  then have 2: "map cm_id (?h' @ [?m]) = [?n + 1 + 1 - length (?h' @ [?m]) ..< ?n + 1 + 1]"
    by (simp add: ids upt_Suc_append del: upt_Suc split del: if_split)
  have "set ?h' \<subseteq> set ?h" by (cases ?h) auto
  then have 3: "\<forall>x \<in> set (?h' @ [?m]). reactions_wf (cm_reactions x)" using wf assms(2) by auto
  from 1 2 3 show ?thesis unfolding chat_wf_def r' by (intro conjI)
qed

lemma chat_wf_toggle:
  assumes wf: "chat_wf r"
  shows "chat_wf (snd (toggle_chat_reaction mid who e r))"
proof (cases "position (\<lambda>m. cm_id m = mid) (chat_history r)")
  case None
  with wf show ?thesis by (simp add: toggle_chat_reaction_def)
next
  case (Some k)
  then have k: "k < length (chat_history r)" by (simp add: position_Some)
  let ?m = "chat_history r ! k"
  show ?thesis
  proof (cases "toggle_reactions who e (cm_reactions ?m)")
    case None
    with wf Some show ?thesis by (simp add: toggle_chat_reaction_def Let_def)
  next
    case (Some rs)
    have "reactions_wf (cm_reactions ?m)" using wf k by (auto simp: chat_wf_def)
    with Some have "reactions_wf rs" using toggle_reactions_correct by blast
    moreover have "map cm_id ((chat_history r)[k := ?m\<lparr>cm_reactions := rs\<rparr>]) = map cm_id (chat_history r)"
      using k by (simp add: map_update list_update_same_conv)
    ultimately show ?thesis
      using wf Some \<open>position _ _ = Some k\<close>
      by (auto simp: toggle_chat_reaction_def Let_def chat_wf_def dest!: set_update_subset_insert [THEN subsetD])
  qed
qed

section \<open>Properties\<close>

text \<open>
  C5. Removing a participant leaves no trace and disturbs nobody else: the departed ID is in no map
  of the room, none of its track IDs is still marked as forwarded, pending or negotiated anywhere,
  no sender entry names it as source; every other participant is kept with its connection and is
  told exactly once; and a clean-up task is started for exactly the remaining receivers that have a
  peer connection and were being sent the participant's media, with exactly those senders.
\<close>

theorem remove_participant_complete:
  assumes wf: "wf_room r" and i: "i \<in> member_ids r"
    and res: "remove_participant i (r, net) = (r', net', effects)"
  shows "wf_room r' \<and> no_trace i (track_ids_of r i) r' \<and>
     (\<forall>j. j \<noteq> i \<longrightarrow> map_of (participants r') j = map_of (participants r) j) \<and>
     (\<forall>j. net' j = (if j \<in> member_ids r \<and> j \<noteq> i
                    then map_option (\<lambda>q. q @ [ParticipantLeft i]) (net j) else net j)) \<and>
     (\<forall>receiver pc ss. RetireSenders receiver pc ss \<in> set effects \<longleftrightarrow>
        (\<exists>es c. receiver \<noteq> i \<and> map_of (forwarded_senders r) receiver = Some es \<and>
           ss = map snd (filter (\<lambda>e. fst e = i) es) \<and> ss \<noteq> [] \<and>
           map_of (participants r) receiver = Some c \<and> peer_connection c = Some pc))"
proof -
  have eqs: "fst (remove_participant i (r, net)) = r'" "fst (snd (remove_participant i (r, net))) = net'"
    "snd (snd (remove_participant i (r, net))) = effects" using res by simp_all
  have wf': "wf_room r'" using wf_remove_participant [OF wf, of i net] eqs by simp
  moreover have "no_trace i (track_ids_of r i) r'" using no_trace_remove [OF i, of net] eqs by simp
  moreover have "map_of (participants r') j = map_of (participants r) j" if "j \<noteq> i" for j
    using remove_participant_room [OF i, of net] eqs(1) that by (auto simp: hm_simps)
  moreover have "net' j = (if j \<in> member_ids r \<and> j \<noteq> i
      then map_option (\<lambda>q. q @ [ParticipantLeft i]) (net j) else net j)" for j
    using remove_participant_net [OF i, of net] eqs member_ids_remove [of i r net]
    by (auto simp: broadcast_apply [OF wf'])
  moreover note remove_participant_effects [OF wf i, of _ _ _ net, unfolded eqs]
  ultimately show ?thesis by blast
qed

definition sample_member :: "str \<Rightarrow> pc_handle \<Rightarrow> participant_connection" where
  "sample_member i pc = set_peer_connection (new_connection (new_participant i i) i) pc"

definition sample_room :: room where
  "sample_room = (new_room [0])
     \<lparr>participants := [([1], sample_member [1] 1), ([2], sample_member [2] 2)],
      forwarded_senders := [([2], [([1], 7)])], forwarded_tracks := [[2] \<mapsto> {[9]}]\<rparr>"

lemma wf_sample_room: "wf_room sample_room"
  by (simp add: wf_room_def sample_room_def sample_member_def new_connection_def new_participant_def
      set_peer_connection_def new_room_def)

theorem remove_participant_complete_witness:
  "\<exists>r' net' effects.
     remove_participant [1] (sample_room, [[2] \<mapsto> []]) = (r', net', effects) \<and>
     net' [2] = Some [ParticipantLeft [1]] \<and> RetireSenders [2] 2 [7] \<in> set effects"
proof -
  obtain r' net' effects
    where res: "remove_participant [1] (sample_room, [[2] \<mapsto> []]) = (r', net', effects)"
    by (metis prod_cases3)
  have i: "[1] \<in> member_ids sample_room" by (simp add: sample_room_def)
  note main = remove_participant_complete [OF wf_sample_room i res]
  have "net' [2] = Some [ParticipantLeft [1]]" using main by (simp add: sample_room_def)
  moreover have "RetireSenders [2] 2 [7] \<in> set effects"
    using main by (simp add: sample_room_def sample_member_def set_peer_connection_def new_connection_def)
  ultimately show ?thesis using res by blast
qed

text \<open>What happens to a room's chat: messages are recorded and reactions toggled.\<close>

datatype chat_op = Post chat_message_payload | React nat str str

fun chat_step :: "chat_op \<Rightarrow> room \<Rightarrow> room" where
  "chat_step (Post m) r = snd (record_chat_message (m\<lparr>cm_reactions := []\<rparr>) r)"
| "chat_step (React mid who e) r = snd (toggle_chat_reaction mid who e r)"

lemma reactions_wf_Nil [simp]: "reactions_wf []"
  by (simp add: reactions_wf_def)

lemma chat_wf_fold: "chat_wf r \<Longrightarrow> chat_wf (fold chat_step ops r)"
proof (induction ops arbitrary: r)
  case (Cons x ops)
  have "chat_wf (chat_step x r)"
    using Cons.prems by (cases x) (simp_all add: chat_wf_record chat_wf_toggle)
  with Cons.IH show ?case by simp
qed simp

text \<open>
  C6. However a room's chat is used, its history is the last 500 messages under consecutive IDs, a
  reply can be quoted exactly when its ID is one of those, and every message carries at most 20
  distinct emoji, each with a non-empty list of distinct participants.
\<close>

theorem chat_history_invariant:
  "let r = fold chat_step ops (new_room i); n = last_chat_message_id r in
     map cm_id (chat_history r) = [n + 1 - min n CHAT_HISTORY_CAPACITY ..< n + 1] \<and>
     (\<forall>mid. chat_reply_preview_of r mid \<noteq> None \<longleftrightarrow> n < mid + CHAT_HISTORY_CAPACITY \<and> 0 < mid \<and> mid \<le> n) \<and>
     (\<forall>m \<in> set (chat_history r). reactions_wf (cm_reactions m))"
proof -
  let ?r = "fold chat_step ops (new_room i)"
  have wf: "chat_wf ?r" by (rule chat_wf_fold [OF chat_wf_new])
  let ?n = "last_chat_message_id ?r"
  from wf have ids: "map cm_id (chat_history ?r) = [?n + 1 - min ?n CHAT_HISTORY_CAPACITY ..< ?n + 1]"
    by (simp add: chat_wf_def)
  have "chat_reply_preview_of ?r mid \<noteq> None \<longleftrightarrow> mid \<in> set (map cm_id (chat_history ?r))" for mid
    by (auto simp: chat_reply_preview_of_def find_None_iff)
  then have "chat_reply_preview_of ?r mid \<noteq> None \<longleftrightarrow>
      ?n < mid + CHAT_HISTORY_CAPACITY \<and> 0 < mid \<and> mid \<le> ?n" for mid
    unfolding ids by auto
  with wf ids show ?thesis by (simp add: Let_def chat_wf_def)
qed

definition sample_message :: chat_message_payload where
  "sample_message = \<lparr>cm_id = 0, cm_participant_id = [1], cm_participant_name = [1], cm_message = [65],
     cm_timestamp = 5, cm_reply_to = None, cm_reactions = []\<rparr>"

theorem chat_history_invariant_witness:
  "let r = fold chat_step [Post sample_message, Post sample_message] (new_room [0]) in
     map cm_id (chat_history r) = [1, 2] \<and> chat_reply_preview_of r 2 \<noteq> None \<and>
     chat_reply_preview_of r 3 = None"
proof -
  let ?r = "fold chat_step [Post sample_message, Post sample_message] (new_room [0])"
  have n: "last_chat_message_id ?r = 2"
    by (simp add: record_chat_message_def new_room_def Let_def)
  note main = chat_history_invariant [of "[Post sample_message, Post sample_message]" "[0]",
      unfolded Let_def n]
  then have iff: "chat_reply_preview_of ?r mid \<noteq> None \<longleftrightarrow>
      2 < mid + CHAT_HISTORY_CAPACITY \<and> 0 < mid \<and> mid \<le> 2" for mid by blast
  from main have "map cm_id (chat_history ?r) = [1, 2]"
    by (simp add: CHAT_HISTORY_CAPACITY_def upt_rec numeral_2_eq_2)
  with iff [of 2] iff [of 3] show ?thesis by (simp add: Let_def CHAT_HISTORY_CAPACITY_def)
qed

text \<open>
  C7. A reaction toggle flips exactly one fact of the message it names, and a second toggle undoes a
  reaction that the first one added: the room is the same as before, down to the order of the lists.
\<close>

theorem toggle_chat_reaction_flips:
  assumes wf: "chat_wf r" and t: "toggle_chat_reaction mid who e r = (Some rs, r')"
  shows "\<exists>k m. k < length (chat_history r) \<and> chat_history r ! k = m \<and> cm_id m = mid \<and>
     r' = r\<lparr>chat_history := (chat_history r)[k := m\<lparr>cm_reactions := rs\<rparr>]\<rparr> \<and>
     reaction_rel rs = (if (e, who) \<in> reaction_rel (cm_reactions m)
        then reaction_rel (cm_reactions m) - {(e, who)}
        else insert (e, who) (reaction_rel (cm_reactions m))) \<and>
     ((e, who) \<notin> reaction_rel (cm_reactions m) \<longrightarrow>
        toggle_chat_reaction mid who e r' = (Some (cm_reactions m), r))"
proof -
  from t obtain k where k: "position (\<lambda>m. cm_id m = mid) (chat_history r) = Some k"
    by (auto simp: toggle_chat_reaction_def split: option.splits)
  let ?m = "chat_history r ! k"
  from t k have rs: "toggle_reactions who e (cm_reactions ?m) = Some rs"
    and r': "r' = r\<lparr>chat_history := (chat_history r)[k := ?m\<lparr>cm_reactions := rs\<rparr>]\<rparr>"
    by (auto simp: toggle_chat_reaction_def Let_def split: option.splits)
  from k have len: "k < length (chat_history r)" and id: "cm_id ?m = mid"
    and first: "\<forall>j < k. cm_id (chat_history r ! j) \<noteq> mid" by (auto simp: position_Some)
  have rwf: "reactions_wf (cm_reactions ?m)" using wf len by (simp add: chat_wf_def)
  have "toggle_chat_reaction mid who e r' = (Some (cm_reactions ?m), r)"
    if "(e, who) \<notin> reaction_rel (cm_reactions ?m)"
  proof -
    have "position (\<lambda>m. cm_id m = mid) (chat_history r') = Some k"
      using len id first by (simp add: r' position_Some)
    then show ?thesis
      using toggle_reactions_undo [OF rwf rs that] len
      by (simp add: toggle_chat_reaction_def r' Let_def)
  qed
  with toggle_reactions_correct [OF rwf rs] len id r' show ?thesis by blast
qed

definition sample_chat_room :: room where
  "sample_chat_room = fold chat_step [Post sample_message] (new_room [0])"

theorem toggle_chat_reaction_flips_witness:
  "\<exists>k m rs r'. toggle_chat_reaction 1 [2] [128077] sample_chat_room = (Some rs, r') \<and>
     chat_history sample_chat_room ! k = m \<and>
     reaction_rel rs = insert ([128077], [2]) (reaction_rel (cm_reactions m))"
proof -
  have wf: "chat_wf sample_chat_room"
    unfolding sample_chat_room_def by (rule chat_wf_fold [OF chat_wf_new])
  have "\<exists>r'. toggle_chat_reaction 1 [2] [128077] sample_chat_room =
      (Some [\<lparr>emoji = [128077], participant_ids = [[2]]\<rparr>], r')"
    by (simp add: sample_chat_room_def toggle_chat_reaction_def record_chat_message_def new_room_def
        toggle_reactions_def MAX_CHAT_MESSAGE_REACTIONS_def CHAT_HISTORY_CAPACITY_def Let_def)
  then obtain r' where t: "toggle_chat_reaction 1 [2] [128077] sample_chat_room =
      (Some [\<lparr>emoji = [128077], participant_ids = [[2]]\<rparr>], r')" by blast
  from toggle_chat_reaction_flips [OF wf t] obtain k m
    where k: "k < length (chat_history sample_chat_room)" "chat_history sample_chat_room ! k = m"
      and rel: "reaction_rel [\<lparr>emoji = [128077], participant_ids = [[2]]\<rparr>] =
        (if ([128077], [2]) \<in> reaction_rel (cm_reactions m)
         then reaction_rel (cm_reactions m) - {([128077], [2])}
         else insert ([128077], [2]) (reaction_rel (cm_reactions m)))" by blast
  have "cm_reactions m = []"
    using k by (auto simp: sample_chat_room_def sample_message_def record_chat_message_def new_room_def
        CHAT_HISTORY_CAPACITY_def Let_def)
  then have "([128077], [2]) \<notin> reaction_rel (cm_reactions m)" by (simp add: reaction_rel_def)
  with rel have "reaction_rel [\<lparr>emoji = [128077], participant_ids = [[2]]\<rparr>] =
      insert ([128077], [2]) (reaction_rel (cm_reactions m))" by simp
  with t k(2) show ?thesis by blast
qed

end
