(* ===== verification/Repository.thy ===== *)
theory Repository
  imports Room
begin

text \<open>
  The room repository of \<open>src/sfu/repository.rs\<close>. A room is a shared object: the repository, the
  handlers and their background tasks hold references to it, and a \<open>RoomEntry\<close> shares the room's
  revocation flag and deny list with the room itself. The model keeps every room ever created in a
  heap; the repository maps room IDs to references, and setting an entry's flag is a write to the
  heap that every holder of the reference sees.

  The trait \<open>RoomRepository\<close> is the locale \<open>room_repository\<close>: what its clients rely on. It is
  interpreted on the in-memory implementation.
\<close>

section \<open>State and operations\<close>

type_synonym room_ref = nat

record repository =
  rooms :: "(str \<times> room_ref) list"
  revoked_room_ids :: "str set"
  room_heap :: "room_ref \<rightharpoonup> room"
  next_ref :: room_ref

definition new_repository :: repository where
  "new_repository = \<lparr>rooms = [], revoked_room_ids = {}, room_heap = Map.empty, next_ref = 0\<rparr>"

definition create_room :: "str \<Rightarrow> repository \<Rightarrow> (str + unit) \<times> repository" where
  "create_room i st =
     (if i \<in> revoked_room_ids st then (Inl (lit ''Room '' @ i @ lit '' is revoked''), st)
      else if map_of (rooms st) i \<noteq> None then (Inl (lit ''Room '' @ i @ lit '' already exists''), st)
      else (Inr (), st\<lparr>rooms := AList.update i (next_ref st) (rooms st),
                       room_heap := (room_heap st)(next_ref st \<mapsto> new_room i),
                       next_ref := next_ref st + 1\<rparr>))"

definition get_room :: "repository \<Rightarrow> str \<Rightarrow> room_ref option" where
  "get_room st i = map_of (rooms st) i"

definition delete_room :: "str \<Rightarrow> repository \<Rightarrow> repository" where
  "delete_room i st = st\<lparr>rooms := AList.delete i (rooms st)\<rparr>"

text \<open>A write to a shared room object.\<close>

definition modify_room :: "room_ref \<Rightarrow> (room \<Rightarrow> room) \<Rightarrow> repository \<Rightarrow> repository" where
  "modify_room x f st = st\<lparr>room_heap := (room_heap st)(x := map_option f (room_heap st x))\<rparr>"

definition revoke_room :: "str \<Rightarrow> repository \<Rightarrow> room_ref option \<times> repository" where
  "revoke_room i st =
     (let entry = map_of (rooms st) i;
          st' = st\<lparr>revoked_room_ids := insert i (revoked_room_ids st),
                   rooms := AList.delete i (rooms st)\<rparr>
      in case entry of
           None \<Rightarrow> (None, st')
         | Some x \<Rightarrow> (Some x, modify_room x (\<lambda>r. r\<lparr>revoked := True\<rparr>) st'))"

definition deny_room_user :: "str \<Rightarrow> uuid \<Rightarrow> repository \<Rightarrow> repository" where
  "deny_room_user i u st =
     (case map_of (rooms st) i of None \<Rightarrow> st | Some x \<Rightarrow> modify_room x (deny_user u) st)"

definition room_exists :: "repository \<Rightarrow> str \<Rightarrow> bool" where
  "room_exists st i \<longleftrightarrow> map_of (rooms st) i \<noteq> None"

definition list_rooms :: "repository \<Rightarrow> str list" where
  "list_rooms st = map fst (rooms st)"

section \<open>The interface of a repository\<close>

text \<open>
  The client's view: which room a live ID names, which IDs are revoked, and which room objects carry
  the revocation flag.
\<close>

locale room_repository =
  fixes get :: "'s \<Rightarrow> str \<Rightarrow> room_ref option"
    and is_revoked_id :: "'s \<Rightarrow> str \<Rightarrow> bool"
    and flagged :: "'s \<Rightarrow> room_ref \<Rightarrow> bool"
    and create :: "str \<Rightarrow> 's \<Rightarrow> (str + unit) \<times> 's"
    and delete :: "str \<Rightarrow> 's \<Rightarrow> 's"
    and revoke :: "str \<Rightarrow> 's \<Rightarrow> room_ref option \<times> 's"
    and deny :: "str \<Rightarrow> uuid \<Rightarrow> 's \<Rightarrow> 's"
    and inv :: "'s \<Rightarrow> bool"
  assumes create_fresh: "inv s \<Longrightarrow> \<not> is_revoked_id s i \<Longrightarrow> get s i = None \<Longrightarrow>
      \<exists>x s'. create i s = (Inr (), s') \<and> inv s' \<and> get s' = (get s)(i \<mapsto> x) \<and> \<not> flagged s' x \<and>
             is_revoked_id s' = is_revoked_id s \<and> (\<forall>y. flagged s y \<longrightarrow> flagged s' y)"
    and create_refused: "inv s \<Longrightarrow> is_revoked_id s i \<or> get s i \<noteq> None \<Longrightarrow>
      \<exists>e. create i s = (Inl e, s)"
    and delete_law: "inv s \<Longrightarrow> inv (delete i s) \<and> get (delete i s) = (get s)(i := None) \<and>
      is_revoked_id (delete i s) = is_revoked_id s \<and> flagged (delete i s) = flagged s"
    and revoke_law: "inv s \<Longrightarrow> revoke i s = (x, s') \<Longrightarrow> x = get s i \<and> inv s' \<and>
      get s' = (get s)(i := None) \<and> is_revoked_id s' = (is_revoked_id s)(i := True) \<and>
      flagged s' = (\<lambda>y. flagged s y \<or> x = Some y)"
    and deny_law: "inv s \<Longrightarrow> inv (deny i u s) \<and> get (deny i u s) = get s \<and>
      is_revoked_id (deny i u s) = is_revoked_id s \<and> flagged (deny i u s) = flagged s"
    and revoked_gone: "inv s \<Longrightarrow> is_revoked_id s i \<Longrightarrow> get s i = None"
begin

text \<open>The first lines of a join: create the room unless it exists, then look it up.\<close>

definition ensure :: "str \<Rightarrow> 's \<Rightarrow> (str + unit) \<times> 's" where
  "ensure i s = (if get s i \<noteq> None then (Inr (), s) else create i s)"

lemma ensure_ok:
  assumes "inv s" and "ensure i s = (Inr (), s')"
  shows "inv s' \<and> get s' i \<noteq> None \<and> \<not> is_revoked_id s' i \<and> (\<forall>j. j \<noteq> i \<longrightarrow> get s' j = get s j)"
proof (cases "get s i")
  case None
  with assms create_refused [of s i] create_fresh [of s i] show ?thesis
    by (cases "is_revoked_id s i") (auto simp: ensure_def)
next
  case Some
  with assms revoked_gone [of s i] show ?thesis by (auto simp: ensure_def)
qed

lemma ensure_refused:
  assumes "inv s" and "is_revoked_id s i"
  shows "\<exists>e. ensure i s = (Inl e, s)"
  using assms revoked_gone [of s i] create_refused [of s i] by (simp add: ensure_def)

text \<open>Nothing brings a revoked ID back or clears the flag of a revoked room.\<close>

lemma revoked_stays:
  assumes "inv s" and "is_revoked_id s i" and "flagged s x"
  shows "let s' = snd (create j s) in inv s' \<and> is_revoked_id s' i \<and> flagged s' x"
    and "let s' = delete j s in inv s' \<and> is_revoked_id s' i \<and> flagged s' x"
    and "let s' = snd (revoke j s) in inv s' \<and> is_revoked_id s' i \<and> flagged s' x"
    and "let s' = deny j u s in inv s' \<and> is_revoked_id s' i \<and> flagged s' x"
proof -
  show "let s' = snd (create j s) in inv s' \<and> is_revoked_id s' i \<and> flagged s' x"
    using assms create_fresh [of s j] create_refused [of s j] unfolding Let_def
    by (cases "is_revoked_id s j \<or> get s j \<noteq> None") fastforce+
  show "let s' = delete j s in inv s' \<and> is_revoked_id s' i \<and> flagged s' x"
    using assms delete_law [of s j] by (simp add: Let_def)
  obtain y s' where "revoke j s = (y, s')" by fastforce
  then show "let s' = snd (revoke j s) in inv s' \<and> is_revoked_id s' i \<and> flagged s' x"
    using assms revoke_law [of s j y s'] by (simp add: Let_def)
  show "let s' = deny j u s in inv s' \<and> is_revoked_id s' i \<and> flagged s' x"
    using assms deny_law [of s j u] by (simp add: Let_def)
qed

end

section \<open>The in-memory repository implements the interface\<close>

definition room_flagged :: "repository \<Rightarrow> room_ref \<Rightarrow> bool" where
  "room_flagged st x \<longleftrightarrow> (\<exists>r. room_heap st x = Some r \<and> revoked r)"

text \<open>
  Live entries name distinct allocated rooms that carry their key as ID and are not revoked, and no
  revoked ID is live.
\<close>

definition repo_inv :: "repository \<Rightarrow> bool" where
  "repo_inv st \<longleftrightarrow>
     distinct (map fst (rooms st)) \<and> distinct (map snd (rooms st)) \<and>
     (\<forall>(i, x) \<in> set (rooms st). \<exists>r. room_heap st x = Some r \<and> room_id r = i \<and> \<not> revoked r) \<and>
     dom (room_heap st) \<subseteq> {..< next_ref st} \<and>
     fst ` set (rooms st) \<inter> revoked_room_ids st = {}"

lemma repo_inv_new: "repo_inv new_repository"
  by (simp add: repo_inv_def new_repository_def)

lemma repo_inv_entry:
  "repo_inv st \<Longrightarrow> map_of (rooms st) i = Some x \<Longrightarrow>
     \<exists>r. room_heap st x = Some r \<and> room_id r = i \<and> \<not> revoked r \<and> x < next_ref st"
  by (fastforce simp: repo_inv_def dest: map_of_SomeD)

lemma map_snd_update_fresh:
  "k \<notin> fst ` set m \<Longrightarrow> AList.update k v m = m @ [(k, v)]"
  by (induction m) auto

lemma repo_inv_create:
  assumes inv: "repo_inv st" and new: "i \<notin> revoked_room_ids st" "map_of (rooms st) i = None"
  shows "repo_inv (snd (create_room i st))"
proof -
  have fresh: "i \<notin> fst ` set (rooms st)" using new(2) by (simp add: map_of_eq_None_iff)
  have "next_ref st \<notin> snd ` set (rooms st)"
    using inv unfolding repo_inv_def by fastforce
  then show ?thesis
    using inv new fresh
    by (fastforce simp: repo_inv_def create_room_def map_snd_update_fresh new_room_def)
qed

lemma delete_inj:
  "distinct (map snd m) \<Longrightarrow> distinct (map snd (AList.delete k m))"
  by (auto simp: AList.delete_eq distinct_map inj_on_def)

lemma repo_inv_delete:
  assumes "repo_inv st"
  shows "repo_inv (delete_room i st)"
  using assms
  by (auto simp: repo_inv_def delete_room_def hm_set_delete AList.distinct_delete delete_inj)

text \<open>Writes that keep a room's ID and do not set its flag keep the invariant.\<close>

lemma modify_room_fields [simp]:
  "rooms (modify_room x f st) = rooms st"
  "revoked_room_ids (modify_room x f st) = revoked_room_ids st"
  "next_ref (modify_room x f st) = next_ref st"
  "dom (room_heap (modify_room x f st)) = dom (room_heap st)"
  by (auto simp: modify_room_def dom_def)

lemma modify_room_heap:
  "room_heap (modify_room x f st) y = (if y = x then map_option f (room_heap st x) else room_heap st y)"
  by (simp add: modify_room_def)

lemma repo_inv_modify:
  assumes inv: "repo_inv st"
    and keep: "\<And>r. room_heap st x = Some r \<Longrightarrow> room_id (f r) = room_id r \<and> revoked (f r) = revoked r"
  shows "repo_inv (modify_room x f st)"
proof -
  have "\<exists>r. room_heap (modify_room x f st) y = Some r \<and> room_id r = i \<and> \<not> revoked r"
    if "(i, y) \<in> set (rooms st)" for i y
  proof -
    from inv that obtain r where r: "room_heap st y = Some r" "room_id r = i" "\<not> revoked r"
      unfolding repo_inv_def by blast
    then show ?thesis using keep [of r] by (cases "y = x") (auto simp: modify_room_heap)
  qed
  with inv show ?thesis unfolding repo_inv_def by auto
qed

lemma repo_inv_inj:
  assumes "repo_inv st" and "(i, x) \<in> set (rooms st)" and "(j, x) \<in> set (rooms st)"
  shows "i = j"
proof -
  have "inj_on snd (set (rooms st))" using assms(1) by (simp add: repo_inv_def distinct_map)
  from inj_onD [OF this _ assms(2,3)] show ?thesis by simp
qed

lemma repo_inv_room:
  "repo_inv st \<Longrightarrow> (i, x) \<in> set (rooms st) \<Longrightarrow>
     \<exists>r. room_heap st x = Some r \<and> room_id r = i \<and> \<not> revoked r"
  unfolding repo_inv_def by blast

lemma repo_inv_revoke:
  assumes inv: "repo_inv st"
  shows "repo_inv (snd (revoke_room i st))"
proof (cases "map_of (rooms st) i")
  case None
  then have "i \<notin> fst ` set (rooms st)" by (simp add: map_of_eq_None_iff)
  with inv None show ?thesis
    by (auto simp: repo_inv_def revoke_room_def hm_set_delete AList.distinct_delete delete_inj)
next
  case (Some x)
  let ?st = "snd (revoke_room i st)"
  have fields: "rooms ?st = AList.delete i (rooms st)" "next_ref ?st = next_ref st"
      "revoked_room_ids ?st = insert i (revoked_room_ids st)" "dom (room_heap ?st) = dom (room_heap st)"
      "\<And>y. y \<noteq> x \<Longrightarrow> room_heap ?st y = room_heap st y"
    using Some by (auto simp: revoke_room_def modify_room_heap)
  from Some have ix: "(i, x) \<in> set (rooms st)" by (rule map_of_SomeD)
  have "\<exists>r. room_heap ?st y = Some r \<and> room_id r = j \<and> \<not> revoked r"
    if "(j, y) \<in> set (rooms st)" and "j \<noteq> i" for j y
  proof -
    have "y \<noteq> x" using repo_inv_inj [OF inv ix] that by blast
    then show ?thesis using repo_inv_room [OF inv that(1)] by (simp add: fields)
  qed
  with inv show ?thesis
    unfolding repo_inv_def
    by (auto simp: fields hm_set_delete AList.distinct_delete delete_inj)
qed

section \<open>The laws hold\<close>

lemma room_flagged_modify:
  assumes "\<And>r. revoked (f r) = revoked r"
  shows "room_flagged (modify_room x f st) = room_flagged st"
proof (rule ext)
  fix y show "room_flagged (modify_room x f st) y = room_flagged st y"
    by (cases "room_heap st x") (auto simp: room_flagged_def modify_room_heap assms)
qed

lemma get_room_modify [simp]: "get_room (modify_room x f st) = get_room st"
  by (simp add: fun_eq_iff get_room_def)

lemma get_room_delete: "get_room (delete_room i st) = (get_room st)(i := None)"
  by (simp add: fun_eq_iff get_room_def delete_room_def hm_simps)

lemma get_room_revoke: "get_room (snd (revoke_room i st)) = (get_room st)(i := None)"
  by (simp add: fun_eq_iff get_room_def revoke_room_def Let_def hm_simps split: option.splits)

lemma room_flagged_revoke:
  assumes "repo_inv st"
  shows "room_flagged (snd (revoke_room i st)) = (\<lambda>y. room_flagged st y \<or> get_room st i = Some y)"
proof (cases "map_of (rooms st) i")
  case None
  then show ?thesis by (simp add: fun_eq_iff room_flagged_def revoke_room_def get_room_def)
next
  case (Some x)
  with repo_inv_entry [OF assms Some] show ?thesis
    by (auto simp: fun_eq_iff room_flagged_def revoke_room_def get_room_def modify_room_heap)
qed

lemma repo_inv_deny: "repo_inv st \<Longrightarrow> repo_inv (deny_room_user i u st)"
  by (auto simp: deny_room_user_def deny_user_def intro!: repo_inv_modify split: option.splits)

lemma deny_room_user_frame:
  "get_room (deny_room_user i u st) = get_room st"
  "revoked_room_ids (deny_room_user i u st) = revoked_room_ids st"
  "room_flagged (deny_room_user i u st) = room_flagged st"
  by (auto simp: deny_room_user_def deny_user_def room_flagged_modify split: option.splits)

lemma create_room_fresh:
  assumes inv: "repo_inv st" and new: "i \<notin> revoked_room_ids st" "get_room st i = None"
  shows "\<exists>x st'. create_room i st = (Inr (), st') \<and> repo_inv st' \<and>
     get_room st' = (get_room st)(i \<mapsto> x) \<and> \<not> room_flagged st' x \<and>
     (\<lambda>i. i \<in> revoked_room_ids st') = (\<lambda>i. i \<in> revoked_room_ids st) \<and>
     (\<forall>y. room_flagged st y \<longrightarrow> room_flagged st' y)"
proof -
  let ?st = "snd (create_room i st)" and ?x = "next_ref st"
  have none: "map_of (rooms st) i = None" using new by (simp add: get_room_def)
  have "?x \<notin> dom (room_heap st)" using inv by (auto simp: repo_inv_def)
  then have "\<forall>y. room_flagged st y \<longrightarrow> room_flagged ?st y" "\<not> room_flagged ?st ?x"
    using new(1) none by (auto simp: room_flagged_def create_room_def new_room_def)
  moreover have "create_room i st = (Inr (), ?st)" "revoked_room_ids ?st = revoked_room_ids st"
    "get_room ?st = (get_room st)(i \<mapsto> ?x)"
    using new(1) none by (auto simp: create_room_def get_room_def fun_eq_iff hm_simps)
  ultimately show ?thesis using repo_inv_create [OF inv new(1) none] by blast
qed

interpretation in_memory: room_repository get_room "\<lambda>st i. i \<in> revoked_room_ids st" room_flagged
  create_room delete_room revoke_room deny_room_user repo_inv
proof unfold_locales
  fix st :: repository and i
  show "repo_inv st \<Longrightarrow> \<not> i \<in> revoked_room_ids st \<Longrightarrow> get_room st i = None \<Longrightarrow>
      \<exists>x st'. create_room i st = (Inr (), st') \<and> repo_inv st' \<and> get_room st' = (get_room st)(i \<mapsto> x) \<and>
        \<not> room_flagged st' x \<and> (\<lambda>i. i \<in> revoked_room_ids st') = (\<lambda>i. i \<in> revoked_room_ids st) \<and>
        (\<forall>y. room_flagged st y \<longrightarrow> room_flagged st' y)"
    by (rule create_room_fresh)
  show "repo_inv st \<Longrightarrow> i \<in> revoked_room_ids st \<or> get_room st i \<noteq> None \<Longrightarrow>
      \<exists>e. create_room i st = (Inl e, st)"
    by (auto simp: create_room_def get_room_def)
  show "repo_inv st \<Longrightarrow> repo_inv (delete_room i st) \<and>
      get_room (delete_room i st) = (get_room st)(i := None) \<and>
      (\<lambda>j. j \<in> revoked_room_ids (delete_room i st)) = (\<lambda>j. j \<in> revoked_room_ids st) \<and>
      room_flagged (delete_room i st) = room_flagged st"
    by (simp add: repo_inv_delete get_room_delete)
       (simp add: delete_room_def fun_eq_iff room_flagged_def)
next
  fix st st' :: repository and i x
  assume inv: "repo_inv st" and rv: "revoke_room i st = (x, st')"
  then have st': "st' = snd (revoke_room i st)" "x = fst (revoke_room i st)" by simp_all
  have "fst (revoke_room i st) = get_room st i"
    "revoked_room_ids (snd (revoke_room i st)) = insert i (revoked_room_ids st)"
    by (simp_all add: revoke_room_def get_room_def Let_def split: option.splits)
  then show "x = get_room st i \<and> repo_inv st' \<and> get_room st' = (get_room st)(i := None) \<and>
      (\<lambda>j. j \<in> revoked_room_ids st') = (\<lambda>j. j \<in> revoked_room_ids st)(i := True) \<and>
      room_flagged st' = (\<lambda>y. room_flagged st y \<or> x = Some y)"
    using repo_inv_revoke [OF inv, of i] room_flagged_revoke [OF inv, of i]
    by (simp add: st' get_room_revoke fun_eq_iff)
next
  fix st :: repository and i u
  show "repo_inv st \<Longrightarrow> repo_inv (deny_room_user i u st) \<and>
      get_room (deny_room_user i u st) = get_room st \<and>
      (\<lambda>j. j \<in> revoked_room_ids (deny_room_user i u st)) = (\<lambda>j. j \<in> revoked_room_ids st) \<and>
      room_flagged (deny_room_user i u st) = room_flagged st"
    by (simp add: repo_inv_deny deny_room_user_frame)
next
  fix st :: repository and i
  show "repo_inv st \<Longrightarrow> i \<in> revoked_room_ids st \<Longrightarrow> get_room st i = None"
    by (auto simp: repo_inv_def get_room_def map_of_eq_None_iff)
qed

section \<open>Properties\<close>

text \<open>
  Everything that can happen: calls of the repository, and operations on a room object through any
  reference that a handler or a background task still holds.
\<close>

datatype room_op =
    AddMember participant_connection
  | RemoveMember str
  | SetPeer str pc_handle
  | ChatOp chat_op

fun room_step :: "room_op \<Rightarrow> room \<Rightarrow> room" where
  "room_step (AddMember c) r = fst (add_participant c (r, Map.empty))"
| "room_step (RemoveMember i) r = fst (remove_participant i (r, Map.empty))"
| "room_step (SetPeer i pc) r =
     r\<lparr>participants := AList.map_entry i (\<lambda>c. set_peer_connection c pc) (participants r)\<rparr>"
| "room_step (ChatOp x) r = chat_step x r"

datatype repo_op =
    CreateRoom str | DeleteRoom str | RevokeRoom str | DenyRoomUser str uuid | OnRoom room_ref room_op

fun repo_step :: "repo_op \<Rightarrow> repository \<Rightarrow> repository" where
  "repo_step (CreateRoom i) st = snd (create_room i st)"
| "repo_step (DeleteRoom i) st = delete_room i st"
| "repo_step (RevokeRoom i) st = snd (revoke_room i st)"
| "repo_step (DenyRoomUser i u) st = deny_room_user i u st"
| "repo_step (OnRoom x f) st = modify_room x (room_step f) st"

lemma chat_step_frame: "room_id (chat_step x r) = room_id r \<and> revoked (chat_step x r) = revoked r"
  by (cases x) (auto simp: record_chat_message_def toggle_chat_reaction_def Let_def split: option.splits)

lemma room_step_frame: "room_id (room_step f r) = room_id r \<and> revoked (room_step f r) = revoked r"
proof (cases f)
  case (RemoveMember i)
  then show ?thesis
    by (cases "i \<in> member_ids r") (simp_all add: remove_participant_room remove_participant_absent)
qed (simp_all add: add_participant_room chat_step_frame)

lemma repo_step_inv: "repo_inv st \<Longrightarrow> repo_inv (repo_step x st)"
proof (cases x)
  case (CreateRoom i)
  assume inv: "repo_inv st"
  show ?thesis
  proof (cases "i \<in> revoked_room_ids st \<or> map_of (rooms st) i \<noteq> None")
    case True then show ?thesis using inv by (auto simp: CreateRoom create_room_def)
  next
    case False then show ?thesis using inv by (simp add: CreateRoom repo_inv_create)
  qed
qed (simp_all add: repo_inv_delete repo_inv_revoke repo_inv_deny repo_inv_modify room_step_frame)

lemma repo_steps_inv: "repo_inv st \<Longrightarrow> repo_inv (fold repo_step xs st)"
  by (induction xs arbitrary: st) (simp_all add: repo_step_inv)

lemma repo_step_revoked:
  assumes "repo_inv st" and "i \<in> revoked_room_ids st"
  shows "i \<in> revoked_room_ids (repo_step a st)"
  using assms
  by (cases a) (auto simp: create_room_def delete_room_def revoke_room_def deny_room_user_frame Let_def
      split: option.splits)

lemma repo_step_flagged:
  assumes "repo_inv st" and "room_flagged st x"
  shows "room_flagged (repo_step a st) x"
proof (cases a)
  case (CreateRoom i)
  show ?thesis
  proof (cases "i \<in> revoked_room_ids st \<or> get_room st i \<noteq> None")
    case True then show ?thesis using assms by (auto simp: CreateRoom create_room_def get_room_def)
  next
    case False
    with in_memory.create_fresh [OF assms(1), of i] show ?thesis
      using assms(2) by (auto simp: CreateRoom)
  qed
next
  case (DeleteRoom i)
  then show ?thesis using assms in_memory.delete_law [of st i] by simp
next
  case (RevokeRoom i)
  then show ?thesis using assms by (simp add: room_flagged_revoke)
qed (use assms in \<open>simp_all add: deny_room_user_frame room_flagged_modify room_step_frame\<close>)

lemma repo_steps_stay:
  assumes "repo_inv st" and "i \<in> revoked_room_ids st"
  shows "i \<in> revoked_room_ids (fold repo_step xs st) \<and>
     (room_flagged st x \<longrightarrow> room_flagged (fold repo_step xs st) x)"
  using assms
proof (induction xs arbitrary: st)
  case (Cons a xs)
  from Cons.IH [OF repo_step_inv repo_step_revoked, OF Cons.prems(1) Cons.prems, of a]
  show ?case using repo_step_flagged [OF Cons.prems(1), of x a] by auto
qed simp

text \<open>
  C8. Revocation is final. After \<open>revoke_room\<close>, whatever else is done to the repository and to room
  objects by whoever still holds them, the ID is never live again and cannot be created again, and
  the room object that was live under it stays revoked: no participant of it counts as active.
\<close>

theorem revocation_is_final:
  assumes rv: "revoke_room i (fold repo_step before new_repository) = (entry, st)"
    and st': "st' = fold repo_step afterwards st"
  shows "get_room st' i = None \<and> (\<exists>e. create_room i st' = (Inl e, st')) \<and>
     entry = get_room (fold repo_step before new_repository) i \<and>
     (\<forall>x. entry = Some x \<longrightarrow> (\<exists>r. room_heap st' x = Some r \<and>
        (\<forall>p u. \<not> has_active_participant r p u)))"
proof -
  let ?st0 = "fold repo_step before new_repository"
  have inv0: "repo_inv ?st0" by (rule repo_steps_inv [OF repo_inv_new])
  note law = in_memory.revoke_law [OF inv0 rv]
  then have inv: "repo_inv st" and i: "i \<in> revoked_room_ids st" by (auto dest: fun_cong [of _ _ i])
  have inv': "repo_inv st'" using repo_steps_inv [OF inv] by (simp add: st')
  have i': "i \<in> revoked_room_ids st'" using repo_steps_stay [OF inv i] by (simp add: st')
  have "room_flagged st' x" if "entry = Some x" for x
    using law that repo_steps_stay [OF inv i, of afterwards x] by (simp add: st')
  then have "\<exists>r. room_heap st' x = Some r \<and> (\<forall>p u. \<not> has_active_participant r p u)"
    if "entry = Some x" for x
    using that by (auto simp: room_flagged_def has_active_participant_def)
  then show ?thesis
    using law in_memory.revoked_gone [OF inv' i'] in_memory.create_refused [OF inv', of i] i' by blast
qed

definition sample_before :: "repo_op list" where
  "sample_before = [CreateRoom [1], OnRoom 0 (AddMember (sample_member [7] 3))]"

theorem revocation_is_final_witness:
  "\<exists>entry st st'. revoke_room [1] (fold repo_step sample_before new_repository) = (entry, st) \<and>
     st' = fold repo_step [CreateRoom [1], OnRoom 0 (AddMember (sample_member [8] 4))] st \<and>
     entry = Some 0 \<and> get_room st' [1] = None"
proof -
  obtain entry st where rv: "revoke_room [1] (fold repo_step sample_before new_repository) = (entry, st)"
    by (metis surj_pair)
  note main = revocation_is_final [OF rv refl, of "[CreateRoom [1], OnRoom 0 (AddMember (sample_member [8] 4))]"]
  have "get_room (fold repo_step sample_before new_repository) [1] = Some 0"
    by (simp add: sample_before_def create_room_def get_room_def new_repository_def modify_room_def)
  with main rv show ?thesis by auto
qed

end
