(* ===== verification/PeerConnection.thy ===== *)
theory PeerConnection
  imports Repository
begin

text \<open>
  Peer connections (\<open>src/sfu/peer_connection.rs\<close>): their configuration, and the wrapper's
  operations on the WebRTC library. The library is a parameter: a record \<open>webrtc\<close> of its functions
  over an abstract world \<open>'w\<close>, which stands for everything the library keeps. Nothing is assumed of
  the library here.
\<close>

section \<open>Configuration\<close>

record ice_server =
  urls :: "str list"
  username :: str
  credential :: str

record peer_connection_config =
  ice_servers :: "ice_server list"
  public_ip :: "str option"
  udp_port_range :: "(16 word \<times> 16 word) option"

definition default_config :: peer_connection_config where
  "default_config =
     \<lparr>ice_servers = [\<lparr>urls = [lit ''stun:stun.l.google.com:19302''], username = [], credential = []\<rparr>],
      public_ip = None, udp_port_range = None\<rparr>"

definition with_public_ip :: "str \<Rightarrow> peer_connection_config \<Rightarrow> peer_connection_config" where
  "with_public_ip ip c = c\<lparr>public_ip := Some ip\<rparr>"

definition with_udp_port_range ::
  "16 word \<Rightarrow> 16 word \<Rightarrow> peer_connection_config \<Rightarrow> peer_connection_config" where
  "with_udp_port_range lo hi c = c\<lparr>udp_port_range := Some (lo, hi)\<rparr>"

definition with_turn_server ::
  "str \<Rightarrow> str \<Rightarrow> str \<Rightarrow> peer_connection_config \<Rightarrow> peer_connection_config" where
  "with_turn_server url user cred c =
     c\<lparr>ice_servers := ice_servers c @ [\<lparr>urls = [url], username = user, credential = cred\<rparr>]\<rparr>"

definition with_stun_server :: "str \<Rightarrow> peer_connection_config \<Rightarrow> peer_connection_config" where
  "with_stun_server url c =
     (if list_ex (\<lambda>s. url \<in> set (urls s)) (ice_servers c) then c
      else c\<lparr>ice_servers := ice_servers c @ [\<lparr>urls = [url], username = [], credential = []\<rparr>]\<rparr>)"

text \<open>\<open>str::parse::<u16>\<close>: an optional plus sign and at least one digit, in range.\<close>

definition decimal :: "str \<Rightarrow> nat" where
  "decimal ds = foldl (\<lambda>n c. 10 * n + (c - 48)) 0 ds"

definition parse_u16 :: "str \<Rightarrow> 16 word option" where
  "parse_u16 s =
     (let ds = (case s of [] \<Rightarrow> [] | c # t \<Rightarrow> if c = 43 then t else s) in
      if ds = [] \<or> \<not> list_all is_ascii_digit ds \<or> 65535 < decimal ds then None
      else Some (of_nat (decimal ds)))"

text \<open>
  The configuration a join builds from the environment: \<open>env\<close> is \<open>std::env::var\<close>, \<open>None\<close> for a
  variable that is not set.
\<close>

definition join_config :: "(str \<Rightarrow> str option) \<Rightarrow> peer_connection_config" where
  "join_config env =
     (let c = default_config;
          c = (case env (lit ''PUBLIC_IP'') of
                 Some ip \<Rightarrow> if ip \<noteq> [] then with_public_ip ip c else c
               | None \<Rightarrow> c);
          c = (case (env (lit ''UDP_PORT_MIN''), env (lit ''UDP_PORT_MAX'')) of
                 (Some lo, Some hi) \<Rightarrow>
                   (case (parse_u16 lo, parse_u16 hi) of
                      (Some lo, Some hi) \<Rightarrow> with_udp_port_range lo hi c
                    | _ \<Rightarrow> c)
               | _ \<Rightarrow> c);
          c = (case (env (lit ''TURN_URL''), env (lit ''TURN_USER''), env (lit ''TURN_PASSWORD'')) of
                 (Some url, Some user, Some password) \<Rightarrow>
                   if url \<noteq> [] \<and> user \<noteq> [] then with_turn_server url user password c else c
               | _ \<Rightarrow> c)
      in case env (lit ''STUN_URL'') of
           Some url \<Rightarrow> if url \<noteq> [] then with_stun_server url c else c
         | None \<Rightarrow> c)"

section \<open>ICE candidate text\<close>

definition nth_opt :: "'a list \<Rightarrow> nat \<Rightarrow> 'a option" where
  "nth_opt xs k = (if k < length xs then Some (xs ! k) else None)"

definition unwrap_or :: "'a \<Rightarrow> 'a option \<Rightarrow> 'a" where
  "unwrap_or d x = (case x of None \<Rightarrow> d | Some y \<Rightarrow> y)"

definition ice_candidate_type :: "str \<Rightarrow> str" where
  "ice_candidate_type candidate =
     (let parts = split_whitespace candidate in
      unwrap_or (lit ''unknown'')
        (Option.bind (position (\<lambda>part. part = lit ''typ'') parts) (\<lambda>k. nth_opt parts (k + 1))))"

definition ice_candidate_protocol :: "str \<Rightarrow> str" where
  "ice_candidate_protocol candidate = unwrap_or (lit ''unknown'') (nth_opt (split_whitespace candidate) 2)"

definition ice_candidate_address :: "str \<Rightarrow> str option" where
  "ice_candidate_address candidate = nth_opt (split_whitespace candidate) 4"

definition is_loopback_candidate :: "str \<Rightarrow> bool" where
  "is_loopback_candidate candidate =
     (case ice_candidate_address candidate of
        None \<Rightarrow> False
      | Some a \<Rightarrow> a = lit ''127.0.0.1'' \<or> a = lit ''::1'' \<or> a = lit ''localhost'')"

definition is_docker_private_candidate :: "str \<Rightarrow> bool" where
  "is_docker_private_candidate candidate =
     (case ice_candidate_address candidate of
        None \<Rightarrow> False
      | Some a \<Rightarrow> strip_prefix (lit ''172.'') a \<noteq> None \<or> strip_prefix (lit ''10.'') a \<noteq> None)"

text \<open>\<open>str::split\<close> by one of \<open>:\<close>, \<open>?\<close> and \<open>/\<close>, first piece.\<close>

definition turn_url_host :: "str \<Rightarrow> str" where
  "turn_url_host url =
     (let rest = (case strip_prefix (lit ''turn:'') url of
                    Some t \<Rightarrow> t
                  | None \<Rightarrow> unwrap_or url (strip_prefix (lit ''turns:'') url))
      in takeWhile (\<lambda>c. c \<notin> {58, 63, 47}) rest)"

record candidate_type_counts =
  host :: nat
  srflx :: nat
  relay :: nat
  other :: nat

definition record_candidate :: "str \<Rightarrow> candidate_type_counts \<Rightarrow> candidate_type_counts" where
  "record_candidate candidate n =
     (let t = ice_candidate_type candidate in
      if t = lit ''host'' then n\<lparr>host := host n + 1\<rparr>
      else if t = lit ''srflx'' then n\<lparr>srflx := srflx n + 1\<rparr>
      else if t = lit ''relay'' then n\<lparr>relay := relay n + 1\<rparr>
      else n\<lparr>other := other n + 1\<rparr>)"

section \<open>The WebRTC library\<close>

datatype signaling_state = Stable | HaveLocalOffer | HaveRemoteOffer | OtherSignalingState
datatype sdp_type = SdpOffer | SdpAnswer

text \<open>A local track that carries a remote track to one receiver.\<close>

record local_track =
  lt_codec :: nat
  lt_id :: str
  lt_stream :: str

record 'w webrtc =
  lib_ephemeral_udp :: "16 word \<Rightarrow> 16 word \<Rightarrow> str + unit"
  lib_new_peer :: "peer_connection_config \<Rightarrow> 'w \<Rightarrow> (str + pc_handle) \<times> 'w"
  lib_signaling_state :: "'w \<Rightarrow> pc_handle \<Rightarrow> signaling_state"
  lib_parse_sdp :: "sdp_type \<Rightarrow> str \<Rightarrow> str + str"
  lib_set_remote :: "pc_handle \<Rightarrow> sdp_type \<Rightarrow> str \<Rightarrow> 'w \<Rightarrow> (str + unit) \<times> 'w"
  lib_set_local :: "pc_handle \<Rightarrow> str \<Rightarrow> 'w \<Rightarrow> (str + unit) \<times> 'w"
  lib_create_answer :: "pc_handle \<Rightarrow> 'w \<Rightarrow> (str + str) \<times> 'w"
  lib_create_offer :: "pc_handle \<Rightarrow> 'w \<Rightarrow> (str + str) \<times> 'w"
  lib_add_ice :: "pc_handle \<Rightarrow> str \<Rightarrow> str option \<Rightarrow> 16 word option \<Rightarrow> 'w \<Rightarrow> (str + unit) \<times> 'w"
  lib_add_track :: "pc_handle \<Rightarrow> local_track \<Rightarrow> 'w \<Rightarrow> (str + rtp_sender) \<times> 'w"
  lib_encoding :: "'w \<Rightarrow> rtp_sender \<Rightarrow> 32 word option"
  lib_write_pli :: "pc_handle \<Rightarrow> 32 word \<Rightarrow> 'w \<Rightarrow> (str + unit) \<times> 'w"
  lib_transceivers :: "'w \<Rightarrow> pc_handle \<Rightarrow> (nat \<times> rtp_sender) list"
  lib_remove_track :: "pc_handle \<Rightarrow> rtp_sender \<Rightarrow> 'w \<Rightarrow> (str + unit) \<times> 'w"
  lib_stop :: "nat \<Rightarrow> 'w \<Rightarrow> (str + unit) \<times> 'w"
  lib_close :: "pc_handle \<Rightarrow> 'w \<Rightarrow> (str + unit) \<times> 'w"

section \<open>The wrapper\<close>

text \<open>\<open>SfuPeerConnection::new\<close>: a configured port range is checked before the library builds the connection.\<close>

definition new_peer_connection ::
  "'w webrtc \<Rightarrow> peer_connection_config \<Rightarrow> 'w \<Rightarrow> (str + pc_handle) \<times> 'w" where
  "new_peer_connection L cfg w =
     (case (case udp_port_range cfg of None \<Rightarrow> Inr () | Some (lo, hi) \<Rightarrow> lib_ephemeral_udp L lo hi) of
        Inl e \<Rightarrow> (Inl e, w)
      | Inr _ \<Rightarrow> lib_new_peer L cfg w)"

definition set_remote_description ::
  "'w webrtc \<Rightarrow> pc_handle \<Rightarrow> str \<Rightarrow> str \<Rightarrow> 'w \<Rightarrow> (str + unit) \<times> 'w" where
  "set_remote_description L pc sdp ty w =
     (case (if ty = lit ''offer'' then Inr SdpOffer
            else if ty = lit ''answer'' then Inr SdpAnswer
            else Inl (lit ''Invalid SDP type: '' @ ty)) of
        Inl e \<Rightarrow> (Inl e, w)
      | Inr t \<Rightarrow>
          (case lib_parse_sdp L t sdp of
             Inl e \<Rightarrow> (Inl e, w)
           | Inr s \<Rightarrow> lib_set_remote L pc t s w))"

definition create_answer :: "'w webrtc \<Rightarrow> pc_handle \<Rightarrow> 'w \<Rightarrow> (str + str) \<times> 'w" where
  "create_answer L pc w =
     (case lib_create_answer L pc w of
        (Inl e, w) \<Rightarrow> (Inl e, w)
      | (Inr a, w) \<Rightarrow>
          (case lib_set_local L pc a w of (Inl e, w) \<Rightarrow> (Inl e, w) | (Inr _, w) \<Rightarrow> (Inr a, w)))"

definition create_offer_if_stable ::
  "'w webrtc \<Rightarrow> pc_handle \<Rightarrow> 'w \<Rightarrow> (str + str option) \<times> 'w" where
  "create_offer_if_stable L pc w =
     (if lib_signaling_state L w pc \<noteq> Stable then (Inr None, w)
      else (case lib_create_offer L pc w of
              (Inl e, w) \<Rightarrow> (Inl e, w)
            | (Inr offer, w) \<Rightarrow>
                (case lib_set_local L pc offer w of
                   (Inl e, w) \<Rightarrow> (Inl e, w)
                 | (Inr _, w) \<Rightarrow> (Inr (Some offer), w))))"

definition add_ice_candidate ::
  "'w webrtc \<Rightarrow> pc_handle \<Rightarrow> str \<Rightarrow> str option \<Rightarrow> 16 word option \<Rightarrow> 'w \<Rightarrow> (str + unit) \<times> 'w" where
  "add_ice_candidate L pc candidate mid line w = lib_add_ice L pc candidate mid line w"

definition close_peer :: "'w webrtc \<Rightarrow> pc_handle \<Rightarrow> 'w \<Rightarrow> (str + unit) \<times> 'w" where
  "close_peer L pc w = lib_close L pc w"

section \<open>Lemmas\<close>

lemma unwrap_or_simps [simp]: "unwrap_or d None = d" "unwrap_or d (Some x) = x"
  by (simp_all add: unwrap_or_def)

lemma create_offer_glare:
  "lib_signaling_state L w pc \<noteq> Stable \<Longrightarrow> create_offer_if_stable L pc w = (Inr None, w)"
  by (simp add: create_offer_if_stable_def)

text \<open>STUN servers are not configured twice, and no server is lost.\<close>

lemma with_stun_server_urls:
  "set (concat (map urls (ice_servers (with_stun_server u c)))) =
     insert u (set (concat (map urls (ice_servers c))))"
  by (auto simp: with_stun_server_def list_ex_iff)

lemma with_stun_server_idem: "with_stun_server u (with_stun_server u c) = with_stun_server u c"
  by (auto simp: with_stun_server_def list_ex_iff)

end
