(* ===== verification/Forwarding.thy ===== *)
theory Forwarding
  imports PeerConnection
begin

text \<open>
  Media forwarding: how a room subscribes receivers to a sender's tracks (\<open>src/sfu/room.rs\<close>) and how
  the offer and answer handlers of \<open>src/signaling/handler.rs\<close> negotiate those tracks with each
  receiver. Three sets per receiver drive it: \<open>forwarded_tracks\<close> (a subscription exists),
  \<open>pending_negotiated_tracks\<close> (contained in an offer that is not answered yet) and
  \<open>negotiated_tracks\<close> (answered).

  A state is a room, the outgoing queues and the world of the WebRTC library. A spawned task is a
  value that the operation returns, and its body is an operation of its own; a retry loop takes
  everything that happens while it sleeps as a function on the state. What a task does between two
  sleeps is one step.
\<close>

type_synonym 'w sfu = "room \<times> outbox \<times> 'w"

section \<open>Subscription bookkeeping\<close>

definition track_is_negotiated_or_pending :: "room \<Rightarrow> str \<Rightarrow> str \<Rightarrow> bool" where
  "track_is_negotiated_or_pending r p tid =
     (if (case negotiated_tracks r p of None \<Rightarrow> False | Some s \<Rightarrow> tid \<in> s) then True
      else (case pending_negotiated_tracks r p of None \<Rightarrow> False | Some s \<Rightarrow> tid \<in> s))"

definition reserve_forwarded_track :: "str \<Rightarrow> str \<Rightarrow> track_sets \<Rightarrow> bool \<times> track_sets" where
  "reserve_forwarded_track p tid m =
     (let s = unwrap_or {} (m p)
      in if tid \<in> s then (False, m(p \<mapsto> s)) else (True, m(p \<mapsto> insert tid s)))"

definition release_forwarded_track :: "str \<Rightarrow> str \<Rightarrow> track_sets \<Rightarrow> track_sets" where
  "release_forwarded_track p tid m =
     (case m p of
        None \<Rightarrow> m
      | Some s \<Rightarrow> (let s = s - {tid} in if s = {} then m(p := None) else m(p \<mapsto> s)))"

definition record_forwarded_sender ::
  "str \<Rightarrow> str \<Rightarrow> rtp_sender \<Rightarrow> (str \<times> (str \<times> rtp_sender) list) list
     \<Rightarrow> (str \<times> (str \<times> rtp_sender) list) list" where
  "record_forwarded_sender receiver source s m =
     AList.update receiver (unwrap_or [] (map_of m receiver) @ [(source, s)]) m"

text \<open>
  The local track of a forwarded track. Participant IDs are UUID texts, so their first eight bytes
  are their first eight characters.
\<close>

definition create_forwarding_track :: "remote_track \<Rightarrow> str \<Rightarrow> local_track" where
  "create_forwarding_track t source =
     \<lparr>lt_codec = codec t, lt_id = lit ''forwarded-'' @ take 8 source @ lit ''-'' @ track_id t,
      lt_stream = stream_id t\<rparr>"

section \<open>Forwarding a new track\<close>

text \<open>A writer and its feedback handler (\<open>subscribe_new_participant_to_track\<close>), by their arguments.\<close>

record subscription =
  sb_from :: str
  sb_to :: str
  sb_track :: remote_track
  sb_local :: local_track
  sb_sender :: rtp_sender
  sb_local_ssrc :: "32 word"
  sb_sender_pc :: pc_handle
  sb_broadcaster :: nat

text \<open>The task that offers a newly added track to its receiver.\<close>

record renegotiation =
  rn_pc :: pc_handle
  rn_channel :: str
  rn_receiver :: str
  rn_track :: str

text \<open>What one receiver costs: the body of the loop over the participants.\<close>

definition forward_to_one ::
  "'w webrtc \<Rightarrow> str \<Rightarrow> str \<Rightarrow> remote_track \<Rightarrow> pc_handle \<Rightarrow> nat \<Rightarrow> str \<times> participant_connection
     \<Rightarrow> 'w sfu \<times> subscription list \<times> renegotiation list
     \<Rightarrow> 'w sfu \<times> subscription list \<times> renegotiation list" where
  "forward_to_one L sid sname t spc ch = (\<lambda>(p, c) ((r, net, w), subs, tasks).
     if \<not> should_forward r sid p then ((r, net, w), subs, tasks)
     else
       (let net = snd (conn_send c (StreamOwner (stream_id t) sid sname) net) in
        case peer_connection c of
          None \<Rightarrow> ((r, net, w), subs, tasks)
        | Some pc \<Rightarrow>
            (case reserve_forwarded_track p (track_id t) (forwarded_tracks r) of
               (False, fwd) \<Rightarrow> ((r\<lparr>forwarded_tracks := fwd\<rparr>, net, w), subs, tasks)
             | (True, fwd) \<Rightarrow>
                 (let lt = create_forwarding_track t sid in
                  case lib_add_track L pc lt w of
                    (Inl e, w) \<Rightarrow>
                      ((r\<lparr>forwarded_tracks := release_forwarded_track p (track_id t) fwd\<rparr>, net, w),
                       subs, tasks)
                  | (Inr s, w) \<Rightarrow>
                      (case lib_encoding L w s of
                         None \<Rightarrow> ((r\<lparr>forwarded_tracks := fwd\<rparr>, net, w), subs, tasks)
                       | Some ssrc \<Rightarrow>
                           (let r = r\<lparr>forwarded_tracks := fwd,
                                      forwarded_senders :=
                                        record_forwarded_sender p sid s (forwarded_senders r)\<rparr>;
                                sub = \<lparr>sb_from = sid, sb_to = p, sb_track = t, sb_local = lt,
                                       sb_sender = s, sb_local_ssrc = ssrc, sb_sender_pc = spc,
                                       sb_broadcaster = ch\<rparr>;
                                w = (if kind t = Video
                                     then snd (lib_write_pli L spc (track_ssrc t) w) else w);
                                task = \<lparr>rn_pc = pc, rn_channel = sender c, rn_receiver = p,
                                        rn_track = track_id t\<rparr>
                            in ((r, net, w), subs @ [sub], tasks @ [task])))))))"

definition sender_name :: "room \<Rightarrow> str \<Rightarrow> str" where
  "sender_name r sid =
     unwrap_or (lit ''Unknown'') (map_option (\<lambda>c. pt_name (participant c)) (map_of (participants r) sid))"

definition forward_track_to_others ::
  "'w webrtc \<Rightarrow> str \<Rightarrow> remote_track \<Rightarrow> pc_handle \<Rightarrow> nat \<Rightarrow> 'w sfu
     \<Rightarrow> 'w sfu \<times> subscription list \<times> renegotiation list" where
  "forward_track_to_others L sid t spc ch = (\<lambda>(r, net, w).
     fold (forward_to_one L sid (sender_name r sid) t spc ch) (participants r) ((r, net, w), [], []))"

text \<open>\<open>ch\<close> is the broadcast channel that the function opens for the track.\<close>

definition handle_incoming_track ::
  "'w webrtc \<Rightarrow> str \<Rightarrow> remote_track \<Rightarrow> pc_handle \<Rightarrow> nat \<Rightarrow> 'w sfu
     \<Rightarrow> 'w sfu \<times> subscription list \<times> renegotiation list" where
  "handle_incoming_track L p t spc ch = (\<lambda>(r, net, w).
     let info = \<lparr>track = t, sender_peer_connection = spc, sender_ssrc = track_ssrc t,
                 packet_broadcaster = ch\<rparr>;
         r = r\<lparr>participant_tracks :=
                 AList.update p (unwrap_or [] (map_of (participant_tracks r) p) @ [info])
                   (participant_tracks r)\<rparr>
     in forward_track_to_others L p t spc ch (r, net, w))"

text \<open>The handler of \<open>on_track\<close>, which runs in a task of its own under the room's lock.\<close>

definition on_track ::
  "'w webrtc \<Rightarrow> str \<Rightarrow> uuid option \<Rightarrow> remote_track \<Rightarrow> pc_handle \<Rightarrow> nat \<Rightarrow> 'w sfu
     \<Rightarrow> 'w sfu \<times> subscription list \<times> renegotiation list" where
  "on_track L p u t spc ch = (\<lambda>(r, net, w).
     if \<not> has_active_participant r p u then ((r, net, w), [], [])
     else handle_incoming_track L p t spc ch (r, net, w))"

section \<open>Offering\<close>

definition mark_pending :: "str \<Rightarrow> str list \<Rightarrow> track_sets \<Rightarrow> track_sets" where
  "mark_pending p tids m = fold (\<lambda>tid m. m(p \<mapsto> insert tid (unwrap_or {} (m p)))) tids m"

text \<open>What one attempt of a retry loop comes to.\<close>

datatype attempt = Done | TryAgain

definition renegotiate_attempt ::
  "'w webrtc \<Rightarrow> renegotiation \<Rightarrow> 'w sfu \<Rightarrow> attempt \<times> 'w sfu" where
  "renegotiate_attempt L t = (\<lambda>(r, net, w).
     if track_is_negotiated_or_pending r (rn_receiver t) (rn_track t) then (Done, (r, net, w))
     else (case create_offer_if_stable L (rn_pc t) w of
             (Inr (Some offer), w) \<Rightarrow>
               (case chan_send net (rn_channel t) (Offer (rn_receiver t) offer) of
                  (Inl _, net) \<Rightarrow> (Done, (r, net, w))
                | (Inr _, net) \<Rightarrow>
                    (Done, (r\<lparr>pending_negotiated_tracks :=
                                mark_pending (rn_receiver t) [rn_track t]
                                  (pending_negotiated_tracks r)\<rparr>, net, w)))
           | (Inr None, w) \<Rightarrow> (TryAgain, (r, net, w))
           | (Inl e, w) \<Rightarrow> (Done, (r, net, w))))"

text \<open>
  A retry loop: at most \<open>n\<close> attempts, the first of them number \<open>k\<close>, with everything that the rest of
  the system does during the sleep after attempt \<open>k\<close> given by \<open>others k\<close>.
\<close>

primrec retrying :: "nat \<Rightarrow> nat \<Rightarrow> ('s \<Rightarrow> attempt \<times> 's) \<Rightarrow> (nat \<Rightarrow> 's \<Rightarrow> 's) \<Rightarrow> 's \<Rightarrow> 's" where
  "retrying 0 k body others s = s"
| "retrying (Suc n) k body others s =
     (case body s of
        (Done, s) \<Rightarrow> s
      | (TryAgain, s) \<Rightarrow> retrying n (Suc k) body others (others k s))"

definition renegotiate ::
  "'w webrtc \<Rightarrow> renegotiation \<Rightarrow> (nat \<Rightarrow> 'w sfu \<Rightarrow> 'w sfu) \<Rightarrow> 'w sfu \<Rightarrow> 'w sfu" where
  "renegotiate L t others s = retrying 5 1 (renegotiate_attempt L t) others s"

section \<open>Detaching a departed sender\<close>

definition RETIRE_OFFER_ATTEMPTS :: nat where "RETIRE_OFFER_ATTEMPTS = 5"

definition retire_detach :: "'w webrtc \<Rightarrow> pc_handle \<Rightarrow> rtp_sender list \<Rightarrow> 'w \<Rightarrow> 'w" where
  "retire_detach L pc ss w =
     fold (\<lambda>(tr, s) w. if s \<in> set ss then snd (lib_stop L tr (snd (lib_remove_track L pc s w))) else w)
       (lib_transceivers L w pc) w"

definition retire_attempt ::
  "'w webrtc \<Rightarrow> pc_handle \<Rightarrow> str \<Rightarrow> str \<Rightarrow> 'w sfu \<Rightarrow> attempt \<times> 'w sfu" where
  "retire_attempt L pc channel receiver = (\<lambda>(r, net, w).
     case create_offer_if_stable L pc w of
       (Inr (Some offer), w) \<Rightarrow> (Done, (r, push net channel (Offer receiver offer), w))
     | (Inr None, w) \<Rightarrow> (TryAgain, (r, net, w))
     | (Inl e, w) \<Rightarrow> (Done, (r, net, w)))"

definition retire_forwarded_senders ::
  "'w webrtc \<Rightarrow> pc_handle \<Rightarrow> str \<Rightarrow> str \<Rightarrow> rtp_sender list \<Rightarrow> (nat \<Rightarrow> 'w sfu \<Rightarrow> 'w sfu)
     \<Rightarrow> 'w sfu \<Rightarrow> 'w sfu" where
  "retire_forwarded_senders L pc channel receiver ss others = (\<lambda>(r, net, w).
     retrying RETIRE_OFFER_ATTEMPTS 1 (retire_attempt L pc channel receiver) others
       (r, net, retire_detach L pc ss w))"

section \<open>The offer handler and the late joiner\<close>

text \<open>The task that sends a joiner the tracks that were there before.\<close>

record late_join =
  lj_participant :: str
  lj_user :: "uuid option"
  lj_pc :: pc_handle
  lj_existing :: "(str \<times> sender_track_info list) list"
  lj_names :: "(str \<times> str) list"

definition handle_offer ::
  "'w webrtc \<Rightarrow> str \<Rightarrow> uuid option \<Rightarrow> str \<Rightarrow> 'w sfu \<Rightarrow> 'w sfu \<times> late_join option" where
  "handle_offer L p u sdp = (\<lambda>(r, net, w).
     if \<not> has_active_participant r p u then ((r, net, w), None)
     else case Option.bind (map_of (participants r) p) peer_connection of
       None \<Rightarrow> ((r, net, w), None)
     | Some pc \<Rightarrow>
         (case set_remote_description L pc sdp (lit ''offer'') w of
            (Inl e, w) \<Rightarrow> ((r, push net p (Error (lit ''Failed to process offer: '' @ e)), w), None)
          | (Inr _, w) \<Rightarrow>
              (case create_answer L pc w of
                 (Inl e, w) \<Rightarrow>
                   ((r, push net p (Error (lit ''Failed to create answer: '' @ e)), w), None)
               | (Inr answer, w) \<Rightarrow>
                   (let net = push net p (Answer p answer);
                        existing = filter (\<lambda>(i, ts). should_forward r i p) (participant_tracks r)
                    in ((r, net, w),
                        if existing = [] then None
                        else Some \<lparr>lj_participant = p, lj_user = u, lj_pc = pc,
                                   lj_existing = existing,
                                   lj_names = map (\<lambda>(i, c). (i, pt_name (participant c)))
                                                (participants r)\<rparr>)))))"

text \<open>A track that was added to the joiner's connection and waits for the offer.\<close>

record pending_forward =
  pf_info :: sender_track_info
  pf_local :: local_track
  pf_sender :: rtp_sender
  pf_from :: str

definition add_existing_track ::
  "'w webrtc \<Rightarrow> late_join \<Rightarrow> str \<Rightarrow> sender_track_info \<Rightarrow> 'w sfu \<times> pending_forward list
     \<Rightarrow> 'w sfu \<times> pending_forward list" where
  "add_existing_track L j sid info = (\<lambda>((r, net, w), pfs).
     let p = lj_participant j; tid = track_id (track info) in
     case reserve_forwarded_track p tid (forwarded_tracks r) of
       (False, fwd) \<Rightarrow> ((r\<lparr>forwarded_tracks := fwd\<rparr>, net, w), pfs)
     | (True, fwd) \<Rightarrow>
         (let lt = create_forwarding_track (track info) sid in
          case lib_add_track L (lj_pc j) lt w of
            (Inl e, w) \<Rightarrow> ((r\<lparr>forwarded_tracks := release_forwarded_track p tid fwd\<rparr>, net, w), pfs)
          | (Inr s, w) \<Rightarrow>
              ((r\<lparr>forwarded_tracks := fwd,
                  forwarded_senders := record_forwarded_sender p sid s (forwarded_senders r)\<rparr>, net, w),
               pfs @ [\<lparr>pf_info = info, pf_local = lt, pf_sender = s, pf_from = sid\<rparr>])))"

definition add_existing_sender ::
  "'w webrtc \<Rightarrow> late_join \<Rightarrow> str \<times> sender_track_info list \<Rightarrow> 'w sfu \<times> pending_forward list
     \<Rightarrow> 'w sfu \<times> pending_forward list" where
  "add_existing_sender L j = (\<lambda>(sid, infos) ((r, net, w), pfs).
     let net = (case infos of
                  [] \<Rightarrow> net
                | info # _ \<Rightarrow>
                    push net (lj_participant j)
                      (StreamOwner (stream_id (track info)) sid
                        (unwrap_or (lit ''Unknown'') (map_of (lj_names j) sid))))
     in fold (add_existing_track L j sid) infos ((r, net, w), pfs))"

text \<open>The first part of the task: add every existing track, unless the joiner has gone.\<close>

definition late_join_add ::
  "'w webrtc \<Rightarrow> late_join \<Rightarrow> 'w sfu \<Rightarrow> 'w sfu \<times> pending_forward list option" where
  "late_join_add L j = (\<lambda>(r, net, w).
     if \<not> has_active_participant r (lj_participant j) (lj_user j) then ((r, net, w), None)
     else (case fold (add_existing_sender L j) (lj_existing j) ((r, net, w), []) of
             (s, pfs) \<Rightarrow> (s, Some pfs)))"

text \<open>The start of one subscription once the offer is out.\<close>

definition start_late_forward ::
  "'w webrtc \<Rightarrow> late_join \<Rightarrow> pending_forward \<Rightarrow> 'w sfu \<times> subscription list
     \<Rightarrow> 'w sfu \<times> subscription list" where
  "start_late_forward L j pf = (\<lambda>((r, net, w), subs).
     let p = lj_participant j; info = pf_info pf; t = track info;
         r = r\<lparr>pending_negotiated_tracks := mark_pending p [track_id t] (pending_negotiated_tracks r)\<rparr>
     in case lib_encoding L w (pf_sender pf) of
          None \<Rightarrow> ((r, net, w), subs)
        | Some ssrc \<Rightarrow>
            (let sub = \<lparr>sb_from = pf_from pf, sb_to = p, sb_track = t, sb_local = pf_local pf,
                        sb_sender = pf_sender pf, sb_local_ssrc = ssrc,
                        sb_sender_pc = sender_peer_connection info,
                        sb_broadcaster = packet_broadcaster info\<rparr>;
                 w = (if kind t = Video
                      then snd (lib_write_pli L (sender_peer_connection info) (sender_ssrc info) w)
                      else w)
             in ((r, net, w), subs @ [sub])))"

definition late_join_attempt ::
  "'w webrtc \<Rightarrow> late_join \<Rightarrow> pending_forward list \<Rightarrow> 'w sfu \<times> subscription list
     \<Rightarrow> attempt \<times> 'w sfu \<times> subscription list" where
  "late_join_attempt L j pfs = (\<lambda>((r, net, w), subs).
     case create_offer_if_stable L (lj_pc j) w of
       (Inr (Some offer), w) \<Rightarrow>
         (if \<not> has_active_participant r (lj_participant j) (lj_user j) then (Done, ((r, net, w), subs))
          else (case chan_send net (lj_participant j) (Offer (lj_participant j) offer) of
                  (Inl _, net) \<Rightarrow> (Done, ((r, net, w), subs))
                | (Inr _, net) \<Rightarrow> (Done, fold (start_late_forward L j) pfs ((r, net, w), subs))))
     | (Inr None, w) \<Rightarrow> (TryAgain, ((r, net, w), subs))
     | (Inl e, w) \<Rightarrow> (Done, ((r, net, w), subs)))"

definition late_join_task ::
  "'w webrtc \<Rightarrow> late_join \<Rightarrow> (nat \<Rightarrow> 'w sfu \<times> subscription list \<Rightarrow> 'w sfu \<times> subscription list)
     \<Rightarrow> 'w sfu \<Rightarrow> 'w sfu \<times> subscription list" where
  "late_join_task L j others s =
     (case late_join_add L j s of
        (s, None) \<Rightarrow> (s, [])
      | (s, Some pfs) \<Rightarrow> retrying 5 1 (late_join_attempt L j pfs) others (s, []))"

section \<open>The answer handler\<close>

definition handle_answer ::
  "'w webrtc \<Rightarrow> str \<Rightarrow> uuid option \<Rightarrow> str \<Rightarrow> 'w sfu \<Rightarrow> 'w sfu \<times> pc_handle option" where
  "handle_answer L p u sdp = (\<lambda>(r, net, w).
     if \<not> has_active_participant r p u then ((r, net, w), None)
     else case Option.bind (map_of (participants r) p) peer_connection of
       None \<Rightarrow> ((r, net, w), None)
     | Some pc \<Rightarrow>
         (case set_remote_description L pc sdp (lit ''answer'') w of
            (Inl e, w) \<Rightarrow> ((r, net, w), None)
          | (Inr _, w) \<Rightarrow> ((r, net, w), Some pc)))"

definition promote_pending :: "str \<Rightarrow> room \<Rightarrow> room" where
  "promote_pending p r =
     (let done = unwrap_or {} (pending_negotiated_tracks r p);
          r = r\<lparr>pending_negotiated_tracks := (pending_negotiated_tracks r)(p := None)\<rparr>
      in if done = {} then r
         else r\<lparr>negotiated_tracks :=
                  (negotiated_tracks r)(p \<mapsto> unwrap_or {} (negotiated_tracks r p) \<union> done)\<rparr>)"

text \<open>Every track that the room would forward to a receiver.\<close>

definition wanted_tracks :: "room \<Rightarrow> str \<Rightarrow> str list" where
  "wanted_tracks r p =
     concat (map (\<lambda>(i, infos). map (\<lambda>info. track_id (track info)) infos)
       (filter (\<lambda>(i, infos). should_forward r i p) (participant_tracks r)))"

definition missing_tracks :: "room \<Rightarrow> str \<Rightarrow> str list" where
  "missing_tracks r p =
     filter (\<lambda>tid. tid \<notin> unwrap_or {} (negotiated_tracks r p) \<and>
                   tid \<notin> unwrap_or {} (pending_negotiated_tracks r p) \<and>
                   tid \<in> unwrap_or {} (forwarded_tracks r p)) (wanted_tracks r p)"

text \<open>The task that an accepted answer starts.\<close>

definition answer_task ::
  "'w webrtc \<Rightarrow> str \<Rightarrow> uuid option \<Rightarrow> pc_handle \<Rightarrow> 'w sfu \<Rightarrow> 'w sfu" where
  "answer_task L p u pc = (\<lambda>(r, net, w).
     if \<not> has_active_participant r p u then (r, net, w)
     else
       (let r = promote_pending p r;
            missing = missing_tracks r p
        in if missing = [] then (r, net, w)
           else (case create_offer_if_stable L pc w of
                   (Inr (Some offer), w) \<Rightarrow>
                     (case chan_send net p (Offer p offer) of
                        (Inl _, net) \<Rightarrow> (r, net, w)
                      | (Inr _, net) \<Rightarrow>
                          (r\<lparr>pending_negotiated_tracks :=
                               mark_pending p missing (pending_negotiated_tracks r)\<rparr>, net, w))
                 | (Inr None, w) \<Rightarrow> (r, net, w)
                 | (Inl e, w) \<Rightarrow> (r, net, w))))"

section \<open>ICE candidates from the client\<close>

definition handle_ice_candidate ::
  "'w webrtc \<Rightarrow> str \<Rightarrow> uuid option \<Rightarrow> str \<Rightarrow> str option \<Rightarrow> 16 word option \<Rightarrow> 'w sfu \<Rightarrow> 'w sfu" where
  "handle_ice_candidate L p u candidate mid line = (\<lambda>(r, net, w).
     if \<not> has_active_participant r p u then (r, net, w)
     else case Option.bind (map_of (participants r) p) peer_connection of
       None \<Rightarrow> (r, net, w)
     | Some pc \<Rightarrow> (r, net, snd (add_ice_candidate L pc candidate mid line w)))"

section \<open>Lemmas on the bookkeeping\<close>

abbreviation tracks_of :: "track_sets \<Rightarrow> str \<Rightarrow> str set" where
  "tracks_of m p \<equiv> unwrap_or {} (m p)"

lemma reserve_spec:
  "reserve_forwarded_track p tid m = (b, m') \<Longrightarrow> b = (tid \<notin> tracks_of m p) \<and>
     tracks_of m' q = (if q = p then insert tid (tracks_of m p) else tracks_of m q)"
  by (auto simp: reserve_forwarded_track_def Let_def split: if_splits)

lemma release_spec:
  "tracks_of (release_forwarded_track p tid m) q =
     (if q = p then tracks_of m p - {tid} else tracks_of m q)"
  by (auto simp: release_forwarded_track_def Let_def split: option.splits)

lemma mark_pending_spec:
  "tracks_of (mark_pending p tids m) q =
     (if q = p then set tids \<union> tracks_of m p else tracks_of m q)"
  unfolding mark_pending_def by (induction tids arbitrary: m) auto

lemma negotiated_or_pending_iff:
  "track_is_negotiated_or_pending r p tid \<longleftrightarrow>
     tid \<in> tracks_of (negotiated_tracks r) p \<union> tracks_of (pending_negotiated_tracks r) p"
  by (simp add: track_is_negotiated_or_pending_def split: option.splits)

lemma promote_pending_spec:
  "tracks_of (negotiated_tracks (promote_pending p r)) q =
     (if q = p then tracks_of (negotiated_tracks r) p \<union> tracks_of (pending_negotiated_tracks r) p
      else tracks_of (negotiated_tracks r) q)"
  "tracks_of (pending_negotiated_tracks (promote_pending p r)) q =
     (if q = p then {} else tracks_of (pending_negotiated_tracks r) q)"
  by (auto simp: promote_pending_def Let_def)

lemma forget_tracks_spec:
  "tracks_of (forget_tracks i tids m) q = (if q = i then {} else tracks_of m q - set tids)"
  by (cases "m q") (auto simp: forget_tracks_def)

text \<open>Forwarding changes only the two maps of forwarded tracks and senders.\<close>

definition only_forwards :: "room \<Rightarrow> room \<Rightarrow> bool" where
  "only_forwards r r' \<longleftrightarrow>
     (\<exists>fwd ss. r' = r\<lparr>forwarded_tracks := fwd, forwarded_senders := ss\<rparr>)"

lemma should_forward_cong:
  "participants r' = participants r \<Longrightarrow> should_forward r' = should_forward r"
  by (simp add: fun_eq_iff should_forward_def share_owner_def)

lemma only_forwards_fields:
  assumes "only_forwards r r'"
  shows "participants r' = participants r" and "participant_tracks r' = participant_tracks r"
    and "negotiated_tracks r' = negotiated_tracks r"
    and "pending_negotiated_tracks r' = pending_negotiated_tracks r"
    and "should_forward r' = should_forward r"
proof -
  obtain fwd ss where r': "r' = r\<lparr>forwarded_tracks := fwd, forwarded_senders := ss\<rparr>"
    using assms unfolding only_forwards_def by blast
  show "participants r' = participants r" "participant_tracks r' = participant_tracks r"
    "negotiated_tracks r' = negotiated_tracks r"
    "pending_negotiated_tracks r' = pending_negotiated_tracks r" by (simp_all add: r')
  then show "should_forward r' = should_forward r" by (intro should_forward_cong)
qed

lemma only_forwards_refl [simp]: "only_forwards r r"
  unfolding only_forwards_def by (intro exI [of _ "forwarded_tracks r"] exI [of _ "forwarded_senders r"]) simp

lemma only_forwards_trans: "only_forwards r r1 \<Longrightarrow> only_forwards r1 r2 \<Longrightarrow> only_forwards r r2"
  unfolding only_forwards_def by fastforce

lemma only_forwardsI [simp]:
  "only_forwards r (r\<lparr>forwarded_tracks := fwd\<rparr>)"
  "only_forwards r (r\<lparr>forwarded_tracks := fwd, forwarded_senders := ss\<rparr>)"
proof -
  have "r\<lparr>forwarded_tracks := fwd\<rparr> = r\<lparr>forwarded_tracks := fwd, forwarded_senders := forwarded_senders r\<rparr>"
    by simp
  then show "only_forwards r (r\<lparr>forwarded_tracks := fwd\<rparr>)" unfolding only_forwards_def by blast
qed (auto simp: only_forwards_def)

text \<open>
  What adding tracks does to the reservations: \<open>new\<close> are the (receiver, track) pairs that were added.
  None was reserved before, all are afterwards, and every other reservation is kept.
\<close>

definition reserves :: "track_sets \<Rightarrow> (str \<times> str) list \<Rightarrow> track_sets \<Rightarrow> bool" where
  "reserves m new m' \<longleftrightarrow> distinct new \<and>
     (\<forall>(p, tid) \<in> set new. tid \<notin> tracks_of m p \<and> tid \<in> tracks_of m' p) \<and>
     (\<forall>p. tracks_of m p \<subseteq> tracks_of m' p)"

lemma reserves_refl [simp]: "reserves m [] m"
  by (simp add: reserves_def)

lemma reserves_trans:
  assumes "reserves m new m1" and "reserves m1 new' m2"
  shows "reserves m (new @ new') m2"
  using assms unfolding reserves_def by fastforce

lemma reserves_fail:
  "reserve_forwarded_track p tid m = (b, m') \<Longrightarrow> reserves m [] m'"
  using reserve_spec [of p tid m b m'] by (auto simp: reserves_def)

lemma reserves_one:
  "reserve_forwarded_track p tid m = (True, m') \<Longrightarrow> reserves m [(p, tid)] m'"
  using reserve_spec [of p tid m True m'] by (auto simp: reserves_def)

lemma reserves_release:
  "reserve_forwarded_track p tid m = (True, m') \<Longrightarrow>
     reserves m [] (release_forwarded_track p tid m')"
  using reserve_spec [of p tid m True m'] by (auto simp: reserves_def release_spec)

section \<open>One receiver\<close>

definition sub_pair :: "subscription \<Rightarrow> str \<times> str" where
  "sub_pair s = (sb_to s, track_id (sb_track s))"

text \<open>The reservations of every other receiver are untouched.\<close>

definition same_reservations :: "str \<Rightarrow> room \<Rightarrow> room \<Rightarrow> bool" where
  "same_reservations p r r' \<longleftrightarrow>
     (\<forall>q. q \<noteq> p \<longrightarrow> tracks_of (forwarded_tracks r') q = tracks_of (forwarded_tracks r) q)"

lemma same_reservations_fields:
  "same_reservations p r r"
  "reserve_forwarded_track p tid (forwarded_tracks r) = (b, forwarded_tracks r') \<Longrightarrow>
     same_reservations p r r'"
  "reserve_forwarded_track p tid (forwarded_tracks r) = (b, fwd) \<Longrightarrow>
     forwarded_tracks r' = release_forwarded_track p tid fwd \<Longrightarrow> same_reservations p r r'"
  using reserve_spec [of p tid "forwarded_tracks r" b]
  by (simp_all add: same_reservations_def release_spec)

text \<open>The outcome of the loop body for one participant.\<close>

lemma forward_to_one_cases:
  assumes "forward_to_one L sid nm t spc ch (p, c) ((r, net, w), subs, tasks) = ((r', net', w'), subs', tasks')"
  obtains
    (none) "only_forwards r r'" "reserves (forwarded_tracks r) [] (forwarded_tracks r')"
       "subs' = subs" "tasks' = tasks" "same_reservations p r r'"
       "net' = (if should_forward r sid p then push net (sender c) (StreamOwner (stream_id t) sid nm) else net)"
  | (sub) sub pc where "should_forward r sid p" "peer_connection c = Some pc" "only_forwards r r'"
       "reserves (forwarded_tracks r) [(p, track_id t)] (forwarded_tracks r')"
       "subs' = subs @ [sub]" "sb_to sub = p" "sb_from sub = sid" "sb_track sub = t"
       "tasks' = tasks @ [\<lparr>rn_pc = pc, rn_channel = sender c, rn_receiver = p, rn_track = track_id t\<rparr>]"
       "net' = push net (sender c) (StreamOwner (stream_id t) sid nm)" "same_reservations p r r'"
proof (cases "should_forward r sid p \<and> peer_connection c \<noteq> None")
  case False
  then show ?thesis
    using assms by (intro none) (auto simp: forward_to_one_def Let_def same_reservations_fields(1) split: if_splits)
next
  case True
  then obtain pc where pc: "peer_connection c = Some pc" and sf: "should_forward r sid p" by auto
  obtain b fwd where rs: "reserve_forwarded_track p (track_id t) (forwarded_tracks r) = (b, fwd)"
    by fastforce
  let ?lt = "create_forwarding_track t sid"
  obtain res w1 where add: "lib_add_track L pc ?lt w = (res, w1)" by fastforce
  show ?thesis
  proof (cases "b \<and> (\<exists>s ssrc. res = Inr s \<and> lib_encoding L w1 s = Some ssrc)")
    case True
    then obtain s ssrc where "b" "res = Inr s" "lib_encoding L w1 s = Some ssrc" by blast
    then show ?thesis
      using assms sf pc rs add reserves_one [of p "track_id t" "forwarded_tracks r" fwd]
      by (intro sub) (auto simp: forward_to_one_def Let_def intro!: same_reservations_fields(2))
  next
    case False
    then show ?thesis
      using assms sf pc rs add reserves_fail [OF rs] reserves_release [of p "track_id t" "forwarded_tracks r" fwd]
      by (intro none) (auto simp: forward_to_one_def Let_def intro: same_reservations_fields(2,3)
          split: sum.splits option.splits bool.splits)
  qed
qed
section \<open>All receivers\<close>

text \<open>A subscription that forwarding track \<open>t\<close> of \<open>sid\<close> may create.\<close>

definition proper_sub ::
  "room \<Rightarrow> (str \<times> participant_connection) list \<Rightarrow> str \<Rightarrow> remote_track \<Rightarrow> subscription \<Rightarrow> bool" where
  "proper_sub r ps sid t sub \<longleftrightarrow> sb_from sub = sid \<and> sb_track sub = t \<and>
     should_forward r sid (sb_to sub) \<and>
     (\<exists>c. (sb_to sub, c) \<in> set ps \<and> peer_connection c \<noteq> None)"

definition proper_tasks :: "subscription list \<Rightarrow> renegotiation list \<Rightarrow> bool" where
  "proper_tasks subs tasks \<longleftrightarrow>
     map (\<lambda>k. (rn_receiver k, rn_track k)) tasks = map sub_pair subs \<and>
     (\<forall>k \<in> set tasks. rn_channel k = rn_receiver k)"

lemma proper_sub_cons:
  assumes "proper_sub r1 ps sid t sub" and "should_forward r1 = should_forward r"
  shows "proper_sub r (a # ps) sid t sub"
  using assms unfolding proper_sub_def by (metis list.set_intros(2))

lemma forward_all:
  assumes "fold (forward_to_one L sid nm t spc ch) ps ((r, net, w), subs, tasks) =
      ((r', net', w'), subs', tasks')"
    and "distinct (map fst ps)" and "\<forall>(i, c) \<in> set ps. sender c = i"
  shows "\<exists>new newt. subs' = subs @ new \<and> tasks' = tasks @ newt \<and> only_forwards r r' \<and>
     reserves (forwarded_tracks r) (map sub_pair new) (forwarded_tracks r') \<and>
     (\<forall>sub \<in> set new. proper_sub r ps sid t sub) \<and> proper_tasks new newt \<and>
     (\<forall>q. net' q = (if q \<in> fst ` set ps \<and> should_forward r sid q
        then map_option (\<lambda>x. x @ [StreamOwner (stream_id t) sid nm]) (net q) else net q))"
  using assms
proof (induction ps arbitrary: r net w subs tasks)
  case Nil
  then show ?case by (auto simp: proper_tasks_def)
next
  case (Cons a ps)
  obtain p c where a: "a = (p, c)" by fastforce
  obtain r1 net1 w1 subs1 tasks1
    where one: "forward_to_one L sid nm t spc ch (p, c) ((r, net, w), subs, tasks) =
      ((r1, net1, w1), subs1, tasks1)" by (metis prod_cases5 surj_pair)
  have pc: "sender c = p" and dist: "distinct (map fst ps)" "p \<notin> fst ` set ps"
    and snds: "\<forall>(i, c) \<in> set ps. sender c = i" using Cons.prems a by auto
  let ?m = "StreamOwner (stream_id t) sid nm"
  from Cons.IH [of r1 net1 w1 subs1 tasks1] Cons.prems(1) a one dist snds
  obtain new newt where IH: "subs' = subs1 @ new" "tasks' = tasks1 @ newt" "only_forwards r1 r'"
      "reserves (forwarded_tracks r1) (map sub_pair new) (forwarded_tracks r')"
      "\<forall>sub \<in> set new. proper_sub r1 ps sid t sub" "proper_tasks new newt"
      "\<forall>q. net' q = (if q \<in> fst ` set ps \<and> should_forward r1 sid q
        then map_option (\<lambda>x. x @ [?m]) (net1 q) else net1 q)" by auto
  show ?case using one
  proof (cases rule: forward_to_one_cases)
    case none
    note same = only_forwards_fields(5) [OF none(1)]
    have "reserves (forwarded_tracks r) (map sub_pair new) (forwarded_tracks r')"
      using reserves_trans [OF none(2) IH(4)] by simp
    moreover have "\<forall>sub \<in> set new. proper_sub r (a # ps) sid t sub"
      using IH(5) same proper_sub_cons by blast
    moreover have "net' q = (if q \<in> fst ` set (a # ps) \<and> should_forward r sid q
        then map_option (\<lambda>x. x @ [?m]) (net q) else net q)" for q
      using IH(7) none(6) dist(2) pc same by (auto simp: a push_apply)
    ultimately show ?thesis
      using IH none only_forwards_trans by (intro exI [of _ new] exI [of _ newt]) auto
  next
    case (sub s pc')
    note same = only_forwards_fields(5) [OF sub(3)]
    let ?k = "\<lparr>rn_pc = pc', rn_channel = sender c, rn_receiver = p, rn_track = track_id t\<rparr>"
    have "reserves (forwarded_tracks r) (map sub_pair (s # new)) (forwarded_tracks r')"
      using reserves_trans [OF sub(4) IH(4)] sub(6,8) by (simp add: sub_pair_def)
    moreover have "\<forall>x \<in> set (s # new). proper_sub r (a # ps) sid t x"
    proof -
      have "proper_sub r (a # ps) sid t s" using sub by (auto simp: proper_sub_def a)
      then show ?thesis using IH(5) proper_sub_cons [OF _ same] by auto
    qed
    moreover have "proper_tasks (s # new) (?k # newt)"
      using IH(6) sub(6,8) pc by (simp add: proper_tasks_def sub_pair_def)
    moreover have "net' q = (if q \<in> fst ` set (a # ps) \<and> should_forward r sid q
        then map_option (\<lambda>x. x @ [?m]) (net q) else net q)" for q
      using IH(7) sub(1,10) dist(2) pc same by (auto simp: a push_apply)
    ultimately show ?thesis
      using IH(1,2) sub(5,9) only_forwards_trans [OF sub(3) IH(3)]
      by (intro exI [of _ "s # new"] exI [of _ "?k # newt"]) auto
  qed
qed

section \<open>The late joiner\<close>

definition pf_pair :: "str \<Rightarrow> pending_forward \<Rightarrow> str \<times> str" where
  "pf_pair p pf = (p, track_id (track (pf_info pf)))"

lemma add_existing_track_spec:
  assumes "add_existing_track L j sid info ((r, net, w), pfs) = ((r', net', w'), pfs')"
  shows "\<exists>new. pfs' = pfs @ new \<and> only_forwards r r' \<and> net' = net \<and>
     reserves (forwarded_tracks r) (map (pf_pair (lj_participant j)) new) (forwarded_tracks r')"
proof -
  let ?p = "lj_participant j" and ?tid = "track_id (track info)"
  obtain b fwd where rs: "reserve_forwarded_track ?p ?tid (forwarded_tracks r) = (b, fwd)"
    by fastforce
  obtain res w1 where add: "lib_add_track L (lj_pc j) (create_forwarding_track (track info) sid) w = (res, w1)"
    by fastforce
  show ?thesis
  proof (cases "b \<and> (\<exists>s. res = Inr s)")
    case True
    then obtain s where s: "b" "res = Inr s" by blast
    then show ?thesis
      using assms rs add reserves_one [of ?p ?tid "forwarded_tracks r" fwd]
      by (intro exI [of _ "[\<lparr>pf_info = info, pf_local = create_forwarding_track (track info) sid,
            pf_sender = s, pf_from = sid\<rparr>]"])
         (auto simp: add_existing_track_def Let_def pf_pair_def)
  next
    case False
    then show ?thesis
      using assms rs add reserves_fail [OF rs] reserves_release [of ?p ?tid "forwarded_tracks r" fwd]
      by (intro exI [of _ "[]"])
         (auto simp: add_existing_track_def Let_def split: sum.splits bool.splits)
  qed
qed

lemma add_existing_tracks_spec:
  assumes "fold (add_existing_track L j sid) infos ((r, net, w), pfs) = ((r', net', w'), pfs')"
  shows "\<exists>new. pfs' = pfs @ new \<and> only_forwards r r' \<and> net' = net \<and>
     reserves (forwarded_tracks r) (map (pf_pair (lj_participant j)) new) (forwarded_tracks r')"
  using assms
proof (induction infos arbitrary: r net w pfs)
  case Nil
  then show ?case by auto
next
  case (Cons a infos)
  obtain r1 net1 w1 pfs1 where one: "add_existing_track L j sid a ((r, net, w), pfs) = ((r1, net1, w1), pfs1)"
    by (metis prod_cases4 surj_pair)
  from add_existing_track_spec [OF one] obtain new1 where 1: "pfs1 = pfs @ new1" "only_forwards r r1"
      "net1 = net" "reserves (forwarded_tracks r) (map (pf_pair (lj_participant j)) new1) (forwarded_tracks r1)"
    by blast
  from Cons.IH [of r1 net1 w1 pfs1] Cons.prems one obtain new2 where
      2: "pfs' = pfs1 @ new2" "only_forwards r1 r'" "net' = net1"
      "reserves (forwarded_tracks r1) (map (pf_pair (lj_participant j)) new2) (forwarded_tracks r')"
    by auto
  show ?case
    using 1 2 only_forwards_trans [OF 1(2) 2(2)] reserves_trans [OF 1(4) 2(4)]
    by (intro exI [of _ "new1 @ new2"]) simp
qed

text \<open>The joiner is told who owns each sender's stream, and nobody else is told anything.\<close>

lemma add_existing_senders_spec:
  assumes "fold (add_existing_sender L j) existing ((r, net, w), pfs) = ((r', net', w'), pfs')"
  shows "\<exists>new. pfs' = pfs @ new \<and> only_forwards r r' \<and>
     (\<forall>q. q \<noteq> lj_participant j \<longrightarrow> net' q = net q) \<and>
     (\<exists>ms. net' (lj_participant j) = map_option (\<lambda>x. x @ ms) (net (lj_participant j))) \<and>
     reserves (forwarded_tracks r) (map (pf_pair (lj_participant j)) new) (forwarded_tracks r')"
  using assms
proof (induction existing arbitrary: r net w pfs)
  case Nil
  then show ?case by (auto simp: option.map_ident intro: exI [of _ "[]"])
next
  case (Cons a existing)
  obtain sid infos where a: "a = (sid, infos)" by fastforce
  define net0 where "net0 = (case infos of [] \<Rightarrow> net
      | info # _ \<Rightarrow> push net (lj_participant j) (StreamOwner (stream_id (track info)) sid
          (unwrap_or (lit ''Unknown'') (map_of (lj_names j) sid))))"
  obtain r1 net1 w1 pfs1 where one: "fold (add_existing_track L j sid) infos ((r, net0, w), pfs) =
      ((r1, net1, w1), pfs1)" by (metis prod_cases4 surj_pair)
  from add_existing_tracks_spec [OF one] obtain new1 where 1: "pfs1 = pfs @ new1" "only_forwards r r1"
      "net1 = net0" "reserves (forwarded_tracks r) (map (pf_pair (lj_participant j)) new1) (forwarded_tracks r1)"
    by blast
  have "fold (add_existing_sender L j) existing ((r1, net1, w1), pfs1) = ((r', net', w'), pfs')"
    using Cons.prems one by (simp add: a add_existing_sender_def net0_def)
  from Cons.IH [OF this] obtain new2 ms where
      2: "pfs' = pfs1 @ new2" "only_forwards r1 r'" "\<forall>q. q \<noteq> lj_participant j \<longrightarrow> net' q = net1 q"
      "net' (lj_participant j) = map_option (\<lambda>x. x @ ms) (net1 (lj_participant j))"
      "reserves (forwarded_tracks r1) (map (pf_pair (lj_participant j)) new2) (forwarded_tracks r')"
    by blast
  have "\<exists>ms0. net0 (lj_participant j) = map_option (\<lambda>x. x @ ms0) (net (lj_participant j))"
    by (cases infos) (auto simp: net0_def option.map_ident intro: exI [of _ "[]"])
  then obtain ms0 where ms0: "net0 (lj_participant j) = map_option (\<lambda>x. x @ ms0) (net (lj_participant j))" ..
  have "\<forall>q. q \<noteq> lj_participant j \<longrightarrow> net0 q = net q"
    by (cases infos) (auto simp: net0_def)
  with 1 2 ms0 show ?case
    using only_forwards_trans [OF 1(2) 2(2)] reserves_trans [OF 1(4) 2(5)]
    by (intro exI [of _ "new1 @ new2"])
       (auto simp: option.map_comp comp_def intro!: exI [of _ "ms0 @ ms"])
qed

end
