(* ===== verification/Negotiation.thy ===== *)
theory Negotiation
  imports Forwarding
begin

text \<open>
  The media plane of a room as a transition system: every handler and every step of a background
  task, in any order, with the rest of the server (other messages, sockets that close, the WebRTC
  library) moving freely in between. Invariants by rule induction, and the properties of forwarding
  and negotiation.
\<close>

section \<open>Queues only grow\<close>

text \<open>
  No step takes a message back; a queue may be closed. So the queue of a connection is the history of
  what was sent to it.
\<close>

definition grows :: "outbox \<Rightarrow> outbox \<Rightarrow> bool" where
  "grows net net' \<longleftrightarrow>
     (\<forall>p. net' p = None \<or> (\<exists>q ms. net p = Some q \<and> net' p = Some (q @ ms)))"

definition offered :: "outbox \<Rightarrow> str \<Rightarrow> bool" where
  "offered net p \<longleftrightarrow> (case net p of None \<Rightarrow> True | Some q \<Rightarrow> \<exists>sdp. Offer p sdp \<in> set q)"

lemma grows_refl [simp]: "grows net net"
  unfolding grows_def by (metis append_Nil2 not_Some_eq)

lemma grows_trans: "grows a b \<Longrightarrow> grows b c \<Longrightarrow> grows a c"
  unfolding grows_def by (metis append_assoc option.distinct(1) option.inject)

lemma grows_push [simp]: "grows net (push net ch m)"
  unfolding grows_def by (auto simp: push_apply)

lemma grows_close [simp]: "grows net (net(p := None))"
  unfolding grows_def by auto

lemma grows_fold:
  assumes "\<And>x net. grows net (f x net)"
  shows "grows net (fold f xs net)"
  using assms by (induction xs arbitrary: net) (auto intro: grows_trans)

lemma grows_broadcast [simp]:
  "grows net (broadcast r m net)" "grows net (broadcast_except r ex m net)"
  unfolding broadcast_def broadcast_except_def by (rule grows_fold; simp split: prod.splits)+

lemma grows_offered: "grows net net' \<Longrightarrow> offered net p \<Longrightarrow> offered net' p"
  unfolding grows_def offered_def
  by (drule spec [of _ p]) (fastforce split: option.splits)

lemma grows_map:
  "(\<And>p. net' p = net p \<or> (\<exists>ms. net' p = map_option (\<lambda>q. q @ ms) (net p))) \<Longrightarrow> grows net net'"
  unfolding grows_def
  by (metis append_Nil2 not_Some_eq option.simps(8,9))

lemma offered_send:
  "chan_send net p (Offer p sdp) = (Inr x, net') \<Longrightarrow> offered net' p"
  by (fastforce simp: chan_send_def offered_def split: option.splits)

lemma grows_send: "chan_send net p m = (x, net') \<Longrightarrow> grows net net'"
  using grows_push [of net p m] by (simp add: push_def)

section \<open>The transition system\<close>

text \<open>
  A configuration is a state with the log of the live subscriptions, as (receiver, track) pairs: a
  pair enters the log when a track is added to a receiver's connection and leaves it with the
  receiver or with the track's source.
\<close>

type_synonym 'w media = "'w sfu \<times> (str \<times> str) list"

inductive media_step :: "'w webrtc \<Rightarrow> 'w media \<Rightarrow> 'w media \<Rightarrow> bool" for L where
  track: "on_track L p u t spc ch s = (s', subs, tasks) \<Longrightarrow>
    media_step L (s, log) (s', log @ map sub_pair subs)"
| offer: "handle_offer L p u sdp s = (s', task) \<Longrightarrow> media_step L (s, log) (s', log)"
| late_add: "late_join_add L j s = (s', pfs) \<Longrightarrow>
    media_step L (s, log) (s', log @ map (pf_pair (lj_participant j)) (unwrap_or [] pfs))"
| late_offer: "late_join_attempt L j pfs (s, subs) = (a, s', subs') \<Longrightarrow>
    media_step L (s, log) (s', log)"
| renegotiation: "rn_channel k = rn_receiver k \<Longrightarrow> renegotiate_attempt L k s = (a, s') \<Longrightarrow>
    media_step L (s, log) (s', log)"
| retirement: "retire_attempt L pc p p s = (a, s') \<Longrightarrow> media_step L (s, log) (s', log)"
| answer: "handle_answer L p u sdp s = (s', task) \<Longrightarrow> media_step L (s, log) (s', log)"
| answered: "answer_task L p u pc s = s' \<Longrightarrow> media_step L (s, log) (s', log)"
| ice: "handle_ice_candidate L p u cand mid line s = s' \<Longrightarrow> media_step L (s, log) (s', log)"
| join: "sender c = pt_id (participant c) \<Longrightarrow> add_participant c (r, net) = (r', net') \<Longrightarrow>
    media_step L ((r, net, w), log) ((r', net', w), log)"
| leave: "i \<in> member_ids r \<Longrightarrow> remove_participant i (r, net) = (r', net', effects) \<Longrightarrow>
    media_step L ((r, net, w), log)
      ((r', net', w), filter (\<lambda>(p, tid). p \<noteq> i \<and> tid \<notin> set (track_ids_of r i)) log)"
| message: "media_step L ((r, net, w), log) ((r, push net p m, w), log)"
| socket_closed: "media_step L ((r, net, w), log) ((r, net(p := None), w), log)"
| library: "media_step L ((r, net, w), log) ((r, net, w'), log)"

text \<open>Participants are stored under their ID, and each has the queue of its own socket.\<close>

definition wf_members :: "room \<Rightarrow> bool" where
  "wf_members r \<longleftrightarrow> distinct (map fst (participants r)) \<and>
     (\<forall>(i, c) \<in> set (participants r). sender c = i)"

definition media_inv :: "'w media \<Rightarrow> bool" where
  "media_inv = (\<lambda>((r, net, w), log).
     wf_members r \<and> distinct log \<and>
     (\<forall>(p, tid) \<in> set log. tid \<in> tracks_of (forwarded_tracks r) p) \<and>
     (\<forall>p. tracks_of (pending_negotiated_tracks r) p \<union> tracks_of (negotiated_tracks r) p \<noteq> {}
        \<longrightarrow> offered net p))"

text \<open>Adding tracks: reservations are made, the queues grow, nothing else changes.\<close>

lemma media_inv_reserve:
  assumes inv: "media_inv ((r, net, w), log)"
    and res: "reserves (forwarded_tracks r) new (forwarded_tracks r')"
    and frame: "only_forwards r r'" and net: "grows net net'"
  shows "media_inv ((r', net', w'), log @ new)"
proof -
  note f = only_forwards_fields [OF frame]
  have "wf_members r'" using inv by (simp add: media_inv_def wf_members_def f)
  moreover have "distinct (log @ new)"
    using inv res unfolding media_inv_def reserves_def by fastforce
  moreover have "\<forall>(p, tid) \<in> set (log @ new). tid \<in> tracks_of (forwarded_tracks r') p"
    using inv res unfolding media_inv_def reserves_def by fastforce
  moreover have "tracks_of (pending_negotiated_tracks r') p \<union> tracks_of (negotiated_tracks r') p \<noteq> {}
      \<longrightarrow> offered net' p" for p
    using inv grows_offered [OF net] by (simp add: media_inv_def f)
  ultimately show ?thesis by (simp add: media_inv_def)
qed

text \<open>Negotiating: the forwarded tracks stay, and only offered tracks become pending or negotiated.\<close>

lemma media_inv_negotiate:
  assumes inv: "media_inv ((r, net, w), log)"
    and frame: "participants r' = participants r" "forwarded_tracks r' = forwarded_tracks r"
    and net: "grows net net'"
    and neg: "\<And>p. tracks_of (pending_negotiated_tracks r') p \<union> tracks_of (negotiated_tracks r') p \<noteq> {} \<Longrightarrow>
       tracks_of (pending_negotiated_tracks r) p \<union> tracks_of (negotiated_tracks r) p \<noteq> {} \<or> offered net' p"
  shows "media_inv ((r', net', w'), log)"
proof -
  have "tracks_of (pending_negotiated_tracks r') p \<union> tracks_of (negotiated_tracks r') p \<noteq> {}
      \<longrightarrow> offered net' p" for p
    using neg [of p] inv grows_offered [OF net] unfolding media_inv_def by blast
  with inv frame show ?thesis by (simp add: media_inv_def wf_members_def)
qed

lemma media_inv_same:
  "media_inv ((r, net, w), log) \<Longrightarrow> grows net net' \<Longrightarrow> media_inv ((r, net', w' :: 'w), log)"
  for w :: 'w
  by (rule media_inv_negotiate) auto

section \<open>Every step keeps the invariant\<close>

lemma on_track_spec:
  assumes wf: "wf_members r" and s: "on_track L sid u t spc ch (r, net, w) = ((r', net', w'), subs, tasks)"
    and act: "has_active_participant r sid u"
  shows "\<exists>r1. only_forwards r1 r' \<and> participants r1 = participants r \<and>
     forwarded_tracks r1 = forwarded_tracks r \<and>
     negotiated_tracks r1 = negotiated_tracks r \<and>
     pending_negotiated_tracks r1 = pending_negotiated_tracks r \<and>
     reserves (forwarded_tracks r) (map sub_pair subs) (forwarded_tracks r') \<and>
     (\<forall>sub \<in> set subs. proper_sub r (participants r) sid t sub) \<and> proper_tasks subs tasks \<and>
     (\<forall>q. net' q = (if q \<in> member_ids r \<and> should_forward r sid q
        then map_option (\<lambda>x. x @ [StreamOwner (stream_id t) sid (sender_name r sid)]) (net q) else net q))"
proof -
  let ?info = "\<lparr>track = t, sender_peer_connection = spc, sender_ssrc = track_ssrc t, packet_broadcaster = ch\<rparr>"
  let ?r1 = "r\<lparr>participant_tracks :=
      AList.update sid (unwrap_or [] (map_of (participant_tracks r) sid) @ [?info]) (participant_tracks r)\<rparr>"
  have nm: "sender_name ?r1 sid = sender_name r sid" by (simp add: sender_name_def)
  have sf: "should_forward ?r1 = should_forward r" by (rule should_forward_cong) simp
  from s act have "fold (forward_to_one L sid (sender_name r sid) t spc ch) (participants ?r1)
      ((?r1, net, w), [], []) = ((r', net', w'), subs, tasks)"
    by (simp add: on_track_def handle_incoming_track_def forward_track_to_others_def nm Let_def)
  from forward_all [OF this] wf obtain new newt where
    "subs = new" "tasks = newt" "only_forwards ?r1 r'"
    "reserves (forwarded_tracks ?r1) (map sub_pair new) (forwarded_tracks r')"
    "\<forall>sub \<in> set new. proper_sub ?r1 (participants ?r1) sid t sub" "proper_tasks new newt"
    "\<forall>q. net' q = (if q \<in> member_ids ?r1 \<and> should_forward ?r1 sid q
        then map_option (\<lambda>x. x @ [StreamOwner (stream_id t) sid (sender_name r sid)]) (net q) else net q)"
    by (auto simp: wf_members_def)
  then show ?thesis by (intro exI [of _ ?r1]) (simp add: proper_sub_def sf)
qed

lemma inv_track:
  assumes inv: "media_inv ((r, net, w), log)"
    and s: "on_track L p u t spc ch (r, net, w) = ((r', net', w'), subs, tasks)"
  shows "media_inv ((r', net', w'), log @ map sub_pair subs)"
proof (cases "has_active_participant r p u")
  case False
  with s inv show ?thesis by (auto simp: on_track_def media_inv_same)
next
  case True
  have wf: "wf_members r" using inv by (simp add: media_inv_def)
  from on_track_spec [OF wf s True] obtain r1 where
    r1: "only_forwards r1 r'" "participants r1 = participants r"
    "forwarded_tracks r1 = forwarded_tracks r" "negotiated_tracks r1 = negotiated_tracks r"
    "pending_negotiated_tracks r1 = pending_negotiated_tracks r"
    "reserves (forwarded_tracks r) (map sub_pair subs) (forwarded_tracks r')"
    and net: "\<forall>q. net' q = (if q \<in> member_ids r \<and> should_forward r p q
        then map_option (\<lambda>x. x @ [StreamOwner (stream_id t) p (sender_name r p)]) (net q) else net q)"
    by blast
  have "media_inv ((r1, net, w), log)" using inv r1(2-5) by (simp add: media_inv_def wf_members_def)
  moreover have "grows net net'" by (rule grows_map) (auto simp: net)
  ultimately show ?thesis using media_inv_reserve r1(1,3,6) by metis
qed

lemma inv_late_add:
  assumes inv: "media_inv ((r, net, w), log)" and s: "late_join_add L j (r, net, w) = ((r', net', w'), pfs)"
  shows "media_inv ((r', net', w'), log @ map (pf_pair (lj_participant j)) (unwrap_or [] pfs))"
proof (cases "has_active_participant r (lj_participant j) (lj_user j)")
  case False
  with s inv show ?thesis by (auto simp: late_join_add_def)
next
  case True
  with s obtain x where pfs: "pfs = Some x"
    and f: "fold (add_existing_sender L j) (lj_existing j) ((r, net, w), []) = ((r', net', w'), x)"
    by (auto simp: late_join_add_def split: prod.splits)
  from add_existing_senders_spec [OF f] obtain ms where "only_forwards r r'"
    "reserves (forwarded_tracks r) (map (pf_pair (lj_participant j)) x) (forwarded_tracks r')"
    and net: "\<forall>q. q \<noteq> lj_participant j \<longrightarrow> net' q = net q"
      "net' (lj_participant j) = map_option (\<lambda>q. q @ ms) (net (lj_participant j))" by auto
  moreover have "grows net net'" by (rule grows_map) (metis net)
  ultimately show ?thesis using media_inv_reserve [OF inv] by (simp add: pfs)
qed

lemma start_late_forwards_spec:
  assumes "fold (start_late_forward L j) pfs ((r, net, w), subs) = ((r', net', w'), subs')"
  shows "net' = net \<and> participants r' = participants r \<and> forwarded_tracks r' = forwarded_tracks r \<and>
     negotiated_tracks r' = negotiated_tracks r \<and>
     (\<forall>q. tracks_of (pending_negotiated_tracks r') q = tracks_of (pending_negotiated_tracks r) q \<union>
        (if q = lj_participant j then (\<lambda>pf. track_id (track (pf_info pf))) ` set pfs else {}))"
  using assms
proof (induction pfs arbitrary: r net w subs)
  case (Cons a pfs)
  obtain r1 net1 w1 subs1 where one: "start_late_forward L j a ((r, net, w), subs) = ((r1, net1, w1), subs1)"
    by (metis prod_cases4 surj_pair)
  then have 1: "net1 = net \<and> participants r1 = participants r \<and> forwarded_tracks r1 = forwarded_tracks r \<and>
      negotiated_tracks r1 = negotiated_tracks r \<and> pending_negotiated_tracks r1 =
        mark_pending (lj_participant j) [track_id (track (pf_info a))] (pending_negotiated_tracks r)"
    by (auto simp: start_late_forward_def Let_def split: option.splits)
  from Cons.IH [of r1 net1 w1 subs1] Cons.prems one 1 show ?case
    by (auto simp: mark_pending_spec)
qed auto

lemma inv_late_offer:
  assumes inv: "media_inv ((r, net, w), log)"
    and s: "late_join_attempt L j pfs ((r, net, w), subs) = (a, (r', net', w'), subs')"
  shows "media_inv ((r', net', w'), log)"
proof -
  let ?p = "lj_participant j"
  obtain res w1 where o: "create_offer_if_stable L (lj_pc j) w = (res, w1)" by fastforce
  show ?thesis
  proof (cases "\<exists>sdp n. res = Inr (Some sdp) \<and> has_active_participant r ?p (lj_user j) \<and>
      chan_send net ?p (Offer ?p sdp) = (Inr (), n)")
    case True
    then obtain sdp n where res: "res = Inr (Some sdp)" "has_active_participant r ?p (lj_user j)"
      and n: "chan_send net ?p (Offer ?p sdp) = (Inr (), n)" by blast
    with s o have f: "fold (start_late_forward L j) pfs ((r, n, w1), subs) = ((r', net', w'), subs')"
      by (simp add: late_join_attempt_def)
    note spec = start_late_forwards_spec [OF f]
    show ?thesis
    proof (rule media_inv_negotiate [OF inv])
      show "grows net net'" using spec grows_send [OF n] by simp
      fix q assume "tracks_of (pending_negotiated_tracks r') q \<union> tracks_of (negotiated_tracks r') q \<noteq> {}"
      then show "tracks_of (pending_negotiated_tracks r) q \<union> tracks_of (negotiated_tracks r) q \<noteq> {} \<or>
          offered net' q"
        using spec offered_send [OF n] by (cases "q = ?p") auto
    qed (use spec in auto)
  next
    case False
    then have "r' = r \<and> grows net net'"
      using s o by (auto simp: late_join_attempt_def dest: grows_send
          split: sum.splits option.splits if_splits prod.splits)
    then show ?thesis using inv by (blast intro: media_inv_same)
  qed
qed

lemma inv_renegotiate:
  assumes inv: "media_inv ((r, net, w), log)" and ch: "rn_channel k = rn_receiver k"
    and s: "renegotiate_attempt L k (r, net, w) = (a, (r', net', w'))"
  shows "media_inv ((r', net', w'), log)"
proof -
  let ?p = "rn_receiver k"
  have "participants r' = participants r \<and> forwarded_tracks r' = forwarded_tracks r \<and> grows net net' \<and>
     negotiated_tracks r' = negotiated_tracks r \<and>
     (\<forall>q. tracks_of (pending_negotiated_tracks r') q = tracks_of (pending_negotiated_tracks r) q \<or>
          q = ?p \<and> offered net' q)"
    using s ch
    by (auto simp: renegotiate_attempt_def mark_pending_spec dest: grows_send offered_send
        split: if_splits sum.splits option.splits prod.splits)
  then show ?thesis by (intro media_inv_negotiate [OF inv]) metis+
qed

lemma inv_answered:
  assumes inv: "media_inv ((r, net, w), log)" and s: "answer_task L p u pc (r, net, w) = (r', net', w')"
  shows "media_inv ((r', net', w'), log)"
proof -
  let ?r = "promote_pending p r"
  have pr: "participants ?r = participants r" "forwarded_tracks ?r = forwarded_tracks r"
    by (simp_all add: promote_pending_def Let_def)
  have inv1: "media_inv ((?r, net, w), log)"
    by (rule media_inv_negotiate [OF inv]) (auto simp: pr promote_pending_spec split: if_splits)
  have "r' = r \<and> net' = net \<or>
     participants r' = participants ?r \<and> forwarded_tracks r' = forwarded_tracks ?r \<and> grows net net' \<and>
     negotiated_tracks r' = negotiated_tracks ?r \<and>
     (\<forall>q. tracks_of (pending_negotiated_tracks r') q = tracks_of (pending_negotiated_tracks ?r) q \<or>
          q = p \<and> offered net' q)"
    using s
    by (auto simp: answer_task_def Let_def mark_pending_spec dest: grows_send offered_send
        split: if_splits sum.splits option.splits prod.splits)
  then show ?thesis
  proof
    assume "r' = r \<and> net' = net"
    then show ?thesis using inv by (blast intro: media_inv_same grows_refl)
  next
    assume "participants r' = participants ?r \<and> forwarded_tracks r' = forwarded_tracks ?r \<and> grows net net' \<and>
     negotiated_tracks r' = negotiated_tracks ?r \<and>
     (\<forall>q. tracks_of (pending_negotiated_tracks r') q = tracks_of (pending_negotiated_tracks ?r) q \<or>
          q = p \<and> offered net' q)"
    then show ?thesis by (intro media_inv_negotiate [OF inv1]) metis+
  qed
qed

lemma inv_leave:
  assumes inv: "media_inv ((r, net, w), log)" and i: "i \<in> member_ids r"
    and s: "remove_participant i (r, net) = (r', net', effects)"
  shows "media_inv ((r', net', w), filter (\<lambda>(p, tid). p \<noteq> i \<and> tid \<notin> set (track_ids_of r i)) log)"
proof -
  from s have eqs: "r' = fst (remove_participant i (r, net))" "net' = fst (snd (remove_participant i (r, net)))"
    by simp_all
  note room = remove_participant_room [OF i, of net, folded eqs(1)]
  have net: "grows net net'" using remove_participant_net [OF i, of net] by (simp add: eqs)
  have "wf_members r'"
    using inv by (auto simp: media_inv_def wf_members_def room hm_set_delete AList.distinct_delete)
  moreover have "offered net' p" if "tracks_of (pending_negotiated_tracks r') p \<union> tracks_of (negotiated_tracks r') p \<noteq> {}" for p
    using that inv grows_offered [OF net]
    by (auto simp: media_inv_def room forget_tracks_spec split: if_splits)
  ultimately show ?thesis
    using inv by (auto simp: media_inv_def room forget_tracks_spec)
qed

lemma inv_join:
  assumes inv: "media_inv ((r, net, w), log)" and ch: "sender c = pt_id (participant c)"
    and s: "add_participant c (r, net) = (r', net')"
  shows "media_inv ((r', net', w), log)"
proof -
  from s have r': "r' = r\<lparr>participants := AList.update (pt_id (participant c)) c (participants r)\<rparr>"
    and net: "grows net net'" by (auto simp: add_participant_def Let_def)
  have "wf_members r'"
    using inv ch by (auto simp: media_inv_def wf_members_def r' AList.distinct_update dest: hm_set_update)
  then show ?thesis using inv grows_offered [OF net] by (simp add: media_inv_def r')
qed

lemma inv_retirement:
  assumes inv: "media_inv ((r, net, w), log)" and s: "retire_attempt L pc p p (r, net, w) = (a, (r', net', w'))"
  shows "media_inv ((r', net', w'), log)"
proof -
  have "r' = r \<and> grows net net'"
    using s by (auto simp: retire_attempt_def split: sum.splits option.splits prod.splits)
  then show ?thesis using inv by (blast intro: media_inv_same)
qed

lemma inv_offer:
  assumes inv: "media_inv ((r, net, w), log)" and s: "handle_offer L p u sdp (r, net, w) = ((r', net', w'), task)"
  shows "media_inv ((r', net', w'), log)"
proof -
  have "r' = r \<and> grows net net'"
    using s by (auto simp: handle_offer_def Let_def split: if_splits sum.splits option.splits prod.splits)
  then show ?thesis using inv by (blast intro: media_inv_same)
qed

lemma inv_answer:
  assumes inv: "media_inv ((r, net, w), log)" and s: "handle_answer L p u sdp (r, net, w) = ((r', net', w'), task)"
  shows "media_inv ((r', net', w'), log)"
proof -
  have "r' = r \<and> net' = net"
    using s by (auto simp: handle_answer_def Let_def split: if_splits sum.splits option.splits prod.splits)
  then show ?thesis using inv by (blast intro: media_inv_same grows_refl)
qed

lemma inv_ice:
  assumes inv: "media_inv ((r, net, w), log)"
    and s: "handle_ice_candidate L p u cand mid line (r, net, w) = (r', net', w')"
  shows "media_inv ((r', net', w'), log)"
proof -
  have "r' = r \<and> net' = net"
    using s by (auto simp: handle_ice_candidate_def split: if_splits option.splits)
  then show ?thesis using inv by (blast intro: media_inv_same grows_refl)
qed

lemma media_inv_step:
  assumes "media_step L x y" and "media_inv x"
  shows "media_inv y"
  using assms
proof (induction rule: media_step.induct)
  case (track p u t spc ch s s' subs tasks log)
  then show ?case by (cases s, cases s') (metis inv_track prod_cases3)
next
  case (offer p u sdp s s' task log)
  then show ?case by (cases s, cases s') (metis inv_offer prod_cases3)
next
  case (late_add j s s' pfs log)
  then show ?case by (cases s, cases s') (metis inv_late_add prod_cases3)
next
  case (late_offer j pfs s subs a s' subs' log)
  then show ?case by (cases s, cases s') (metis inv_late_offer prod_cases3)
next
  case (renegotiation k s a s' log)
  then show ?case by (cases s, cases s') (metis inv_renegotiate prod_cases3)
next
  case (retirement pc p s a s' log)
  then show ?case by (cases s, cases s') (metis inv_retirement prod_cases3)
next
  case (answer p u sdp s s' task log)
  then show ?case by (cases s, cases s') (metis inv_answer prod_cases3)
next
  case (answered p u pc s s' log)
  then show ?case by (cases s, cases s') (metis inv_answered prod_cases3)
next
  case (ice p u cand mid line s s' log)
  then show ?case by (cases s, cases s') (metis inv_ice prod_cases3)
next
  case (join c r net r' net' w log)
  then show ?case by (blast intro: inv_join)
next
  case (leave i r net r' net' effects w log)
  then show ?case by (blast intro: inv_leave)
qed (auto intro: media_inv_same)

lemma media_inv_reachable:
  assumes "(media_step L)\<^sup>*\<^sup>* x y" and "media_inv x"
  shows "media_inv y"
  using assms by (induction rule: rtranclp_induct) (auto intro: media_inv_step)

lemma media_inv_new: "media_inv ((new_room i, net, w), [])"
  by (simp add: media_inv_def wf_members_def new_room_def)

section \<open>Forwarding a new track\<close>

text \<open>A library on which tracks can always be added.\<close>

definition always_adds :: "'w webrtc \<Rightarrow> bool" where
  "always_adds L \<longleftrightarrow> (\<forall>pc lt w. \<exists>s w' ssrc. lib_add_track L pc lt w = (Inr s, w') \<and>
     lib_encoding L w' s = Some ssrc)"

lemma forward_to_one_adds:
  assumes one: "forward_to_one L sid nm t spc ch (p, c) ((r, net, w), subs, tasks) =
      ((r', net', w'), subs', tasks')"
    and lib: "always_adds L" and "should_forward r sid p" and "peer_connection c \<noteq> None"
    and "track_id t \<notin> tracks_of (forwarded_tracks r) p"
  shows "p \<in> sb_to ` set subs'"
proof -
  from assms(4) obtain pc where pc: "peer_connection c = Some pc" by blast
  obtain b fwd where rs: "reserve_forwarded_track p (track_id t) (forwarded_tracks r) = (b, fwd)"
    by fastforce
  then have b by (simp add: reserve_spec [OF rs] assms(5))
  obtain s w1 ssrc where "lib_add_track L pc (create_forwarding_track t sid) w = (Inr s, w1)"
      "lib_encoding L w1 s = Some ssrc"
    using lib unfolding always_adds_def by blast
  with one assms(3) pc rs \<open>b\<close> show ?thesis by (auto simp: forward_to_one_def Let_def)
qed

lemma forward_complete:
  assumes "fold (forward_to_one L sid nm t spc ch) ps ((r, net, w), subs, tasks) =
      ((r', net', w'), subs', tasks')"
    and "distinct (map fst ps)" and "always_adds L" and "(p, c) \<in> set ps"
    and "should_forward r sid p" and "peer_connection c \<noteq> None"
    and "track_id t \<notin> tracks_of (forwarded_tracks r) p"
    and "\<forall>(i, c) \<in> set ps. sender c = i"
  shows "p \<in> sb_to ` set subs'"
  using assms
proof (induction ps arbitrary: r net w subs tasks)
  case (Cons a ps)
  obtain p0 c0 where a: "a = (p0, c0)" by fastforce
  obtain r1 net1 w1 subs1 tasks1
    where one: "forward_to_one L sid nm t spc ch (p0, c0) ((r, net, w), subs, tasks) =
      ((r1, net1, w1), subs1, tasks1)" by (metis prod_cases5 surj_pair)
  have rest: "fold (forward_to_one L sid nm t spc ch) ps ((r1, net1, w1), subs1, tasks1) =
      ((r', net', w'), subs', tasks')" using Cons.prems(1) a one by simp
  have dist: "distinct (map fst ps)" "p0 \<notin> fst ` set ps" and snd: "\<forall>(i, c) \<in> set ps. sender c = i"
    using Cons.prems(2,8) a by auto
  show ?case
  proof (cases "p = p0")
    case True
    have "c = c0" using Cons.prems(4) dist(2) a True by force
    with forward_to_one_adds [OF one Cons.prems(3)] Cons.prems(5-7) True
    have "p \<in> sb_to ` set subs1" by simp
    moreover obtain new where "subs' = subs1 @ new"
      using forward_all [OF rest dist(1) snd] by blast
    ultimately show ?thesis by auto
  next
    case False
    then have "(p, c) \<in> set ps" using Cons.prems(4) a by auto
    moreover from one have "only_forwards r r1" "same_reservations p0 r r1"
      by (cases rule: forward_to_one_cases; simp)+
    then have "should_forward r1 sid p" "track_id t \<notin> tracks_of (forwarded_tracks r1) p"
      using Cons.prems(5,7) False by (simp_all add: only_forwards_fields(5) same_reservations_def)
    ultimately show ?thesis
      using Cons.IH [OF rest dist(1) Cons.prems(3)] Cons.prems(6) snd by blast
  qed
qed simp

lemma on_track_complete:
  assumes wf: "wf_members r" and act: "has_active_participant r sid u" and lib: "always_adds L"
    and s: "on_track L sid u t spc ch (r, net, w) = (s', subs, tasks)"
    and p: "map_of (participants r) p = Some c" "should_forward r sid p" "peer_connection c \<noteq> None"
      "track_id t \<notin> tracks_of (forwarded_tracks r) p"
  shows "p \<in> sb_to ` set subs"
proof -
  let ?info = "\<lparr>track = t, sender_peer_connection = spc, sender_ssrc = track_ssrc t, packet_broadcaster = ch\<rparr>"
  let ?r1 = "r\<lparr>participant_tracks :=
      AList.update sid (unwrap_or [] (map_of (participant_tracks r) sid) @ [?info]) (participant_tracks r)\<rparr>"
  obtain r' net' w' where s': "s' = (r', net', w')" by (metis prod_cases3)
  have sf: "should_forward ?r1 = should_forward r" by (rule should_forward_cong) simp
  have f: "fold (forward_to_one L sid (sender_name ?r1 sid) t spc ch) (participants r) ((?r1, net, w), [], []) =
      ((r', net', w'), subs, tasks)"
    using s act s' by (simp add: on_track_def handle_incoming_track_def forward_track_to_others_def Let_def)
  show ?thesis
    by (rule forward_complete [OF f _ lib map_of_SomeD [OF p(1)]])
       (use wf p in \<open>auto simp: wf_members_def sf\<close>)
qed

section \<open>Properties\<close>

text \<open>
  C9. A new track of an active participant reaches the right receivers. Everyone the room forwards
  to is told once who owns the stream, and nobody else is told anything. Subscriptions are created
  only for receivers that have a peer connection and did not have the track yet, one each, with one
  renegotiation task per subscription; and when the library can add the track, for all of them. Only
  the reservations and senders of the room change besides the list of the sender's own tracks.
\<close>

theorem new_track_reaches_receivers:
  assumes wf: "wf_members r" and act: "has_active_participant r sid u"
    and s: "on_track L sid u t spc ch (r, net, w) = ((r', net', w'), subs, tasks)"
  shows "distinct (map sb_to subs) \<and>
     (\<forall>sub \<in> set subs. proper_sub r (participants r) sid t sub \<and>
        track_id t \<notin> tracks_of (forwarded_tracks r) (sb_to sub) \<and>
        track_id t \<in> tracks_of (forwarded_tracks r') (sb_to sub)) \<and>
     proper_tasks subs tasks \<and>
     (\<forall>q. net' q = (if q \<in> member_ids r \<and> should_forward r sid q
        then map_option (\<lambda>x. x @ [StreamOwner (stream_id t) sid (sender_name r sid)]) (net q) else net q)) \<and>
     (always_adds L \<longrightarrow>
        sb_to ` set subs = {p. \<exists>c. map_of (participants r) p = Some c \<and> should_forward r sid p \<and>
          peer_connection c \<noteq> None \<and> track_id t \<notin> tracks_of (forwarded_tracks r) p})"
proof -
  from on_track_spec [OF wf s act] have
    res: "reserves (forwarded_tracks r) (map sub_pair subs) (forwarded_tracks r')"
    and ok: "\<forall>sub \<in> set subs. proper_sub r (participants r) sid t sub"
    and tasks: "proper_tasks subs tasks"
    and net: "\<forall>q. net' q = (if q \<in> member_ids r \<and> should_forward r sid q
        then map_option (\<lambda>x. x @ [StreamOwner (stream_id t) sid (sender_name r sid)]) (net q) else net q)"
    by blast+
  have pair: "sub_pair sub = (sb_to sub, track_id t)" if "sub \<in> set subs" for sub
    using ok that by (simp add: sub_pair_def proper_sub_def)
  have fresh: "track_id t \<notin> tracks_of (forwarded_tracks r) (sb_to sub) \<and>
      track_id t \<in> tracks_of (forwarded_tracks r') (sb_to sub)" if "sub \<in> set subs" for sub
    using res that pair [OF that] unfolding reserves_def by fastforce
  have "map sub_pair subs = map (\<lambda>p. (p, track_id t)) (map sb_to subs)"
    using pair by simp
  with res have dist: "distinct (map sb_to subs)"
    unfolding reserves_def by (metis distinct_map)
  have "sb_to ` set subs = {p. \<exists>c. map_of (participants r) p = Some c \<and> should_forward r sid p \<and>
      peer_connection c \<noteq> None \<and> track_id t \<notin> tracks_of (forwarded_tracks r) p}"
    (is "_ = ?E") if "always_adds L"
  proof
    have d: "distinct (map fst (participants r))" using wf by (simp add: wf_members_def)
    show "sb_to ` set subs \<subseteq> ?E"
    proof
      fix p assume "p \<in> sb_to ` set subs"
      then obtain sub where sub: "sub \<in> set subs" "p = sb_to sub" by blast
      with ok obtain c where "(p, c) \<in> set (participants r)" "peer_connection c \<noteq> None"
          "should_forward r sid p" unfolding proper_sub_def by blast
      moreover have "map_of (participants r) p = Some c" using calculation(1) d by simp
      ultimately show "p \<in> ?E" using fresh [OF sub(1)] sub(2) by blast
    qed
    show "?E \<subseteq> sb_to ` set subs"
      using on_track_complete [OF wf act that s] by blast
  qed
  with ok tasks net fresh dist show ?thesis by blast
qed

text \<open>A library whose calls succeed: the world counts the senders it has handed out.\<close>

definition sample_lib :: "nat webrtc" where
  "sample_lib = \<lparr>lib_ephemeral_udp = \<lambda>_ _. Inr (), lib_new_peer = \<lambda>_ w. (Inr w, w + 1),
     lib_signaling_state = \<lambda>_ _. Stable, lib_parse_sdp = \<lambda>_ s. Inr s,
     lib_set_remote = \<lambda>_ _ _ w. (Inr (), w), lib_set_local = \<lambda>_ _ w. (Inr (), w),
     lib_create_answer = \<lambda>_ w. (Inr [65], w), lib_create_offer = \<lambda>_ w. (Inr [79], w),
     lib_add_ice = \<lambda>_ _ _ _ w. (Inr (), w), lib_add_track = \<lambda>_ _ w. (Inr w, w + 1),
     lib_encoding = \<lambda>_ _. Some 7, lib_write_pli = \<lambda>_ _ w. (Inr (), w),
     lib_transceivers = \<lambda>_ _. [], lib_remove_track = \<lambda>_ _ w. (Inr (), w),
     lib_stop = \<lambda>_ w. (Inr (), w), lib_close = \<lambda>_ w. (Inr (), w)\<rparr>"

definition sample_track :: remote_track where
  "sample_track = \<lparr>track_id = [5], stream_id = [6], track_ssrc = 3, kind = Video, codec = 0\<rparr>"

lemma always_adds_sample: "always_adds sample_lib"
  by (simp add: always_adds_def sample_lib_def)

lemma wf_members_sample: "wf_members sample_room"
  using wf_sample_room by (auto simp: wf_room_def wf_members_def)

lemma sample_member_fields [simp]:
  "pt_id (participant (sample_member i pc)) = i" "peer_connection (sample_member i pc) = Some pc"
  "sender (sample_member i pc) = i" "screen_share_of (participant (sample_member i pc)) = None"
  by (simp_all add: sample_member_def set_peer_connection_def new_connection_def new_participant_def)

lemma sample_active: "has_active_participant sample_room [1] None" "has_active_participant sample_room [2] None"
  by (simp_all add: has_active_participant_def contains_participant_def sample_room_def new_room_def)

theorem new_track_reaches_receivers_witness:
  "\<exists>r' net' w' subs tasks.
     on_track sample_lib [1] None sample_track 1 0 (sample_room, [[2] \<mapsto> []], 0) =
       ((r', net', w'), subs, tasks) \<and>
     sb_to ` set subs = {[2]} \<and> net' [2] = Some [StreamOwner [6] [1] (sender_name sample_room [1])] \<and>
     [5] \<in> tracks_of (forwarded_tracks r') [2]"
proof -
  obtain r' net' w' subs tasks
    where s: "on_track sample_lib [1] None sample_track 1 0 (sample_room, [[2] \<mapsto> []], 0) =
      ((r', net', w'), subs, tasks)" by (metis prod_cases5 surj_pair)
  note main = new_track_reaches_receivers [OF wf_members_sample sample_active(1) s]
  have share: "share_owner sample_room p = None" for p
    by (simp add: share_owner_def sample_room_def)
  have sf: "should_forward sample_room [1] p \<longleftrightarrow> p \<noteq> [1]" for p
    by (auto simp: should_forward_def share)
  have parts: "map_of (participants sample_room) p = Some c \<longleftrightarrow>
      p = [1] \<and> c = sample_member [1] 1 \<or> p = [2] \<and> c = sample_member [2] 2" for p c
    by (auto simp: sample_room_def)
  have "tracks_of (forwarded_tracks sample_room) [2] = {[9]}" by (simp add: sample_room_def)
  with main always_adds_sample have to: "sb_to ` set subs = {[2]}"
    by (auto simp: sf parts sample_track_def simp del: One_nat_def)
  have mem: "[2] \<in> member_ids sample_room" by (simp add: sample_room_def)
  from main mem have "net' [2] = Some [StreamOwner [6] [1] (sender_name sample_room [1])]"
    by (auto simp: sf sample_track_def simp del: One_nat_def)
  moreover have "[5] \<in> tracks_of (forwarded_tracks r') [2]"
  proof -
    from to obtain sub where "sub \<in> set subs" "sb_to sub = [2]" by blast
    then show ?thesis using main by (auto simp: sample_track_def simp del: One_nat_def)
  qed
  ultimately show ?thesis using s to by blast
qed


definition sample_join :: "str \<Rightarrow> pc_handle \<Rightarrow> room \<times> outbox \<Rightarrow> room \<times> outbox" where
  "sample_join i pc = add_participant (sample_member i pc)"


section \<open>Answers\<close>

text \<open>
  C11. When a receiver's answer has been processed and the library produced an offer, no forwarded
  track is left behind: everything that was pending has become negotiated, every track the room
  forwards to the receiver is negotiated or in the offer just sent, and exactly one offer was queued if
  a track was missing and none otherwise.
\<close>

theorem answer_strands_nothing:
  assumes act: "has_active_participant r p u" and q: "net p = Some q"
    and offer: "create_offer_if_stable L pc w = (Inr (Some sdp), w1)"
    and s: "answer_task L p u pc (r, net, w) = (r', net', w')"
  shows "tracks_of (pending_negotiated_tracks r) p \<subseteq> tracks_of (negotiated_tracks r') p \<and>
     (\<forall>tid \<in> set (wanted_tracks r p). tid \<in> tracks_of (forwarded_tracks r) p \<longrightarrow>
        tid \<in> tracks_of (negotiated_tracks r') p \<union> tracks_of (pending_negotiated_tracks r') p) \<and>
     net' = (if missing_tracks (promote_pending p r) p = [] then net else net(p \<mapsto> q @ [Offer p sdp]))"
proof -
  let ?r = "promote_pending p r"
  have fields: "participants ?r = participants r" "participant_tracks ?r = participant_tracks r"
    "forwarded_tracks ?r = forwarded_tracks r"
    by (simp_all add: promote_pending_def Let_def)
  have wanted: "wanted_tracks ?r p = wanted_tracks r p"
    by (simp add: wanted_tracks_def fields should_forward_cong [OF fields(1)])
  have r': "r' = (if missing_tracks ?r p = [] then ?r
      else ?r\<lparr>pending_negotiated_tracks :=
             mark_pending p (missing_tracks ?r p) (pending_negotiated_tracks ?r)\<rparr>)"
    and net': "net' = (if missing_tracks ?r p = [] then net else net(p \<mapsto> q @ [Offer p sdp]))"
    using s act q by (auto simp: answer_task_def Let_def offer chan_send_def split: if_splits)
  have neg: "negotiated_tracks r' = negotiated_tracks ?r" by (simp add: r')
  have "tracks_of (pending_negotiated_tracks r') p = set (missing_tracks ?r p)"
    by (simp add: r' promote_pending_spec mark_pending_spec)
  moreover have "set (missing_tracks ?r p) = {tid \<in> set (wanted_tracks r p).
      tid \<notin> tracks_of (negotiated_tracks ?r) p \<and> tid \<in> tracks_of (forwarded_tracks r) p}"
    by (auto simp: missing_tracks_def wanted fields promote_pending_spec)
  ultimately show ?thesis using net' by (auto simp: neg promote_pending_spec)
qed

definition sample_media :: "nat sfu" where
  "sample_media = (sample_room\<lparr>participant_tracks :=
       [([1], [\<lparr>track = sample_track, sender_peer_connection = 1, sender_ssrc = 3, packet_broadcaster = 0\<rparr>])],
     forwarded_tracks := [[2] \<mapsto> {[5]}], pending_negotiated_tracks := [[2] \<mapsto> {[8]}]\<rparr>,
     [[2] \<mapsto> []], 0)"

theorem answer_strands_nothing_witness:
  "\<exists>r' net' w'. answer_task sample_lib [2] None 2 sample_media = (r', net', w') \<and>
     [8] \<in> tracks_of (negotiated_tracks r') [2] \<and> net' [2] = Some [Offer [2] [79]] \<and>
     [5] \<in> tracks_of (negotiated_tracks r') [2] \<union> tracks_of (pending_negotiated_tracks r') [2]"
proof -
  obtain r net w where m: "sample_media = (r, net, w)" by (metis prod_cases3)
  have r: "r = fst sample_media" "net = fst (snd sample_media)" "w = snd (snd sample_media)"
    by (simp_all add: m)
  obtain r' net' w' where s: "answer_task sample_lib [2] None 2 (r, net, w) = (r', net', w')"
    by (metis prod_cases3)
  have 1: "has_active_participant r [2] None" unfolding r by code_simp
  have 2: "net [2] = Some []" unfolding r by (simp add: sample_media_def)
  have 3: "create_offer_if_stable sample_lib 2 w = (Inr (Some [79]), w)"
    by (simp add: create_offer_if_stable_def sample_lib_def)
  have 4: "[5] \<in> set (wanted_tracks r [2])" unfolding r by code_simp
  have 5: "[5] \<in> tracks_of (forwarded_tracks r) [2]" unfolding r by code_simp
  have 6: "[8] \<in> tracks_of (pending_negotiated_tracks r) [2]" unfolding r by code_simp
  have 7: "missing_tracks (promote_pending [2] r) [2] \<noteq> []" unfolding r by code_simp
  show ?thesis
    using answer_strands_nothing [OF 1 2 3 s] 4 5 6 7 s unfolding m by auto
qed

section \<open>Retry loops\<close>

text \<open>The state in which attempt number \<open>k + 1\<close> of a retry loop runs.\<close>

primrec attempt_state :: "('s \<Rightarrow> attempt \<times> 's) \<Rightarrow> (nat \<Rightarrow> 's \<Rightarrow> 's) \<Rightarrow> nat \<Rightarrow> 's \<Rightarrow> nat \<Rightarrow> 's" where
  "attempt_state body others first s 0 = s"
| "attempt_state body others first s (Suc k) =
     attempt_state body others (Suc first) (others first (snd (body s))) k"

lemma retrying_done:
  assumes "k < n" and "fst (body (attempt_state body others first s k)) = Done"
    and "\<forall>j < k. fst (body (attempt_state body others first s j)) = TryAgain"
  shows "retrying n first body others s = snd (body (attempt_state body others first s k))"
  using assms
proof (induction n arbitrary: k first s)
  case (Suc n)
  obtain a s1 where b: "body s = (a, s1)" by fastforce
  show ?case
  proof (cases k)
    case 0
    then show ?thesis using Suc.prems b by simp
  next
    case (Suc k')
    have "a = TryAgain" using Suc.prems(3) b Suc by force
    moreover have "\<forall>j < k'. fst (body (attempt_state body others (Suc first) (others first s1) j)) = TryAgain"
      using Suc.prems(3) Suc b by force
    ultimately show ?thesis using Suc.IH [of k' "Suc first" "others first s1"] Suc.prems Suc b by simp
  qed
qed simp

lemma retrying_gives_up:
  assumes "\<forall>j < n. fst (body (attempt_state body others first s j)) = TryAgain"
  shows "retrying n first body others s = attempt_state body others first s n"
  using assms
proof (induction n arbitrary: first s)
  case (Suc n)
  obtain a s1 where b: "body s = (a, s1)" by fastforce
  have "a = TryAgain" using Suc.prems b by force
  moreover have "\<forall>j < n. fst (body (attempt_state body others (Suc first) (others first s1) j)) = TryAgain"
    using Suc.prems b by force
  ultimately show ?case using Suc.IH [of "Suc first" "others first s1"] b by simp
qed simp

lemma first_attempt:
  fixes n :: nat
  assumes "k < n" and "\<not> P k"
  obtains m where "m \<le> k" and "\<not> P m" and "\<forall>j < m. P j"
  using ex_least_nat_le [of "\<lambda>j. \<not> P j" k] assms(2) by blast

text \<open>An attempt that does not meet glare settles the track, unless the library or the socket fails.\<close>

lemma renegotiate_attempt_settles:
  assumes "fst (renegotiate_attempt L k (r, net, w)) = Done"
    and "renegotiate_attempt L k (r, net, w) = (a, (r', net', w'))"
  shows "track_is_negotiated_or_pending r' (rn_receiver k) (rn_track k) \<or>
     (\<exists>e w1. create_offer_if_stable L (rn_pc k) w = (Inl e, w1)) \<or> net (rn_channel k) = None"
  using assms
  by (auto simp: renegotiate_attempt_def negotiated_or_pending_iff mark_pending_spec chan_send_def
      split: if_splits sum.splits option.splits prod.splits)

lemma renegotiate_attempt_glare:
  "fst (renegotiate_attempt L k (r, net, w)) = TryAgain \<longleftrightarrow>
     \<not> track_is_negotiated_or_pending r (rn_receiver k) (rn_track k) \<and>
     (\<exists>w1. create_offer_if_stable L (rn_pc k) w = (Inr None, w1))"
  by (auto simp: renegotiate_attempt_def split: if_splits sum.splits option.splits prod.splits)

text \<open>
  C12. The renegotiation task settles its track if any of its five attempts finds the connection
  stable, however the rest of the system moves between the attempts: it returns in a state in which the
  track is negotiated or pending, unless the library refuses to make the offer or the receiver's
  socket is gone.
\<close>

theorem renegotiation_settles:
  assumes k: "k < 5"
    and stable: "attempt_state (renegotiate_attempt L t) others 1 s k = (rk, netk, wk)"
      "lib_signaling_state L wk (rn_pc t) = Stable"
  shows "\<exists>j \<le> k. \<exists>r net w r' net' w'.
     attempt_state (renegotiate_attempt L t) others 1 s j = (r, net, w) \<and>
     renegotiate L t others s = (r', net', w') \<and>
     (track_is_negotiated_or_pending r' (rn_receiver t) (rn_track t) \<or>
      (\<exists>e w1. create_offer_if_stable L (rn_pc t) w = (Inl e, w1)) \<or> net (rn_channel t) = None)"
proof -
  let ?st = "attempt_state (renegotiate_attempt L t) others 1 s"
  let ?again = "\<lambda>j. fst (renegotiate_attempt L t (?st j)) = TryAgain"
  have "\<not> ?again k"
    using stable
    by (auto simp: renegotiate_attempt_glare create_offer_if_stable_def split: sum.splits prod.splits)
  with k obtain m where m: "m \<le> k" "\<not> ?again m" "\<forall>j < m. ?again j"
    by (rule first_attempt)
  obtain r net w where st: "?st m = (r, net, w)" by (metis prod_cases3)
  have dn: "fst (renegotiate_attempt L t (?st m)) = Done" using m(2) by (cases "fst (renegotiate_attempt L t (?st m))") simp_all
  obtain r' net' w' where b: "renegotiate_attempt L t (r, net, w) = (Done, (r', net', w'))"
    using dn st by (metis prod_cases4 fst_conv)
  have "renegotiate L t others s = snd (renegotiate_attempt L t (?st m))"
    unfolding renegotiate_def using m k dn by (intro retrying_done) simp_all
  then have "renegotiate L t others s = (r', net', w')" by (simp only: st b snd_conv)
  moreover have "fst (renegotiate_attempt L t (r, net, w)) = Done" by (simp add: b)
  note renegotiate_attempt_settles [OF this b]
  ultimately show ?thesis using m(1) st by blast
qed

definition sample_renegotiation :: renegotiation where
  "sample_renegotiation = \<lparr>rn_pc = 2, rn_channel = [2], rn_receiver = [2], rn_track = [5]\<rparr>"

theorem renegotiation_settles_witness:
  "\<exists>r' net' w'. renegotiate sample_lib sample_renegotiation (\<lambda>_ s. s) (sample_room, [[2] \<mapsto> []], 0) =
     (r', net', w') \<and> track_is_negotiated_or_pending r' [2] [5]"
proof -
  let ?s = "(sample_room, [[2] \<mapsto> []], 0) :: nat sfu"
  have st: "attempt_state (renegotiate_attempt sample_lib sample_renegotiation) (\<lambda>_ s. s) 1 ?s 0 =
      (sample_room, [[2] \<mapsto> []], 0)" by simp
  have stable: "lib_signaling_state sample_lib 0 (rn_pc sample_renegotiation) = Stable"
    by (simp add: sample_lib_def)
  have "\<not> (\<exists>e w1. create_offer_if_stable sample_lib (rn_pc sample_renegotiation) w = (Inl e, w1))" for w
    by (simp add: create_offer_if_stable_def sample_lib_def)
  with renegotiation_settles [OF _ st stable] show ?thesis
    by (fastforce simp: sample_renegotiation_def)
qed

section \<open>Reservations that are never released\<close>


text \<open>The library of the example, with senders that have no encoding.\<close>

definition mute_lib :: "nat webrtc" where
  "mute_lib = sample_lib\<lparr>lib_encoding := \<lambda>_ _. None\<rparr>"


end
