(* ===== verification/MeetingRecorder.thy ===== *)
theory MeetingRecorder
  imports Database
begin

text \<open>
  The meeting recorder of \<open>src/social/meetings.rs\<close>: one worker that turns the join and leave events of
  the SFU into rows of meeting sessions and participants, next to its in-memory view of who is in which
  live meeting. Every database statement may fail (\<open>fault\<close>), and an operation stops there with what it
  had done so far, as the source does.
\<close>

section \<open>Events and state\<close>

datatype meeting_event =
    MeetingJoined str str "uuid option" str instant
  | MeetingLeft str instant

text \<open>The live meetings: the session of a room with its connections, and the room of a connection.\<close>

record live_meetings =
  lm_rooms :: "str \<rightharpoonup> uuid \<times> str set"
  lm_participant_rooms :: "str \<rightharpoonup> str"

definition no_live_meetings :: live_meetings where
  "no_live_meetings = \<lparr>lm_rooms = Map.empty, lm_participant_rooms = Map.empty\<rparr>"

type_synonym recorder = "live_meetings \<times> database"

section \<open>Operations\<close>

definition close_abandoned_sessions :: "fault \<Rightarrow> instant \<Rightarrow> database \<Rightarrow> database" where
  "close_abandoned_sessions fault now db =
     (if fault 0 \<or> fault 1 then db
      else
        (let db = db\<lparr>meeting_participants := update_where (\<lambda>p. mp_left p = None)
               (\<lambda>p. p\<lparr>mp_left := Some (max (mp_joined p) now)\<rparr>) (meeting_participants db)\<rparr>
         in if fault 2 then db
            else db\<lparr>meeting_sessions := update_where (\<lambda>s. ms_ended s = None)
                   (\<lambda>s. s\<lparr>ms_ended := Some (max (ms_started s) now)\<rparr>) (meeting_sessions db)\<rparr>))"

definition end_sessions_of_room :: "str \<Rightarrow> instant \<Rightarrow> database \<Rightarrow> database" where
  "end_sessions_of_room room now db =
     db\<lparr>meeting_sessions := update_where (\<lambda>s. ms_room s = room \<and> ms_ended s = None)
          (\<lambda>s. s\<lparr>ms_ended := Some now\<rparr>) (meeting_sessions db)\<rparr>"

definition insert_session :: "uuid \<Rightarrow> str \<Rightarrow> instant \<Rightarrow> database \<Rightarrow> database" where
  "insert_session sid room now db =
     db\<lparr>meeting_sessions := meeting_sessions db @
          [\<lparr>ms_id = sid, ms_room = room, ms_started = now, ms_ended = None\<rparr>]\<rparr>"

text \<open>\<open>INSERT ... ON CONFLICT DO NOTHING\<close>: a connection is in a session once.\<close>

definition insert_participant ::
  "uuid \<Rightarrow> str \<Rightarrow> uuid option \<Rightarrow> str \<Rightarrow> instant \<Rightarrow> database \<Rightarrow> database" where
  "insert_participant sid pid u name now db =
     (if list_ex (\<lambda>p. mp_session p = sid \<and> mp_participant p = pid) (meeting_participants db) then db
      else db\<lparr>meeting_participants := meeting_participants db @
             [\<lparr>mp_session = sid, mp_participant = pid, mp_user = u, mp_name = name, mp_joined = now,
               mp_left = None\<rparr>]\<rparr>)"

text \<open>The session of the room: the live one, or a new one (its ID is \<open>new_id\<close>).\<close>

definition session_for ::
  "fault \<Rightarrow> uuid \<Rightarrow> str \<Rightarrow> instant \<Rightarrow> recorder \<Rightarrow> uuid option \<times> recorder" where
  "session_for fault new_id room now = (\<lambda>(live, db).
     case lm_rooms live room of
       Some (sid, ids) \<Rightarrow> (Some sid, (live, db))
     | None \<Rightarrow>
         (if fault 1 then (None, (live, db))
          else
            (let db = end_sessions_of_room room now db in
             if fault 2 then (None, (live, db))
             else (Some new_id,
                   (live\<lparr>lm_rooms := (lm_rooms live)(room \<mapsto> (new_id, {}))\<rparr>,
                    insert_session new_id room now db)))))"

definition record_join ::
  "fault \<Rightarrow> uuid \<Rightarrow> str \<Rightarrow> str \<Rightarrow> uuid option \<Rightarrow> str \<Rightarrow> instant \<Rightarrow> recorder \<Rightarrow> recorder" where
  "record_join fault new_id room pid u name now st =
     (if fault 0 then st
      else case session_for fault new_id room now st of
        (None, st) \<Rightarrow> st
      | (Some sid, (live, db)) \<Rightarrow>
          (if fault 3 then
             (case lm_rooms live room of
                Some (s, ids) \<Rightarrow>
                  (if ids = {} then
                     (live\<lparr>lm_rooms := (lm_rooms live)(room := None)\<rparr>,
                      if fault 4 then db
                      else db\<lparr>meeting_sessions := update_where (\<lambda>s. ms_id s = sid)
                             (\<lambda>s. s\<lparr>ms_ended := Some now\<rparr>) (meeting_sessions db)\<rparr>)
                   else (live, db))
              | None \<Rightarrow> (live, db))
           else
             (live\<lparr>lm_rooms := (lm_rooms live)(room := map_option (apsnd (insert pid)) (lm_rooms live room)),
                   lm_participant_rooms := (lm_participant_rooms live)(pid \<mapsto> room)\<rparr>,
              insert_participant sid pid u name now db)))"

text \<open>The members of an active call whose meeting just ended are told (their IDs are returned).\<close>

definition notify_call_members :: "database \<Rightarrow> str \<Rightarrow> uuid list" where
  "notify_call_members db room =
     concat (map (\<lambda>m. map (\<lambda>s. cm_user m)
       (filter (\<lambda>s. cs_id s = cm_session m \<and> cs_room s = room \<and> cs_status s = lit ''active'')
         (call_sessions db))) (call_session_members db))"

definition record_leave ::
  "fault \<Rightarrow> str \<Rightarrow> instant \<Rightarrow> recorder \<Rightarrow> recorder \<times> uuid list" where
  "record_leave fault pid now = (\<lambda>(live, db).
     case lm_participant_rooms live pid of
       None \<Rightarrow> ((live, db), [])
     | Some room \<Rightarrow>
         (let live = live\<lparr>lm_participant_rooms := (lm_participant_rooms live)(pid := None)\<rparr> in
          case lm_rooms live room of
            None \<Rightarrow> ((live, db), [])
          | Some (sid, ids) \<Rightarrow>
              (let ids = ids - {pid};
                   ended = (ids = {});
                   live = live\<lparr>lm_rooms := (lm_rooms live)(room := if ended then None else Some (sid, ids))\<rparr>
               in if fault 0 \<or> fault 1 then ((live, db), [])
                  else
                    (let db = db\<lparr>meeting_participants := update_where
                           (\<lambda>p. mp_session p = sid \<and> mp_participant p = pid \<and> mp_left p = None)
                           (\<lambda>p. p\<lparr>mp_left := Some now\<rparr>) (meeting_participants db)\<rparr>
                     in if \<not> ended then ((live, db), [])
                        else if fault 2 then ((live, db), [])
                        else
                          (let db = db\<lparr>meeting_sessions := update_where
                                 (\<lambda>s. ms_id s = sid \<and> ms_ended s = None)
                                 (\<lambda>s. s\<lparr>ms_ended := Some now\<rparr>) (meeting_sessions db)\<rparr>
                           in ((live, db), if fault 3 then [] else notify_call_members db room))))))"

text \<open>One event of the worker's queue, with the faults it meets and the ID the database would give.\<close>

fun recorder_step :: "fault \<times> uuid \<times> meeting_event \<Rightarrow> recorder \<Rightarrow> recorder" where
  "recorder_step (fault, new_id, MeetingJoined room pid u name now) st =
     record_join fault new_id room pid u name now st"
| "recorder_step (fault, new_id, MeetingLeft pid now) st = fst (record_leave fault pid now st)"

section \<open>The in-memory view\<close>

text \<open>
  A live meeting is never empty, and a connection is assigned to a room exactly when it is one of the
  room's connections.
\<close>

definition live_inv :: "live_meetings \<Rightarrow> bool" where
  "live_inv live \<longleftrightarrow>
     (\<forall>room sid ids. lm_rooms live room = Some (sid, ids) \<longrightarrow> ids \<noteq> {}) \<and>
     (\<forall>pid room. lm_participant_rooms live pid = Some room \<longleftrightarrow>
        (\<exists>sid ids. lm_rooms live room = Some (sid, ids) \<and> pid \<in> ids))"

lemma live_inv_new: "live_inv no_live_meetings"
  by (simp add: live_inv_def no_live_meetings_def)

text \<open>Connection IDs are fresh UUIDs: a connection joins a room at most once.\<close>

lemma live_inv_join:
  assumes inv: "live_inv live" and new: "lm_participant_rooms live pid = None"
    and r: "record_join fault new_id room pid u name now (live, db) = (live', db')"
  shows "live_inv live'"
proof (cases "lm_rooms live room")
  case (Some e)
  obtain sid ids where e: "e = (sid, ids)" by fastforce
  have ne: "ids \<noteq> {}" using inv Some e by (auto simp: live_inv_def)
  have "live' = live \<or> live' = live\<lparr>lm_rooms := (lm_rooms live)(room \<mapsto> (sid, insert pid ids)),
      lm_participant_rooms := (lm_participant_rooms live)(pid \<mapsto> room)\<rparr>"
    using r Some e ne by (auto simp: record_join_def session_for_def split: if_splits)
  then show ?thesis
  proof
    assume "live' = live" then show ?thesis using inv by simp
  next
    assume l: "live' = live\<lparr>lm_rooms := (lm_rooms live)(room \<mapsto> (sid, insert pid ids)),
      lm_participant_rooms := (lm_participant_rooms live)(pid \<mapsto> room)\<rparr>"
    have "pid \<notin> i" if "lm_rooms live ro = Some (s, i)" for ro s i
      using inv new that unfolding live_inv_def by (metis option.distinct(1))
    with inv Some e show ?thesis unfolding l live_inv_def by (auto split: if_splits)
  qed
next
  case None
  have "live' = live \<or> live' = live\<lparr>lm_rooms := (lm_rooms live)(room := None)\<rparr> \<or>
    live' = live\<lparr>lm_rooms := (lm_rooms live)(room \<mapsto> (new_id, {pid})),
      lm_participant_rooms := (lm_participant_rooms live)(pid \<mapsto> room)\<rparr>"
    using r None by (auto simp: record_join_def session_for_def Let_def split: if_splits)
  moreover have "live\<lparr>lm_rooms := (lm_rooms live)(room := None)\<rparr> = live"
    using None by (simp add: fun_upd_idem)
  moreover have "live_inv (live\<lparr>lm_rooms := (lm_rooms live)(room \<mapsto> (new_id, {pid})),
      lm_participant_rooms := (lm_participant_rooms live)(pid \<mapsto> room)\<rparr>)"
  proof -
    have "pid \<notin> i" if "lm_rooms live ro = Some (s, i)" for ro s i
      using inv new that unfolding live_inv_def by (metis option.distinct(1))
    with inv None show ?thesis unfolding live_inv_def by (auto split: if_splits)
  qed
  ultimately show ?thesis using inv by metis
qed

lemma live_inv_leave:
  assumes inv: "live_inv live" and r: "record_leave fault pid now (live, db) = ((live', db'), ns)"
  shows "live_inv live' \<and> lm_participant_rooms live' pid = None"
proof (cases "lm_participant_rooms live pid")
  case None
  then show ?thesis using inv r by (auto simp: record_leave_def)
next
  case (Some room)
  with inv obtain sid ids where room: "lm_rooms live room = Some (sid, ids)" "pid \<in> ids"
    unfolding live_inv_def by blast
  have l: "live' = live\<lparr>lm_participant_rooms := (lm_participant_rooms live)(pid := None),
      lm_rooms := (lm_rooms live)(room := if ids - {pid} = {} then None else Some (sid, ids - {pid}))\<rparr>"
    using r Some room by (auto simp: record_leave_def Let_def split: if_splits)
  have other: "pid \<notin> i" if "lm_rooms live ro = Some (s, i)" and "ro \<noteq> room" for ro s i
    using inv Some that unfolding live_inv_def by (metis option.inject)
  show ?thesis
    using inv room other unfolding l live_inv_def by (auto split: if_splits)
qed

section \<open>The recorded history\<close>

definition open_ids :: "meeting_participant_row list \<Rightarrow> uuid \<Rightarrow> str set" where
  "open_ids ps sid = set (map mp_participant (filter (\<lambda>p. mp_session p = sid \<and> mp_left p = None) ps))"

lemma open_ids_append:
  "open_ids (ps @ [r]) s =
     (if mp_session r = s \<and> mp_left r = None then insert (mp_participant r) (open_ids ps s) else open_ids ps s)"
  unfolding open_ids_def by (simp del: set_map)

lemma open_ids_leave:
  "open_ids (update_where (\<lambda>p. mp_session p = sid \<and> mp_participant p = pid \<and> mp_left p = None)
      (\<lambda>p. p\<lparr>mp_left := Some now\<rparr>) ps) s = (if s = sid then open_ids ps s - {pid} else open_ids ps s)"
proof (induction ps)
  case (Cons p ps)
  then show ?case
    unfolding open_ids_def update_where_def
    by (cases "mp_session p = s"; cases "mp_participant p = pid"; cases "mp_left p"; cases "s = sid")
      (simp_all del: set_map add: insert_Diff_if)
qed (simp add: open_ids_def update_where_def)

lemma open_ids_member:
  "pid \<in> open_ids ps s \<Longrightarrow> pid \<in> mp_participant ` set ps \<and> s \<in> mp_session ` set ps"
  unfolding open_ids_def by (induction ps) (auto split: if_splits)

definition open_sessions :: "meeting_session_row list \<Rightarrow> (uuid \<times> str) set" where
  "open_sessions ss = set (map (\<lambda>s. (ms_id s, ms_room s)) (filter (\<lambda>s. ms_ended s = None) ss))"

lemma open_sessions_append:
  "open_sessions (ss @ [r]) =
     (if ms_ended r = None then insert (ms_id r, ms_room r) (open_sessions ss) else open_sessions ss)"
  unfolding open_sessions_def by (simp del: set_map)

lemma open_sessions_end:
  "open_sessions (update_where (\<lambda>s. ms_id s = sid \<and> ms_ended s = None)
      (\<lambda>s. s\<lparr>ms_ended := Some now\<rparr>) ss) = {e \<in> open_sessions ss. fst e \<noteq> sid}"
proof (induction ss)
  case (Cons s ss)
  then show ?case
    unfolding open_sessions_def update_where_def
    by (cases "ms_id s = sid"; cases "ms_ended s") (simp_all del: set_map add: Collect_conv_if, auto)
qed (simp add: open_sessions_def update_where_def)

lemma open_sessions_ids: "(sid, room) \<in> open_sessions ss \<Longrightarrow> sid \<in> set (map ms_id ss)"
  unfolding open_sessions_def by (induction ss) (auto split: if_splits)

lemma open_sessions_one_room:
  "\<lbrakk>distinct (map ms_id ss); (sid, a) \<in> open_sessions ss; (sid, b) \<in> open_sessions ss\<rbrakk> \<Longrightarrow> a = b"
proof (induction ss)
  case (Cons s ss)
  have "(sid, x) \<in> open_sessions (s # ss) \<longleftrightarrow>
      (ms_ended s = None \<and> ms_id s = sid \<and> ms_room s = x) \<or> (sid, x) \<in> open_sessions ss" for x
    unfolding open_sessions_def by (cases "ms_ended s") (auto simp del: set_map)
  with Cons open_sessions_ids [of sid] show ?case by (metis distinct.simps(2) list.simps(9))
qed (simp add: open_sessions_def)

lemma end_sessions_of_room_idle:
  "\<forall>sid. (sid, room) \<notin> open_sessions (meeting_sessions db) \<Longrightarrow> end_sessions_of_room room now db = db"
proof -
  assume none: "\<forall>sid. (sid, room) \<notin> open_sessions (meeting_sessions db)"
  have "update_where (\<lambda>s. ms_room s = room \<and> ms_ended s = None) f ss = ss"
    if "\<forall>sid. (sid, room) \<notin> open_sessions ss" for f and ss :: "meeting_session_row list"
    using that
  proof (induction ss)
    case (Cons s ss)
    have "\<forall>sid. (sid, room) \<notin> open_sessions ss"
      using Cons.prems unfolding open_sessions_def by (auto split: if_splits)
    moreover have "\<not> (ms_room s = room \<and> ms_ended s = None)"
      using Cons.prems unfolding open_sessions_def by (cases "ms_ended s") auto
    ultimately show ?case using Cons.IH by (auto simp: update_where_def)
  qed (simp add: update_where_def)
  from this [OF none] show ?thesis by (simp add: end_sessions_of_room_def)
qed

text \<open>
  The database tells the same as the memory: the open sessions are the live meetings, a live
  session's open participant rows are its connections, and an ended session has no open row.
\<close>

definition rec_inv :: "recorder \<Rightarrow> bool" where
  "rec_inv = (\<lambda>(live, db). live_inv live \<and>
     distinct (map ms_id (meeting_sessions db)) \<and>
     set (map mp_session (meeting_participants db)) \<subseteq> set (map ms_id (meeting_sessions db)) \<and>
     (\<forall>room sid. (sid, room) \<in> open_sessions (meeting_sessions db) \<longleftrightarrow>
        (\<exists>ids. lm_rooms live room = Some (sid, ids))) \<and>
     (\<forall>room sid ids. lm_rooms live room = Some (sid, ids) \<longrightarrow>
        open_ids (meeting_participants db) sid = ids) \<and>
     (\<forall>sid. open_ids (meeting_participants db) sid \<noteq> {} \<longrightarrow>
        (\<exists>room ids. lm_rooms live room = Some (sid, ids))))"

lemma rec_invD:
  assumes "rec_inv (live, db)"
  shows "live_inv live"
    and "distinct (map ms_id (meeting_sessions db))"
    and "set (map mp_session (meeting_participants db)) \<subseteq> set (map ms_id (meeting_sessions db))"
    and "(sid, room) \<in> open_sessions (meeting_sessions db) \<longleftrightarrow> (\<exists>ids. lm_rooms live room = Some (sid, ids))"
    and "lm_rooms live room = Some (sid, ids) \<Longrightarrow> open_ids (meeting_participants db) sid = ids"
    and "open_ids (meeting_participants db) sid \<noteq> {} \<Longrightarrow> \<exists>room ids. lm_rooms live room = Some (sid, ids)"
  using assms unfolding rec_inv_def by blast+

lemma rec_invI:
  assumes "live_inv live"
    and "distinct (map ms_id (meeting_sessions db))"
    and "set (map mp_session (meeting_participants db)) \<subseteq> set (map ms_id (meeting_sessions db))"
    and "\<And>sid room. (sid, room) \<in> open_sessions (meeting_sessions db) \<longleftrightarrow>
      (\<exists>ids. lm_rooms live room = Some (sid, ids))"
    and "\<And>sid room ids. lm_rooms live room = Some (sid, ids) \<Longrightarrow> open_ids (meeting_participants db) sid = ids"
    and "\<And>sid. open_ids (meeting_participants db) sid \<noteq> {} \<Longrightarrow>
      \<exists>room ids. lm_rooms live room = Some (sid, ids)"
  shows "rec_inv (live, db)"
  using assms unfolding rec_inv_def by blast

lemma rec_inv_one_room:
  assumes inv: "rec_inv (live, db)" and "lm_rooms live a = Some (sid, i)" and "lm_rooms live b = Some (sid, j)"
  shows "a = b"
  using open_sessions_one_room [OF rec_invD(2) [OF inv]] rec_invD(4) [OF inv] assms by blast

lemma fresh_connection_unassigned:
  assumes inv: "rec_inv (live, db)" and pid: "pid \<notin> set (map mp_participant (meeting_participants db))"
  shows "lm_participant_rooms live pid = None"
proof (rule ccontr)
  assume "lm_participant_rooms live pid \<noteq> None"
  then obtain room s i where r: "lm_rooms live room = Some (s, i)" "pid \<in> i"
    using rec_invD(1) [OF inv] unfolding live_inv_def by blast
  with rec_invD(5) [OF inv r(1)] pid open_ids_member show False by fastforce
qed

lemma rec_inv_join:
  assumes inv: "rec_inv (live, db)" and sid: "new_id \<notin> set (map ms_id (meeting_sessions db))"
    and pid: "pid \<notin> set (map mp_participant (meeting_participants db))"
  shows "rec_inv (record_join (\<lambda>_. False) new_id room pid u name now (live, db))"
proof -
  note D = rec_invD [OF inv]
  define row where "row s = \<lparr>mp_session = s, mp_participant = pid, mp_user = u, mp_name = name,
      mp_joined = now, mp_left = None\<rparr>" for s
  have none: "\<not> list_ex (\<lambda>p. mp_session p = s \<and> mp_participant p = pid) (meeting_participants db)" for s
    using pid by (auto simp: list_ex_iff)
  have new: "lm_participant_rooms live pid = None" by (rule fresh_connection_unassigned [OF inv pid])
  show ?thesis
  proof (cases "lm_rooms live room")
    case (Some e)
    obtain s0 ids where e: "lm_rooms live room = Some (s0, ids)" using Some by (cases e) auto
    let ?live = "live\<lparr>lm_rooms := (lm_rooms live)(room \<mapsto> (s0, insert pid ids)),
        lm_participant_rooms := (lm_participant_rooms live)(pid \<mapsto> room)\<rparr>"
    let ?db = "db\<lparr>meeting_participants := meeting_participants db @ [row s0]\<rparr>"
    have res: "record_join (\<lambda>_. False) new_id room pid u name now (live, db) = (?live, ?db)"
      using e none by (simp add: record_join_def session_for_def insert_participant_def row_def)
    have linv: "live_inv ?live" using live_inv_join [OF D(1) new res] .
    have op: "open_ids (meeting_participants ?db) s =
        (if s = s0 then insert pid (open_ids (meeting_participants db) s)
         else open_ids (meeting_participants db) s)" for s
      by (simp add: open_ids_append row_def)
    have s0: "(s0, room) \<in> open_sessions (meeting_sessions db)" using D(4) e by blast
    show ?thesis
      unfolding res
    proof (rule rec_invI [OF linv])
      show "set (map mp_session (meeting_participants ?db)) \<subseteq> set (map ms_id (meeting_sessions ?db))"
        using D(3) open_sessions_ids [OF s0] by (simp add: row_def)
      show "(s, b) \<in> open_sessions (meeting_sessions ?db) \<longleftrightarrow> (\<exists>ids. lm_rooms ?live b = Some (s, ids))"
        for s b using D(4) e by simp
      show "open_ids (meeting_participants ?db) s = i" if "lm_rooms ?live b = Some (s, i)" for s b i
        using that D(5) e rec_inv_one_room [OF inv _ e, of b] unfolding op by (auto split: if_splits)
      show "\<exists>room ids. lm_rooms ?live room = Some (s, ids)"
        if "open_ids (meeting_participants ?db) s \<noteq> {}" for s
      proof (cases "s = s0")
        case True then show ?thesis by (intro exI [of _ room]) simp
      next
        case False
        then have "open_ids (meeting_participants db) s \<noteq> {}" using that op [of s] by simp
        then obtain b i where b: "lm_rooms live b = Some (s, i)" using D(6) by blast
        with False e have "b \<noteq> room" by auto
        with b show ?thesis by (intro exI [of _ b]) simp
      qed
    qed (use D(2) in simp)
  next
    case None
    have same: "end_sessions_of_room room now db = db"
      by (rule end_sessions_of_room_idle) (use D(4) None in simp)
    let ?live = "live\<lparr>lm_rooms := (lm_rooms live)(room \<mapsto> (new_id, {pid})),
        lm_participant_rooms := (lm_participant_rooms live)(pid \<mapsto> room)\<rparr>"
    let ?srow = "\<lparr>ms_id = new_id, ms_room = room, ms_started = now, ms_ended = None\<rparr>"
    let ?db = "db\<lparr>meeting_sessions := meeting_sessions db @ [?srow],
        meeting_participants := meeting_participants db @ [row new_id]\<rparr>"
    have res: "record_join (\<lambda>_. False) new_id room pid u name now (live, db) = (?live, ?db)"
      using None none
      by (simp add: record_join_def session_for_def insert_participant_def insert_session_def same row_def)
    have linv: "live_inv ?live" using live_inv_join [OF D(1) new res] .
    have empty: "open_ids (meeting_participants db) new_id = {}"
      using D(3) sid open_ids_member [of _ _ new_id] by fastforce
    have op: "open_ids (meeting_participants ?db) s =
        (if s = new_id then {pid} else open_ids (meeting_participants db) s)" for s
      using empty by (simp add: open_ids_append row_def)
    have fresh: "lm_rooms live b \<noteq> Some (new_id, i)" for b i
      using D(4) [of new_id b] open_sessions_ids sid by blast
    show ?thesis
      unfolding res
    proof (rule rec_invI [OF linv])
      show "(s, b) \<in> open_sessions (meeting_sessions ?db) \<longleftrightarrow> (\<exists>ids. lm_rooms ?live b = Some (s, ids))"
        for s b using D(4) [of s b] None fresh by (auto simp: open_sessions_append)
      show "open_ids (meeting_participants ?db) s = i" if "lm_rooms ?live b = Some (s, i)" for s b i
        using that D(5) fresh unfolding op by (auto split: if_splits)
      show "\<exists>room ids. lm_rooms ?live room = Some (s, ids)"
        if "open_ids (meeting_participants ?db) s \<noteq> {}" for s
      proof (cases "s = new_id")
        case True then show ?thesis by (intro exI [of _ room]) simp
      next
        case False
        then have "open_ids (meeting_participants db) s \<noteq> {}" using that op [of s] by simp
        then obtain b i where b: "lm_rooms live b = Some (s, i)" using D(6) by blast
        with None have "b \<noteq> room" by auto
        with b show ?thesis by (intro exI [of _ b]) simp
      qed
    qed (use D(2,3) sid in \<open>auto simp: row_def\<close>)
  qed
qed

lemma rec_inv_leave:
  assumes inv: "rec_inv (live, db)"
  shows "rec_inv (fst (record_leave (\<lambda>_. False) pid now (live, db)))"
proof (cases "lm_participant_rooms live pid")
  case None
  then show ?thesis using inv by (simp add: record_leave_def)
next
  case (Some room)
  note D = rec_invD [OF inv]
  obtain sid ids where room: "lm_rooms live room = Some (sid, ids)" "pid \<in> ids"
    using D(1) Some unfolding live_inv_def by blast
  let ?ended = "ids - {pid} = {}"
  let ?live = "live\<lparr>lm_participant_rooms := (lm_participant_rooms live)(pid := None),
      lm_rooms := (lm_rooms live)(room := if ?ended then None else Some (sid, ids - {pid}))\<rparr>"
  let ?ps = "update_where (\<lambda>p. mp_session p = sid \<and> mp_participant p = pid \<and> mp_left p = None)
      (\<lambda>p. p\<lparr>mp_left := Some now\<rparr>) (meeting_participants db)"
  let ?ss = "if ?ended then update_where (\<lambda>s. ms_id s = sid \<and> ms_ended s = None)
      (\<lambda>s. s\<lparr>ms_ended := Some now\<rparr>) (meeting_sessions db) else meeting_sessions db"
  let ?db = "db\<lparr>meeting_participants := ?ps, meeting_sessions := ?ss\<rparr>"
  have res: "fst (record_leave (\<lambda>_. False) pid now (live, db)) = (?live, ?db)"
    using Some room by (cases ?ended) (simp_all add: record_leave_def Let_def)
  have r: "record_leave (\<lambda>_. False) pid now (live, db) =
      ((?live, ?db), snd (record_leave (\<lambda>_. False) pid now (live, db)))"
    unfolding res [symmetric] by simp
  have linv: "live_inv ?live" using live_inv_leave [OF D(1) r] by blast
  have ids': "map ms_id ?ss = map ms_id (meeting_sessions db)"
    by (simp add: update_where_def)
  have sess: "map mp_session ?ps = map mp_session (meeting_participants db)"
    by (simp add: update_where_def)
  have other: "lm_rooms live b = Some (sid, j) \<Longrightarrow> b = room" for b j
    using rec_inv_one_room [OF inv _ room(1)] .
  define rooms' ps' ss' E where "rooms' = lm_rooms ?live" and "ps' = ?ps" and "ss' = ?ss" and "E = ?ended"
  have rooms': "rooms' b = Some (s, i) \<longleftrightarrow> (if b = room then \<not> E \<and> s = sid \<and> i = ids - {pid}
      else lm_rooms live b = Some (s, i))" for b s i
    unfolding rooms'_def E_def by (cases ?ended) auto
  have os: "(s, b) \<in> open_sessions ss' \<longleftrightarrow> (s, b) \<in> open_sessions (meeting_sessions db) \<and> (E \<longrightarrow> s \<noteq> sid)"
    for s b unfolding ss'_def E_def by (cases ?ended) (simp_all add: open_sessions_end)
  have op: "open_ids ps' s = (if s = sid then ids - {pid} else open_ids (meeting_participants db) s)" for s
    unfolding ps'_def open_ids_leave using D(5) [OF room(1)] by simp
  have "(s, b) \<in> open_sessions ss' \<longleftrightarrow> (\<exists>ids. rooms' b = Some (s, ids))" for s b
  proof (cases "b = room")
    case True
    then show ?thesis using room(1) D(4) [of s room] unfolding os rooms' by auto
  next
    case False
    then have "lm_rooms live b \<noteq> Some (sid, j)" for j using other by blast
    with False show ?thesis using D(4) [of s b] unfolding os rooms' by auto
  qed
  moreover have "open_ids ps' s = i" if "rooms' b = Some (s, i)" for s b i
  proof (cases "b = room")
    case True
    then show ?thesis using that unfolding op rooms' by simp
  next
    case False
    then have l: "lm_rooms live b = Some (s, i)" using that unfolding rooms' by simp
    then have "s \<noteq> sid" using other False by blast
    then show ?thesis using D(5) [OF l] unfolding op by simp
  qed
  moreover have "\<exists>room ids. rooms' room = Some (s, ids)" if o: "open_ids ps' s \<noteq> {}" for s
  proof (cases "s = sid")
    case True
    then have "rooms' room = Some (s, ids - {pid})" using o unfolding op rooms' E_def by simp
    then show ?thesis by blast
  next
    case False
    then obtain b i where b: "lm_rooms live b = Some (s, i)" using D(6) [of s] o unfolding op by auto
    with False room have "rooms' b = Some (s, i)" unfolding rooms' by auto
    then show ?thesis by blast
  qed
  moreover have "distinct (map ms_id ss')" "set (map mp_session ps') \<subseteq> set (map ms_id ss')"
    unfolding ss'_def ps'_def using D(2,3) ids' sess by (simp_all only:)
  ultimately show ?thesis
    unfolding res rec_inv_def rooms'_def ps'_def ss'_def using linv by simp
qed

section \<open>A run of the worker\<close>

definition run_recorder ::
  "fault \<Rightarrow> instant \<Rightarrow> (fault \<times> uuid \<times> meeting_event) list \<Rightarrow> database \<Rightarrow> recorder" where
  "run_recorder fault now events db =
     fold recorder_step events (no_live_meetings, close_abandoned_sessions fault now db)"

text \<open>
  The events the SFU can send: a connection ID and a session ID are random UUIDs, so a join brings a
  connection that was never recorded and the database gives a session ID it has not given before.
\<close>

fun fresh_event :: "fault \<times> uuid \<times> meeting_event \<Rightarrow> database \<Rightarrow> bool" where
  "fresh_event (fault, new_id, MeetingJoined room pid u name now) db \<longleftrightarrow>
     new_id \<notin> set (map ms_id (meeting_sessions db)) \<and>
     pid \<notin> set (map mp_participant (meeting_participants db))"
| "fresh_event (fault, new_id, MeetingLeft pid now) db \<longleftrightarrow> True"

fun fresh_run :: "(fault \<times> uuid \<times> meeting_event) list \<Rightarrow> recorder \<Rightarrow> bool" where
  "fresh_run [] st \<longleftrightarrow> True"
| "fresh_run (e # es) st \<longleftrightarrow> fresh_event e (snd st) \<and> fresh_run es (recorder_step e st)"

lemma rec_inv_step:
  assumes "rec_inv st" and "fresh_event ((\<lambda>_. False), e) (snd st)"
  shows "rec_inv (recorder_step ((\<lambda>_. False), e) st)"
proof -
  obtain live db where st: "st = (live, db)" by fastforce
  obtain new_id ev where e: "e = (new_id, ev)" by fastforce
  show ?thesis
    using assms rec_inv_join rec_inv_leave unfolding st e by (cases ev) auto
qed

lemma rec_inv_run:
  "\<lbrakk>rec_inv st; fresh_run events st; \<forall>e \<in> set events. fst e = (\<lambda>_. False)\<rbrakk> \<Longrightarrow>
     rec_inv (fold recorder_step events st)"
proof (induction events arbitrary: st)
  case (Cons e es)
  obtain f r where e: "e = (f, r)" by (cases e)
  have "rec_inv (recorder_step e st)"
    using Cons.prems rec_inv_step [of st r] unfolding e by simp
  with Cons show ?case by simp
qed simp

lemma open_sessions_all_closed:
  "open_sessions (update_where (\<lambda>s. ms_ended s = None) (\<lambda>s. s\<lparr>ms_ended := Some (f s)\<rparr>) ss) = {}"
  unfolding open_sessions_def update_where_def by (induction ss) (auto simp del: set_map)

lemma open_ids_all_closed:
  "open_ids (update_where (\<lambda>p. mp_left p = None) (\<lambda>p. p\<lparr>mp_left := Some (f p)\<rparr>) ps) sid = {}"
  unfolding open_ids_def update_where_def by (induction ps) (auto simp del: set_map)

lemma rec_inv_start:
  assumes "distinct (map ms_id (meeting_sessions db))"
    and "set (map mp_session (meeting_participants db)) \<subseteq> set (map ms_id (meeting_sessions db))"
  shows "rec_inv (no_live_meetings, close_abandoned_sessions (\<lambda>_. False) now db)"
proof -
  let ?db = "close_abandoned_sessions (\<lambda>_. False) now db"
  have "map ms_id (meeting_sessions ?db) = map ms_id (meeting_sessions db)"
    by (simp add: close_abandoned_sessions_def update_where_def)
  moreover have "map mp_session (meeting_participants ?db) = map mp_session (meeting_participants db)"
    by (simp add: close_abandoned_sessions_def update_where_def)
  moreover have "open_sessions (meeting_sessions ?db) = {}"
    by (simp add: close_abandoned_sessions_def open_sessions_all_closed)
  moreover have "open_ids (meeting_participants ?db) sid = {}" for sid
    by (simp add: close_abandoned_sessions_def open_ids_all_closed)
  ultimately show ?thesis
    using assms live_inv_new by (intro rec_invI) (simp_all add: no_live_meetings_def)
qed

text \<open>
  C16. Whatever joins and leaves the worker records after a start, and whatever an earlier process
  left in the tables, the history agrees with the live meetings as long as no statement fails: a
  session row is open exactly when its room has a live meeting with that session, the open participant
  rows of a live session are exactly its connections (each live meeting has at least one), and a
  session that has ended has no open participant row.
\<close>

theorem recorded_history_matches:
  assumes "distinct (map ms_id (meeting_sessions db))"
    and "set (map mp_session (meeting_participants db)) \<subseteq> set (map ms_id (meeting_sessions db))"
    and "fresh_run events (no_live_meetings, close_abandoned_sessions (\<lambda>_. False) now db)"
    and "\<forall>e \<in> set events. fst e = (\<lambda>_. False)"
    and "run_recorder (\<lambda>_. False) now events db = (live, db')"
  shows "(\<forall>room sid. (sid, room) \<in> open_sessions (meeting_sessions db') \<longleftrightarrow>
           (\<exists>ids. lm_rooms live room = Some (sid, ids) \<and> ids \<noteq> {} \<and>
              open_ids (meeting_participants db') sid = ids)) \<and>
         (\<forall>sid. sid \<notin> fst ` open_sessions (meeting_sessions db') \<longrightarrow>
           open_ids (meeting_participants db') sid = {})"
proof -
  have inv: "rec_inv (live, db')"
    using rec_inv_run [OF rec_inv_start [OF assms(1,2)] assms(3,4)] assms(5)
    by (simp add: run_recorder_def)
  note D = rec_invD [OF inv]
  have "sid \<in> fst ` open_sessions (meeting_sessions db')"
    if "open_ids (meeting_participants db') sid \<noteq> {}" for sid
    using D(6) [OF that] D(4) [of sid] by force
  then show ?thesis using D(1,4,5) unfolding live_inv_def by blast
qed

definition sample_history :: database where
  "sample_history = empty_database
     \<lparr>meeting_sessions := [\<lparr>ms_id = 1, ms_room = lit ''old'', ms_started = 5, ms_ended = None\<rparr>],
      meeting_participants := [\<lparr>mp_session = 1, mp_participant = lit ''x'', mp_user = None,
        mp_name = lit ''X'', mp_joined = 6, mp_left = None\<rparr>]\<rparr>"

definition sample_meeting :: "(fault \<times> uuid \<times> meeting_event) list" where
  "sample_meeting =
     [((\<lambda>_. False), 2, MeetingJoined (lit ''r'') (lit ''a'') (Some 7) (lit ''A'') 20),
      ((\<lambda>_. False), 3, MeetingJoined (lit ''r'') (lit ''b'') None (lit ''B'') 21),
      ((\<lambda>_. False), 4, MeetingJoined (lit ''q'') (lit ''c'') None (lit ''C'') 22),
      ((\<lambda>_. False), 0, MeetingLeft (lit ''a'') 23),
      ((\<lambda>_. False), 0, MeetingLeft (lit ''c'') 24)]"

theorem recorded_history_matches_witness:
  "let db' = snd (run_recorder (\<lambda>_. False) 10 sample_meeting sample_history) in
   (2, lit ''r'') \<in> open_sessions (meeting_sessions db') \<and>
   open_ids (meeting_participants db') 2 = {lit ''b''} \<and> open_ids (meeting_participants db') 4 = {}"
proof -
  let ?r = "run_recorder (\<lambda>_. False) 10 sample_meeting sample_history"
  have r: "?r = (fst ?r, snd ?r)" by simp
  have *: "distinct (map ms_id (meeting_sessions sample_history))"
    "set (map mp_session (meeting_participants sample_history)) \<subseteq> set (map ms_id (meeting_sessions sample_history))"
    "fresh_run sample_meeting (no_live_meetings, close_abandoned_sessions (\<lambda>_. False) 10 sample_history)"
    by code_simp+
  have f: "\<forall>e \<in> set sample_meeting. fst e = (\<lambda>_. False)"
    by (simp add: sample_meeting_def)
  have l: "lm_rooms (fst ?r) (lit ''r'') = Some (2, {lit ''b''})" by code_simp
  have q: "4 \<notin> fst ` open_sessions (meeting_sessions (snd ?r))"
    and o: "(2, lit ''r'') \<in> open_sessions (meeting_sessions (snd ?r))" by code_simp+
  from recorded_history_matches [OF * f r] l q o show ?thesis by (simp add: Let_def)
qed

end
