(* ===== verification/Session.thy ===== *)
theory Session
  imports Repository Negotiation MeetingRooms CallAccess MeetingRecorder
begin

text \<open>
  The signaling sessions of \<open>src/signaling/handler.rs\<close>: one socket from its authentication to its
  clean-up, the join handler with its checks in the order of the code, the messages of a participant
  inside a room, and the two operations of \<open>src/social/conversations.rs\<close> that take running media access
  away. The state is the whole server: the repository with its rooms, the outgoing queues, the world of
  the WebRTC library, the recorder's queue, the wrong-password counts and the tasks started so far.

  A handler runs concurrently with everything else. Where it gives up control without a lock, the model
  takes what happens there as a function on the server (\<open>others\<close>, \<open>gap\<close>), or as a list of repository
  operations (\<open>during\<close>) where it holds the lock of the room.
\<close>

section \<open>State\<close>

definition SIGNALING_PROTOCOL_VERSION :: "16 word" where "SIGNALING_PROTOCOL_VERSION = 2"

record session_identity =
  identity_decided :: bool
  identity_user :: "uuid option"
  identity_name :: "str option"

definition undecided :: session_identity where
  "undecided = \<lparr>identity_decided = False, identity_user = None, identity_name = None\<rparr>"

record session =
  connection_id :: str
  current_room_id :: "str option"
  participant_name :: "str option"
  identity :: session_identity
  recent_actions :: "instant list"

definition new_session :: "str \<Rightarrow> session" where
  "new_session p = \<lparr>connection_id = p, current_room_id = None, participant_name = None,
     identity = undecided, recent_actions = []\<rparr>"

abbreviation session_user :: "session \<Rightarrow> uuid option" where
  "session_user sess \<equiv> identity_user (identity sess)"

text \<open>What a handler starts and does not wait for.\<close>

datatype task =
    Effect effect
  | LateJoin room_ref late_join
  | AfterAnswer room_ref str "uuid option" pc_handle

record 'w server =
  repo :: repository
  queues :: outbox
  world :: 'w
  recorder_queue :: "meeting_event list"
  wrong_passwords :: failures
  spawned :: "task list"

text \<open>
  What an operation reads from outside: the WebRTC library, the process environment, the token and
  password libraries, the database and the clocks. The database may change between two queries of
  one operation: \<open>db_at k\<close> is what its \<open>k\<close>-th query finds (\<open>None\<close> if it fails), \<open>db_now k\<close> that query's
  \<open>NOW()\<close>.
\<close>

record 'w env =
  library :: "'w webrtc"
  variables :: "str \<Rightarrow> str option"
  enforce_room_access :: bool
  validate_access_token :: "str \<Rightarrow> str + uuid"
  verify_password :: "str \<Rightarrow> str \<Rightarrow> bool"
  alphanumeric :: "uchar \<Rightarrow> bool"
  db_at :: "nat \<Rightarrow> database option"
  db_now :: "nat \<Rightarrow> instant"
  monotonic :: instant
  unix_millis :: nat

text \<open>The room a session is in, as the repository has it now, and writing it back.\<close>

definition current_room :: "session \<Rightarrow> 'w server \<Rightarrow> (room_ref \<times> room) option" where
  "current_room sess s =
     Option.bind (current_room_id sess) (\<lambda>i.
       Option.bind (get_room (repo s) i) (\<lambda>x.
         map_option (Pair x) (room_heap (repo s) x)))"

definition put_room :: "room_ref \<Rightarrow> room \<Rightarrow> 'w server \<Rightarrow> 'w server" where
  "put_room x r s = s\<lparr>repo := modify_room x (\<lambda>_. r) (repo s)\<rparr>"

definition put_sfu :: "room_ref \<Rightarrow> 'w sfu \<Rightarrow> 'w server \<Rightarrow> 'w server" where
  "put_sfu x = (\<lambda>(r, net, w) s. put_room x r (s\<lparr>queues := net, world := w\<rparr>))"

definition spawn :: "task list \<Rightarrow> 'w server \<Rightarrow> 'w server" where
  "spawn ts s = s\<lparr>spawned := spawned s @ ts\<rparr>"

definition reply :: "str \<Rightarrow> signaling_message \<Rightarrow> 'w server \<Rightarrow> 'w server" where
  "reply p m s = s\<lparr>queues := push (queues s) p m\<rparr>"

section \<open>Authentication\<close>

definition authenticate_session ::
  "'w env \<Rightarrow> 16 word \<Rightarrow> str option \<Rightarrow> str + session_identity" where
  "authenticate_session E version access_token =
     (if version \<noteq> SIGNALING_PROTOCOL_VERSION then Inl (lit ''Unsupported signaling protocol'')
      else case access_token of
        None \<Rightarrow> Inr (undecided\<lparr>identity_decided := True\<rparr>)
      | Some t \<Rightarrow>
          (case validate_access_token E t of
             Inl _ \<Rightarrow> Inl (lit ''Invalid or expired access token'')
           | Inr uid \<Rightarrow>
               (case db_at E 0 of
                  None \<Rightarrow> Inl (lit ''Unable to verify session'')
                | Some db \<Rightarrow>
                    (case find (\<lambda>u. us_id u = uid) (users db) of
                       None \<Rightarrow> Inl (lit ''Invalid or expired access token'')
                     | Some u \<Rightarrow> Inr \<lparr>identity_decided = True, identity_user = Some (us_id u),
                                     identity_name = Some (us_name u)\<rparr>))))"

section \<open>Joining a room\<close>

text \<open>
  The part before the room is touched. \<open>Inl None\<close> is a refusal without a message, \<open>Inl (Some e)\<close> a
  refusal with the error \<open>e\<close>.
\<close>

definition join_admission ::
  "'w env \<Rightarrow> session \<Rightarrow> str \<Rightarrow> str \<Rightarrow> str option \<Rightarrow> failures
     \<Rightarrow> (str option + sfu_room_authorization \<times> str) \<times> failures" where
  "join_admission E sess i given password fs =
     (if current_room_id sess \<noteq> None then (Inl None, fs)
      else
        (let name = trim (unwrap_or given (identity_name (identity sess))) in
         if name = [] \<or> 80 < length name
         then (Inl (Some (lit ''Participant name must be between 1 and 80 characters'')), fs)
         else case authorize_sfu_room (db_at E 0) (db_now E 0) i (session_user sess) of
           Inl e \<Rightarrow> (Inl (Some (lit ''Unable to authorize call session'')), fs)
         | Inr AccessDenied \<Rightarrow> (Inl (Some (lit ''Call session access denied'')), fs)
         | Inr Authorized \<Rightarrow> (Inr (Authorized, name), fs)
         | Inr Legacy \<Rightarrow>
             (case admit_to_meeting_room (verify_password E) (db_at E 1) i (session_user sess)
                     password (monotonic E) fs of
                (Inl e, fs) \<Rightarrow> (Inl (Some (lit ''Unable to authorize meeting'')), fs)
              | (Inr a, fs) \<Rightarrow>
                  (if a = Allowed then (Inr (Legacy, name), fs)
                   else (Inl (Some (admission_message a)), fs)))))"

definition join_ensure :: "str \<Rightarrow> repository \<Rightarrow> (str + unit) \<times> repository" where
  "join_ensure i rp =
     (if room_exists rp i then (Inr (), rp)
      else case create_room i rp of
        (Inl e, rp) \<Rightarrow> (Inl (lit ''Failed to create room: '' @ e), rp)
      | (Inr _, rp) \<Rightarrow> (Inr (), rp))"

text \<open>Rooms of conversation calls are authorized once more before the room lock is taken.\<close>

definition join_recheck ::
  "'w env \<Rightarrow> sfu_room_authorization \<Rightarrow> str \<Rightarrow> uuid option \<Rightarrow> str + unit" where
  "join_recheck E auth i u =
     (if auth \<noteq> Authorized then Inr ()
      else case authorize_sfu_room (db_at E 2) (db_now E 2) i u of
        Inr Authorized \<Rightarrow> Inr ()
      | Inr _ \<Rightarrow> Inl (lit ''Call session access denied'')
      | Inl e \<Rightarrow> Inl (lit ''Unable to authorize call session''))"

definition access_denied :: "room \<Rightarrow> uuid option \<Rightarrow> bool" where
  "access_denied r u \<longleftrightarrow> revoked r \<or> (case u of None \<Rightarrow> False | Some u \<Rightarrow> is_user_denied r u)"

definition presenter_present :: "room \<Rightarrow> str option \<Rightarrow> uuid option \<Rightarrow> bool" where
  "presenter_present r share u =
     (case share of
        None \<Rightarrow> True
      | Some owner_id \<Rightarrow>
          (case map_of (participants r) owner_id of
             None \<Rightarrow> False
           | Some owner \<Rightarrow> screen_share_of (participant owner) = None \<and>
               pt_user_id (participant owner) = u))"

text \<open>What the joiner is told: its own name, the chat, and everybody who is there.\<close>

definition existing_messages :: "str \<times> str \<times> bool \<times> bool \<times> str option \<Rightarrow> signaling_message list" where
  "existing_messages = (\<lambda>(i, name, audio, video, share).
     ParticipantJoined i name share
     # (if \<not> audio \<or> \<not> video then [MediaStateChanged i audio video] else []))"

definition join_messages ::
  "str \<Rightarrow> str \<Rightarrow> chat_message_payload list \<Rightarrow> (str \<times> str \<times> bool \<times> bool \<times> str option) list
     \<Rightarrow> signaling_message list" where
  "join_messages p name history existing =
     Joined p name # ChatHistory history # concat (map existing_messages existing)"

definition joining_connection :: "session \<Rightarrow> str \<Rightarrow> str option \<Rightarrow> pc_handle \<Rightarrow> participant_connection" where
  "joining_connection sess name share pc =
     set_peer_connection
       (new_connection ((new_participant (connection_id sess) name)
            \<lparr>pt_user_id := session_user sess, screen_share_of := share\<rparr>) (connection_id sess)) pc"

text \<open>
  Entering a room: everything under the room's write lock. The repository is not locked, so
  while the peer connection is set up other tasks may still revoke the room or deny the user
  (\<open>during\<close>). A room that the repository handed out is always in the heap.
\<close>

definition join_enter ::
  "'w env \<Rightarrow> repo_op list \<Rightarrow> room_ref \<Rightarrow> session \<Rightarrow> str \<Rightarrow> str \<Rightarrow> str option \<Rightarrow> 'w server
     \<Rightarrow> (str + session) \<times> 'w server" where
  "join_enter E during x sess i name share s =
     (case room_heap (repo s) x of
        None \<Rightarrow> (Inl (lit ''Room not found''), s)
      | Some r \<Rightarrow>
          (if access_denied r (session_user sess) then (Inl (lit ''Call session access denied''), s)
           else if \<not> presenter_present r share (session_user sess)
           then (Inl (lit ''Screen share presenter is not in this meeting''), s)
           else
             (let existing = get_participants_with_media_state r;
                  history = chat_history r
              in case new_peer_connection (library E) (join_config (variables E)) (world s) of
                   (Inl e, w) \<Rightarrow> (Inl (lit ''Failed to create peer connection: '' @ e), s\<lparr>world := w\<rparr>)
                 | (Inr pc, w) \<Rightarrow>
                     (let s = s\<lparr>world := w, repo := fold repo_step during (repo s)\<rparr> in
                      case room_heap (repo s) x of
                        None \<Rightarrow> (Inl (lit ''Room not found''), s)
                      | Some r \<Rightarrow>
                          (if access_denied r (session_user sess)
                           then (Inl (lit ''Call session access denied''),
                                 s\<lparr>world := snd (close_peer (library E) pc w)\<rparr>)
                           else
                             (let (r, net) = add_participant (joining_connection sess name share pc) (r, queues s);
                                  s = put_room x r (s\<lparr>queues := net\<rparr>);
                                  s = (if share = None
                                       then s\<lparr>recorder_queue := recorder_queue s @
                                              [MeetingJoined i (connection_id sess) (session_user sess) name
                                                 (db_now E 3)]\<rparr>
                                       else s)
                              in (Inr (sess\<lparr>current_room_id := Some i, participant_name := Some name\<rparr>),
                                  fold (reply (connection_id sess))
                                    (join_messages (connection_id sess) name history existing) s)))))))"

text \<open>The whole handler; \<open>others k\<close> is what the rest of the server does while it waits.\<close>

definition join ::
  "'w env \<Rightarrow> (nat \<Rightarrow> 'w server \<Rightarrow> 'w server) \<Rightarrow> repo_op list \<Rightarrow> session \<Rightarrow> str \<Rightarrow> str \<Rightarrow> str option
     \<Rightarrow> str option \<Rightarrow> 'w server \<Rightarrow> session \<times> 'w server" where
  "join E others during sess i given password share s =
     (let refuse = (\<lambda>e s. (sess, reply (connection_id sess) (Error e) s)) in
      case join_admission E sess i given password (wrong_passwords s) of
        (Inl None, fs) \<Rightarrow> (sess, s\<lparr>wrong_passwords := fs\<rparr>)
      | (Inl (Some e), fs) \<Rightarrow> refuse e (s\<lparr>wrong_passwords := fs\<rparr>)
      | (Inr (auth, name), fs) \<Rightarrow>
          (let s = others 0 (s\<lparr>wrong_passwords := fs\<rparr>) in
           case join_ensure i (repo s) of
             (Inl e, rp) \<Rightarrow> refuse e (s\<lparr>repo := rp\<rparr>)
           | (Inr _, rp) \<Rightarrow>
               (let s = others 1 (s\<lparr>repo := rp\<rparr>) in
                case get_room (repo s) i of
                  None \<Rightarrow> refuse (lit ''Room not found'') s
                | Some x \<Rightarrow>
                    (case join_recheck E auth i (session_user sess) of
                       Inl e \<Rightarrow> refuse e s
                     | Inr _ \<Rightarrow>
                         (case join_enter E during x sess i name share (others 2 s) of
                            (Inl e, s) \<Rightarrow> refuse e s
                          | (Inr sess', s) \<Rightarrow> (sess', s))))))"

section \<open>Messages inside a room\<close>

definition on_offer :: "'w env \<Rightarrow> session \<Rightarrow> str \<Rightarrow> 'w server \<Rightarrow> 'w server" where
  "on_offer E sess sdp s =
     (case current_room sess s of
        None \<Rightarrow> s
      | Some (x, r) \<Rightarrow>
          (case handle_offer (library E) (connection_id sess) (session_user sess) sdp (r, queues s, world s) of
             (sfu, None) \<Rightarrow> put_sfu x sfu s
           | (sfu, Some j) \<Rightarrow> spawn [LateJoin x j] (put_sfu x sfu s)))"

definition on_answer :: "'w env \<Rightarrow> session \<Rightarrow> str \<Rightarrow> 'w server \<Rightarrow> 'w server" where
  "on_answer E sess sdp s =
     (case current_room sess s of
        None \<Rightarrow> s
      | Some (x, r) \<Rightarrow>
          (case handle_answer (library E) (connection_id sess) (session_user sess) sdp (r, queues s, world s) of
             (sfu, None) \<Rightarrow> put_sfu x sfu s
           | (sfu, Some pc) \<Rightarrow>
               spawn [AfterAnswer x (connection_id sess) (session_user sess) pc] (put_sfu x sfu s)))"

definition on_ice_candidate ::
  "'w env \<Rightarrow> session \<Rightarrow> str \<Rightarrow> str option \<Rightarrow> 16 word option \<Rightarrow> 'w server \<Rightarrow> 'w server" where
  "on_ice_candidate E sess candidate mid line s =
     (case current_room sess s of
        None \<Rightarrow> s
      | Some (x, r) \<Rightarrow>
          put_sfu x (handle_ice_candidate (library E) (connection_id sess) (session_user sess)
            candidate mid line (r, queues s, world s)) s)"

definition set_media_state :: "str \<Rightarrow> bool \<Rightarrow> bool \<Rightarrow> room \<Rightarrow> room" where
  "set_media_state p audio video r =
     r\<lparr>participants := AList.map_entry p
         (\<lambda>c. c\<lparr>participant := (participant c)\<lparr>audio_enabled := audio, video_enabled := video\<rparr>\<rparr>)
         (participants r)\<rparr>"

definition on_media_state :: "session \<Rightarrow> bool \<Rightarrow> bool \<Rightarrow> 'w server \<Rightarrow> 'w server" where
  "on_media_state sess audio video s =
     (let p = connection_id sess in
      case current_room sess s of
        None \<Rightarrow> s
      | Some (x, r) \<Rightarrow>
          (if \<not> has_active_participant r p (session_user sess) then s
           else
             (let r = set_media_state p audio video r
              in put_room x r (s\<lparr>queues := broadcast_except r p (MediaStateChanged p audio video) (queues s)\<rparr>))))"

definition on_chat_message ::
  "'w env \<Rightarrow> session \<Rightarrow> str \<Rightarrow> nat option \<Rightarrow> 'w server \<Rightarrow> session \<times> 'w server" where
  "on_chat_message E sess text reply_to_id s =
     (let p = connection_id sess in
      case current_room sess s of
        None \<Rightarrow> (sess, s)
      | Some (x, r) \<Rightarrow>
          (if \<not> has_active_participant r p (session_user sess) then (sess, s)
           else
             (let text = trim text in
              if text = [] \<or> 2000 < length text then (sess, s)
              else
                (let (ok, recent) = allow_sender_chat_action (monotonic E) (recent_actions sess);
                     sess = sess\<lparr>recent_actions := recent\<rparr>
                 in if \<not> ok then (sess, s)
                    else
                      (let (ok, r) = room_allow_chat_message (monotonic E) r in
                       if \<not> ok then (sess, put_room x r s)
                       else
                         (let m = \<lparr>cm_id = 0, cm_participant_id = p,
                                   cm_participant_name = unwrap_or (lit ''Unknown'') (participant_name sess),
                                   cm_message = text, cm_timestamp = unix_millis E,
                                   cm_reply_to = Option.bind reply_to_id (chat_reply_preview_of r),
                                   cm_reactions = []\<rparr>;
                              (m, r) = record_chat_message m r
                          in (sess, put_room x r
                                (s\<lparr>queues := broadcast r (into_signaling_message m) (queues s)\<rparr>))))))))"

definition on_chat_reaction ::
  "'w env \<Rightarrow> session \<Rightarrow> nat \<Rightarrow> str \<Rightarrow> 'w server \<Rightarrow> session \<times> 'w server" where
  "on_chat_reaction E sess mid e s =
     (let p = connection_id sess in
      case validate_reaction (alphanumeric E) e of
        Inl _ \<Rightarrow> (sess, s)
      | Inr e \<Rightarrow>
          (case current_room sess s of
             None \<Rightarrow> (sess, s)
           | Some (x, r) \<Rightarrow>
               (if \<not> has_active_participant r p (session_user sess) then (sess, s)
                else
                  (let (ok, recent) = allow_sender_chat_action (monotonic E) (recent_actions sess);
                       sess = sess\<lparr>recent_actions := recent\<rparr>
                   in if \<not> ok then (sess, s)
                      else
                        (case toggle_chat_reaction mid p e r of
                           (None, r) \<Rightarrow> (sess, put_room x r s)
                         | (Some reactions, r) \<Rightarrow>
                             (sess, put_room x r
                                (s\<lparr>queues := broadcast r (ChatReactionsChanged mid reactions) (queues s)\<rparr>)))))))"

section \<open>The message loop\<close>

definition handle_message ::
  "'w env \<Rightarrow> (nat \<Rightarrow> 'w server \<Rightarrow> 'w server) \<Rightarrow> repo_op list \<Rightarrow> signaling_message \<Rightarrow> session \<Rightarrow> 'w server
     \<Rightarrow> session \<times> 'w server" where
  "handle_message E others during m sess s =
     (case m of
        Join i name password share \<Rightarrow> join E others during sess i name password share s
      | Authenticate _ _ \<Rightarrow>
          (sess, reply (connection_id sess) (Error (lit ''Invalid signaling direction'')) s)
      | Authenticated _ _ \<Rightarrow>
          (sess, reply (connection_id sess) (Error (lit ''Invalid signaling direction'')) s)
      | Offer _ sdp \<Rightarrow> (sess, on_offer E sess sdp s)
      | Answer _ sdp \<Rightarrow> (sess, on_answer E sess sdp s)
      | IceCandidate _ candidate mid line \<Rightarrow> (sess, on_ice_candidate E sess candidate mid line s)
      | MediaStateChanged _ audio video \<Rightarrow> (sess, on_media_state sess audio video s)
      | ChatMessage _ _ _ text _ reply_to_id _ _ \<Rightarrow> on_chat_message E sess text reply_to_id s
      | ChatReaction mid e \<Rightarrow> on_chat_reaction E sess mid e s
      | _ \<Rightarrow> (sess, s))"

text \<open>A frame of the socket; \<open>Text (Inl e)\<close> is a text that does not parse, with the parser's message.\<close>

datatype frame = Text "str + signaling_message" | Close | OtherFrame

text \<open>One turn of the receiver; the flag says whether the loop goes on.\<close>

definition receive_frame ::
  "'w env \<Rightarrow> (nat \<Rightarrow> 'w server \<Rightarrow> 'w server) \<Rightarrow> repo_op list \<Rightarrow> frame \<Rightarrow> session \<Rightarrow> 'w server
     \<Rightarrow> bool \<times> session \<times> 'w server" where
  "receive_frame E others during f sess s =
     (let p = connection_id sess in
      case f of
        Text (Inl e) \<Rightarrow> (True, sess, reply p (Error (lit ''Invalid message format: '' @ e)) s)
      | Close \<Rightarrow> (False, sess, s)
      | OtherFrame \<Rightarrow> (True, sess, s)
      | Text (Inr m) \<Rightarrow>
          (case m of
             Authenticate version access_token \<Rightarrow>
               (if identity_decided (identity sess)
                then (False, sess, reply p (Error (lit ''Session identity already decided'')) s)
                else case authenticate_session E version access_token of
                  Inl e \<Rightarrow> (False, sess, reply p (Error e) s)
                | Inr d \<Rightarrow> (True, sess\<lparr>identity := d\<rparr>,
                    reply p (Authenticated SIGNALING_PROTOCOL_VERSION (identity_user d \<noteq> None)) s))
           | _ \<Rightarrow>
               (if \<not> identity_decided (identity sess) \<and> enforce_room_access E
                then (False, sess, reply p (Error (lit ''Authenticate before room operations'')) s)
                else
                  (let sess = (if identity_decided (identity sess) then sess
                               else sess\<lparr>identity := (identity sess)\<lparr>identity_decided := True\<rparr>\<rparr>);
                       (sess, s) = handle_message E others during m sess s
                   in (True, sess, s)))))"

section \<open>Leaving\<close>

text \<open>
  Removing a connection from a room: the part under the room's lock, then, when it was the last one,
  the deletion of the room. Between the two the lock is free: \<open>gap\<close> is what happens there.
\<close>

definition remove_all :: "str list \<Rightarrow> room_ref \<Rightarrow> 'w server \<Rightarrow> 'w server" where
  "remove_all ids x s =
     fold (\<lambda>p s. case room_heap (repo s) x of
         None \<Rightarrow> s
       | Some r \<Rightarrow>
           (let (r, net, effects) = remove_participant p (r, queues s)
            in spawn (map Effect effects) (put_room x r (s\<lparr>queues := net\<rparr>)))) ids s"

definition cleanup_locked :: "room_ref \<Rightarrow> str \<Rightarrow> 'w server \<Rightarrow> bool \<times> 'w server" where
  "cleanup_locked x p s =
     (case room_heap (repo s) x of
        None \<Rightarrow> (False, s)
      | Some r \<Rightarrow>
          (if \<not> contains_participant r p then (False, s)
           else
             (let s = remove_all [p] x s in
              case room_heap (repo s) x of
                None \<Rightarrow> (True, s)
              | Some r \<Rightarrow> (True, remove_all (screen_shares_of r p) x s))))"

definition cleanup_participant_from_room ::
  "('w server \<Rightarrow> 'w server) \<Rightarrow> str \<Rightarrow> str \<Rightarrow> 'w server \<Rightarrow> bool \<times> 'w server" where
  "cleanup_participant_from_room gap i p s =
     (case get_room (repo s) i of
        None \<Rightarrow> (False, s)
      | Some x \<Rightarrow>
          (case cleanup_locked x p s of
             (False, s) \<Rightarrow> (False, s)
           | (True, s) \<Rightarrow>
               (True, if (case room_heap (repo s) x of None \<Rightarrow> False | Some r \<Rightarrow> room_is_empty r)
                      then (let s = gap s in s\<lparr>repo := delete_room i (repo s)\<rparr>)
                      else s)))"

fun cleanup_rooms :: "('w server \<Rightarrow> 'w server) \<Rightarrow> str list \<Rightarrow> str \<Rightarrow> 'w server \<Rightarrow> 'w server" where
  "cleanup_rooms gap [] p s = s"
| "cleanup_rooms gap (i # is) p s =
     (case cleanup_participant_from_room gap i p s of
        (True, s) \<Rightarrow> s
      | (False, s) \<Rightarrow> cleanup_rooms gap is p s)"

definition cleanup_participant_connection ::
  "('w server \<Rightarrow> 'w server) \<Rightarrow> str option \<Rightarrow> str \<Rightarrow> 'w server \<Rightarrow> 'w server" where
  "cleanup_participant_connection gap known p s =
     (case known of
        Some i \<Rightarrow> snd (cleanup_participant_from_room gap i p s)
      | None \<Rightarrow> cleanup_rooms gap (list_rooms (repo s)) p s)"

text \<open>
  The end of a socket. Either the sender stopped first (\<open>sender_died\<close>), and the receiver's state is
  lost, or the receiver stopped and knows its room. The queue is gone afterwards, and the recorder
  hears of the leave in any case.
\<close>

definition close_socket ::
  "('w server \<Rightarrow> 'w server) \<Rightarrow> bool \<Rightarrow> session \<Rightarrow> instant \<Rightarrow> 'w server \<Rightarrow> 'w server" where
  "close_socket gap sender_died sess now s =
     (let p = connection_id sess;
          s = (if sender_died then cleanup_participant_connection gap None p s
               else case current_room_id sess of
                 None \<Rightarrow> s
               | Some i \<Rightarrow> cleanup_participant_connection gap (Some i) p s)
      in s\<lparr>queues := (queues s)(p := None), recorder_queue := recorder_queue s @ [MeetingLeft p now]\<rparr>)"

section \<open>Taking access away\<close>

text \<open>\<open>disconnect_user_from_sfu_rooms\<close> (\<open>src/social/conversations.rs\<close>): deny first, then remove.\<close>

definition disconnect_user_from_room :: "uuid \<Rightarrow> str \<Rightarrow> 'w server \<Rightarrow> 'w server" where
  "disconnect_user_from_room u i s =
     (let s = s\<lparr>repo := deny_room_user i u (repo s)\<rparr> in
      case get_room (repo s) i of
        None \<Rightarrow> s
      | Some x \<Rightarrow>
          (case room_heap (repo s) x of
             None \<Rightarrow> s
           | Some r \<Rightarrow>
               remove_all (map fst (filter (\<lambda>(p, c). pt_user_id (participant c) = Some u) (participants r))) x s))"

definition disconnect_user_from_sfu_rooms :: "uuid \<Rightarrow> str list \<Rightarrow> 'w server \<Rightarrow> 'w server" where
  "disconnect_user_from_sfu_rooms u ids s = fold (disconnect_user_from_room u) ids s"

definition revoke_and_close_room :: "str \<Rightarrow> 'w server \<Rightarrow> 'w server" where
  "revoke_and_close_room i s =
     (let (entry, rp) = revoke_room i (repo s); s = s\<lparr>repo := rp\<rparr> in
      case entry of
        None \<Rightarrow> s
      | Some x \<Rightarrow>
          (case room_heap (repo s) x of
             None \<Rightarrow> s
           | Some r \<Rightarrow> remove_all (map fst (participants r)) x s))"

definition revoke_and_close_sfu_rooms :: "str list \<Rightarrow> 'w server \<Rightarrow> 'w server" where
  "revoke_and_close_sfu_rooms ids s = fold revoke_and_close_room ids s"

section \<open>Lemmas on the join handler\<close>

lemma push_all:
  "fold (\<lambda>m net. push net p m) ms net q = (if q = p then map_option (\<lambda>x. x @ ms) (net p) else net q)"
  by (induction ms arbitrary: net) (simp_all add: option.map_comp comp_def option.map_ident)

lemma fold_reply:
  "fold (reply p) ms s = s\<lparr>queues := fold (\<lambda>m net. push net p m) ms (queues s)\<rparr>"
  by (induction ms arbitrary: s) (simp_all add: reply_def)

lemma reply_fields [simp]:
  "repo (reply p m s) = repo s" "world (reply p m s) = world s"
  "recorder_queue (reply p m s) = recorder_queue s" "wrong_passwords (reply p m s) = wrong_passwords s"
  "spawned (reply p m s) = spawned s" "queues (reply p m s) = push (queues s) p m"
  by (simp_all add: reply_def)

lemma put_room_fields [simp]:
  "repo (put_room x r s) = modify_room x (\<lambda>_. r) (repo s)" "world (put_room x r s) = world s"
  "recorder_queue (put_room x r s) = recorder_queue s" "queues (put_room x r s) = queues s"
  "wrong_passwords (put_room x r s) = wrong_passwords s" "spawned (put_room x r s) = spawned s"
  by (simp_all add: put_room_def)

text \<open>The state after a successful entry.\<close>

definition entered ::
  "'w env \<Rightarrow> room \<Rightarrow> room \<Rightarrow> room_ref \<Rightarrow> session \<Rightarrow> str \<Rightarrow> str \<Rightarrow> str option \<Rightarrow> pc_handle \<Rightarrow> 'w server \<Rightarrow> 'w server" where
  "entered E r r1 x sess i name share pc s =
     (let p = connection_id sess;
          (r2, net) = add_participant (joining_connection sess name share pc) (r1, queues s)
      in s\<lparr>repo := modify_room x (\<lambda>_. r2) (repo s),
           queues := fold (\<lambda>m net. push net p m)
             (join_messages p name (chat_history r) (get_participants_with_media_state r)) net,
           recorder_queue := recorder_queue s @
             (if share = None then [MeetingJoined i p (session_user sess) name (db_now E 3)] else [])\<rparr>)"

lemma join_enter_Inr:
  assumes "join_enter E during x sess i name share s = (Inr sess', s')"
  obtains r pc w r1 where
    "room_heap (repo s) x = Some r" "\<not> access_denied r (session_user sess)"
    "presenter_present r share (session_user sess)"
    "new_peer_connection (library E) (join_config (variables E)) (world s) = (Inr pc, w)"
    "room_heap (fold repo_step during (repo s)) x = Some r1" "\<not> access_denied r1 (session_user sess)"
    "sess' = sess\<lparr>current_room_id := Some i, participant_name := Some name\<rparr>"
    "s' = entered E r r1 x sess i name share pc (s\<lparr>world := w, repo := fold repo_step during (repo s)\<rparr>)"
proof -
  from assms obtain r where r: "room_heap (repo s) x = Some r"
    by (auto simp: join_enter_def split: option.splits)
  with assms have a: "\<not> access_denied r (session_user sess)"
    by (auto simp: join_enter_def)
  with assms r have b: "presenter_present r share (session_user sess)"
    by (auto simp: join_enter_def split: if_splits)
  obtain res w where n: "new_peer_connection (library E) (join_config (variables E)) (world s) = (res, w)"
    by (metis surj_pair)
  from assms r a b n obtain pc where pc: "res = Inr pc"
    by (cases res) (auto simp: join_enter_def)
  from assms r a b n pc obtain r1 where r1: "room_heap (fold repo_step during (repo s)) x = Some r1"
    by (cases "room_heap (fold repo_step during (repo s)) x") (auto simp: join_enter_def Let_def)
  from assms r a b n pc r1 have d: "\<not> access_denied r1 (session_user sess)"
    by (cases "access_denied r1 (session_user sess)") (auto simp: join_enter_def Let_def)
  obtain r2 net where add: "add_participant (joining_connection sess name share pc) (r1, queues s) = (r2, net)"
    by (metis surj_pair)
  from assms r a b n pc r1 d add show ?thesis
    by (intro that [OF r a b _ r1 d])
      (auto simp: join_enter_def entered_def put_room_def fold_reply Let_def)
qed

lemma join_enter_Inl:
  assumes "join_enter E during x sess i name share s = (Inl e, s')"
  shows "queues s' = queues s \<and> recorder_queue s' = recorder_queue s \<and> spawned s' = spawned s \<and>
     wrong_passwords s' = wrong_passwords s \<and> (repo s' = repo s \<or> repo s' = fold repo_step during (repo s))"
proof (cases "room_heap (repo s) x")
  case None
  then show ?thesis using assms by (simp add: join_enter_def)
next
  case (Some r)
  obtain res w where n: "new_peer_connection (library E) (join_config (variables E)) (world s) = (res, w)"
    by (metis surj_pair)
  show ?thesis
    using assms Some n unfolding join_enter_def
    by (auto simp: Let_def split: if_splits option.splits sum.splits prod.splits)
qed

text \<open>The handler, case by case: who gets in, and what a refusal leaves.\<close>

lemma join_cases:
  assumes j: "join E others during sess i given password share s = (sess', s')"
  obtains (silent) fs where "join_admission E sess i given password (wrong_passwords s) = (Inl None, fs)"
      "sess' = sess" "s' = s\<lparr>wrong_passwords := fs\<rparr>"
    | (refused) e fs where "join_admission E sess i given password (wrong_passwords s) = (Inl (Some e), fs)"
      "sess' = sess" "s' = reply (connection_id sess) (Error e) (s\<lparr>wrong_passwords := fs\<rparr>)"
    | (no_room) auth name fs e rp where
      "join_admission E sess i given password (wrong_passwords s) = (Inr (auth, name), fs)"
      "join_ensure i (repo (others 0 (s\<lparr>wrong_passwords := fs\<rparr>))) = (Inl e, rp)" "sess' = sess"
      "s' = reply (connection_id sess) (Error e) ((others 0 (s\<lparr>wrong_passwords := fs\<rparr>))\<lparr>repo := rp\<rparr>)"
    | (lost) auth name fs rp e s1 where
      "join_admission E sess i given password (wrong_passwords s) = (Inr (auth, name), fs)"
      "join_ensure i (repo (others 0 (s\<lparr>wrong_passwords := fs\<rparr>))) = (Inr (), rp)" "sess' = sess"
      "s1 = others 1 ((others 0 (s\<lparr>wrong_passwords := fs\<rparr>))\<lparr>repo := rp\<rparr>)"
      "s' = reply (connection_id sess) (Error e) s1"
    | (turned_away) auth name fs rp x e s1 s2 where
      "join_admission E sess i given password (wrong_passwords s) = (Inr (auth, name), fs)"
      "join_ensure i (repo (others 0 (s\<lparr>wrong_passwords := fs\<rparr>))) = (Inr (), rp)" "sess' = sess"
      "s1 = others 1 ((others 0 (s\<lparr>wrong_passwords := fs\<rparr>))\<lparr>repo := rp\<rparr>)"
      "get_room (repo s1) i = Some x" "join_recheck E auth i (session_user sess) = Inr ()"
      "join_enter E during x sess i name share (others 2 s1) = (Inl e, s2)"
      "s' = reply (connection_id sess) (Error e) s2"
    | (joined) auth name fs rp x s1 where
      "join_admission E sess i given password (wrong_passwords s) = (Inr (auth, name), fs)"
      "join_ensure i (repo (others 0 (s\<lparr>wrong_passwords := fs\<rparr>))) = (Inr (), rp)"
      "s1 = others 1 ((others 0 (s\<lparr>wrong_passwords := fs\<rparr>))\<lparr>repo := rp\<rparr>)"
      "get_room (repo s1) i = Some x" "join_recheck E auth i (session_user sess) = Inr ()"
      "join_enter E during x sess i name share (others 2 s1) = (Inr sess', s')"
proof -
  obtain res fs where adm: "join_admission E sess i given password (wrong_passwords s) = (res, fs)"
    by (metis surj_pair)
  show ?thesis
  proof (cases res)
    case (Inl eo)
    show ?thesis
    proof (cases eo)
      case None
      show ?thesis by (rule silent [OF adm [unfolded Inl None]]) (use j in \<open>simp_all add: join_def adm Inl None\<close>)
    next
      case (Some e)
      show ?thesis by (rule refused [OF adm [unfolded Inl Some]]) (use j in \<open>auto simp: join_def adm Inl Some\<close>)
    qed
  next
    case (Inr an)
    obtain auth name where an: "an = (auth, name)" by (cases an)
    note adm = adm [unfolded Inr an]
    define s0 where "s0 = others 0 (s\<lparr>wrong_passwords := fs\<rparr>)"
    obtain er rp where ens: "join_ensure i (repo s0) = (er, rp)" by (metis surj_pair)
    have j0: "join E others during sess i given password share s =
        (case join_ensure i (repo s0) of
             (Inl e, rp) \<Rightarrow> (sess, reply (connection_id sess) (Error e) (s0\<lparr>repo := rp\<rparr>))
           | (Inr _, rp) \<Rightarrow>
               (let s = others 1 (s0\<lparr>repo := rp\<rparr>) in
                case get_room (repo s) i of
                  None \<Rightarrow> (sess, reply (connection_id sess) (Error (lit ''Room not found'')) s)
                | Some x \<Rightarrow>
                    (case join_recheck E auth i (session_user sess) of
                       Inl e \<Rightarrow> (sess, reply (connection_id sess) (Error e) s)
                     | Inr _ \<Rightarrow>
                         (case join_enter E during x sess i name share (others 2 s) of
                            (Inl e, s) \<Rightarrow> (sess, reply (connection_id sess) (Error e) s)
                          | (Inr sess', s) \<Rightarrow> (sess', s)))))"
      unfolding join_def adm s0_def by (simp add: Let_def)
    show ?thesis
    proof (cases er)
      case (Inl e)
      show ?thesis
        by (rule no_room [OF adm ens [unfolded Inl s0_def]]) (use j in \<open>auto simp: j0 ens Inl s0_def [symmetric]\<close>)
    next
      case er: (Inr un)
      define s1 where "s1 = others 1 (s0\<lparr>repo := rp\<rparr>)"
      have ens': "join_ensure i (repo s0) = (Inr (), rp)" using ens er by simp
      note A = adm ens' [unfolded s0_def]
      show ?thesis
      proof (cases "get_room (repo s1) i")
        case None
        show ?thesis
          by (rule lost [OF A _ s1_def [unfolded s0_def]])
            (use j None in \<open>auto simp: j0 ens' s1_def [symmetric] simp del: One_nat_def\<close>)
      next
        case (Some x)
        show ?thesis
        proof (cases "join_recheck E auth i (session_user sess)")
          case (Inl e)
          show ?thesis
            by (rule lost [OF A _ s1_def [unfolded s0_def]])
              (use j Some Inl in \<open>auto simp: j0 ens' s1_def [symmetric] simp del: One_nat_def\<close>)
        next
          case rc: (Inr un')
          have rc': "join_recheck E auth i (session_user sess) = Inr ()" using rc by simp
          obtain jr s2 where je: "join_enter E during x sess i name share (others 2 s1) = (jr, s2)"
            by (metis surj_pair)
          show ?thesis
          proof (cases jr)
            case (Inl e)
            show ?thesis
              by (rule turned_away [OF A _ s1_def [unfolded s0_def] Some rc' je [unfolded Inl]])
                (use j in \<open>auto simp: j0 ens' s1_def [symmetric] Some rc' je Inl simp del: One_nat_def\<close>)
          next
            case (Inr sj)
            have "sj = sess'" "s2 = s'"
              using j by (simp_all add: j0 ens' s1_def [symmetric] Some rc' je Inr del: One_nat_def)
            with je Inr have je': "join_enter E during x sess i name share (others 2 s1) = (Inr sess', s')" by simp
            show ?thesis by (rule joined [OF A s1_def [unfolded s0_def] Some rc' je'])
          qed
        qed
      qed
    qed
  qed
qed

end
