(* ===== verification/Joining.thy ===== *)
theory Joining
  imports Session
begin

text \<open>
  What a Join guarantees (\<open>src/signaling/handler.rs\<close>): the repository calls that can overtake it, who
  gets in, what a refusal leaves behind, and what everybody is told.
\<close>

section \<open>Repository calls while a room is locked\<close>

text \<open>Calls of the repository only, which need no room lock.\<close>

fun repository_call :: "repo_op \<Rightarrow> bool" where
  "repository_call (OnRoom x f) \<longleftrightarrow> False"
| "repository_call _ \<longleftrightarrow> True"

text \<open>What such calls may change in a room that somebody else has locked: its access markers.\<close>

definition same_but_markers :: "room \<Rightarrow> room \<Rightarrow> bool" where
  "same_but_markers r r' \<longleftrightarrow>
     (\<exists>b d. r' = r\<lparr>revoked := b, denied_user_ids := d\<rparr> \<and> (revoked r \<longrightarrow> b) \<and> denied_user_ids r \<subseteq> d)"

lemma same_but_markers_refl [simp]: "same_but_markers r r"
  unfolding same_but_markers_def
  by (intro exI [of _ "revoked r"] exI [of _ "denied_user_ids r"]) simp

lemma same_but_markers_trans: "same_but_markers a b \<Longrightarrow> same_but_markers b c \<Longrightarrow> same_but_markers a c"
  unfolding same_but_markers_def by (elim exE conjE) (force)

lemma same_but_markers_fields:
  "same_but_markers r r' \<Longrightarrow> participants r' = participants r \<and> chat_history r' = chat_history r \<and>
     room_id r' = room_id r \<and> participant_tracks r' = participant_tracks r \<and>
     forwarded_senders r' = forwarded_senders r"
  unfolding same_but_markers_def by force

lemma repository_call_step:
  assumes inv: "repo_inv rp" and c: "repository_call op" and r: "room_heap rp x = Some r"
  shows "\<exists>r'. room_heap (repo_step op rp) x = Some r' \<and> same_but_markers r r'"
proof (cases op)
  case (CreateRoom i)
  have "x \<noteq> next_ref rp" using inv r by (auto simp: repo_inv_def)
  then show ?thesis using r by (auto simp: CreateRoom create_room_def intro!: same_but_markers_refl)
next
  case (RevokeRoom i)
  have "same_but_markers r (r\<lparr>revoked := True\<rparr>)"
    unfolding same_but_markers_def by (intro exI [of _ True] exI [of _ "denied_user_ids r"]) simp
  then show ?thesis using r
    by (auto simp: RevokeRoom revoke_room_def Let_def modify_room_def split: option.splits)
next
  case (DenyRoomUser i u)
  have "same_but_markers r (deny_user u r)"
    unfolding same_but_markers_def deny_user_def
    by (intro exI [of _ "revoked r"] exI [of _ "insert u (denied_user_ids r)"]) auto
  then show ?thesis using r
    by (auto simp: DenyRoomUser deny_room_user_def modify_room_def split: option.splits)
qed (use assms in \<open>simp_all add: delete_room_def\<close>)

lemma repository_calls:
  "\<lbrakk>repo_inv rp; \<forall>op \<in> set ops. repository_call op; room_heap rp x = Some r\<rbrakk> \<Longrightarrow>
     \<exists>r'. room_heap (fold repo_step ops rp) x = Some r' \<and> same_but_markers r r'"
proof (induction ops arbitrary: rp r)
  case (Cons op ops)
  then obtain r1 where r1: "room_heap (repo_step op rp) x = Some r1" "same_but_markers r r1"
    using repository_call_step [of rp op x r] by auto
  from Cons.IH [OF repo_step_inv [OF Cons.prems(1)] _ r1(1)] Cons.prems(2)
  obtain r2 where "room_heap (fold repo_step ops (repo_step op rp)) x = Some r2" "same_but_markers r1 r2"
    by auto
  then show ?case using same_but_markers_trans [OF r1(2)] by auto
qed simp

section \<open>Who gets in\<close>

definition is_call_room :: "database \<Rightarrow> str \<Rightarrow> bool" where
  "is_call_room db i \<longleftrightarrow> (\<exists>c \<in> set (call_sessions db). cs_room c = i)"

text \<open>The user is an accepted and current member of an active call in the room.\<close>

definition may_call :: "database option \<Rightarrow> instant \<Rightarrow> str \<Rightarrow> uuid option \<Rightarrow> bool" where
  "may_call dbo now i u \<longleftrightarrow> (\<exists>db v. dbo = Some db \<and> u = Some v \<and> i \<notin> set (revoked_sfu_rooms db) \<and>
     has_accepted_membership db now i v)"

definition may_meet :: "(str \<Rightarrow> str \<Rightarrow> bool) \<Rightarrow> database option \<Rightarrow> str \<Rightarrow> uuid option \<Rightarrow> str option \<Rightarrow> bool" where
  "may_meet verify dbo i u password \<longleftrightarrow> (\<exists>db. dbo = Some db \<and>
     (case find_room db i of None \<Rightarrow> True | Some room \<Rightarrow> host_lets_in verify db room u password))"

lemma join_admission_Inr:
  assumes "join_admission E sess i given password fs = (Inr (auth, name), fs')"
  shows "current_room_id sess = None \<and> name = trim (unwrap_or given (identity_name (identity sess))) \<and>
     name \<noteq> [] \<and> length name \<le> 80 \<and>
     (auth = Authorized \<and> may_call (db_at E 0) (db_now E 0) i (session_user sess) \<or>
      auth = Legacy \<and> (\<exists>db. db_at E 0 = Some db \<and> i \<notin> set (revoked_sfu_rooms db) \<and> \<not> is_call_room db i) \<and>
        may_meet (verify_password E) (db_at E 1) i (session_user sess) password)"
proof -
  define u where "u = session_user sess"
  have g: "current_room_id sess = None" "name = trim (unwrap_or given (identity_name (identity sess)))"
    "name \<noteq> []" "length name \<le> 80"
    using assms unfolding join_admission_def Let_def
    by (auto split: if_splits sum.splits sfu_room_authorization.splits prod.splits)
  obtain a where a: "authorize_sfu_room (db_at E 0) (db_now E 0) i u = Inr a"
    using assms g unfolding join_admission_def Let_def u_def by (auto split: if_splits sum.splits)
  show ?thesis
  proof (cases a)
    case AccessDenied
    then show ?thesis using assms a g unfolding join_admission_def Let_def u_def by auto
  next
    case Authorized
    then have "auth = Authorized" using assms a g unfolding join_admission_def Let_def u_def by auto
    then show ?thesis
      using g a Authorized authorize_sfu_room_Authorized unfolding may_call_def u_def by auto
  next
    case Legacy
    obtain res fs1 where adm: "admit_to_meeting_room (verify_password E) (db_at E 1) i u password (monotonic E) fs = (res, fs1)"
      by fastforce
    have "res = Inr Allowed" "auth = Legacy"
      using assms a g Legacy adm unfolding join_admission_def Let_def u_def
      by (auto split: sum.splits if_splits)
    moreover have "may_meet (verify_password E) (db_at E 1) i u password"
      using admission_exact [OF adm] calculation unfolding may_meet_def by (auto split: option.splits)
    moreover have "\<exists>db. db_at E 0 = Some db \<and> i \<notin> set (revoked_sfu_rooms db) \<and> \<not> is_call_room db i"
      using a Legacy authorize_sfu_room_Legacy unfolding is_call_room_def by auto
    ultimately show ?thesis using g unfolding u_def by auto
  qed
qed

lemma join_recheck_Authorized:
  "join_recheck E Authorized i u = Inr () \<Longrightarrow> may_call (db_at E 2) (db_now E 2) i u"
  unfolding join_recheck_def may_call_def
  by (auto simp: authorize_sfu_room_Authorized split: sum.splits sfu_room_authorization.splits)

lemma access_denied_active:
  "\<not> access_denied r u \<Longrightarrow> has_active_participant r p u = contains_participant r p"
  unfolding access_denied_def has_active_participant_def by simp

section \<open>The steps before the room lock\<close>

lemma join_ensure_ensure:
  "join_ensure i rp = (case in_memory.ensure i rp of
     (Inl e, rp) \<Rightarrow> (Inl (lit ''Failed to create room: '' @ e), rp) | (Inr _, rp) \<Rightarrow> (Inr (), rp))"
  by (simp add: join_ensure_def in_memory.ensure_def room_exists_def get_room_def)

lemma join_ensure_frame:
  assumes inv: "repo_inv rp" and e: "join_ensure i rp = (res, rp')"
  shows "repo_inv rp'" and "room_heap rp x = Some r \<Longrightarrow> room_heap rp' x = Some r"
    and "j \<noteq> i \<Longrightarrow> get_room rp' j = get_room rp j"
    and "get_room rp' i = get_room rp i \<or> (\<exists>x. get_room rp' i = Some x \<and> room_heap rp' x = Some (new_room i))"
    and "get_room rp i \<noteq> None \<Longrightarrow> res = Inr () \<and> rp' = rp"
proof -
  have *: "rp' = rp \<or> (get_room rp i = None \<and> i \<notin> revoked_room_ids rp \<and> rp' = snd (create_room i rp))"
    using e by (auto simp: join_ensure_def room_exists_def get_room_def create_room_def split: if_splits)
  show "repo_inv rp'" using * inv repo_inv_create [OF inv] by (auto simp: get_room_def)
  show "room_heap rp x = Some r \<Longrightarrow> room_heap rp' x = Some r"
    using * inv by (auto simp: create_room_def get_room_def repo_inv_def)
  show "j \<noteq> i \<Longrightarrow> get_room rp' j = get_room rp j"
    using * by (auto simp: create_room_def get_room_def hm_simps)
  show "get_room rp' i = get_room rp i \<or> (\<exists>x. get_room rp' i = Some x \<and> room_heap rp' x = Some (new_room i))"
    using * by (auto simp: create_room_def get_room_def hm_simps)
  show "get_room rp i \<noteq> None \<Longrightarrow> res = Inr () \<and> rp' = rp"
    using e by (auto simp: join_ensure_def room_exists_def get_room_def)
qed

text \<open>
  The rest of the server: it keeps the repository well formed, and a room object keeps its name as long
  as it exists, which is for ever.
\<close>

definition orderly :: "(nat \<Rightarrow> 'w server \<Rightarrow> 'w server) \<Rightarrow> bool" where
  "orderly others \<longleftrightarrow> (\<forall>k s. repo_inv (repo s) \<longrightarrow> repo_inv (repo (others k s)) \<and>
     (\<forall>x r. room_heap (repo s) x = Some r \<longrightarrow>
        (\<exists>r'. room_heap (repo (others k s)) x = Some r' \<and> room_id r' = room_id r)))"

lemma orderly_idle: "orderly (\<lambda>_ s. s)"
  by (simp add: orderly_def)

section \<open>Properties of the join handler\<close>

text \<open>
  C19. Nobody enters a room without being admitted. Whatever the rest of the server does meanwhile, a
  handled Join that puts the session into a room has: a trimmed name of 1 to 80 characters; for the room
  of a call, an accepted membership in an active call found by two separate queries, and for any other
  room the admission of its host's policy; then the room object of that name, neither revoked nor closed
  to the user, holds the connection under the session's user with its peer connection, and a screen share
  stands beside the connection of its presenter, signed in as the same user and not itself a share.
\<close>

theorem join_gate:
  assumes j: "join E others during sess i given password share s = (sess', s')"
    and "repo_inv (repo s)" and "orderly others" and "\<forall>op \<in> set during. repository_call op"
    and "current_room_id sess' \<noteq> current_room_id sess"
  shows "current_room_id sess = None \<and> current_room_id sess' = Some i \<and>
    (\<exists>name. participant_name sess' = Some name \<and>
       name = trim (unwrap_or given (identity_name (identity sess))) \<and> 1 \<le> length name \<and> length name \<le> 80 \<and>
       (may_call (db_at E 0) (db_now E 0) i (session_user sess) \<and>
        may_call (db_at E 2) (db_now E 2) i (session_user sess) \<or>
        (\<exists>db. db_at E 0 = Some db \<and> i \<notin> set (revoked_sfu_rooms db) \<and> \<not> is_call_room db i) \<and>
        may_meet (verify_password E) (db_at E 1) i (session_user sess) password) \<and>
       (\<exists>x r c. room_heap (repo s') x = Some r \<and> room_id r = i \<and>
          has_active_participant r (connection_id sess) (session_user sess) \<and>
          map_of (participants r) (connection_id sess) = Some c \<and> pt_name (participant c) = name \<and>
          pt_user_id (participant c) = session_user sess \<and> screen_share_of (participant c) = share \<and>
          peer_connection c \<noteq> None \<and>
          (\<forall>owner. share = Some owner \<longrightarrow> owner \<noteq> connection_id sess \<longrightarrow>
             (\<exists>oc. map_of (participants r) owner = Some oc \<and> screen_share_of (participant oc) = None \<and>
                pt_user_id (participant oc) = session_user sess))))"
  using j
proof (cases rule: join_cases)
  case (joined auth name fs rp x s1)
  define s0 where "s0 = others 0 (s\<lparr>wrong_passwords := fs\<rparr>)"
  have i0: "repo_inv (repo s0)" using assms(2,3) unfolding orderly_def s0_def by simp
  note ens = join_ensure_frame [OF i0 joined(2) [folded s0_def]]
  have i1: "repo_inv (repo s1)"
    using ens(1) assms(3) unfolding orderly_def joined(3) s0_def by simp
  obtain r0 where r0: "room_heap (repo s1) x = Some r0" "room_id r0 = i"
    using repo_inv_entry [OF i1] joined(4) by (auto simp: get_room_def)
  have i2: "repo_inv (repo (others 2 s1))" using i1 assms(3) unfolding orderly_def by simp
  obtain r where r: "room_heap (repo (others 2 s1)) x = Some r" "room_id r = i"
    using i1 r0 assms(3) unfolding orderly_def by metis
  from joined(6) obtain rr pc w r1 where e:
    "room_heap (repo (others 2 s1)) x = Some rr" "presenter_present rr share (session_user sess)"
    "room_heap (fold repo_step during (repo (others 2 s1))) x = Some r1"
    "\<not> access_denied r1 (session_user sess)"
    "sess' = sess\<lparr>current_room_id := Some i, participant_name := Some name\<rparr>"
    "s' = entered E rr r1 x sess i name share pc ((others 2 s1)
       \<lparr>world := w, repo := fold repo_step during (repo (others 2 s1))\<rparr>)"
    by (rule join_enter_Inr)
  have rr: "rr = r" using r e(1) by simp
  have "same_but_markers r r1"
    using repository_calls [OF i2 assms(4) r(1)] e(3) by auto
  note same = same_but_markers_fields [OF this]
  let ?c = "joining_connection sess name share pc"
  let ?r2 = "r1\<lparr>participants := AList.update (connection_id sess) ?c (participants r1)\<rparr>"
  have pid: "pt_id (participant ?c) = connection_id sess"
    by (simp add: joining_connection_def set_peer_connection_def new_connection_def new_participant_def)
  have heap: "room_heap (repo s') x = Some ?r2"
    using add_participant_room [of ?c r1] e(3) pid
    unfolding e(6) entered_def Let_def by (auto simp: modify_room_heap split_beta)
  have act: "has_active_participant ?r2 (connection_id sess) (session_user sess)"
    using e(4) by (auto simp: has_active_participant_def access_denied_def contains_participant_def
        is_user_denied_def hm_simps split: option.splits)
  have own: "\<exists>oc. map_of (participants ?r2) owner = Some oc \<and> screen_share_of (participant oc) = None \<and>
      pt_user_id (participant oc) = session_user sess"
    if "share = Some owner" "owner \<noteq> connection_id sess" for owner
    using e(2) that same unfolding rr presenter_present_def by (auto simp: hm_simps split: option.splits)
  note adm = join_admission_Inr [OF joined(1)]
  from adm have "name \<noteq> []" by blast
  then have len: "1 \<le> length name" by (cases name) simp_all
  have acc: "may_call (db_at E 0) (db_now E 0) i (session_user sess) \<and>
      may_call (db_at E 2) (db_now E 2) i (session_user sess) \<or>
      (\<exists>db. db_at E 0 = Some db \<and> i \<notin> set (revoked_sfu_rooms db) \<and> \<not> is_call_room db i) \<and>
      may_meet (verify_password E) (db_at E 1) i (session_user sess) password"
    using adm joined(5) join_recheck_Authorized by auto
  have room: "room_id ?r2 = i" using same r(2) by simp
  have c: "map_of (participants ?r2) (connection_id sess) = Some ?c" "pt_name (participant ?c) = name"
    "pt_user_id (participant ?c) = session_user sess" "screen_share_of (participant ?c) = share"
    "peer_connection ?c \<noteq> None"
    by (simp_all add: hm_simps joining_connection_def set_peer_connection_def new_connection_def
        new_participant_def)
  have "participant_name sess' = Some name" "current_room_id sess' = Some i" by (simp_all add: e(5))
  moreover note adm len acc
  moreover have "\<exists>x r c. room_heap (repo s') x = Some r \<and> room_id r = i \<and>
      has_active_participant r (connection_id sess) (session_user sess) \<and>
      map_of (participants r) (connection_id sess) = Some c \<and> pt_name (participant c) = name \<and>
      pt_user_id (participant c) = session_user sess \<and> screen_share_of (participant c) = share \<and>
      peer_connection c \<noteq> None \<and>
      (\<forall>owner. share = Some owner \<longrightarrow> owner \<noteq> connection_id sess \<longrightarrow>
         (\<exists>oc. map_of (participants r) owner = Some oc \<and> screen_share_of (participant oc) = None \<and>
            pt_user_id (participant oc) = session_user sess))"
    by (intro exI [of _ x] exI [of _ ?r2] exI [of _ ?c] conjI allI impI heap room act c own)
  ultimately show ?thesis by blast
qed (use assms(5) in simp_all)

text \<open>
  C20. A refused Join harms nobody. When nothing else runs, the session stays as it was and is told at
  most one error, no other queue changes, nothing is recorded or started, every room object stays as it
  was, and the repository differs at most by an empty room under the requested ID.
\<close>

theorem refused_join_harmless:
  assumes j: "join E (\<lambda>_ s. s) [] sess i given password share s = (sess', s')"
    and inv: "repo_inv (repo s)" and refused: "current_room_id sess' = current_room_id sess"
  shows "sess' = sess \<and>
    (\<exists>es. length es \<le> 1 \<and> set es \<subseteq> range Error \<and>
       queues s' = (queues s)(connection_id sess := map_option (\<lambda>q. q @ es) (queues s (connection_id sess)))) \<and>
    recorder_queue s' = recorder_queue s \<and> spawned s' = spawned s \<and>
    (\<forall>x r. room_heap (repo s) x = Some r \<longrightarrow> room_heap (repo s') x = Some r) \<and>
    (\<forall>j. j \<noteq> i \<longrightarrow> get_room (repo s') j = get_room (repo s) j) \<and>
    (get_room (repo s') i = get_room (repo s) i \<or>
     (\<exists>x. get_room (repo s') i = Some x \<and> room_heap (repo s') x = Some (new_room i)))"
proof -
  let ?p = "connection_id sess"
  define quiet where "quiet es \<longleftrightarrow> length es \<le> 1 \<and> set es \<subseteq> range Error \<and>
      queues s' = (queues s)(?p := map_option (\<lambda>q. q @ es) (queues s ?p))" for es
  have one: "quiet [Error e]" if "queues s' = push (queues s) ?p (Error e)" for e
    using that unfolding quiet_def by (auto simp: push_apply)
  have none: "quiet []" if "queues s' = queues s"
    using that unfolding quiet_def by (simp add: option.map_ident)
  have main: "sess' = sess \<and> (\<exists>es. quiet es) \<and> recorder_queue s' = recorder_queue s \<and> spawned s' = spawned s \<and>
      (repo s' = repo s \<or> (\<exists>res. join_ensure i (repo s) = (res, repo s')))"
    using j
  proof (cases rule: join_cases)
    case (turned_away auth name fs rp x e s1 s2)
    note l = join_enter_Inl [OF turned_away(7)]
    have "queues s' = push (queues s) ?p (Error e)" using turned_away(3,4,8) l by simp
    then show ?thesis using turned_away one l by auto
  next
    case (joined auth name fs rp x s1)
    from joined(6) have "current_room_id sess' = Some i" by (rule join_enter_Inr) simp
    moreover have "current_room_id sess = None" using join_admission_Inr [OF joined(1)] by blast
    ultimately show ?thesis using refused by simp
  qed (use one none in \<open>auto simp: join_ensure_def split: if_splits prod.splits sum.splits\<close>)
  have "\<forall>x r. room_heap (repo s) x = Some r \<longrightarrow> room_heap (repo s') x = Some r"
    "\<forall>j. j \<noteq> i \<longrightarrow> get_room (repo s') j = get_room (repo s) j"
    "get_room (repo s') i = get_room (repo s) i \<or>
     (\<exists>x. get_room (repo s') i = Some x \<and> room_heap (repo s') x = Some (new_room i))"
    using main join_ensure_frame [OF inv] by metis+
  then show ?thesis using main unfolding quiet_def by blast
qed

text \<open>
  C21. A Join that succeeds tells everybody exactly once. When nothing else runs and the room exists,
  the joiner is told its own name, the chat history and every participant with its media state, in this
  order; every participant is told of the joiner; nobody else hears anything; the joiner is added to the
  participants behind the others; and the join goes to the meeting history unless it is a screen share.
\<close>

theorem join_announced:
  assumes j: "join E (\<lambda>_ s. s) [] sess i given password share s = (sess', s')"
    and inv: "repo_inv (repo s)" and "current_room_id sess' \<noteq> current_room_id sess"
    and x: "get_room (repo s) i = Some x" "room_heap (repo s) x = Some r"
    and wf: "wf_room r" and new: "connection_id sess \<notin> member_ids r"
  shows "\<exists>name pc. participant_name sess' = Some name \<and>
    (let p = connection_id sess; c = joining_connection sess name share pc in
     (\<forall>q. queues s' q =
        (if q = p then map_option (\<lambda>ms. ms @ Joined p name # ChatHistory (chat_history r) #
             concat (map existing_messages (get_participants_with_media_state r))) (queues s p)
         else if q \<in> member_ids r then map_option (\<lambda>ms. ms @ [ParticipantJoined p name share]) (queues s q)
         else queues s q)) \<and>
     room_heap (repo s') x = Some (r\<lparr>participants := participants r @ [(p, c)]\<rparr>) \<and>
     recorder_queue s' = recorder_queue s @
       (if share = None then [MeetingJoined i p (session_user sess) name (db_now E 3)] else []))"
  using j
proof (cases rule: join_cases)
  case (joined auth name fs rp x1 s1)
  have rp: "rp = repo s" using join_ensure_frame(5) [OF inv] joined(2) x(1) by fastforce
  have s1: "s1 = s\<lparr>wrong_passwords := fs\<rparr>" using joined(3) rp by simp
  have x1: "x1 = x" using joined(4) x(1) s1 by simp
  from joined(6) obtain rr pc w r1 where e:
    "room_heap (repo s1) x1 = Some rr" "room_heap (fold repo_step [] (repo s1)) x1 = Some r1"
    "sess' = sess\<lparr>current_room_id := Some i, participant_name := Some name\<rparr>"
    "s' = entered E rr r1 x1 sess i name share pc (s1\<lparr>world := w, repo := fold repo_step [] (repo s1)\<rparr>)"
    by (rule join_enter_Inr)
  have rr: "rr = r" "r1 = r" using e(1,2) x(2) s1 x1 by simp_all
  let ?p = "connection_id sess" and ?c = "joining_connection sess name share pc"
  have c: "pt_id (participant ?c) = ?p" "pt_name (participant ?c) = name"
    "screen_share_of (participant ?c) = share" "sender ?c = ?p"
    by (simp_all add: joining_connection_def set_peer_connection_def new_connection_def new_participant_def)
  let ?r2 = "r\<lparr>participants := participants r @ [(?p, ?c)]\<rparr>"
  have upd: "AList.update ?p ?c (participants r) = participants r @ [(?p, ?c)]"
    by (rule map_snd_update_fresh [OF new])
  have add: "add_participant ?c (r, queues s) =
      (?r2, broadcast_except ?r2 ?p (ParticipantJoined ?p name share) (queues s))"
    using c upd by (simp add: add_participant_def Let_def)
  have wf2: "wf_room ?r2"
    using wf_add_participant [OF wf, of ?c "queues s"] c add_participant_room [of ?c r "queues s"] upd by simp
  have s': "s' = s1\<lparr>world := w, repo := modify_room x (\<lambda>_. ?r2) (repo s),
      queues := fold (\<lambda>m net. push net ?p m)
        (join_messages ?p name (chat_history r) (get_participants_with_media_state r))
        (broadcast_except ?r2 ?p (ParticipantJoined ?p name share) (queues s)),
      recorder_queue := recorder_queue s @
        (if share = None then [MeetingJoined i ?p (session_user sess) name (db_now E 3)] else [])\<rparr>"
    unfolding e(4) entered_def rr x1 using add s1 by (simp add: Let_def)
  show ?thesis
    using e(3) x(2) s1 new
    by (intro exI [of _ name] exI [of _ pc])
      (auto simp: s' push_all broadcast_except_apply [OF wf2] join_messages_def modify_room_heap Let_def
        option.map_comp comp_def)
qed (use assms(3) in simp_all)

section \<open>Sample runs\<close>

text \<open>A group call in the room \<open>call\<close>, which user 7 accepted and user 8 did not.\<close>

definition sample_calls :: database where
  "sample_calls = empty_database
     \<lparr>conversations := [\<lparr>cv_id = 5, cv_kind = lit ''group'', cv_creator = 7, cv_title = None, cv_policy = None,
        cv_password_hash = None, cv_low = None, cv_high = None, cv_code = None, cv_legacy_code = None,
        cv_avatar_key = None, cv_created = 0, cv_updated = 0\<rparr>],
      conversation_members := [\<lparr>me_conversation = 5, me_user = 7, me_role = lit ''creator'', me_joined = 0\<rparr>,
        \<lparr>me_conversation = 5, me_user = 8, me_role = lit ''member'', me_joined = 1\<rparr>],
      call_sessions := [\<lparr>cs_id = 3, cs_conversation = 5, cs_initiator = 7, cs_room = lit ''call'',
        cs_status = lit ''active'', cs_expires = 90, cs_created = 0\<rparr>],
      call_session_members := [\<lparr>cm_session = 3, cm_user = 7, cm_status = lit ''accepted''\<rparr>,
        \<lparr>cm_session = 3, cm_user = 8, cm_status = lit ''pending''\<rparr>]\<rparr>"

definition sample_env :: "nat env" where
  "sample_env = \<lparr>library = sample_lib, variables = Map.empty, enforce_room_access = True,
     validate_access_token = (\<lambda>t. if t = lit ''t7'' then Inr 7 else Inl (lit ''bad token'')),
     verify_password = (\<lambda>_ _. False), alphanumeric = is_ascii_alphanumeric,
     db_at = (\<lambda>_. Some sample_calls), db_now = (\<lambda>k. 10 + k), monotonic = 3, unix_millis = 4\<rparr>"

definition sample_server :: "nat server" where
  "sample_server = \<lparr>repo = snd (create_room (lit ''open'') new_repository),
     queues = [lit ''a'' \<mapsto> [], lit ''b'' \<mapsto> []], world = 0, recorder_queue = [], wrong_passwords = Map.empty,
     spawned = []\<rparr>"

definition signed_in :: "str \<Rightarrow> uuid option \<Rightarrow> session" where
  "signed_in p u = (new_session p)\<lparr>identity := \<lparr>identity_decided = True, identity_user = u, identity_name = None\<rparr>\<rparr>"

lemma sample_repo_inv: "repo_inv (repo sample_server)"
  using repo_step_inv [OF repo_inv_new, of "CreateRoom (lit ''open'')"] by (simp add: sample_server_def)

definition joined_call :: "session \<times> nat server" where
  "joined_call = join sample_env (\<lambda>_ s. s) [] (signed_in (lit ''a'') (Some 7)) (lit ''call'') (lit '' Ann '')
     None None sample_server"

theorem join_gate_witness:
  "participant_name (fst joined_call) = Some (lit ''Ann'') \<and>
   may_call (Some sample_calls) 12 (lit ''call'') (Some 7)"
proof -
  let ?sess = "signed_in (lit ''a'') (Some 7)"
  have eq: "join sample_env (\<lambda>_ s. s) [] ?sess (lit ''call'') (lit '' Ann '') None None sample_server =
      (fst joined_call, snd joined_call)"
    by (simp add: joined_call_def)
  have g: "current_room_id (fst joined_call) \<noteq> current_room_id ?sess" by code_simp
  have n: "trim (unwrap_or (lit '' Ann '') (identity_name (identity ?sess))) = lit ''Ann''" by code_simp
  have r: "is_call_room sample_calls (lit ''call'')"
    by (simp add: is_call_room_def sample_calls_def)
  have d: "db_at sample_env 0 = Some sample_calls" "db_at sample_env 2 = Some sample_calls"
    "db_now sample_env 2 = 12"
    by (simp_all add: sample_env_def)
  have u: "session_user ?sess = Some 7" by (simp add: signed_in_def)
  have none: "\<forall>op \<in> set []. repository_call op" by simp
  note main = join_gate [OF eq sample_repo_inv orderly_idle none g, unfolded n d u]
  from main have "participant_name (fst joined_call) = Some (lit ''Ann'')" by blast
  moreover from main r have "may_call (Some sample_calls) 12 (lit ''call'') (Some 7)" by blast
  ultimately show ?thesis ..
qed

definition refused_call :: "session \<times> nat server" where
  "refused_call = join sample_env (\<lambda>_ s. s) [] (signed_in (lit ''b'') (Some 8)) (lit ''call'') (lit ''Bob'')
     None None sample_server"

theorem refused_join_harmless_witness:
  "queues (snd refused_call) (lit ''b'') = Some [Error (lit ''Call session access denied'')] \<and>
   room_heap (repo (snd refused_call)) 0 = Some (new_room (lit ''open'')) \<and>
   queues (snd refused_call) (lit ''a'') = Some []"
proof -
  let ?sess = "signed_in (lit ''b'') (Some 8)"
  have eq: "join sample_env (\<lambda>_ s. s) [] ?sess (lit ''call'') (lit ''Bob'') None None sample_server =
      (fst refused_call, snd refused_call)"
    by (simp add: refused_call_def)
  have g: "current_room_id (fst refused_call) = current_room_id ?sess" by code_simp
  have q: "queues (snd refused_call) (lit ''b'') = Some [Error (lit ''Call session access denied'')]" by code_simp
  have h: "room_heap (repo sample_server) 0 = Some (new_room (lit ''open''))"
    "queues sample_server (lit ''a'') = Some []"
    by (simp_all add: sample_server_def create_room_def new_repository_def lit_def)
  have p: "connection_id ?sess = lit ''b''" "lit ''a'' \<noteq> lit ''b''"
    by (simp_all add: signed_in_def new_session_def lit_def)
  note main = refused_join_harmless [OF eq sample_repo_inv g, unfolded p(1)]
  from main h(1) have "room_heap (repo (snd refused_call)) 0 = Some (new_room (lit ''open''))" by blast
  moreover from main obtain es where "queues (snd refused_call) =
      (queues sample_server)(lit ''b'' := map_option (\<lambda>q. q @ es) (queues sample_server (lit ''b'')))" by blast
  then have "queues (snd refused_call) (lit ''a'') = Some []" using h(2) p(2) by simp
  ultimately show ?thesis using q by blast
qed

text \<open>Room 0 with one participant.\<close>

definition sample_open_room :: room where
  "sample_open_room = (new_room (lit ''open''))
     \<lparr>participants := [(lit ''b'', sample_member (lit ''b'') 1)]\<rparr>"

definition sample_meeting_server :: "nat server" where
  "sample_meeting_server = put_room 0 sample_open_room sample_server"

definition joined_meeting :: "session \<times> nat server" where
  "joined_meeting = join sample_env (\<lambda>_ s. s) [] (signed_in (lit ''a'') None) (lit ''open'') (lit ''Ann'')
     None None sample_meeting_server"

theorem join_announced_witness:
  "queues (snd joined_meeting) (lit ''b'') = Some [ParticipantJoined (lit ''a'') (lit ''Ann'') None]"
proof -
  let ?sess = "signed_in (lit ''a'') None"
  have eq: "join sample_env (\<lambda>_ s. s) [] ?sess (lit ''open'') (lit ''Ann'') None None sample_meeting_server =
      (fst joined_meeting, snd joined_meeting)"
    by (simp add: joined_meeting_def)
  have g: "current_room_id (fst joined_meeting) \<noteq> current_room_id ?sess" by code_simp
  have nm: "participant_name (fst joined_meeting) = Some (lit ''Ann'')" by code_simp
  have p: "connection_id ?sess = lit ''a''" by (simp add: signed_in_def new_session_def)
  have x: "get_room (repo sample_meeting_server) (lit ''open'') = Some 0"
    "room_heap (repo sample_meeting_server) 0 = Some sample_open_room"
    by (simp_all add: sample_meeting_server_def sample_server_def create_room_def new_repository_def
        get_room_def modify_room_heap)
  have inv: "repo_inv (repo sample_meeting_server)"
    using repo_inv_modify [OF sample_repo_inv, of 0 "\<lambda>_. sample_open_room"]
    by (simp add: sample_meeting_server_def sample_server_def create_room_def new_repository_def
        sample_open_room_def new_room_def)
  have wf: "wf_room sample_open_room"
    by (simp add: wf_room_def sample_open_room_def new_room_def sample_member_def set_peer_connection_def
        new_connection_def new_participant_def)
  have new: "connection_id ?sess \<notin> member_ids sample_open_room"
    unfolding p by (simp add: sample_open_room_def lit_def)
  have q: "queues sample_meeting_server (lit ''b'') = Some []" "lit ''b'' \<in> member_ids sample_open_room"
    "lit ''b'' \<noteq> lit ''a''"
    by (simp_all add: sample_meeting_server_def sample_server_def sample_open_room_def lit_def)
  from join_announced [OF eq inv g x wf new, unfolded p nm Let_def]
  have "queues (snd joined_meeting) (lit ''b'') = map_option (\<lambda>ms. ms @ [ParticipantJoined (lit ''a'') (lit ''Ann'') None])
      (queues sample_meeting_server (lit ''b''))"
    using q(2,3) by (elim exE conjE) simp
  then show ?thesis using q(1) by simp
qed

end
