(* ===== verification/Membership.thy ===== *)
theory Membership
  imports Joining
begin

text \<open>
  Who is in which room, for the whole server: every handler, the steps of every Join, clean-ups and
  revocations as one transition system, in any order. Handlers inside a room keep its people; clean-up
  and revocation only take people away; only the last step of a Join adds one.
\<close>

section \<open>What an operation may do to the people of a room\<close>

text \<open>What the room knows of each participant, apart from media states and peer connections.\<close>

definition who :: "participant_connection \<Rightarrow> str \<times> str \<times> str \<times> uuid option \<times> str option" where
  "who c = (pt_id (participant c), sender c, pt_name (participant c), pt_user_id (participant c),
     screen_share_of (participant c))"

definition people :: "room \<Rightarrow> (str \<times> str \<times> str \<times> str \<times> uuid option \<times> str option) list" where
  "people r = map (\<lambda>(i, c). (i, who c)) (participants r)"

text \<open>A change that keeps the people, the name and the access markers of a room.\<close>

definition same_people :: "room \<Rightarrow> room \<Rightarrow> bool" where
  "same_people r r' \<longleftrightarrow> people r' = people r \<and> room_id r' = room_id r \<and> revoked r' = revoked r \<and>
     denied_user_ids r' = denied_user_ids r \<and> (wf_room r \<longrightarrow> wf_room r')"

lemma same_people_refl [simp]: "same_people r r"
  by (simp add: same_people_def)

lemma same_people_trans: "same_people a b \<Longrightarrow> same_people b c \<Longrightarrow> same_people a c"
  by (auto simp: same_people_def)

lemma people_member_ids: "member_ids r = fst ` set (people r)"
  unfolding people_def by force

lemma people_map_of: "map_of (people r) i = map_option who (map_of (participants r) i)"
  unfolding people_def by (simp add: map_of_map)

text \<open>A screen share stands beside its presenter, signed in as the same user and not itself a share.\<close>

definition shares_owned :: "room \<Rightarrow> bool" where
  "shares_owned r \<longleftrightarrow> (\<forall>i c owner. map_of (participants r) i = Some c \<and>
       screen_share_of (participant c) = Some owner \<longrightarrow>
     (\<exists>oc. map_of (participants r) owner = Some oc \<and> screen_share_of (participant oc) = None \<and>
        pt_user_id (participant oc) = pt_user_id (participant c)))"

lemma shares_owned_people:
  "shares_owned r \<longleftrightarrow> (\<forall>i a b n u owner. map_of (people r) i = Some (a, b, n, u, Some owner) \<longrightarrow>
     (\<exists>a' b' n'. map_of (people r) owner = Some (a', b', n', u, None)))"
  unfolding shares_owned_def people_map_of by (fastforce simp: who_def)

lemma same_people_shares: "same_people r r' \<Longrightarrow> shares_owned r \<Longrightarrow> shares_owned r'"
  by (simp add: same_people_def shares_owned_people)

lemma same_people_tracks:
  "\<lbrakk>participants r' = participants r; room_id r' = room_id r; revoked r' = revoked r;
    denied_user_ids r' = denied_user_ids r; participant_tracks r' = participant_tracks r;
    forwarded_senders r' = forwarded_senders r\<rbrakk> \<Longrightarrow> same_people r r'"
  by (simp add: same_people_def people_def wf_room_def)

lemma wf_room_people:
  "wf_room r \<longleftrightarrow> distinct (map fst (people r)) \<and> (\<forall>(i, a, b, _) \<in> set (people r). a = i \<and> b = i) \<and>
     distinct (map fst (participant_tracks r)) \<and> distinct (map fst (forwarded_senders r))"
  unfolding wf_room_def people_def by (auto simp: who_def comp_def split_beta)

lemma set_media_state_people: "same_people r (set_media_state p audio video r)"
proof -
  have "map (\<lambda>(i, c). (i, who c)) (AList.map_entry p
      (\<lambda>c. c\<lparr>participant := (participant c)\<lparr>audio_enabled := audio, video_enabled := video\<rparr>\<rparr>) ps) =
      map (\<lambda>(i, c). (i, who c)) ps" for ps :: "(str \<times> participant_connection) list"
    by (induction ps) (auto simp: who_def)
  then have "people (set_media_state p audio video r) = people r"
    by (simp add: people_def set_media_state_def)
  then show ?thesis by (simp add: same_people_def wf_room_people set_media_state_def)
qed

lemma chat_people:
  "same_people r (snd (record_chat_message m r))" "same_people r (snd (toggle_chat_reaction mid p e r))"
  "same_people r (snd (room_allow_chat_message now r))"
  by (auto simp: record_chat_message_def toggle_chat_reaction_def room_allow_chat_message_def Let_def
      split_beta split: option.splits intro!: same_people_tracks)

section \<open>Handlers inside a room keep its people\<close>

text \<open>The rooms of a server changed only in ways that keep their people.\<close>

definition keeps_people :: "'w server \<Rightarrow> 'w server \<Rightarrow> bool" where
  "keeps_people s s' \<longleftrightarrow> rooms (repo s') = rooms (repo s) \<and>
     revoked_room_ids (repo s') = revoked_room_ids (repo s) \<and> next_ref (repo s') = next_ref (repo s) \<and>
     dom (room_heap (repo s')) = dom (room_heap (repo s)) \<and>
     (\<forall>x r r'. room_heap (repo s) x = Some r \<longrightarrow> room_heap (repo s') x = Some r' \<longrightarrow> same_people r r')"

lemma keeps_people_repo: "repo s' = repo s \<Longrightarrow> keeps_people s s'"
  by (simp add: keeps_people_def)

lemma keeps_people_put:
  assumes "room_heap (repo s) x = Some r" and "same_people r r'" and "repo s' = modify_room x (\<lambda>_. r') (repo s)"
  shows "keeps_people s s'"
  using assms by (auto simp: keeps_people_def modify_room_heap split: if_splits)

lemma current_room_Some:
  "current_room sess s = Some (x, r) \<Longrightarrow> room_heap (repo s) x = Some r \<and>
     (\<exists>i. current_room_id sess = Some i \<and> get_room (repo s) i = Some x)"
  by (auto simp: current_room_def bind_eq_Some_conv)

lemma put_sfu_repo: "repo (put_sfu x (r, net, w) s) = modify_room x (\<lambda>_. r) (repo s)"
  by (simp add: put_sfu_def)

lemma handle_offer_room: "fst (fst (handle_offer L p u sdp (r, net, w))) = r"
  by (auto simp: handle_offer_def Let_def split: option.splits sum.splits prod.splits)

lemma handle_answer_room: "fst (fst (handle_answer L p u sdp (r, net, w))) = r"
  by (auto simp: handle_answer_def split: option.splits sum.splits prod.splits)

lemma handle_ice_room: "fst (handle_ice_candidate L p u c m l (r, net, w)) = r"
  by (auto simp: handle_ice_candidate_def split: option.splits)

lemma spawn_repo [simp]: "repo (spawn ts s) = repo s"
  by (simp add: spawn_def)

lemma on_offer_keeps: "keeps_people s (on_offer E sess sdp s)"
proof (cases "current_room sess s")
  case (Some e)
  obtain x r where e: "e = (x, r)" by (cases e)
  obtain r' net w lj where h: "handle_offer (library E) (connection_id sess) (session_user sess) sdp
      (r, queues s, world s) = ((r', net, w), lj)" by (metis surj_pair)
  have "r' = r" using handle_offer_room [of "library E" "connection_id sess" "session_user sess" sdp r "queues s" "world s"] h
    by simp
  then have "repo (on_offer E sess sdp s) = modify_room x (\<lambda>_. r) (repo s)"
    using Some e h by (cases lj) (simp_all add: on_offer_def put_sfu_repo)
  then show ?thesis using keeps_people_put same_people_refl current_room_Some Some e by blast
qed (simp add: on_offer_def keeps_people_repo)

lemma on_answer_keeps: "keeps_people s (on_answer E sess sdp s)"
proof (cases "current_room sess s")
  case (Some e)
  obtain x r where e: "e = (x, r)" by (cases e)
  obtain r' net w pc where h: "handle_answer (library E) (connection_id sess) (session_user sess) sdp
      (r, queues s, world s) = ((r', net, w), pc)" by (metis surj_pair)
  have "r' = r" using handle_answer_room [of "library E" "connection_id sess" "session_user sess" sdp r "queues s" "world s"] h
    by simp
  then have "repo (on_answer E sess sdp s) = modify_room x (\<lambda>_. r) (repo s)"
    using Some e h by (cases pc) (simp_all add: on_answer_def put_sfu_repo)
  then show ?thesis using keeps_people_put same_people_refl current_room_Some Some e by blast
qed (simp add: on_answer_def keeps_people_repo)

lemma on_ice_keeps: "keeps_people s (on_ice_candidate E sess c m l s)"
proof (cases "current_room sess s")
  case (Some e)
  obtain x r where e: "e = (x, r)" by (cases e)
  obtain r' net w where h: "handle_ice_candidate (library E) (connection_id sess) (session_user sess) c m l
      (r, queues s, world s) = (r', net, w)" by (metis surj_pair)
  have "r' = r" using handle_ice_room [of "library E" "connection_id sess" "session_user sess" c m l r "queues s" "world s"] h
    by simp
  then have "repo (on_ice_candidate E sess c m l s) = modify_room x (\<lambda>_. r) (repo s)"
    using Some e h by (simp add: on_ice_candidate_def put_sfu_repo)
  then show ?thesis using keeps_people_put same_people_refl current_room_Some Some e by blast
qed (simp add: on_ice_candidate_def keeps_people_repo)

lemma on_media_state_keeps: "keeps_people s (on_media_state sess audio video s)"
proof (cases "current_room sess s")
  case (Some e)
  obtain x r where e: "e = (x, r)" by (cases e)
  note x = current_room_Some [OF Some [unfolded e]]
  show ?thesis
  proof (cases "has_active_participant r (connection_id sess) (session_user sess)")
    case True
    then have "repo (on_media_state sess audio video s) =
        modify_room x (\<lambda>_. set_media_state (connection_id sess) audio video r) (repo s)"
      using Some e by (simp add: on_media_state_def Let_def)
    then show ?thesis using keeps_people_put set_media_state_people x by blast
  qed (use Some e in \<open>simp add: on_media_state_def keeps_people_repo\<close>)
qed (simp add: on_media_state_def keeps_people_repo)

text \<open>A session without its chat budget.\<close>

definition same_session :: "session \<Rightarrow> session \<Rightarrow> bool" where
  "same_session a b \<longleftrightarrow> connection_id b = connection_id a \<and> current_room_id b = current_room_id a \<and>
     participant_name b = participant_name a \<and> identity b = identity a"

lemma on_chat_message_keeps:
  assumes "on_chat_message E sess text rep s = (sess', s')"
  shows "keeps_people s s' \<and> same_session sess sess'"
proof (cases "current_room sess s")
  case None
  then show ?thesis using assms by (auto simp: on_chat_message_def keeps_people_repo same_session_def)
next
  case (Some e)
  obtain x r where e: "e = (x, r)" by (cases e)
  note x = current_room_Some [OF Some [unfolded e]]
  obtain ok recent where a: "allow_sender_chat_action (monotonic E) (recent_actions sess) = (ok, recent)"
    by fastforce
  obtain ok2 r1 where b: "room_allow_chat_message (monotonic E) r = (ok2, r1)" by fastforce
  define m where "m = \<lparr>cm_id = 0, cm_participant_id = connection_id sess,
      cm_participant_name = unwrap_or (lit ''Unknown'') (participant_name sess),
      cm_message = trim text, cm_timestamp = unix_millis E,
      cm_reply_to = Option.bind rep (chat_reply_preview_of r1), cm_reactions = []\<rparr>"
  obtain m2 r2 where c: "record_chat_message m r1 = (m2, r2)" by fastforce
  have r1: "same_people r r1" using chat_people(3) [of r "monotonic E"] b by simp
  have r2: "same_people r r2"
    using same_people_trans [OF r1] chat_people(1) [of r1 m] c by simp
  let ?active = "has_active_participant r (connection_id sess) (session_user sess)"
  let ?bad = "trim text = [] \<or> 2000 < length (trim text)"
  have res: "on_chat_message E sess text rep s =
     (if \<not> ?active \<or> ?bad then (sess, s)
      else if \<not> ok then (sess\<lparr>recent_actions := recent\<rparr>, s)
      else if \<not> ok2 then (sess\<lparr>recent_actions := recent\<rparr>, put_room x r1 s)
      else (sess\<lparr>recent_actions := recent\<rparr>, put_room x r2
              (s\<lparr>queues := broadcast r2 (into_signaling_message m2) (queues s)\<rparr>)))"
    using a b c Some e by (simp add: on_chat_message_def Let_def m_def)
  have p1: "keeps_people s (put_room x r1 s)"
    using keeps_people_put x r1 by fastforce
  have p2: "keeps_people s (put_room x r2 (s\<lparr>queues := broadcast r2 (into_signaling_message m2) (queues s)\<rparr>))"
    using keeps_people_put x r2 by fastforce
  show ?thesis
    using assms res p1 p2 by (auto simp: keeps_people_repo same_session_def split: if_splits)
qed

lemma on_chat_reaction_keeps:
  assumes "on_chat_reaction E sess mid em s = (sess', s')"
  shows "keeps_people s s' \<and> same_session sess sess'"
proof (cases "validate_reaction (alphanumeric E) em")
  case (Inl e)
  then show ?thesis using assms by (auto simp: on_chat_reaction_def keeps_people_repo same_session_def)
next
  case em: (Inr em')
  show ?thesis
  proof (cases "current_room sess s")
    case None
    then show ?thesis using em assms by (auto simp: on_chat_reaction_def keeps_people_repo same_session_def)
  next
    case (Some e)
    obtain x r where e: "e = (x, r)" by (cases e)
    note x = current_room_Some [OF Some [unfolded e]]
    obtain ok recent where a: "allow_sender_chat_action (monotonic E) (recent_actions sess) = (ok, recent)"
      by fastforce
    obtain res r1 where b: "toggle_chat_reaction mid (connection_id sess) em' r = (res, r1)" by fastforce
    have r1: "same_people r r1" using chat_people(2) [of r mid "connection_id sess" em'] b by simp
    let ?active = "has_active_participant r (connection_id sess) (session_user sess)"
    have res: "on_chat_reaction E sess mid em s =
       (if \<not> ?active then (sess, s)
        else if \<not> ok then (sess\<lparr>recent_actions := recent\<rparr>, s)
        else (sess\<lparr>recent_actions := recent\<rparr>, case res of None \<Rightarrow> put_room x r1 s
          | Some reactions \<Rightarrow> put_room x r1
              (s\<lparr>queues := broadcast r1 (ChatReactionsChanged mid reactions) (queues s)\<rparr>)))"
      using a b Some e em by (cases res) (simp_all add: on_chat_reaction_def Let_def)
    have p1: "keeps_people s (put_room x r1 s)"
      using keeps_people_put x r1 by fastforce
    have p2: "keeps_people s (put_room x r1 (s\<lparr>queues := n\<rparr>))" for n
      using keeps_people_put x r1 by fastforce
    show ?thesis
      using assms res p1 p2 by (auto simp: keeps_people_repo same_session_def split: if_splits option.splits)
  qed
qed

fun is_join :: "signaling_message \<Rightarrow> bool" where
  "is_join (Join i name password share) \<longleftrightarrow> True"
| "is_join _ \<longleftrightarrow> False"

lemma same_session_refl [simp]: "same_session a a"
  by (simp add: same_session_def)

lemma handle_message_keeps:
  assumes "handle_message E others during m sess s = (sess', s')" and "\<not> is_join m"
  shows "keeps_people s s' \<and> same_session sess sess'"
  using assms on_offer_keeps on_answer_keeps on_ice_keeps on_media_state_keeps
    on_chat_message_keeps [of E sess _ _ s sess' s'] on_chat_reaction_keeps [of E sess _ _ s sess' s']
  by (cases m) (auto simp: handle_message_def keeps_people_repo)

text \<open>A turn of the receiver that is not a Join: the identity may be decided, once.\<close>

lemma receive_frame_keeps:
  assumes r: "receive_frame E others during f sess s = (cont, sess', s')"
    and f: "\<forall>m. f = Text (Inr m) \<longrightarrow> \<not> is_join m"
  shows "keeps_people s s' \<and> connection_id sess' = connection_id sess \<and>
     current_room_id sess' = current_room_id sess \<and> participant_name sess' = participant_name sess \<and>
     (identity_decided (identity sess) \<longrightarrow> identity sess' = identity sess)"
proof (cases f)
  case (Text t)
  show ?thesis
  proof (cases t)
    case (Inl e)
    then show ?thesis using r Text by (auto simp: receive_frame_def keeps_people_repo)
  next
    case (Inr m)
    show ?thesis
    proof (cases "\<exists>v t. m = Authenticate v t")
      case True
      then show ?thesis using r Text Inr
        by (auto simp: receive_frame_def keeps_people_repo Let_def split: if_splits sum.splits)
    next
      case False
      define sess1 where "sess1 = (if identity_decided (identity sess) then sess
          else sess\<lparr>identity := (identity sess)\<lparr>identity_decided := True\<rparr>\<rparr>)"
      obtain s2 sess2 where h: "handle_message E others during m sess1 s = (sess2, s2)" by fastforce
      have eq: "receive_frame E others during f sess s =
          (if \<not> identity_decided (identity sess) \<and> enforce_room_access E
           then (False, sess, reply (connection_id sess) (Error (lit ''Authenticate before room operations'')) s)
           else (True, sess2, s2))"
        using Text Inr False h unfolding sess1_def
        by (cases "identity_decided (identity sess)"; cases m) (simp_all add: receive_frame_def Let_def)
      have "keeps_people s s2 \<and> same_session sess1 sess2"
        using handle_message_keeps [OF h] f Text Inr by blast
      then show ?thesis using r eq unfolding sess1_def
        by (auto simp: keeps_people_repo same_session_def split: if_splits)
    qed
  qed
qed (use r in \<open>auto simp: receive_frame_def keeps_people_repo\<close>)

section \<open>Removing people\<close>

lemma remove_participant_people:
  "people (fst (remove_participant p (r, net))) = filter (\<lambda>e. fst e \<noteq> p) (people r)"
proof (cases "p \<in> member_ids r")
  case True
  have "map (\<lambda>(i, c). (i, who c)) (filter (\<lambda>(k, v). p \<noteq> k) ps) =
      filter (\<lambda>e. fst e \<noteq> p) (map (\<lambda>(i, c). (i, who c)) ps)" for ps :: "(str \<times> participant_connection) list"
    by (induction ps) auto
  then show ?thesis using True by (simp add: remove_participant_room people_def AList.delete_eq)
next
  case False
  then have "\<forall>e \<in> set (people r). fst e \<noteq> p" unfolding people_member_ids by auto
  then show ?thesis using False by (simp add: remove_participant_absent)
qed

lemma remove_participant_frame:
  "room_id (fst (remove_participant p (r, net))) = room_id r"
  "revoked (fst (remove_participant p (r, net))) = revoked r"
  "denied_user_ids (fst (remove_participant p (r, net))) = denied_user_ids r"
  by (cases "p \<in> member_ids r"; simp add: remove_participant_room remove_participant_absent)+

text \<open>A room after removals: some people are gone, nothing else changed.\<close>

definition without :: "str set \<Rightarrow> room \<Rightarrow> room \<Rightarrow> bool" where
  "without P r r' \<longleftrightarrow> people r' = filter (\<lambda>e. fst e \<notin> P) (people r) \<and> room_id r' = room_id r \<and>
     revoked r' = revoked r \<and> denied_user_ids r' = denied_user_ids r \<and> (wf_room r \<longrightarrow> wf_room r')"

lemma without_empty [simp]: "without {} r r"
  by (simp add: without_def)

lemma without_trans: "without A r r1 \<Longrightarrow> without B r1 r2 \<Longrightarrow> without (A \<union> B) r r2"
  by (auto simp: without_def conj_commute intro: filter_cong)

lemma without_members: "without P r r' \<Longrightarrow> member_ids r' = member_ids r - P"
  unfolding people_member_ids without_def by auto

lemma without_get:
  "without P r r' \<Longrightarrow> map_of (people r') i = (if i \<in> P then None else map_of (people r) i)"
proof -
  have "map_of (filter (\<lambda>e. fst e \<notin> P) ps) i = (if i \<in> P then None else map_of ps i)"
    for ps :: "(str \<times> str \<times> str \<times> str \<times> uuid option \<times> str option) list"
    by (induction ps) auto
  then show "without P r r' \<Longrightarrow> ?thesis" by (simp add: without_def)
qed

text \<open>The rest of the repository stays.\<close>

definition same_elsewhere :: "room_ref \<Rightarrow> repository \<Rightarrow> repository \<Rightarrow> bool" where
  "same_elsewhere x rp rp' \<longleftrightarrow> rooms rp' = rooms rp \<and> revoked_room_ids rp' = revoked_room_ids rp \<and>
     next_ref rp' = next_ref rp \<and> (\<forall>y. y \<noteq> x \<longrightarrow> room_heap rp' y = room_heap rp y)"

lemma same_elsewhere_refl [simp]: "same_elsewhere x rp rp"
  by (simp add: same_elsewhere_def)

lemma same_elsewhere_trans: "same_elsewhere x a b \<Longrightarrow> same_elsewhere x b c \<Longrightarrow> same_elsewhere x a c"
  by (simp add: same_elsewhere_def)

lemma remove_one:
  assumes "room_heap (repo s) x = Some r"
  shows "\<exists>r'. room_heap (repo (remove_all [p] x s)) x = Some r' \<and> without {p} r r' \<and>
     same_elsewhere x (repo s) (repo (remove_all [p] x s))"
proof -
  obtain r' net es where e: "remove_participant p (r, queues s) = (r', net, es)" by (metis surj_pair)
  have "without {p} r r'"
    using remove_participant_people [of p r "queues s"] remove_participant_frame [of p r "queues s"]
      wf_remove_participant [of r p "queues s"] e by (auto simp: without_def)
  then show ?thesis
    using assms e by (simp add: remove_all_def same_elsewhere_def modify_room_heap)
qed

lemma remove_all_Cons: "remove_all (p # ps) x s = remove_all ps x (remove_all [p] x s)"
  by (simp add: remove_all_def)

lemma remove_all_without:
  assumes "room_heap (repo s) x = Some r"
  shows "\<exists>r'. room_heap (repo (remove_all ps x s)) x = Some r' \<and> without (set ps) r r' \<and>
     same_elsewhere x (repo s) (repo (remove_all ps x s))"
  using assms
proof (induction ps arbitrary: s r)
  case Nil
  then show ?case by (simp add: remove_all_def)
next
  case (Cons p ps)
  obtain r1 where r1: "room_heap (repo (remove_all [p] x s)) x = Some r1" "without {p} r r1"
    "same_elsewhere x (repo s) (repo (remove_all [p] x s))"
    using remove_one [OF Cons.prems, of p] by blast
  obtain r2 where r2: "room_heap (repo (remove_all ps x (remove_all [p] x s))) x = Some r2" "without (set ps) r1 r2"
    "same_elsewhere x (repo (remove_all [p] x s)) (repo (remove_all ps x (remove_all [p] x s)))"
    using Cons.IH [OF r1(1)] by blast
  show ?case
    unfolding remove_all_Cons [of p ps x s]
    using r2(1) without_trans [OF r1(2) r2(2)] same_elsewhere_trans [OF r1(3) r2(3)] by auto
qed

text \<open>The shares of a participant, as the room knows them.\<close>

lemma screen_shares_of_people:
  "set (screen_shares_of r p) = {i. \<exists>a b n u. (i, a, b, n, u, Some p) \<in> set (people r)}"
  unfolding screen_shares_of_def people_def by (force simp: who_def)

lemma cleanup_locked_without:
  assumes r: "room_heap (repo s) x = Some r" and c: "cleanup_locked x p s = (removed, s')"
    and own: "shares_owned r" and wf: "wf_room r"
  shows "removed = (p \<in> member_ids r) \<and> same_elsewhere x (repo s) (repo s') \<and>
     (\<exists>r'. room_heap (repo s') x = Some r' \<and>
        without (if p \<in> member_ids r
                 then insert p {i. \<exists>a b n u. (i, a, b, n, u, Some p) \<in> set (people r)} else {}) r r')"
proof (cases "p \<in> member_ids r")
  case False
  then show ?thesis using r c by (auto simp: cleanup_locked_def contains_participant_iff)
next
  case True
  obtain r1 where r1: "room_heap (repo (remove_all [p] x s)) x = Some r1" "without {p} r r1"
    "same_elsewhere x (repo s) (repo (remove_all [p] x s))"
    using remove_one [OF r, of p] by blast
  obtain r2 where r2: "room_heap (repo (remove_all (screen_shares_of r1 p) x (remove_all [p] x s))) x = Some r2"
    "without (set (screen_shares_of r1 p)) r1 r2"
    "same_elsewhere x (repo (remove_all [p] x s)) (repo (remove_all (screen_shares_of r1 p) x (remove_all [p] x s)))"
    using remove_all_without [OF r1(1)] by blast
  have res: "removed = True" "s' = remove_all (screen_shares_of r1 p) x (remove_all [p] x s)"
    using c r r1(1) True by (auto simp: cleanup_locked_def contains_participant_iff)
  have "set (screen_shares_of r1 p) \<union> {p} = insert p {i. \<exists>a b n u. (i, a, b, n, u, Some p) \<in> set (people r)}"
    using r1(2) unfolding screen_shares_of_people without_def by auto
  then have "without (insert p {i. \<exists>a b n u. (i, a, b, n, u, Some p) \<in> set (people r)}) r r2"
    using without_trans [OF r1(2) r2(2)] by (simp add: Un_commute)
  then show ?thesis
    using True res r2(1) same_elsewhere_trans [OF r1(3) r2(3)] by simp
qed

text \<open>Removing people keeps the shares in order, as long as no presenter goes without its shares.\<close>

lemma shares_owned_without:
  assumes own: "shares_owned r" and wo: "without P r r'"
    and closed: "\<And>i a b n u owner. map_of (people r) i = Some (a, b, n, u, Some owner) \<Longrightarrow> owner \<in> P \<Longrightarrow> i \<in> P"
  shows "shares_owned r'"
  using own closed unfolding shares_owned_people without_get [OF wo]
  by (auto split: if_splits)

section \<open>The server as a transition system\<close>

text \<open>A Join between its steps: admitted, its room made sure of, its room object looked up.\<close>

datatype join_stage =
    Admitted str sfu_room_authorization str "str option"
  | Ensured str sfu_room_authorization str "str option"
  | Located room_ref str str "str option"

text \<open>
  The server with its sockets: the session of each open socket, the Join it is in the middle of, the
  connection IDs given out so far (they are random UUIDs) and the rooms that a clean-up found empty and
  is about to delete.
\<close>

record 'w system =
  srv :: "'w server"
  sockets :: "str \<rightharpoonup> session"
  joining :: "str \<rightharpoonup> join_stage"
  used_ids :: "str set"
  emptied :: "str set"

text \<open>The part of a clean-up that holds the room lock, in the room of an ID or in the first room that has
  the participant.\<close>

definition leave_room :: "str \<Rightarrow> str \<Rightarrow> 'w server \<Rightarrow> bool \<times> 'w server" where
  "leave_room i p s = (case get_room (repo s) i of None \<Rightarrow> (False, s) | Some x \<Rightarrow> cleanup_locked x p s)"

fun leave_first :: "str list \<Rightarrow> str \<Rightarrow> 'w server \<Rightarrow> str option \<times> 'w server" where
  "leave_first [] p s = (None, s)"
| "leave_first (i # is) p s =
     (case leave_room i p s of (True, s) \<Rightarrow> (Some i, s) | (False, s) \<Rightarrow> leave_first is p s)"

definition now_empty :: "str \<Rightarrow> 'w server \<Rightarrow> bool" where
  "now_empty i s = (case Option.bind (get_room (repo s) i) (room_heap (repo s)) of
     None \<Rightarrow> False | Some r \<Rightarrow> room_is_empty r)"

lemma cleanup_locked_rooms: "rooms (repo (snd (cleanup_locked x p s))) = rooms (repo s)"
proof -
  have *: "rooms (repo (remove_all ids x s)) = rooms (repo s)" for ids and s :: "'a server"
    unfolding remove_all_def
    by (induction ids arbitrary: s) (auto split: option.splits simp: split_beta Let_def)
  show ?thesis by (auto simp: cleanup_locked_def Let_def * split: option.splits)
qed

lemma cleanup_participant_from_room_leave:
  "cleanup_participant_from_room gap i p s =
     (case leave_room i p s of
        (False, s) \<Rightarrow> (False, s)
      | (True, s) \<Rightarrow> (True, if now_empty i s then (let s = gap s in s\<lparr>repo := delete_room i (repo s)\<rparr>) else s))"
proof (cases "get_room (repo s) i")
  case (Some x)
  obtain b s' where c: "cleanup_locked x p s = (b, s')" by fastforce
  have "get_room (repo s') i = Some x"
    using cleanup_locked_rooms [of x p s] Some c by (simp add: get_room_def)
  then show ?thesis
    using Some c by (cases b) (simp_all add: cleanup_participant_from_room_def leave_room_def now_empty_def)
qed (simp add: cleanup_participant_from_room_def leave_room_def)

definition decided :: "session \<Rightarrow> session" where
  "decided sess = (if identity_decided (identity sess) then sess
     else sess\<lparr>identity := (identity sess)\<lparr>identity_decided := True\<rparr>\<rparr>)"

inductive server_step :: "'w system \<Rightarrow> 'w system \<Rightarrow> bool" where
  connect: "p \<notin> used_ids c \<Longrightarrow>
    server_step c (c\<lparr>used_ids := insert p (used_ids c), sockets := (sockets c)(p \<mapsto> new_session p),
      srv := (srv c)\<lparr>queues := (queues (srv c))(p \<mapsto> [])\<rparr>\<rparr>)"
| receive: "sockets c p = Some sess \<Longrightarrow> joining c p = None \<Longrightarrow>
    \<forall>m. f = Text (Inr m) \<longrightarrow> \<not> is_join m \<Longrightarrow>
    receive_frame E others during f sess (srv c) = (cont, sess', s') \<Longrightarrow>
    server_step c (c\<lparr>sockets := (sockets c)(p \<mapsto> sess'), srv := s'\<rparr>)"
| join_admitted: "sockets c p = Some sess \<Longrightarrow> joining c p = None \<Longrightarrow>
    identity_decided (identity sess) \<or> \<not> enforce_room_access E \<Longrightarrow>
    join_admission (E :: 'w env) (decided sess) i given password (wrong_passwords (srv c)) = (Inr (auth, name), fs) \<Longrightarrow>
    server_step c (c\<lparr>sockets := (sockets c)(p \<mapsto> decided sess),
      joining := (joining c)(p \<mapsto> Admitted i auth name share),
      srv := (srv c)\<lparr>wrong_passwords := fs\<rparr>\<rparr>)"
| join_refused: "sockets c p = Some sess \<Longrightarrow> joining c p = None \<Longrightarrow>
    identity_decided (identity sess) \<or> \<not> enforce_room_access E \<Longrightarrow>
    join_admission (E :: 'w env) (decided sess) i given password (wrong_passwords (srv c)) = (Inl eo, fs) \<Longrightarrow>
    server_step c (c\<lparr>sockets := (sockets c)(p \<mapsto> decided sess),
      srv := (case eo of None \<Rightarrow> (srv c)\<lparr>wrong_passwords := fs\<rparr>
              | Some e \<Rightarrow> reply p (Error e) ((srv c)\<lparr>wrong_passwords := fs\<rparr>))\<rparr>)"
| join_room_ready: "joining c p = Some (Admitted i auth name share) \<Longrightarrow>
    join_ensure i (repo (srv c)) = (Inr (), rp) \<Longrightarrow>
    server_step c (c\<lparr>joining := (joining c)(p \<mapsto> Ensured i auth name share),
      srv := (srv c)\<lparr>repo := rp\<rparr>\<rparr>)"
| join_room_failed: "joining c p = Some (Admitted i auth name share) \<Longrightarrow>
    join_ensure i (repo (srv c)) = (Inl e, rp) \<Longrightarrow>
    server_step c (c\<lparr>joining := (joining c)(p := None),
      srv := reply p (Error e) ((srv c)\<lparr>repo := rp\<rparr>)\<rparr>)"
| join_located: "joining c p = Some (Ensured i auth name share) \<Longrightarrow> sockets c p = Some sess \<Longrightarrow>
    get_room (repo (srv c)) i = Some x \<Longrightarrow> join_recheck (E :: 'w env) auth i (session_user sess) = Inr () \<Longrightarrow>
    server_step c (c\<lparr>joining := (joining c)(p \<mapsto> Located x i name share)\<rparr>)"
| join_lost: "joining c p = Some (Ensured i auth name share) \<Longrightarrow>
    server_step c (c\<lparr>joining := (joining c)(p := None), srv := reply p (Error e) (srv c)\<rparr>)"
| join_entered: "joining c p = Some (Located x i name share) \<Longrightarrow> sockets c p = Some sess \<Longrightarrow>
    \<forall>op \<in> set during. repository_call op \<Longrightarrow>
    join_enter E during x sess i name share (srv c) = (Inr sess', s') \<Longrightarrow>
    server_step c (c\<lparr>joining := (joining c)(p := None), sockets := (sockets c)(p \<mapsto> sess'), srv := s'\<rparr>)"
| join_turned_away: "joining c p = Some (Located x i name share) \<Longrightarrow> sockets c p = Some sess \<Longrightarrow>
    \<forall>op \<in> set during. repository_call op \<Longrightarrow>
    join_enter E during x sess i name share (srv c) = (Inl e, s') \<Longrightarrow>
    server_step c (c\<lparr>joining := (joining c)(p := None), srv := reply p (Error e) s'\<rparr>)"
| closed: "sockets c p = Some sess \<Longrightarrow> joining c p = None \<Longrightarrow>
    (case current_room_id sess of None \<Rightarrow> (False, srv c) | Some i \<Rightarrow> leave_room i p (srv c)) = (removed, s') \<Longrightarrow>
    gone = (case current_room_id sess of None \<Rightarrow> {} | Some i \<Rightarrow> if removed \<and> now_empty i s' then {i} else {}) \<Longrightarrow>
    server_step c (c\<lparr>sockets := (sockets c)(p := None), emptied := emptied c \<union> gone,
      srv := s'\<lparr>queues := (queues s')(p := None)\<rparr>\<rparr>)"
| aborted: "sockets c p = Some sess \<Longrightarrow>
    leave_first (list_rooms (repo (srv c))) p (srv c) = (found, s') \<Longrightarrow>
    gone = (case found of None \<Rightarrow> {} | Some i \<Rightarrow> if now_empty i s' then {i} else {}) \<Longrightarrow>
    server_step c (c\<lparr>sockets := (sockets c)(p := None), joining := (joining c)(p := None),
      emptied := emptied c \<union> gone, srv := s'\<lparr>queues := (queues s')(p := None)\<rparr>\<rparr>)"
| deleted: "i \<in> emptied c \<Longrightarrow>
    server_step c (c\<lparr>emptied := emptied c - {i}, srv := (srv c)\<lparr>repo := delete_room i (repo (srv c))\<rparr>\<rparr>)"
| disconnected: "server_step c (c\<lparr>srv := disconnect_user_from_room u i (srv c)\<rparr>)"
| revoked: "server_step c (c\<lparr>srv := revoke_and_close_room i (srv c)\<rparr>)"
| media: "keeps_people (srv c) s' \<Longrightarrow> server_step c (c\<lparr>srv := s'\<rparr>)"

inductive reachable :: "'w system \<Rightarrow> bool" where
  start: "repo (srv c) = new_repository \<Longrightarrow> sockets c = Map.empty \<Longrightarrow> joining c = Map.empty \<Longrightarrow>
    used_ids c = {} \<Longrightarrow> reachable c"
| step: "reachable c \<Longrightarrow> server_step c c' \<Longrightarrow> reachable c'"

end
