(* ===== verification/Ghosts.thy ===== *)
theory Ghosts
  imports Membership
begin

text \<open>
  The invariant of the transition system of the theory Membership: the participants of live rooms are open
  sockets that entered them, and screen shares stand beside their presenters. Every operation that takes
  people away (clean-up, disconnection, revocation) shrinks the rooms and keeps the invariant; the one step
  that seats somebody keeps it too.
\<close>

section \<open>The invariant\<close>

text \<open>
  Every room object is well formed and its shares stand beside their presenters; a socket without a room
  is in no room object; a participant of a live room is an open socket that entered the room under this
  ID, with the name and the user of its session.
\<close>

definition rooms_ok :: "repository \<Rightarrow> str set \<Rightarrow> bool" where
  "rooms_ok rp used \<longleftrightarrow> (\<forall>x r. room_heap rp x = Some r \<longrightarrow>
     wf_room r \<and> shares_owned r \<and> member_ids r \<subseteq> used)"

definition in_no_room :: "repository \<Rightarrow> str \<Rightarrow> bool" where
  "in_no_room rp p \<longleftrightarrow> (\<forall>x r. room_heap rp x = Some r \<longrightarrow> p \<notin> member_ids r)"

definition socket_ok :: "repository \<Rightarrow> str set \<Rightarrow> (str \<rightharpoonup> join_stage) \<Rightarrow> str \<Rightarrow> session \<Rightarrow> bool" where
  "socket_ok rp used jn p sess \<longleftrightarrow> connection_id sess = p \<and> p \<in> used \<and>
     (current_room_id sess = None \<longrightarrow> in_no_room rp p) \<and>
     (\<not> identity_decided (identity sess) \<longrightarrow> current_room_id sess = None \<and> jn p = None)"

definition stage_ok :: "repository \<Rightarrow> (str \<rightharpoonup> session) \<Rightarrow> str \<Rightarrow> join_stage \<Rightarrow> bool" where
  "stage_ok rp socks p st \<longleftrightarrow> (\<exists>sess. socks p = Some sess \<and> current_room_id sess = None) \<and>
     (case st of Located x i name share \<Rightarrow> (\<exists>r. room_heap rp x = Some r \<and> room_id r = i) | _ \<Rightarrow> True)"

definition seated :: "(str \<rightharpoonup> session) \<Rightarrow> str \<Rightarrow> str \<Rightarrow> str \<times> str \<times> str \<times> uuid option \<times> str option \<Rightarrow> bool" where
  "seated socks i p = (\<lambda>(a, b, name, u, share). \<exists>sess. socks p = Some sess \<and> current_room_id sess = Some i \<and>
     participant_name sess = Some name \<and> session_user sess = u)"

definition live_ok :: "repository \<Rightarrow> (str \<rightharpoonup> session) \<Rightarrow> bool" where
  "live_ok rp socks \<longleftrightarrow> (\<forall>i x r p e. get_room rp i = Some x \<longrightarrow> room_heap rp x = Some r \<longrightarrow>
     map_of (people r) p = Some e \<longrightarrow> seated socks i p e)"

definition sys_ok :: "repository \<Rightarrow> (str \<rightharpoonup> session) \<Rightarrow> (str \<rightharpoonup> join_stage) \<Rightarrow> str set \<Rightarrow> bool" where
  "sys_ok rp socks jn used \<longleftrightarrow> repo_inv rp \<and> rooms_ok rp used \<and>
     (\<forall>p sess. socks p = Some sess \<longrightarrow> socket_ok rp used jn p sess) \<and>
     (\<forall>p st. jn p = Some st \<longrightarrow> stage_ok rp socks p st) \<and> live_ok rp socks"

lemma sys_okD:
  assumes "sys_ok rp socks jn used"
  shows "repo_inv rp" and "rooms_ok rp used" and "live_ok rp socks"
    and "socks p = Some sess \<Longrightarrow> socket_ok rp used jn p sess"
    and "jn p = Some st \<Longrightarrow> stage_ok rp socks p st"
  using assms unfolding sys_ok_def by auto

lemma sys_okI:
  assumes "repo_inv rp" and "rooms_ok rp used" and "live_ok rp socks"
    and "\<And>p sess. socks p = Some sess \<Longrightarrow> socket_ok rp used jn p sess"
    and "\<And>p st. jn p = Some st \<Longrightarrow> stage_ok rp socks p st"
  shows "sys_ok rp socks jn used"
  using assms unfolding sys_ok_def by auto

lemma live_okD:
  "\<lbrakk>live_ok rp socks; get_room rp i = Some x; room_heap rp x = Some r; map_of (people r) p = Some e\<rbrakk> \<Longrightarrow>
     seated socks i p e"
  unfolding live_ok_def by blast

text \<open>A repository with fewer people: nobody is added to a room, no room gets a new ID.\<close>

definition fewer_live :: "repository \<Rightarrow> repository \<Rightarrow> bool" where
  "fewer_live rp rp' \<longleftrightarrow> (\<forall>i x r' p e. get_room rp' i = Some x \<longrightarrow> room_heap rp' x = Some r' \<longrightarrow>
     map_of (people r') p = Some e \<longrightarrow>
     get_room rp i = Some x \<and> (\<exists>r. room_heap rp x = Some r \<and> map_of (people r) p = Some e))"

definition fewer_people :: "repository \<Rightarrow> repository \<Rightarrow> bool" where
  "fewer_people rp rp' \<longleftrightarrow> (\<forall>x r'. room_heap rp' x = Some r' \<longrightarrow> wf_room r' \<and> shares_owned r' \<and>
     (\<forall>p \<in> member_ids r'. \<exists>r. room_heap rp x = Some r \<and> p \<in> member_ids r))"

definition same_names :: "repository \<Rightarrow> repository \<Rightarrow> bool" where
  "same_names rp rp' \<longleftrightarrow> (\<forall>x r. room_heap rp x = Some r \<longrightarrow>
     (\<exists>r'. room_heap rp' x = Some r' \<and> room_id r' = room_id r))"

definition shrinks :: "repository \<Rightarrow> repository \<Rightarrow> bool" where
  "shrinks rp rp' \<longleftrightarrow> repo_inv rp' \<and> fewer_live rp rp' \<and> fewer_people rp rp' \<and> same_names rp rp'"

lemma fewer_people_nowhere: "fewer_people rp rp' \<Longrightarrow> in_no_room rp p \<Longrightarrow> in_no_room rp' p"
  unfolding fewer_people_def in_no_room_def by blast

lemma sys_ok_shrinks:
  assumes ok: "sys_ok rp socks jn used" and sh: "shrinks rp rp'"
  shows "sys_ok rp' socks jn used"
proof (rule sys_okI)
  note D = sys_okD [OF ok]
  show "repo_inv rp'" using sh by (simp add: shrinks_def)
  have fp: "fewer_people rp rp'" and fl: "fewer_live rp rp'" and sn: "same_names rp rp'"
    using sh by (simp_all add: shrinks_def)
  show "rooms_ok rp' used" using fp D(2) unfolding fewer_people_def rooms_ok_def by blast
  show "live_ok rp' socks" using fl D(3) unfolding fewer_live_def live_ok_def by blast
  show "socket_ok rp' used jn p sess" if "socks p = Some sess" for p sess
    using D(4) [OF that] fewer_people_nowhere [OF fp] unfolding socket_ok_def by blast
  show "stage_ok rp' socks p st" if "jn p = Some st" for p st
    using D(5) [OF that] sn unfolding stage_ok_def same_names_def by (auto split: join_stage.splits)
qed

text \<open>Changing one session without entering or leaving a room.\<close>

lemma sys_ok_session:
  assumes ok: "sys_ok rp socks jn used" and p: "socks p = Some sess"
    and s: "connection_id sess' = connection_id sess" "current_room_id sess' = current_room_id sess"
      "participant_name sess' = participant_name sess"
      "identity_decided (identity sess) \<longrightarrow> identity sess' = identity sess"
      "\<not> identity_decided (identity sess') \<longrightarrow> jn p = None"
  shows "sys_ok rp (socks(p \<mapsto> sess')) jn used"
proof (rule sys_okI)
  note D = sys_okD [OF ok]
  show "repo_inv rp" "rooms_ok rp used" by (rule D)+
  note pok = D(4) [OF p, unfolded socket_ok_def]
  show "live_ok rp (socks(p \<mapsto> sess'))"
    unfolding live_ok_def
  proof (intro allI impI)
    fix i x r q e assume l: "get_room rp i = Some x" "room_heap rp x = Some r" "map_of (people r) q = Some e"
    obtain a b name u share where e: "e = (a, b, name, u, share)" by (cases e)
    from live_okD [OF D(3) l] have "seated socks i q e" .
    moreover from this have "identity sess' = identity sess" if "q = p"
      using pok p s(4) that by (auto simp: seated_def e)
    ultimately show "seated (socks(p \<mapsto> sess')) i q e" using p s by (auto simp: seated_def e)
  qed
  show "socket_ok rp used jn q ss" if "(socks(p \<mapsto> sess')) q = Some ss" for q ss
  proof (cases "q = p")
    case True
    have "identity_decided (identity sess) \<Longrightarrow> identity_decided (identity sess')" using s(4) by simp
    then have "current_room_id sess' = None" if "\<not> identity_decided (identity sess')"
      using pok that s(2) by auto
    then show ?thesis using True pok that s(1,2,5) by (auto simp: socket_ok_def)
  qed (use D(4) that in simp)
  show "stage_ok rp (socks(p \<mapsto> sess')) q st" if "jn q = Some st" for q st
    using D(5) [OF that] p s(2) by (auto simp: stage_ok_def)
qed

section \<open>Operations that only shrink\<close>

lemma shrinks_refl: "repo_inv rp \<Longrightarrow> rooms_ok rp used \<Longrightarrow> shrinks rp rp"
  unfolding shrinks_def fewer_live_def fewer_people_def same_names_def rooms_ok_def by blast

lemma shrinks_rooms_ok: "shrinks rp rp' \<Longrightarrow> rooms_ok rp used \<Longrightarrow> rooms_ok rp' used"
  unfolding shrinks_def fewer_people_def rooms_ok_def by blast

lemma shrinks_inv: "shrinks rp rp' \<Longrightarrow> repo_inv rp'"
  by (simp add: shrinks_def)

lemma shrinks_trans: "shrinks a b \<Longrightarrow> shrinks b c \<Longrightarrow> shrinks a c"
proof -
  assume ab: "shrinks a b" and bc: "shrinks b c"
  have "fewer_live a c" using ab bc unfolding shrinks_def fewer_live_def by blast
  moreover have "fewer_people a c" using ab bc unfolding shrinks_def fewer_people_def by blast
  moreover have "same_names a c" using ab bc unfolding shrinks_def same_names_def by metis
  ultimately show ?thesis using bc unfolding shrinks_def by blast
qed

text \<open>A repository whose entries only disappear and whose room objects only lose people.\<close>

lemma shrinksI:
  assumes inv: "repo_inv rp'" and ok: "rooms_ok rp used"
    and get: "\<And>i x. get_room rp' i = Some x \<Longrightarrow> get_room rp i = Some x"
    and dom: "dom (room_heap rp') = dom (room_heap rp)"
    and heap: "\<And>x r r'. room_heap rp x = Some r \<Longrightarrow> room_heap rp' x = Some r' \<Longrightarrow>
      wf_room r' \<and> shares_owned r' \<and> room_id r' = room_id r \<and> member_ids r' \<subseteq> member_ids r \<and>
      (\<forall>p e. map_of (people r') p = Some e \<longrightarrow> map_of (people r) p = Some e)"
  shows "shrinks rp rp'"
proof -
  have old: "\<exists>r. room_heap rp x = Some r" if "room_heap rp' x = Some r'" for x r'
    using dom that by blast
  have new: "\<exists>r'. room_heap rp' x = Some r'" if "room_heap rp x = Some r" for x r
    using dom that by blast
  have "fewer_live rp rp'" unfolding fewer_live_def using get old heap by blast
  moreover have "fewer_people rp rp'" unfolding fewer_people_def using old heap by blast
  moreover have "same_names rp rp'" unfolding same_names_def using new heap by blast
  ultimately show ?thesis using inv by (simp add: shrinks_def)
qed

lemma repo_inv_same_rooms:
  assumes inv: "repo_inv rp" and "rooms rp' = rooms rp" and "revoked_room_ids rp' = revoked_room_ids rp"
    and "next_ref rp' = next_ref rp" and dom: "dom (room_heap rp') = dom (room_heap rp)"
    and heap: "\<And>x r r'. room_heap rp x = Some r \<Longrightarrow> room_heap rp' x = Some r' \<Longrightarrow>
      room_id r' = room_id r \<and> revoked r' = revoked r"
  shows "repo_inv rp'"
proof -
  have "\<exists>r. room_heap rp' x = Some r \<and> room_id r = i \<and> \<not> revoked r" if m: "(i, x) \<in> set (rooms rp)" for i x
  proof -
    obtain r where r: "room_heap rp x = Some r" "room_id r = i" "\<not> revoked r"
      using repo_inv_room [OF inv m] by blast
    then obtain r' where "room_heap rp' x = Some r'" using dom by blast
    with heap [OF r(1) this] r show ?thesis by auto
  qed
  then have "\<forall>(i, x) \<in> set (rooms rp). \<exists>r. room_heap rp' x = Some r \<and> room_id r = i \<and> \<not> revoked r" by blast
  then show ?thesis using inv [unfolded repo_inv_def] unfolding repo_inv_def assms(2-4) dom by blast
qed

lemma people_same_get: "same_people r r' \<Longrightarrow> map_of (people r') = map_of (people r) \<and> member_ids r' = member_ids r"
  by (simp add: same_people_def people_member_ids)

lemma keeps_people_shrinks:
  assumes "keeps_people s s'" and inv: "repo_inv (repo s)" and ok: "rooms_ok (repo s) used"
  shows "shrinks (repo s) (repo s')"
proof -
  have k: "rooms (repo s') = rooms (repo s)" "revoked_room_ids (repo s') = revoked_room_ids (repo s)"
    "next_ref (repo s') = next_ref (repo s)" "dom (room_heap (repo s')) = dom (room_heap (repo s))"
    "\<forall>x r r'. room_heap (repo s) x = Some r \<longrightarrow> room_heap (repo s') x = Some r' \<longrightarrow> same_people r r'"
    using assms(1) by (simp_all add: keeps_people_def)
  note k5 = k(5) [rule_format]
  have names: "room_id r' = room_id r \<and> revoked r' = revoked r"
    if "room_heap (repo s) x = Some r" "room_heap (repo s') x = Some r'" for x r r'
    using k5 [OF that] by (simp add: same_people_def)
  have inv': "repo_inv (repo s')" by (rule repo_inv_same_rooms [OF inv k(1-4) names])
  have old: "wf_room r \<and> shares_owned r" if "room_heap (repo s) x = Some r" for x r
    using ok that unfolding rooms_ok_def by blast
  have heap: "wf_room r' \<and> shares_owned r' \<and> room_id r' = room_id r \<and> member_ids r' \<subseteq> member_ids r \<and>
      (\<forall>p e. map_of (people r') p = Some e \<longrightarrow> map_of (people r) p = Some e)"
    if "room_heap (repo s) x = Some r" "room_heap (repo s') x = Some r'" for x r r'
    using k5 [OF that] old [OF that(1)] same_people_shares [OF k5 [OF that]] people_same_get [OF k5 [OF that]]
    unfolding same_people_def by simp
  show ?thesis
    by (rule shrinksI [OF inv' ok _ k(4) heap]) (simp add: get_room_def k(1))
qed

lemma without_shrinks:
  assumes inv: "repo_inv rp" and ok: "rooms_ok rp used" and r: "room_heap rp x = Some r"
    and el: "same_elsewhere x rp rp'" and r': "room_heap rp' x = Some r'" and wo: "without P r r'"
    and sh: "shares_owned r'"
  shows "shrinks rp rp'"
proof -
  have y: "room_heap rp' y = (if y = x then Some r' else room_heap rp y)" for y
    using el r' by (simp add: same_elsewhere_def)
  have dom: "dom (room_heap rp') = dom (room_heap rp)"
    using r by (auto simp: dom_def y)
  have inv': "repo_inv rp'"
    by (rule repo_inv_same_rooms [OF inv _ _ _ dom])
      (use el wo r in \<open>auto simp: same_elsewhere_def without_def y split: if_splits\<close>)
  have w: "wf_room r'" using ok r wo unfolding rooms_ok_def without_def by blast
  have heap: "wf_room q' \<and> shares_owned q' \<and> room_id q' = room_id q \<and> member_ids q' \<subseteq> member_ids q \<and>
      (\<forall>p e. map_of (people q') p = Some e \<longrightarrow> map_of (people q) p = Some e)"
    if q: "room_heap rp z = Some q" "room_heap rp' z = Some q'" for z q q'
  proof (cases "z = x")
    case True
    then have "q = r" "q' = r'" using q r y by auto
    then show ?thesis
      using w sh wo without_members [OF wo] without_get [OF wo] by (auto simp: without_def split: if_splits)
  next
    case False
    then have "q' = q" using q y by simp
    then show ?thesis using ok q unfolding rooms_ok_def by auto
  qed
  show ?thesis
    by (rule shrinksI [OF inv' ok _ dom heap]) (use el in \<open>simp add: get_room_def same_elsewhere_def\<close>)
qed

lemma same_but_markers_people:
  "same_but_markers r r' \<Longrightarrow> people r' = people r \<and> (wf_room r \<longrightarrow> wf_room r')"
  using same_but_markers_fields [of r r'] by (simp add: people_def wf_room_def)

lemma repository_call_shrinks:
  assumes inv: "repo_inv rp" and ok: "rooms_ok rp used" and c: "repository_call op"
  shows "shrinks rp (repo_step op rp)"
proof -
  let ?rp = "repo_step op rp"
  have inv': "repo_inv ?rp" by (rule repo_step_inv [OF inv])
  have heap: "\<exists>r'. room_heap ?rp x = Some r' \<and> people r' = people r \<and> wf_room r' \<and> room_id r' = room_id r"
    if r: "room_heap rp x = Some r" for x r
    using repository_call_step [OF inv c r] same_but_markers_people same_but_markers_fields ok r
    unfolding rooms_ok_def by metis
  have fresh: "people r' = [] \<and> wf_room r'" if "room_heap ?rp x = Some r'" "room_heap rp x = None" for x r'
    using that c by (cases op) (auto simp: create_room_def delete_room_def revoke_room_def deny_room_user_def
        Let_def modify_room_def new_room_def people_def wf_room_def split: if_splits option.splits)
  have get: "get_room rp i = Some x \<or> room_heap rp x = None" if g: "get_room ?rp i = Some x" for i x
  proof (cases op)
    case (CreateRoom j)
    have "room_heap rp (next_ref rp) = None" using inv by (auto simp: repo_inv_def)
    then show ?thesis using g by (auto simp: CreateRoom create_room_def get_room_def hm_simps split: if_splits)
  next
    case (DenyRoomUser j u)
    then show ?thesis using g by (simp add: deny_room_user_frame)
  qed (use g c in \<open>auto simp: get_room_delete get_room_revoke split: if_splits\<close>)
  have own: "shares_owned r'" if "people r' = people r" "shares_owned r" for r r'
    using that by (simp add: shares_owned_people)
  have e: "shares_owned r'" if "people r' = []" for r' using that by (simp add: shares_owned_people)
  have old: "wf_room r' \<and> shares_owned r' \<and>
      (\<forall>p e. map_of (people r') p = Some e \<longrightarrow> (\<exists>r. room_heap rp x = Some r \<and> map_of (people r) p = Some e)) \<and>
      (\<forall>p \<in> member_ids r'. \<exists>r. room_heap rp x = Some r \<and> p \<in> member_ids r)"
    if r': "room_heap ?rp x = Some r'" for x r'
  proof (cases "room_heap rp x")
    case None
    then show ?thesis using fresh [OF r' None] e by (simp add: people_member_ids)
  next
    case (Some r)
    then have "people r' = people r" "wf_room r'" using heap [OF Some] r' by auto
    then show ?thesis using own [of r' r] ok Some by (simp add: people_member_ids rooms_ok_def)
  qed
  have "fewer_live rp ?rp"
    unfolding fewer_live_def using old get fresh
    by (metis map_of.simps(1) option.distinct(1))
  moreover have "fewer_people rp ?rp" unfolding fewer_people_def using old by blast
  moreover have "same_names rp ?rp" unfolding same_names_def using heap by blast
  ultimately show ?thesis using inv' by (simp add: shrinks_def)
qed

lemma repository_calls_shrink:
  "\<lbrakk>repo_inv rp; rooms_ok rp used; \<forall>op \<in> set ops. repository_call op\<rbrakk> \<Longrightarrow> shrinks rp (fold repo_step ops rp)"
proof (induction ops arbitrary: rp)
  case Nil
  then show ?case by (simp add: shrinks_refl)
next
  case (Cons op ops)
  have s: "shrinks rp (repo_step op rp)" by (rule repository_call_shrinks) (use Cons.prems in auto)
  have "shrinks (repo_step op rp) (fold repo_step ops (repo_step op rp))"
    by (rule Cons.IH [OF shrinks_inv [OF s] shrinks_rooms_ok [OF s Cons.prems(2)]]) (use Cons.prems in auto)
  with s show ?case by (auto intro: shrinks_trans)
qed

lemma join_ensure_shrinks:
  assumes "repo_inv rp" and "rooms_ok rp used" and e: "join_ensure i rp = (res, rp')"
  shows "shrinks rp rp'"
proof -
  have "rp' = rp \<or> rp' = repo_step (CreateRoom i) rp"
    using e by (auto simp: join_ensure_def split: if_splits prod.splits sum.splits)
  then show ?thesis
    using shrinks_refl [OF assms(1,2)] repository_call_shrinks [OF assms(1,2), of "CreateRoom i"] by auto
qed

text \<open>A clean-up under the room lock: the participant and its shares go.\<close>

lemma leave_room_shrinks:
  assumes inv: "repo_inv (repo s)" and ok: "rooms_ok (repo s) used" and l: "leave_room i p s = (removed, s')"
  shows "shrinks (repo s) (repo s') \<and> rooms (repo s') = rooms (repo s) \<and>
     (\<forall>x r'. get_room (repo s) i = Some x \<longrightarrow> room_heap (repo s') x = Some r' \<longrightarrow> p \<notin> member_ids r') \<and>
     (\<not> removed \<longrightarrow> (\<forall>x r. get_room (repo s) i = Some x \<longrightarrow> room_heap (repo s) x = Some r \<longrightarrow> p \<notin> member_ids r) \<and>
        repo s' = repo s)"
proof (cases "get_room (repo s) i")
  case None
  then show ?thesis using l shrinks_refl [OF inv ok] by (auto simp: leave_room_def)
next
  case (Some x)
  obtain r where r: "room_heap (repo s) x = Some r"
    using repo_inv_entry [OF inv, of i x] Some by (auto simp: get_room_def)
  have wf: "wf_room r" "shares_owned r" using ok r unfolding rooms_ok_def by blast+
  have c: "cleanup_locked x p s = (removed, s')" using l Some by (simp add: leave_room_def)
  let ?P = "if p \<in> member_ids r then insert p {i. \<exists>a b n u. (i, a, b, n, u, Some p) \<in> set (people r)} else {}"
  obtain r' where w: "removed = (p \<in> member_ids r)" "same_elsewhere x (repo s) (repo s')"
    "room_heap (repo s') x = Some r'" "without ?P r r'"
    using cleanup_locked_without [OF r c wf(2,1)] by blast
  have share: "shares_owned r'"
  proof (rule shares_owned_without [OF wf(2) w(4)])
    fix j a b n u owner
    assume j: "map_of (people r) j = Some (a, b, n, u, Some owner)" and o: "owner \<in> ?P"
    have "owner = p"
    proof (rule ccontr)
      assume "owner \<noteq> p"
      with o obtain a' b' n' u' where "(owner, a', b', n', u', Some p) \<in> set (people r)"
        by (auto split: if_splits)
      moreover have "distinct (map fst (people r))" using wf(1) by (simp add: wf_room_people)
      ultimately have "map_of (people r) owner = Some (a', b', n', u', Some p)" by simp
      moreover obtain a2 b2 n2 where "map_of (people r) owner = Some (a2, b2, n2, u, None)"
        using wf(2) j unfolding shares_owned_people by blast
      ultimately show False by simp
    qed
    then show "j \<in> ?P" using o map_of_SomeD [OF j] by (auto split: if_splits)
  qed
  have sh: "shrinks (repo s) (repo s')"
    by (rule without_shrinks [OF inv ok r w(2,3,4) share])
  have same: "repo s' = repo s" if "\<not> removed"
    using c r that by (auto simp: cleanup_locked_def Let_def split: if_splits option.splits)
  show ?thesis
    using sh w Some r same without_members [OF w(4)] by (auto simp: same_elsewhere_def split: if_splits)
qed

lemma leave_first_shrinks:
  "\<lbrakk>repo_inv (repo s); rooms_ok (repo s) used; leave_first ids p s = (found, s')\<rbrakk> \<Longrightarrow>
     shrinks (repo s) (repo s') \<and> rooms (repo s') = rooms (repo s) \<and>
     (case found of
        None \<Rightarrow> repo s' = repo s \<and> (\<forall>i \<in> set ids. \<forall>x r. get_room (repo s) i = Some x \<longrightarrow>
          room_heap (repo s) x = Some r \<longrightarrow> p \<notin> member_ids r)
      | Some i \<Rightarrow> (\<exists>x r. get_room (repo s) i = Some x \<and> room_heap (repo s) x = Some r \<and> p \<in> member_ids r) \<and>
          (\<forall>x r'. get_room (repo s) i = Some x \<longrightarrow> room_heap (repo s') x = Some r' \<longrightarrow> p \<notin> member_ids r'))"
proof (induction ids arbitrary: s)
  case Nil
  then show ?case using shrinks_refl by auto
next
  case (Cons i ids)
  obtain b s1 where l: "leave_room i p s = (b, s1)" by fastforce
  note A = leave_room_shrinks [OF Cons.prems(1,2) l]
  show ?case
  proof (cases b)
    case True
    then have f: "found = Some i" "s' = s1" using Cons.prems(3) l by simp_all
    obtain x where x: "get_room (repo s) i = Some x" "cleanup_locked x p s = (True, s1)"
      using l True by (auto simp: leave_room_def split: option.splits)
    then have "\<exists>r. room_heap (repo s) x = Some r \<and> p \<in> member_ids r"
      by (auto simp: cleanup_locked_def contains_participant_iff split: option.splits if_splits)
    then show ?thesis using A f x(1) by auto
  next
    case False
    then have e: "repo s1 = repo s" using A by blast
    have "leave_first ids p s1 = (found, s')" using Cons.prems(3) l False by simp
    from Cons.IH [unfolded atomize_imp, rule_format, OF _ _ this] Cons.prems(1,2) e
    show ?thesis using A False by (auto split: option.splits)
  qed
qed

lemma live_owner_only:
  assumes live: "live_ok rp socks" and p: "get_room rp i = Some x" "room_heap rp x = Some r" "p \<in> member_ids r"
  shows "\<exists>sess. socks p = Some sess \<and> current_room_id sess = Some i"
proof -
  obtain e where "map_of (people r) p = Some e"
    using p(3) by (metis people_member_ids map_of_eq_None_iff not_Some_eq)
  from live_okD [OF live p(1,2) this] show ?thesis by (auto simp: seated_def)
qed

lemma leave_first_everywhere:
  assumes inv: "repo_inv (repo s)" and ok: "rooms_ok (repo s) used" and live: "live_ok (repo s) socks"
    and l: "leave_first (list_rooms (repo s)) p s = (found, s')"
    and g: "get_room (repo s') j = Some x" "room_heap (repo s') x = Some r"
  shows "p \<notin> member_ids r"
proof
  assume p: "p \<in> member_ids r"
  note A = leave_first_shrinks [OF inv ok l]
  have gr: "get_room (repo s') = get_room (repo s)" using A by (simp add: get_room_def fun_eq_iff)
  obtain r0 where r0: "room_heap (repo s) x = Some r0" "p \<in> member_ids r0"
    using A g(2) p unfolding shrinks_def fewer_people_def by blast
  obtain sess where s: "socks p = Some sess" "current_room_id sess = Some j"
    using live_owner_only [OF live _ r0] g(1) gr by auto
  show False
  proof (cases found)
    case None
    have "j \<in> set (list_rooms (repo s))"
      using g(1) gr by (metis get_room_def list_rooms_def map_of_eq_None_iff option.distinct(1) set_map)
    then show False using A None r0 g(1) gr by auto
  next
    case (Some i)
    then obtain y q where y: "get_room (repo s) i = Some y" "room_heap (repo s) y = Some q" "p \<in> member_ids q"
      using A by auto
    from live_owner_only [OF live y] s have "i = j" by auto
    then show False using A Some g p gr by auto
  qed
qed

text \<open>Taking a user's access away removes all its connections, shares included.\<close>

lemma deny_room_user_step: "deny_room_user i u rp = repo_step (DenyRoomUser i u) rp"
  by simp

lemma disconnect_shrinks:
  assumes inv: "repo_inv (repo s)" and ok: "rooms_ok (repo s) used"
  shows "shrinks (repo s) (repo (disconnect_user_from_room u i s)) \<and>
     (\<forall>x r. get_room (repo s) i = Some x \<longrightarrow> room_heap (repo (disconnect_user_from_room u i s)) x = Some r \<longrightarrow>
        u \<in> denied_user_ids r \<and> (\<forall>p c. map_of (participants r) p = Some c \<longrightarrow> pt_user_id (participant c) \<noteq> Some u))"
proof -
  let ?s = "s\<lparr>repo := deny_room_user i u (repo s)\<rparr>"
  have s1: "shrinks (repo s) (repo ?s)"
    using repository_call_shrinks [OF inv ok, of "DenyRoomUser i u"] by simp
  show ?thesis
  proof (cases "get_room (repo s) i")
    case None
    then show ?thesis using s1 by (simp add: disconnect_user_from_room_def Let_def deny_room_user_frame)
  next
    case (Some x)
    obtain r0 where r0: "room_heap (repo s) x = Some r0"
      using repo_inv_entry [OF inv, of i x] Some by (auto simp: get_room_def)
    define r where "r = deny_user u r0"
    have r: "room_heap (repo ?s) x = Some r"
      using Some r0 by (simp add: deny_room_user_def get_room_def modify_room_heap r_def)
    let ?ids = "map fst (filter (\<lambda>(p, c). pt_user_id (participant c) = Some u) (participants r))"
    have d: "disconnect_user_from_room u i s = remove_all ?ids x ?s"
      using Some r by (simp add: disconnect_user_from_room_def Let_def deny_room_user_frame)
    obtain r' where w: "room_heap (repo (remove_all ?ids x ?s)) x = Some r'" "without (set ?ids) r r'"
      "same_elsewhere x (repo ?s) (repo (remove_all ?ids x ?s))"
      using remove_all_without [OF r] by blast
    note inv1 = shrinks_inv [OF s1] and ok1 = shrinks_rooms_ok [OF s1 ok]
    have wf: "wf_room r" "shares_owned r" using ok1 r unfolding rooms_ok_def by blast+
    have m: "map_of (participants r) j = Some c \<longleftrightarrow> (j, c) \<in> set (participants r)" for j c
      using wf(1) by (simp add: wf_room_def)
    have ids: "j \<in> set ?ids \<longleftrightarrow> (\<exists>c. map_of (participants r) j = Some c \<and> pt_user_id (participant c) = Some u)" for j
      unfolding m set_map set_filter image_iff by fastforce
    have ids': "j \<in> set ?ids \<longleftrightarrow> (\<exists>a b n sh. map_of (people r) j = Some (a, b, n, Some u, sh))" for j
      unfolding ids people_map_of by (auto simp: who_def)
    have sh: "shares_owned r'"
    proof (rule shares_owned_without [OF wf(2) w(2)])
      fix j a b n v owner
      assume j: "map_of (people r) j = Some (a, b, n, v, Some owner)" and o: "owner \<in> set ?ids"
      obtain a' b' n' where "map_of (people r) owner = Some (a', b', n', v, None)"
        using wf(2) j unfolding shares_owned_people by blast
      moreover obtain a2 b2 n2 sh2 where "map_of (people r) owner = Some (a2, b2, n2, Some u, sh2)"
        using o unfolding ids' by blast
      ultimately have "v = Some u" by simp
      then show "j \<in> set ?ids" unfolding ids' using j by blast
    qed
    have s2: "shrinks (repo ?s) (repo (remove_all ?ids x ?s))"
      by (rule without_shrinks [OF inv1 ok1 r w(3,1,2) sh])
    have "u \<in> denied_user_ids r'" using w(2) by (simp add: without_def r_def deny_user_def)
    moreover have "pt_user_id (participant c) \<noteq> Some u" if c: "map_of (participants r') p = Some c" for p c
    proof
      assume u: "pt_user_id (participant c) = Some u"
      have "map_of (people r') p = Some (who c)" using c by (simp add: people_map_of)
      then have "p \<notin> set ?ids" "map_of (people r) p = Some (who c)"
        using without_get [OF w(2), of p] by (auto split: if_splits)
      then show False unfolding ids' by (auto simp: who_def u)
    qed
    ultimately show ?thesis
      unfolding d using shrinks_trans [OF s1 s2] w(1) Some by auto
  qed
qed

lemma revoke_shrinks:
  assumes inv: "repo_inv (repo s)" and ok: "rooms_ok (repo s) used"
  shows "shrinks (repo s) (repo (revoke_and_close_room i s))"
proof -
  obtain entry rp where e: "revoke_room i (repo s) = (entry, rp)" by fastforce
  let ?s = "s\<lparr>repo := rp\<rparr>"
  have s1: "shrinks (repo s) (repo ?s)"
    using repository_call_shrinks [OF inv ok, of "RevokeRoom i"] e by simp
  note inv1 = shrinks_inv [OF s1] and ok1 = shrinks_rooms_ok [OF s1 ok]
  show ?thesis
  proof (cases entry)
    case None
    then show ?thesis using e s1 by (simp add: revoke_and_close_room_def Let_def)
  next
    case (Some x)
    show ?thesis
    proof (cases "room_heap rp x")
      case None
      then show ?thesis using Some e s1 by (simp add: revoke_and_close_room_def Let_def)
    next
      case r: (Some r)
      let ?ids = "map fst (participants r)"
      have d: "revoke_and_close_room i s = remove_all ?ids x ?s"
        using Some e r by (simp add: revoke_and_close_room_def Let_def)
      obtain r' where w: "room_heap (repo (remove_all ?ids x ?s)) x = Some r'" "without (set ?ids) r r'"
        "same_elsewhere x (repo ?s) (repo (remove_all ?ids x ?s))"
        using remove_all_without [of ?s x r ?ids] r by auto
      have "people r' = []"
        using without_members [OF w(2)] by (simp add: people_member_ids)
      then have sh: "shares_owned r'" by (simp add: shares_owned_people)
      have "shrinks (repo ?s) (repo (remove_all ?ids x ?s))"
        by (rule without_shrinks [OF inv1 ok1 _ w(3,1,2) sh]) (use r in simp)
      then show ?thesis unfolding d using shrinks_trans [OF s1] by blast
    qed
  qed
qed

lemma delete_shrinks: "repo_inv rp \<Longrightarrow> rooms_ok rp used \<Longrightarrow> shrinks rp (delete_room i rp)"
  using repository_call_shrinks [of rp used "DeleteRoom i"] by simp

section \<open>Every step keeps the invariant\<close>

lemma sys_ok_connect:
  assumes ok: "sys_ok rp socks jn used" and p: "p \<notin> used"
  shows "sys_ok rp (socks(p \<mapsto> new_session p)) jn (insert p used)"
proof (rule sys_okI)
  note D = sys_okD [OF ok]
  have nosock: "socks p = None"
  proof (rule ccontr)
    assume "socks p \<noteq> None"
    then obtain sess where "socks p = Some sess" by blast
    from D(4) [OF this] p show False by (simp add: socket_ok_def)
  qed
  have nojoin: "jn p = None"
  proof (rule ccontr)
    assume "jn p \<noteq> None"
    then obtain st where "jn p = Some st" by blast
    from D(5) [OF this] nosock show False by (simp add: stage_ok_def)
  qed
  show "repo_inv rp" by (rule D)
  show "rooms_ok rp (insert p used)" using D(2) unfolding rooms_ok_def by blast
  have nowhere: "in_no_room rp p" using D(2) p unfolding rooms_ok_def in_no_room_def by blast
  show "live_ok rp (socks(p \<mapsto> new_session p))"
    using D(3) nosock unfolding live_ok_def seated_def by fastforce
  show "socket_ok rp (insert p used) jn q sess" if "(socks(p \<mapsto> new_session p)) q = Some sess" for q sess
  proof (cases "q = p")
    case True
    then show ?thesis using that nowhere nojoin
      by (auto simp: socket_ok_def new_session_def undecided_def)
  next
    case False
    then show ?thesis using that D(4) [of q sess] by (auto simp: socket_ok_def)
  qed
  show "stage_ok rp (socks(p \<mapsto> new_session p)) q st" if "jn q = Some st" for q st
  proof -
    have "q \<noteq> p" using nojoin that by auto
    then show ?thesis using D(5) [OF that] by (simp add: stage_ok_def)
  qed
qed

text \<open>The next stage of a Join, and the end of one that failed.\<close>

lemma sys_ok_stage:
  assumes ok: "sys_ok rp socks jn used" and st: "stage_ok rp socks p st"
    and dec: "\<And>sess. socks p = Some sess \<Longrightarrow> identity_decided (identity sess)"
  shows "sys_ok rp socks (jn(p \<mapsto> st)) used"
proof (rule sys_okI)
  note D = sys_okD [OF ok]
  show "repo_inv rp" "rooms_ok rp used" "live_ok rp socks" by (rule D)+
  show "socket_ok rp used (jn(p \<mapsto> st)) q sess" if "socks q = Some sess" for q sess
    using D(4) [OF that] dec [of sess] that by (auto simp: socket_ok_def)
  show "stage_ok rp socks q s" if "(jn(p \<mapsto> st)) q = Some s" for q s
    using D(5) [of q s] st that by (auto split: if_splits)
qed

lemma sys_ok_no_stage:
  assumes ok: "sys_ok rp socks jn used"
  shows "sys_ok rp socks (jn(p := None)) used"
proof (rule sys_okI)
  note D = sys_okD [OF ok]
  show "repo_inv rp" "rooms_ok rp used" "live_ok rp socks" by (rule D)+
  show "socket_ok rp used (jn(p := None)) q sess" if "socks q = Some sess" for q sess
    using D(4) [OF that] by (auto simp: socket_ok_def)
  show "stage_ok rp socks q s" if "(jn(p := None)) q = Some s" for q s
    using D(5) [of q s] that by (auto split: if_splits)
qed

text \<open>A socket that has left every live room closes.\<close>

lemma sys_ok_close:
  assumes ok: "sys_ok rp socks jn used"
    and out: "\<And>i x r. get_room rp i = Some x \<Longrightarrow> room_heap rp x = Some r \<Longrightarrow> p \<notin> member_ids r"
  shows "sys_ok rp (socks(p := None)) (jn(p := None)) used"
proof (rule sys_okI)
  note D = sys_okD [OF ok]
  show "repo_inv rp" "rooms_ok rp used" by (rule D)+
  show "live_ok rp (socks(p := None))"
    unfolding live_ok_def
  proof (intro allI impI)
    fix i x r q e assume l: "get_room rp i = Some x" "room_heap rp x = Some r" "map_of (people r) q = Some e"
    have "q \<in> member_ids r" using map_of_SomeD [OF l(3)] unfolding people_member_ids by force
    then have "q \<noteq> p" using out [OF l(1,2)] by blast
    then show "seated (socks(p := None)) i q e" using live_okD [OF D(3) l] by (auto simp: seated_def)
  qed
  show "socket_ok rp used (jn(p := None)) q sess" if "(socks(p := None)) q = Some sess" for q sess
    using D(4) [of q sess] that by (auto simp: socket_ok_def split: if_splits)
  show "stage_ok rp (socks(p := None)) q s" if "(jn(p := None)) q = Some s" for q s
    using D(5) [of q s] that by (auto simp: stage_ok_def split: if_splits)
qed

text \<open>The last step of a Join seats the socket in the room it looked up.\<close>

lemma join_enter_seats:
  assumes ok: "sys_ok (repo s) socks jn used" and st: "jn p = Some (Located x i name share)"
    and sess: "socks p = Some sess" and calls: "\<forall>op \<in> set during. repository_call op"
    and j: "join_enter E during x sess i name share s = (Inr sess', s')"
  shows "sys_ok (repo s') (socks(p \<mapsto> sess')) (jn(p := None)) used"
proof -
  note D = sys_okD [OF ok]
  from j obtain r pc w r1 where e: "room_heap (repo s) x = Some r" "presenter_present r share (session_user sess)"
    "room_heap (fold repo_step during (repo s)) x = Some r1"
    "sess' = sess\<lparr>current_room_id := Some i, participant_name := Some name\<rparr>"
    "s' = entered E r r1 x sess i name share pc (s\<lparr>world := w, repo := fold repo_step during (repo s)\<rparr>)"
    by (rule join_enter_Inr)
  define rp where "rp = fold repo_step during (repo s)"
  have sh: "shrinks (repo s) rp"
    unfolding rp_def by (rule repository_calls_shrink [OF D(1,2) calls])
  note ok1 = sys_ok_shrinks [OF ok sh]
  note F = sys_okD [OF ok1]
  obtain r1' where "room_heap rp x = Some r1'" "same_but_markers r r1'"
    using repository_calls [OF D(1) calls e(1)] unfolding rp_def by blast
  then have same: "same_but_markers r r1" using e(3) by (simp add: rp_def)
  have r1: "room_heap rp x = Some r1" using e(3) by (simp add: rp_def)
  have pok: "connection_id sess = p" "p \<in> used" using F(4) [OF sess] by (simp_all add: socket_ok_def)
  have none: "current_room_id sess = None" and rid: "room_id r = i"
    using D(5) [OF st] sess e(1) by (auto simp: stage_ok_def)
  have new: "p \<notin> member_ids r1"
    using F(4) [OF sess] none r1 unfolding socket_ok_def in_no_room_def by blast
  have decided: "identity_decided (identity sess)"
    using D(4) [OF sess] st by (auto simp: socket_ok_def)
  have rid1: "room_id r1 = i" using same_but_markers_fields [OF same] rid by simp
  let ?c = "joining_connection sess name share pc"
  define r2 where "r2 = r1\<lparr>participants := participants r1 @ [(p, ?c)]\<rparr>"
  have upd: "AList.update p ?c (participants r1) = participants r1 @ [(p, ?c)]"
    by (rule map_snd_update_fresh [OF new])
  have who: "who ?c = (p, p, name, session_user sess, share)" and pid: "pt_id (participant ?c) = p" "sender ?c = p"
    by (simp_all add: who_def joining_connection_def set_peer_connection_def new_connection_def
        new_participant_def pok(1))
  have rp': "repo s' = modify_room x (\<lambda>_. r2) rp"
    unfolding e(5) entered_def r2_def rp_def
    using upd by (simp add: add_participant_def Let_def pid pok(1))
  have heap: "room_heap (repo s') y = (if y = x then Some r2 else room_heap rp y)" for y
    using r1 by (simp add: rp' modify_room_heap)
  have get: "get_room (repo s') = get_room rp" by (simp add: rp')
  have ppl: "people r2 = people r1 @ [(p, p, p, name, session_user sess, share)]"
    by (simp add: people_def r2_def who)
  have np: "map_of (people r1) p = None" using new by (simp add: people_member_ids map_of_eq_None_iff)
  have gp: "map_of (people r2) q = (if q = p then Some (p, p, name, session_user sess, share)
      else map_of (people r1) q)" for q
    using np unfolding ppl by (cases "q = p") (auto simp: map_add_def split: option.splits)
  have wf1: "wf_room r1" "shares_owned r1" "member_ids r1 \<subseteq> used"
    using F(2) r1 unfolding rooms_ok_def by blast+
  have wf2: "wf_room r2"
    using wf_add_participant [OF wf1(1), of ?c "queues s"] upd pid add_participant_room [of ?c r1]
    by (simp add: r2_def)
  have mem2: "member_ids r2 = insert p (member_ids r1)" by (simp add: r2_def)
  have sh2: "shares_owned r2"
    unfolding shares_owned_people gp
  proof (intro allI impI)
    fix q a b n u owner
    assume q: "(if q = p then Some (p, p, name, session_user sess, share) else map_of (people r1) q) =
        Some (a, b, n, u, Some owner)"
    have "\<exists>a' b' n'. map_of (people r1) owner = Some (a', b', n', u, None)"
    proof (cases "q = p")
      case True
      then have o: "share = Some owner" "u = session_user sess" using q by auto
      then obtain oc where oc: "map_of (participants r) owner = Some oc"
        "screen_share_of (participant oc) = None" "pt_user_id (participant oc) = u"
        using e(2) by (auto simp: presenter_present_def split: option.splits)
      then have "map_of (people r1) owner = Some (who oc)"
        using same_but_markers_people [OF same] by (simp add: people_map_of)
      then show ?thesis using oc by (simp add: who_def)
    next
      case False
      then have "map_of (people r1) q = Some (a, b, n, u, Some owner)" using q by simp
      then show ?thesis using wf1(2) unfolding shares_owned_people by blast
    qed
    moreover from this have "owner \<noteq> p"
      using new map_of_SomeD unfolding people_member_ids by force
    ultimately show "\<exists>a' b' n'. (if owner = p then Some (p, p, name, session_user sess, share)
        else map_of (people r1) owner) = Some (a', b', n', u, None)" by simp
  qed
  show ?thesis
  proof (rule sys_okI)
    show "repo_inv (repo s')"
      unfolding rp' by (rule repo_inv_modify [OF F(1)]) (use r1 in \<open>simp add: r2_def\<close>)
    show "rooms_ok (repo s') used"
      using F(2) wf2 sh2 mem2 pok(2) wf1(3) unfolding rooms_ok_def heap by auto
    show "live_ok (repo s') (socks(p \<mapsto> sess'))"
      unfolding live_ok_def
    proof (intro allI impI)
      fix k y q z ev
      assume l: "get_room (repo s') k = Some y" "room_heap (repo s') y = Some q" "map_of (people q) z = Some ev"
      have l1: "get_room rp k = Some y" using l(1) get by simp
      show "seated (socks(p \<mapsto> sess')) k z ev"
      proof (cases "z = p")
        case True
        have yx: "y = x"
        proof (rule ccontr)
          assume "y \<noteq> x"
          then have "room_heap rp y = Some q" using l(2) heap by simp
          moreover have "p \<in> member_ids q" using map_of_SomeD [OF l(3)] True unfolding people_member_ids by force
          ultimately show False using F(4) [OF sess] none unfolding socket_ok_def in_no_room_def by blast
        qed
        have "k = room_id r1"
          using repo_inv_entry [OF F(1), of k y] l1 yx r1 by (auto simp: get_room_def)
        then have "k = i" using rid1 by simp
        moreover have "ev = (p, p, name, session_user sess, share)"
          using l(2,3) heap yx gp True by auto
        ultimately show ?thesis using True by (simp add: seated_def e(4))
      next
        case False
        have "\<exists>q1. room_heap rp y = Some q1 \<and> map_of (people q1) z = Some ev"
          using l(2,3) heap r1 gp False by (auto split: if_splits)
        then have "seated socks k z ev" using live_okD [OF F(3) l1] by blast
        then show ?thesis using False by (auto simp: seated_def)
      qed
    qed
    show "socket_ok (repo s') used (jn(p := None)) q ss" if q: "(socks(p \<mapsto> sess')) q = Some ss" for q ss
    proof (cases "q = p")
      case True
      then show ?thesis using q pok decided by (auto simp: socket_ok_def e(4))
    next
      case False
      then have "socket_ok rp used jn q ss" using F(4) q by simp
      then show ?thesis using False unfolding socket_ok_def in_no_room_def heap using mem2 r1 by auto
    qed
    show "stage_ok (repo s') (socks(p \<mapsto> sess')) q sg" if q: "(jn(p := None)) q = Some sg" for q sg
    proof -
      have "q \<noteq> p" "jn q = Some sg" using q by (auto split: if_splits)
      moreover have "room_id r2 = room_id r1" by (simp add: r2_def)
      ultimately show ?thesis using F(5) [of q sg] r1 heap unfolding stage_ok_def
        by (auto split: join_stage.splits)
    qed
  qed
qed

definition system_ok :: "'w system \<Rightarrow> bool" where
  "system_ok c \<longleftrightarrow> sys_ok (repo (srv c)) (sockets c) (joining c) (used_ids c)"

lemma decided_fields [simp]:
  "connection_id (decided sess) = connection_id sess" "current_room_id (decided sess) = current_room_id sess"
  "participant_name (decided sess) = participant_name sess" "identity_decided (identity (decided sess))"
  "identity_decided (identity sess) \<Longrightarrow> decided sess = sess"
  by (simp_all add: decided_def)

lemma join_admission_none: "join_admission E sess i g pw fs = (Inr a, fs') \<Longrightarrow> current_room_id sess = None"
  using join_admission_Inr [of E sess i g pw fs "fst a" "snd a" fs'] by simp

lemma authenticate_session_decided: "authenticate_session E v t = Inr d \<Longrightarrow> identity_decided d"
  by (auto simp: authenticate_session_def undecided_def split: if_splits option.splits sum.splits)

lemma on_message_decided:
  assumes "handle_message E others during m sess s = (sess', s')" and "\<not> is_join m"
  shows "identity sess' = identity sess"
  using handle_message_keeps [OF assms] by (simp add: same_session_def)

lemma step_keeps:
  assumes "server_step c c'" and ok: "system_ok c"
  shows "system_ok c'"
  using assms(1)
proof cases
  note ok' = ok [unfolded system_ok_def]
  note D = sys_okD [OF ok']
  case (connect p)
  then show ?thesis using sys_ok_connect [OF ok'] by (simp add: system_ok_def)
next
  note ok' = ok [unfolded system_ok_def]
  note D = sys_okD [OF ok']
  case (receive p sess f E others during cont sess' s')
  note k = receive_frame_keeps [OF receive(5,4)]
  have "shrinks (repo (srv c)) (repo s')" using keeps_people_shrinks k D(1,2) by blast
  note ok1 = sys_ok_shrinks [OF ok' this]
  have "sys_ok (repo s') ((sockets c)(p \<mapsto> sess')) (joining c) (used_ids c)"
    by (rule sys_ok_session [OF ok1 receive(2)]) (use k receive(3) in auto)
  then show ?thesis by (simp add: system_ok_def receive(1))
next
  note ok' = ok [unfolded system_ok_def]
  note D = sys_okD [OF ok']
  case (join_admitted p sess E i given password auth name fs share)
  have ok1: "sys_ok (repo (srv c)) ((sockets c)(p \<mapsto> decided sess)) (joining c) (used_ids c)"
    by (rule sys_ok_session [OF ok' join_admitted(2)]) simp_all
  have "current_room_id sess = None" using join_admission_none [OF join_admitted(5)] by simp
  then have "stage_ok (repo (srv c)) ((sockets c)(p \<mapsto> decided sess)) p (Admitted i auth name share)"
    by (simp add: stage_ok_def)
  from sys_ok_stage [OF ok1 this] show ?thesis by (simp add: system_ok_def join_admitted(1))
next
  note ok' = ok [unfolded system_ok_def]
  note D = sys_okD [OF ok']
  case (join_refused p sess E i given password eo fs)
  have "sys_ok (repo (srv c)) ((sockets c)(p \<mapsto> decided sess)) (joining c) (used_ids c)"
    by (rule sys_ok_session [OF ok' join_refused(2)]) simp_all
  then show ?thesis by (cases eo) (simp_all add: system_ok_def join_refused(1))
next
  note ok' = ok [unfolded system_ok_def]
  note D = sys_okD [OF ok']
  case (join_room_ready p i auth name share rp)
  note ok1 = sys_ok_shrinks [OF ok' join_ensure_shrinks [OF D(1,2) join_room_ready(3)]]
  have "stage_ok rp (sockets c) p (Ensured i auth name share)"
    using sys_okD(5) [OF ok1 join_room_ready(2)] by (simp add: stage_ok_def)
  moreover have "identity_decided (identity sess)" if "sockets c p = Some sess" for sess
    using D(4) [OF that] join_room_ready(2) by (auto simp: socket_ok_def)
  ultimately show ?thesis using sys_ok_stage [OF ok1] by (simp add: system_ok_def join_room_ready(1))
next
  note ok' = ok [unfolded system_ok_def]
  note D = sys_okD [OF ok']
  case (join_room_failed p i auth name share e rp)
  note ok1 = sys_ok_shrinks [OF ok' join_ensure_shrinks [OF D(1,2) join_room_failed(3)]]
  show ?thesis using sys_ok_no_stage [OF ok1] by (simp add: system_ok_def join_room_failed(1))
next
  note ok' = ok [unfolded system_ok_def]
  note D = sys_okD [OF ok']
  case (join_located p i auth name share sess x E)
  obtain r where "room_heap (repo (srv c)) x = Some r" "room_id r = i"
    using repo_inv_entry [OF D(1), of i x] join_located(4) by (auto simp: get_room_def)
  then have "stage_ok (repo (srv c)) (sockets c) p (Located x i name share)"
    using D(5) [OF join_located(2)] by (simp add: stage_ok_def)
  moreover have "identity_decided (identity ss)" if "sockets c p = Some ss" for ss
    using D(4) [OF that] join_located(2) by (auto simp: socket_ok_def)
  ultimately show ?thesis using sys_ok_stage [OF ok'] by (simp add: system_ok_def join_located(1))
next
  note ok' = ok [unfolded system_ok_def]
  case (join_lost p i auth name share e)
  then show ?thesis using sys_ok_no_stage [OF ok'] by (simp add: system_ok_def)
next
  note ok' = ok [unfolded system_ok_def]
  case (join_entered p x i name share sess during E sess' s')
  from join_enter_seats [OF ok' join_entered(2,3,4,5)] show ?thesis
    by (simp add: system_ok_def join_entered(1))
next
  note ok' = ok [unfolded system_ok_def]
  note D = sys_okD [OF ok']
  case (join_turned_away p x i name share sess during E e s')
  have "shrinks (repo (srv c)) (repo s')"
    using join_enter_Inl [OF join_turned_away(5)] shrinks_refl [OF D(1,2)]
      repository_calls_shrink [OF D(1,2) join_turned_away(4)] by auto
  from sys_ok_no_stage [OF sys_ok_shrinks [OF ok' this]] show ?thesis
    by (simp add: system_ok_def join_turned_away(1))
next
  note ok' = ok [unfolded system_ok_def]
  note D = sys_okD [OF ok']
  case (closed p sess removed s' gone)
  have "shrinks (repo (srv c)) (repo s') \<and> (\<forall>i x r. get_room (repo s') i = Some x \<longrightarrow>
      room_heap (repo s') x = Some r \<longrightarrow> p \<notin> member_ids r)"
  proof (cases "current_room_id sess")
    case None
    then have "in_no_room (repo (srv c)) p" using D(4) [OF closed(2)] by (simp add: socket_ok_def)
    then show ?thesis using None closed(4) shrinks_refl [OF D(1,2)] by (auto simp: in_no_room_def)
  next
    case (Some i)
    have l: "leave_room i p (srv c) = (removed, s')" using closed(4) Some by simp
    note A = leave_room_shrinks [OF D(1,2) l]
    have gr: "get_room (repo s') = get_room (repo (srv c))" using A by (simp add: get_room_def fun_eq_iff)
    have "p \<notin> member_ids r" if g: "get_room (repo s') j = Some x" "room_heap (repo s') x = Some r" for j x r
    proof
      assume p: "p \<in> member_ids r"
      then obtain r0 where "room_heap (repo (srv c)) x = Some r0" "p \<in> member_ids r0"
        using A g(2) unfolding shrinks_def fewer_people_def by blast
      then have "j = i" using live_owner_only [OF D(3)] g(1) gr closed(2) Some by fastforce
      then show False using A g p gr by auto
    qed
    then show ?thesis using A by blast
  qed
  then have sh: "shrinks (repo (srv c)) (repo s')" and out: "\<And>i x r. get_room (repo s') i = Some x \<Longrightarrow>
      room_heap (repo s') x = Some r \<Longrightarrow> p \<notin> member_ids r" by blast+
  have "(joining c)(p := None) = joining c" using closed(3) by auto
  with sys_ok_close [OF sys_ok_shrinks [OF ok' sh] out] show ?thesis
    by (simp add: system_ok_def closed(1))
next
  note ok' = ok [unfolded system_ok_def]
  note D = sys_okD [OF ok']
  case (aborted p sess found s' gone)
  have sh: "shrinks (repo (srv c)) (repo s')"
    using leave_first_shrinks [OF D(1,2) aborted(3)] by blast
  have out: "\<And>i x r. get_room (repo s') i = Some x \<Longrightarrow> room_heap (repo s') x = Some r \<Longrightarrow> p \<notin> member_ids r"
    using leave_first_everywhere [OF D(1,2,3) aborted(3)] by blast
  from sys_ok_close [OF sys_ok_shrinks [OF ok' sh] out] show ?thesis
    by (simp add: system_ok_def aborted(1))
next
  note ok' = ok [unfolded system_ok_def]
  note D = sys_okD [OF ok']
  case (deleted i)
  then show ?thesis using sys_ok_shrinks [OF ok' delete_shrinks [OF D(1,2)]] by (simp add: system_ok_def)
next
  note ok' = ok [unfolded system_ok_def]
  note D = sys_okD [OF ok']
  case (disconnected u i)
  then show ?thesis using sys_ok_shrinks [OF ok'] disconnect_shrinks [OF D(1,2)] by (simp add: system_ok_def)
next
  note ok' = ok [unfolded system_ok_def]
  note D = sys_okD [OF ok']
  case (revoked i)
  then show ?thesis using sys_ok_shrinks [OF ok'] revoke_shrinks [OF D(1,2)] by (simp add: system_ok_def)
next
  note ok' = ok [unfolded system_ok_def]
  note D = sys_okD [OF ok']
  case (media s')
  then show ?thesis using sys_ok_shrinks [OF ok'] keeps_people_shrinks [OF _ D(1,2)] by (simp add: system_ok_def)
qed

lemma reachable_ok: "reachable c \<Longrightarrow> system_ok c"
proof (induction rule: reachable.induct)
  case (start c)
  then show ?case
    by (auto simp: system_ok_def rooms_ok_def live_ok_def new_repository_def intro!: sys_okI
        repo_inv_new [unfolded new_repository_def])
next
  case (step c c')
  then show ?case using step_keeps by blast
qed


text \<open>A run: a socket connects, stays anonymous, and joins a new room.\<close>

definition run_0 :: "nat system" where
  "run_0 = \<lparr>srv = sample_server\<lparr>repo := new_repository\<rparr>, sockets = Map.empty, joining = Map.empty,
     used_ids = {}, emptied = {}\<rparr>"

definition run_1 :: "nat system" where
  "run_1 = run_0\<lparr>used_ids := insert (lit ''a'') (used_ids run_0),
     sockets := (sockets run_0)(lit ''a'' \<mapsto> new_session (lit ''a'')),
     srv := (srv run_0)\<lparr>queues := (queues (srv run_0))(lit ''a'' \<mapsto> [])\<rparr>\<rparr>"

text \<open>The session after \<open>Authenticate\<close> without a token, and the server after each step.\<close>

definition run_sess :: session where
  "run_sess = (new_session (lit ''a''))\<lparr>identity := undecided\<lparr>identity_decided := True\<rparr>\<rparr>"

definition run_2 :: "nat system" where
  "run_2 = run_1\<lparr>sockets := (sockets run_1)(lit ''a'' \<mapsto> run_sess),
     srv := reply (lit ''a'') (Authenticated 2 False) (srv run_1)\<rparr>"

definition run_3 :: "nat system" where
  "run_3 = run_2\<lparr>sockets := (sockets run_2)(lit ''a'' \<mapsto> decided run_sess),
     joining := (joining run_2)(lit ''a'' \<mapsto> Admitted (lit ''open'') Legacy (lit ''Ann'') None),
     srv := (srv run_2)\<lparr>wrong_passwords := Map.empty\<rparr>\<rparr>"

definition run_repo :: repository where
  "run_repo = snd (create_room (lit ''open'') new_repository)"

definition run_4 :: "nat system" where
  "run_4 = run_3\<lparr>joining := (joining run_3)(lit ''a'' \<mapsto> Ensured (lit ''open'') Legacy (lit ''Ann'') None),
     srv := (srv run_3)\<lparr>repo := run_repo\<rparr>\<rparr>"

definition run_5 :: "nat system" where
  "run_5 = run_4\<lparr>joining := (joining run_4)(lit ''a'' \<mapsto> Located 0 (lit ''open'') (lit ''Ann'') None)\<rparr>"

definition run_server :: "nat server" where
  "run_server = \<lparr>repo = run_repo, queues = [lit ''a'' \<mapsto> [Authenticated 2 False], lit ''b'' \<mapsto> []], world = 0,
     recorder_queue = [], wrong_passwords = Map.empty, spawned = []\<rparr>"

definition run_enter :: "(str + session) \<times> nat server" where
  "run_enter = join_enter sample_env [] 0 run_sess (lit ''open'') (lit ''Ann'') None run_server"

definition run_6 :: "nat system" where
  "run_6 = run_5\<lparr>joining := (joining run_5)(lit ''a'' := None),
     sockets := (sockets run_5)(lit ''a'' \<mapsto> run_sess
       \<lparr>current_room_id := Some (lit ''open''), participant_name := Some (lit ''Ann'')\<rparr>),
     srv := snd run_enter\<rparr>"

lemma run_enter_ok:
  "fst run_enter = Inr (run_sess\<lparr>current_room_id := Some (lit ''open''), participant_name := Some (lit ''Ann'')\<rparr>)"
  by code_simp

lemma run_6_room:
  "get_room (repo (srv run_6)) (lit ''open'') = Some 0"
  "case room_heap (repo (srv run_6)) 0 of None \<Rightarrow> False | Some r \<Rightarrow> map_of (participants r) (lit ''a'') \<noteq> None"
proof -
  have "get_room (repo (snd run_enter)) (lit ''open'') = Some 0" by code_simp
  then show "get_room (repo (srv run_6)) (lit ''open'') = Some 0" by (simp add: run_6_def)
  have "case room_heap (repo (snd run_enter)) 0 of None \<Rightarrow> False
      | Some r \<Rightarrow> map_of (participants r) (lit ''a'') \<noteq> None" by code_simp
  then show "case room_heap (repo (srv run_6)) 0 of None \<Rightarrow> False
      | Some r \<Rightarrow> map_of (participants r) (lit ''a'') \<noteq> None" by (simp add: run_6_def)
qed

lemma run_6_reachable: "reachable run_6"
proof -
  let ?a = "lit ''a''"
  have r0: "reachable run_0" by (rule reachable.start) (simp_all add: run_0_def)
  have s1: "server_step run_0 run_1"
    unfolding run_1_def by (rule server_step.connect) (simp add: run_0_def)
  have k1: "sockets run_1 ?a = Some (new_session ?a)" "joining run_1 = Map.empty"
    by (simp_all add: run_1_def run_0_def)
  have auth: "receive_frame sample_env (\<lambda>_ s. s) [] (Text (Inr (Authenticate 2 None))) (new_session ?a) (srv run_1) =
      (True, run_sess, reply ?a (Authenticated 2 False) (srv run_1))"
    by (simp add: receive_frame_def authenticate_session_def SIGNALING_PROTOCOL_VERSION_def run_sess_def
        new_session_def undecided_def Let_def)
  have s2: "server_step run_1 run_2"
    unfolding run_2_def by (rule server_step.receive [OF k1(1) _ _ auth]) (simp_all add: k1)
  have k2: "sockets run_2 ?a = Some run_sess" "joining run_2 ?a = None" "wrong_passwords (srv run_2) = Map.empty"
    by (simp_all add: run_2_def k1 run_1_def run_0_def sample_server_def)
  have d: "identity_decided (identity run_sess)" by (simp add: run_sess_def)
  have dd: "decided run_sess = run_sess" using d by simp
  have "authorize_sfu_room (db_at sample_env 0) (db_now sample_env 0) (lit ''open'') None = Inr Legacy"
    "find_room sample_calls (lit ''open'') = None" "trim (lit ''Ann'') = lit ''Ann''" by code_simp+
  then have adm: "join_admission sample_env (decided run_sess) (lit ''open'') (lit ''Ann'') None
      (wrong_passwords (srv run_2)) = (Inr (Legacy, lit ''Ann''), Map.empty)"
    using d k2(3) by (simp add: join_admission_def run_sess_def new_session_def undecided_def lit_def
        admit_to_meeting_room_def sample_env_def)
  have s3: "server_step run_2 run_3"
    unfolding run_3_def by (rule server_step.join_admitted [OF k2(1,2) _ adm]) (simp add: d)
  have k3: "sockets run_3 ?a = Some run_sess" "repo (srv run_3) = new_repository"
    "joining run_3 ?a = Some (Admitted (lit ''open'') Legacy (lit ''Ann'') None)"
    using d dd by (simp_all add: run_3_def run_2_def run_1_def run_0_def)
  have ens: "join_ensure (lit ''open'') (repo (srv run_3)) = (Inr (), run_repo)"
    unfolding k3(2) run_repo_def
    by (simp add: join_ensure_def room_exists_def create_room_def new_repository_def)
  have s4: "server_step run_3 run_4"
    unfolding run_4_def by (rule server_step.join_room_ready [OF k3(3) ens])
  have k4: "sockets run_4 ?a = Some run_sess" "get_room (repo (srv run_4)) (lit ''open'') = Some 0"
    "joining run_4 ?a = Some (Ensured (lit ''open'') Legacy (lit ''Ann'') None)"
    by (simp_all add: dd run_4_def k3 run_repo_def create_room_def new_repository_def get_room_def)
  have s5: "server_step run_4 run_5"
    unfolding run_5_def
    by (rule server_step.join_located [OF k4(3,1,2), where E = sample_env]) (simp add: join_recheck_def)
  have k5: "sockets run_5 ?a = Some run_sess" "srv run_5 = run_server"
    "joining run_5 ?a = Some (Located 0 (lit ''open'') (lit ''Ann'') None)"
    by (simp_all add: dd run_5_def k4 run_4_def run_3_def run_2_def run_1_def run_0_def run_server_def
        sample_server_def reply_def push_def chan_send_def lit_def fun_upd_twist)
  have s6: "server_step run_5 run_6"
    unfolding run_6_def
    by (rule server_step.join_entered [OF k5(3,1), where during = "[]" and E = sample_env])
      (use run_enter_ok in \<open>simp_all add: run_enter_def prod_eq_iff k5(2)\<close>)
  show ?thesis
    by (rule reachable.step [OF reachable.step [OF reachable.step [OF reachable.step [OF reachable.step
          [OF reachable.step [OF r0 s1] s2] s3] s4] s5] s6])
qed


end
