(* ===== verification/PublicLinks.thy ===== *)
theory PublicLinks
  imports Avatars
begin

text \<open>
  Which links the server fetches (\<open>src/social/link_previews.rs\<close>): public addresses, public URLs, the resolver and
  the redirect policy of the HTTP client. The URL library is the parameter \<open>url_library\<close>; the predicates on
  addresses are those of \<open>std::net\<close>.
\<close>

unbundle bit_operations_syntax

section \<open>Addresses\<close>

record ipv4_addr =
  oct_a :: "8 word"
  oct_b :: "8 word"
  oct_c :: "8 word"
  oct_d :: "8 word"

record ipv6_addr =
  seg_0 :: "16 word"
  seg_1 :: "16 word"
  seg_2 :: "16 word"
  seg_3 :: "16 word"
  seg_4 :: "16 word"
  seg_5 :: "16 word"
  seg_6 :: "16 word"
  seg_7 :: "16 word"

datatype ip_addr = V4 ipv4_addr | V6 ipv6_addr

definition octets :: "8 word \<Rightarrow> 8 word \<Rightarrow> 8 word \<Rightarrow> 8 word \<Rightarrow> ipv4_addr" where
  "octets a b c d = \<lparr>oct_a = a, oct_b = b, oct_c = c, oct_d = d\<rparr>"

text \<open>\<open>std::net::Ipv4Addr\<close>.\<close>

definition is_unspecified :: "ipv4_addr \<Rightarrow> bool" where "is_unspecified ip \<longleftrightarrow> ip = octets 0 0 0 0"
definition is_loopback :: "ipv4_addr \<Rightarrow> bool" where "is_loopback ip \<longleftrightarrow> oct_a ip = 127"
definition is_private :: "ipv4_addr \<Rightarrow> bool" where
  "is_private ip \<longleftrightarrow> oct_a ip = 10 \<or> (oct_a ip = 172 \<and> 16 \<le> oct_b ip \<and> oct_b ip \<le> 31) \<or> (oct_a ip = 192 \<and> oct_b ip = 168)"
definition is_link_local :: "ipv4_addr \<Rightarrow> bool" where "is_link_local ip \<longleftrightarrow> oct_a ip = 169 \<and> oct_b ip = 254"
definition is_broadcast :: "ipv4_addr \<Rightarrow> bool" where "is_broadcast ip \<longleftrightarrow> ip = octets 255 255 255 255"
definition is_documentation :: "ipv4_addr \<Rightarrow> bool" where
  "is_documentation ip \<longleftrightarrow> (oct_a ip = 192 \<and> oct_b ip = 0 \<and> oct_c ip = 2) \<or>
     (oct_a ip = 198 \<and> oct_b ip = 51 \<and> oct_c ip = 100) \<or> (oct_a ip = 203 \<and> oct_b ip = 0 \<and> oct_c ip = 113)"
definition is_multicast :: "ipv4_addr \<Rightarrow> bool" where "is_multicast ip \<longleftrightarrow> 224 \<le> oct_a ip \<and> oct_a ip \<le> 239"

definition is_public_ipv4 :: "ipv4_addr \<Rightarrow> bool" where
  "is_public_ipv4 ip \<longleftrightarrow>
     \<not> (is_unspecified ip \<or> is_private ip \<or> is_loopback ip \<or> is_link_local ip \<or> is_broadcast ip \<or>
        is_documentation ip \<or> is_multicast ip \<or> oct_a ip = 0 \<or>
        (oct_a ip = 100 \<and> 64 \<le> oct_b ip \<and> oct_b ip \<le> 127) \<or>
        (oct_a ip = 192 \<and> oct_b ip = 0 \<and> oct_c ip = 0) \<or>
        (oct_a ip = 198 \<and> 18 \<le> oct_b ip \<and> oct_b ip \<le> 19) \<or> 240 \<le> oct_a ip)"

text \<open>The IPv4 address in the last 32 bits of an IPv6 address.\<close>

definition last_octets :: "ipv6_addr \<Rightarrow> ipv4_addr" where
  "last_octets ip = octets (ucast (drop_bit 8 (seg_6 ip))) (ucast (seg_6 ip)) (ucast (drop_bit 8 (seg_7 ip))) (ucast (seg_7 ip))"

definition to_ipv4_mapped :: "ipv6_addr \<Rightarrow> ipv4_addr option" where
  "to_ipv4_mapped ip =
     (if seg_0 ip = 0 \<and> seg_1 ip = 0 \<and> seg_2 ip = 0 \<and> seg_3 ip = 0 \<and> seg_4 ip = 0 \<and> seg_5 ip = 0xffff
      then Some (last_octets ip) else None)"

definition is_nat64 :: "ipv6_addr \<Rightarrow> bool" where
  "is_nat64 ip \<longleftrightarrow> seg_0 ip = 0x64 \<and> seg_1 ip = 0xff9b \<and> seg_2 ip = 0 \<and> seg_3 ip = 0 \<and> seg_4 ip = 0 \<and> seg_5 ip = 0"

definition zero_prefix :: "ipv6_addr \<Rightarrow> bool" where
  "zero_prefix ip \<longleftrightarrow> seg_0 ip = 0 \<and> seg_1 ip = 0 \<and> seg_2 ip = 0 \<and> seg_3 ip = 0 \<and> seg_4 ip = 0 \<and> seg_5 ip = 0 \<and> seg_6 ip = 0"

fun is_public_ip :: "ip_addr \<Rightarrow> bool" where
  "is_public_ip (V4 ip) = is_public_ipv4 ip"
| "is_public_ip (V6 ip) =
     (case to_ipv4_mapped ip of
        Some mapped \<Rightarrow> is_public_ipv4 mapped
      | None \<Rightarrow>
          if is_nat64 ip then is_public_ipv4 (last_octets ip)
          else \<not> ((zero_prefix ip \<and> seg_7 ip = 0) \<or> (zero_prefix ip \<and> seg_7 ip = 1) \<or> seg_0 ip AND 0xff00 = 0xff00 \<or>
            seg_0 ip AND 0xfe00 = 0xfc00 \<or> seg_0 ip AND 0xffc0 = 0xfe80 \<or> (seg_0 ip = 0x2001 \<and> seg_1 ip = 0x0db8)))"

section \<open>URLs\<close>

datatype url_host = Ipv4 ipv4_addr | Ipv6 ipv6_addr | Domain str

record url =
  u_scheme :: str
  u_username :: str
  u_password :: "str option"
  u_port :: "nat option"
  u_host :: "url_host option"
  u_path :: str
  u_fragment :: "str option"

text \<open>\<open>Url::parse\<close>, \<open>Url::as_str\<close>, \<open>Url::join\<close> and \<open>Url::host_str\<close>.\<close>

record url_library =
  ul_parse :: "str \<Rightarrow> url option"
  ul_text :: "url \<Rightarrow> str"
  ul_join :: "url \<Rightarrow> str \<Rightarrow> url option"
  ul_host_str :: "url \<Rightarrow> str option"

definition MAX_URL_BYTES :: nat where "MAX_URL_BYTES = 2048"

definition ends_with :: "'a list \<Rightarrow> 'a list \<Rightarrow> bool" where
  "ends_with p s \<longleftrightarrow> starts_with (rev p) (rev s)"

definition internal_suffixes :: "str list" where
  "internal_suffixes = [lit ''localhost'', lit ''local'', lit ''internal'', lit ''home.arpa'']"

definition is_internal_name :: "str \<Rightarrow> bool" where
  "is_internal_name domain \<longleftrightarrow>
     (let domain = map to_ascii_lower (rev (dropWhile (\<lambda>c. c = 46) (rev domain))) in
      46 \<notin> set domain \<or> list_ex (\<lambda>s. domain = s \<or> ends_with (46 # s) domain) internal_suffixes)"

text \<open>The host of an accepted URL: a public literal, or a name that the resolver will check.\<close>

definition acceptable_host :: "url_host \<Rightarrow> bool" where
  "acceptable_host h = (case h of
     Ipv4 ip \<Rightarrow> is_public_ip (V4 ip) | Ipv6 ip \<Rightarrow> is_public_ip (V6 ip) | Domain name \<Rightarrow> \<not> is_internal_name name)"

definition parse_public_url :: "url_library \<Rightarrow> str \<Rightarrow> url option" where
  "parse_public_url U raw =
     (if MAX_URL_BYTES < byte_len raw then None
      else Option.bind (ul_parse U (trim raw)) (\<lambda>u.
        if u_scheme u \<notin> {lit ''http'', lit ''https''} \<or> u_username u \<noteq> [] then None
        else if u_password u \<noteq> None \<or> u_port u \<noteq> None then None
        else Option.bind (u_host u) (\<lambda>h. if acceptable_host h then Some (u\<lparr>u_fragment := None\<rparr>) else None)))"

section \<open>The client\<close>

text \<open>\<open>PublicResolver\<close>: every address of the answer must be public.\<close>

definition resolve :: "(str \<Rightarrow> ip_addr list option) \<Rightarrow> str \<Rightarrow> ip_addr list option" where
  "resolve lookup_host name = Option.bind (lookup_host name) (\<lambda>addresses.
     if addresses = [] \<or> \<not> list_all is_public_ip addresses then None else Some addresses)"

definition MAX_REDIRECTS :: nat where "MAX_REDIRECTS = 3"

datatype redirect_action = TooMany | Stop | Follow

definition redirect_policy :: "url_library \<Rightarrow> nat \<Rightarrow> url \<Rightarrow> redirect_action" where
  "redirect_policy U previous u =
     (if MAX_REDIRECTS \<le> previous then TooMany
      else if parse_public_url U (ul_text U u) = None then Stop else Follow)"

lemma parse_public_url_Some:
  assumes "parse_public_url U raw = Some v"
  obtains u h where "ul_parse U (trim raw) = Some u" "u_host u = Some h" "acceptable_host h" "v = u\<lparr>u_fragment := None\<rparr>"
  using assms by (auto simp: parse_public_url_def split: if_splits option.splits bind_splits)

lemma resolve_public: "resolve f name = Some addresses \<Longrightarrow> a \<in> set addresses \<Longrightarrow> is_public_ip a"
  by (auto simp: resolve_def list_all_iff split: if_splits bind_splits)

section \<open>Addresses as numbers\<close>

text \<open>The blocks of the IANA registry that the check of IPv4 addresses refuses, as intervals of numbers.\<close>

definition ipv4_number :: "ipv4_addr \<Rightarrow> nat" where
  "ipv4_number ip = ((unat (oct_a ip) * 256 + unat (oct_b ip)) * 256 + unat (oct_c ip)) * 256 + unat (oct_d ip)"

definition block :: "nat \<Rightarrow> nat \<Rightarrow> nat \<Rightarrow> nat \<Rightarrow> nat \<Rightarrow> nat \<times> nat" where
  "block a b c d n = (let start = ((a * 256 + b) * 256 + c) * 256 + d in (start, start + 2 ^ (32 - n)))"

definition refused_blocks :: "(nat \<times> nat) list" where
  "refused_blocks = [block 0 0 0 0 8, block 10 0 0 0 8, block 100 64 0 0 10, block 127 0 0 0 8, block 169 254 0 0 16,
     block 172 16 0 0 12, block 192 0 0 0 24, block 192 0 2 0 24, block 192 168 0 0 16, block 198 18 0 0 15,
     block 198 51 100 0 24, block 203 0 113 0 24, block 224 0 0 0 4, block 240 0 0 0 4]"

lemma octet_nat: "oct_a ip = a \<longleftrightarrow> unat (oct_a ip) = unat a" "oct_b ip = a \<longleftrightarrow> unat (oct_b ip) = unat a"
  "oct_c ip = a \<longleftrightarrow> unat (oct_c ip) = unat a" "oct_d ip = a \<longleftrightarrow> unat (oct_d ip) = unat a"
  by (simp_all add: word_unat_eq_iff)

lemma octet_bound: "unat (w :: 8 word) < 256"
  using unsigned_less [of w] by simp

lemma public_ipv4_blocks:
  "is_public_ipv4 ip \<longleftrightarrow> \<not> list_ex (\<lambda>(low, high). low \<le> ipv4_number ip \<and> ipv4_number ip < high) refused_blocks"
proof -
  define a b c d where "a = unat (oct_a ip)" "b = unat (oct_b ip)" "c = unat (oct_c ip)" "d = unat (oct_d ip)"
  have bounds: "a < 256" "b < 256" "c < 256" "d < 256"
    using octet_bound by (simp_all add: a_b_c_d_def)
  have le: "k \<le> oct_a ip \<longleftrightarrow> unat k \<le> a" "oct_a ip \<le> k \<longleftrightarrow> a \<le> unat k" "k \<le> oct_b ip \<longleftrightarrow> unat k \<le> b" "oct_b ip \<le> k \<longleftrightarrow> b \<le> unat k" for k
    by (simp_all add: word_le_nat_alt a_b_c_d_def)
  have n: "ipv4_number ip = ((a * 256 + b) * 256 + c) * 256 + d" by (simp add: ipv4_number_def a_b_c_d_def)
  have zero: "ip = octets x y z w \<longleftrightarrow> a = unat x \<and> b = unat y \<and> c = unat z \<and> d = unat w" for x y z w
    by (cases ip) (simp add: octets_def a_b_c_d_def word_unat_eq_iff)
  have within: "(let start = k * m in start \<le> x \<and> x < start + l * m) \<longleftrightarrow> k \<le> x div m \<and> x div m < k + l" if "0 < m" for k l m x :: nat
    using that by (simp add: less_eq_div_iff_mult_less_eq div_less_iff_less_mult Let_def distrib_right)
  have div: "ipv4_number ip div 16777216 = a" "ipv4_number ip div 65536 = a * 256 + b"
    "ipv4_number ip div 256 = (a * 256 + b) * 256 + c" using bounds by (simp_all add: n)
  have blocks: "list_ex (\<lambda>(low, high). low \<le> ipv4_number ip \<and> ipv4_number ip < high) refused_blocks \<longleftrightarrow>
      a = 0 \<or> a = 10 \<or> (a = 100 \<and> 64 \<le> b \<and> b \<le> 127) \<or> a = 127 \<or> (a = 169 \<and> b = 254) \<or>
      (a = 172 \<and> 16 \<le> b \<and> b \<le> 31) \<or> (a = 192 \<and> b = 0 \<and> c = 0) \<or> (a = 192 \<and> b = 0 \<and> c = 2) \<or>
      (a = 192 \<and> b = 168) \<or> (a = 198 \<and> 18 \<le> b \<and> b \<le> 19) \<or> (a = 198 \<and> b = 51 \<and> c = 100) \<or>
      (a = 203 \<and> b = 0 \<and> c = 113) \<or> (224 \<le> a \<and> a < 240) \<or> 240 \<le> a"
  proof -
    have one: "x * 16777216 \<le> ipv4_number ip \<and> ipv4_number ip < x * 16777216 + l * 16777216 \<longleftrightarrow> x \<le> a \<and> a < x + l" for x l
      using within [of 16777216 x "ipv4_number ip" l] by (simp add: div Let_def)
    have two: "x * 65536 \<le> ipv4_number ip \<and> ipv4_number ip < x * 65536 + l * 65536 \<longleftrightarrow> x \<le> a * 256 + b \<and> a * 256 + b < x + l" for x l
      using within [of 65536 x "ipv4_number ip" l] by (simp add: div Let_def)
    have three: "x * 256 \<le> ipv4_number ip \<and> ipv4_number ip < x * 256 + l * 256 \<longleftrightarrow>
        x \<le> (a * 256 + b) * 256 + c \<and> (a * 256 + b) * 256 + c < x + l" for x l
      using within [of 256 x "ipv4_number ip" l] by (simp add: div Let_def)
    have exact: "k \<le> v \<and> v < k + 1 \<longleftrightarrow> v = k" for k v :: nat by auto
    have digit: "x * 256 + y = k \<longleftrightarrow> x = k div 256 \<and> y = k mod 256" if "y < 256" for x y k :: nat using that by auto
    have range: "q * 256 + r \<le> x * 256 + y \<and> x * 256 + y < q * 256 + r + l \<longleftrightarrow> x = q \<and> r \<le> y \<and> y < r + l"
      if "r + l \<le> 256" "y < 256" for r l y q x :: nat using that by (cases x q rule: linorder_cases) auto
    have triple: "(a * 256 + b) * 256 + c = k \<longleftrightarrow> a = k div 65536 \<and> b = k div 256 mod 256 \<and> c = k mod 256" for k
      using digit [OF bounds(3), of "a * 256 + b" k] digit [OF bounds(2), of a "k div 256"]
      by (simp add: div_mult2_eq [symmetric])
    have b1: "ipv4_number ip < 16777216 \<longleftrightarrow> a = 0"
      using one [of 0 1] bounds by (simp; arith)
    have b2: "167772160 \<le> ipv4_number ip \<and> ipv4_number ip < 184549376 \<longleftrightarrow> a = 10"
      using one [of 10 1] bounds by (simp; arith)
    have b3: "1681915904 \<le> ipv4_number ip \<and> ipv4_number ip < 1686110208 \<longleftrightarrow> a = 100 \<and> 64 \<le> b \<and> b \<le> 127"
      using two [of 25664 64] range [of 64 64 b 100 a] bounds by (simp; arith)
    have b4: "2130706432 \<le> ipv4_number ip \<and> ipv4_number ip < 2147483648 \<longleftrightarrow> a = 127"
      using one [of 127 1] bounds by (simp; arith)
    have b5: "2851995648 \<le> ipv4_number ip \<and> ipv4_number ip < 2852061184 \<longleftrightarrow> a = 169 \<and> b = 254"
      using two [of 43518 1] range [of 254 1 b 169 a] bounds by (simp; arith)
    have b6: "2886729728 \<le> ipv4_number ip \<and> ipv4_number ip < 2887778304 \<longleftrightarrow> a = 172 \<and> 16 \<le> b \<and> b \<le> 31"
      using two [of 44048 16] range [of 16 16 b 172 a] bounds by (simp; arith)
    have b7: "3221225472 \<le> ipv4_number ip \<and> ipv4_number ip < 3221225728 \<longleftrightarrow> a = 192 \<and> b = 0 \<and> c = 0"
      using three [of 12582912 1] exact [of 12582912 "(a * 256 + b) * 256 + c"] triple [of 12582912] by simp
    have b8: "3221225984 \<le> ipv4_number ip \<and> ipv4_number ip < 3221226240 \<longleftrightarrow> a = 192 \<and> b = 0 \<and> c = 2"
      using three [of 12582914 1] exact [of 12582914 "(a * 256 + b) * 256 + c"] triple [of 12582914] by simp
    have b9: "3232235520 \<le> ipv4_number ip \<and> ipv4_number ip < 3232301056 \<longleftrightarrow> a = 192 \<and> b = 168"
      using two [of 49320 1] range [of 168 1 b 192 a] bounds by (simp; arith)
    have b10: "3323068416 \<le> ipv4_number ip \<and> ipv4_number ip < 3323199488 \<longleftrightarrow> a = 198 \<and> 18 \<le> b \<and> b \<le> 19"
      using two [of 50706 2] range [of 18 2 b 198 a] bounds by (simp; arith)
    have b11: "3325256704 \<le> ipv4_number ip \<and> ipv4_number ip < 3325256960 \<longleftrightarrow> a = 198 \<and> b = 51 \<and> c = 100"
      using three [of 12989284 1] exact [of 12989284 "(a * 256 + b) * 256 + c"] triple [of 12989284] by simp
    have b12: "3405803776 \<le> ipv4_number ip \<and> ipv4_number ip < 3405804032 \<longleftrightarrow> a = 203 \<and> b = 0 \<and> c = 113"
      using three [of 13303921 1] exact [of 13303921 "(a * 256 + b) * 256 + c"] triple [of 13303921] by simp
    have b13: "3758096384 \<le> ipv4_number ip \<and> ipv4_number ip < 4026531840 \<longleftrightarrow> 224 \<le> a \<and> a < 240"
      using one [of 224 16] bounds by (simp; arith)
    have b14: "4026531840 \<le> ipv4_number ip \<and> ipv4_number ip < 4294967296 \<longleftrightarrow> 240 \<le> a"
      using one [of 240 16] bounds by (simp; arith)
    show ?thesis unfolding refused_blocks_def block_def Let_def by (simp add: b1 b2 b3 b4 b5 b6 b7 b8 b9 b10 b11 b12 b13 b14)
  qed
  show ?thesis
    using bounds unfolding is_public_ipv4_def is_unspecified_def is_loopback_def is_private_def is_link_local_def
      is_broadcast_def is_documentation_def is_multicast_def zero octet_nat le a_b_c_d_def [symmetric] blocks
    by simp presburger
qed

end
