(* ===== verification/LinkPreviews.thy ===== *)
theory LinkPreviews
  imports PublicLinks
begin

text \<open>
  Previews of links in chat messages (\<open>src/social/link_previews.rs\<close>): reading the metadata of a page, fetching
  pages and images, the cache of previews, and the two requests. What the web answers and which addresses the
  client contacts are parameters; the contacted addresses are recorded.
\<close>

section \<open>Searching in text\<close>

text \<open>\<open>str::find\<close> of a text and of a character with a property.\<close>

fun find_str :: "str \<Rightarrow> str \<Rightarrow> nat option" where
  "find_str p [] = (if p = [] then Some 0 else None)"
| "find_str p (c # s) = (if starts_with p (c # s) then Some 0 else map_option Suc (find_str p s))"

fun find_char :: "(uchar \<Rightarrow> bool) \<Rightarrow> str \<Rightarrow> nat option" where
  "find_char P [] = None"
| "find_char P (c # s) = (if P c then Some 0 else map_option Suc (find_char P s))"

lemma find_char_Some: "find_char P s = Some k \<Longrightarrow> k < length s \<and> P (s ! k) \<and> (\<forall>j < k. \<not> P (s ! j))"
  by (induction s arbitrary: k) (auto split: if_splits simp: less_Suc_eq_0_disj)

lemma find_char_None: "find_char P s = None \<longleftrightarrow> (\<forall>c \<in> set s. \<not> P c)"
  by (induction s) auto

lemma find_str_bound: "find_str p s = Some k \<Longrightarrow> k + length p \<le> length s"
proof (induction p s arbitrary: k rule: find_str.induct)
  case (2 p c s)
  show ?case
  proof (cases "starts_with p (c # s)")
    case True
    with 2(2) have "k = 0" by simp
    moreover have "length p \<le> Suc (length s)" using True by (auto simp: starts_with_def dest: arg_cong [where f = length])
    ultimately show ?thesis by simp
  next
    case False
    with 2(2) obtain j where "find_str p s = Some j" "k = Suc j" by auto
    with 2(1) False show ?thesis by fastforce
  qed
qed (auto split: if_splits)

section \<open>Attributes of a tag\<close>

definition skipped :: "uchar \<Rightarrow> bool" where
  "skipped c \<longleftrightarrow> is_whitespace c \<or> c = 47"

definition name_ends :: "uchar \<Rightarrow> bool" where
  "name_ends c \<longleftrightarrow> c = 61 \<or> is_whitespace c \<or> c = 47"

text \<open>The value after an equals sign: up to the closing quote, or to the next white space.\<close>

definition attribute_value :: "str \<Rightarrow> str \<times> str" where
  "attribute_value after = (case after of
     c # value \<Rightarrow>
       if c = 34 \<or> c = 39 then
         (case find_char (\<lambda>x. x = c) value of
            Some n \<Rightarrow> (take n value, drop (Suc n) value)
          | None \<Rightarrow> (value, []))
       else (let n = (case find_char is_whitespace after of Some n \<Rightarrow> n | None \<Rightarrow> length after) in (take n after, drop n after))
   | [] \<Rightarrow> ([], []))"

text \<open>One pass of the loop; \<open>None\<close> when nothing is left.\<close>

definition attribute_pass :: "str \<Rightarrow> (str \<rightharpoonup> str) \<Rightarrow> (str \<times> (str \<rightharpoonup> str)) option" where
  "attribute_pass rest attributes =
     (let rest = dropWhile skipped rest in
      if rest = [] then None
      else
        let name_end = (case find_char name_ends rest of Some n \<Rightarrow> n | None \<Rightarrow> length rest);
            name = map to_ascii_lower (take name_end rest);
            rest = trim_start (drop name_end rest) in
        case strip_prefix [61] rest of
          None \<Rightarrow> Some (if name_end = 0 then tl rest else rest,
                       if name = [] then attributes else attributes(name \<mapsto> []))
        | Some after \<Rightarrow>
            (case attribute_value (trim_start after) of (value, remaining) \<Rightarrow>
               Some (remaining, if name = [] then attributes else attributes(name \<mapsto> value))))"

text \<open>Every pass consumes something.\<close>

lemma attribute_value_length: "length (snd (attribute_value after)) \<le> length after"
  by (auto simp: attribute_value_def Let_def split: list.splits option.splits)

lemma attribute_pass_shorter:
  assumes "attribute_pass rest attributes = Some (rest', attributes')"
  shows "length rest' < length rest"
proof -
  define r where "r = dropWhile skipped rest"
  define n where "n = (case find_char name_ends r of Some n \<Rightarrow> n | None \<Rightarrow> length r)"
  define t where "t = trim_start (drop n r)"
  have r: "r \<noteq> []" "length r \<le> length rest"
    using assms by (auto simp: attribute_pass_def r_def Let_def length_dropWhile_le split: if_splits)
  have "\<not> skipped (hd r)" using r(1) hd_dropWhile unfolding r_def by metis
  have t: "length t \<le> length r - n" unfolding t_def trim_start_def using length_dropWhile_le [of is_whitespace "drop n r"] by simp
  show ?thesis
  proof (cases "strip_prefix [61] t")
    case None
    have "0 < n"
    proof (rule ccontr)
      assume "\<not> 0 < n"
      then have "name_ends (hd r)" using r(1) find_char_Some [of name_ends r 0]
        by (cases r) (auto simp: n_def split: option.splits if_splits)
      with \<open>\<not> skipped (hd r)\<close> have h: "hd r = 61" "\<not> is_whitespace (hd r)" by (auto simp: name_ends_def skipped_def)
      have "t = r" using \<open>\<not> 0 < n\<close> h(2) r(1) by (cases r) (simp_all add: t_def trim_start_def)
      with h(1) r(1) None show False by (cases r) simp_all
    qed
    moreover have "rest' = t" using assms None r(1) \<open>0 < n\<close>
      by (auto simp: attribute_pass_def r_def [symmetric] n_def [symmetric] t_def [symmetric] Let_def)
    ultimately show ?thesis using t r by (cases r) auto
  next
    case (Some after)
    then have "t = 61 # after" by (simp add: strip_prefix_Some)
    moreover have "rest' = snd (attribute_value (trim_start after))" using assms Some r(1)
      by (auto simp: attribute_pass_def r_def [symmetric] n_def [symmetric] t_def [symmetric] Let_def split: prod.splits)
    ultimately show ?thesis using t r attribute_value_length [of "trim_start after"] length_dropWhile_le [of is_whitespace after]
      by (simp add: trim_start_def)
  qed
qed

function attribute_loop :: "str \<Rightarrow> (str \<rightharpoonup> str) \<Rightarrow> (str \<rightharpoonup> str)" where
  "attribute_loop rest attributes = (case attribute_pass rest attributes of
     None \<Rightarrow> attributes | Some (rest', attributes') \<Rightarrow> attribute_loop rest' attributes')"
  by pat_completeness auto
termination
  by (relation "measure (length \<circ> fst)") (auto dest: attribute_pass_shorter)

declare attribute_loop.simps [simp del]

definition parse_attributes :: "str \<Rightarrow> (str \<rightharpoonup> str)" where
  "parse_attributes tag = attribute_loop (dropWhile (\<lambda>c. c = 47) tag) Map.empty"

section \<open>Text of a page\<close>

text \<open>\<open>u32::from_str_radix\<close>: an optional plus sign and digits, below 2^32.\<close>

definition digit_value :: "nat \<Rightarrow> uchar \<Rightarrow> nat option" where
  "digit_value radix c =
     (let v = (if is_ascii_digit c then Some (c - 48)
               else if is_ascii_lowercase c then Some (c - 97 + 10)
               else if is_ascii_uppercase c then Some (c - 65 + 10) else None) in
      case v of None \<Rightarrow> None | Some k \<Rightarrow> if k < radix then Some k else None)"

definition parse_u32 :: "nat \<Rightarrow> str \<Rightarrow> nat option" where
  "parse_u32 radix s =
     (let digits = (case s of c # cs \<Rightarrow> if c = 43 \<and> cs \<noteq> [] then cs else s | [] \<Rightarrow> []) in
      if digits = [] \<or> list_ex (\<lambda>c. digit_value radix c = None) digits then None
      else let n = foldl (\<lambda>n c. n * radix + the (digit_value radix c)) 0 digits in
        if n < 2 ^ 32 then Some n else None)"

definition char_from_u32 :: "nat \<Rightarrow> uchar option" where
  "char_from_u32 n = (if n < 1114112 \<and> (n < 55296 \<or> 57344 \<le> n) then Some n else None)"

definition or_else :: "'a option \<Rightarrow> 'a option \<Rightarrow> 'a option" where
  "or_else x y = (case x of None \<Rightarrow> y | Some v \<Rightarrow> Some v)"

definition entity_character :: "str \<Rightarrow> uchar option" where
  "entity_character entity =
     (if entity = lit ''amp'' then Some 38 else if entity = lit ''lt'' then Some 60
      else if entity = lit ''gt'' then Some 62 else if entity = lit ''quot'' then Some 34
      else if entity = lit ''apos'' then Some 39 else if entity = lit ''nbsp'' then Some 32
      else Option.bind
        (or_else (Option.bind (or_else (strip_prefix (lit ''#x'') entity) (strip_prefix (lit ''#X'') entity)) (parse_u32 16))
           (Option.bind (strip_prefix (lit ''#'') entity) (parse_u32 10)))
        char_from_u32)"

text \<open>At an ampersand: the character it stands for and the length of the entity, if it is one.\<close>

definition entity_at :: "str \<Rightarrow> (uchar \<times> nat) option" where
  "entity_at rest = Option.bind (find_char (\<lambda>c. c = 59) rest) (\<lambda>n.
     if 12 < byte_len (take n rest) then None
     else map_option (\<lambda>c. (c, Suc n)) (entity_character (tl (take n rest))))"

function decode_entities :: "str \<Rightarrow> str" where
  "decode_entities rest = (case rest of [] \<Rightarrow> []
     | c # cs \<Rightarrow>
         if c \<noteq> 38 then c # decode_entities cs
         else case entity_at rest of
                Some (character, n) \<Rightarrow> character # decode_entities (drop n rest)
              | None \<Rightarrow> 38 # decode_entities cs)"
  by pat_completeness auto
termination
  by (relation "measure length") (auto simp: entity_at_def split: bind_splits if_splits)

declare decode_entities.simps [simp del]

fun join_words :: "str list \<Rightarrow> str" where
  "join_words [] = []"
| "join_words [w] = w"
| "join_words (w # ws) = w @ [32] @ join_words ws"

definition clean_text :: "str \<Rightarrow> str" where
  "clean_text s = join_words (split_whitespace (decode_entities s))"

definition truncated :: "str \<Rightarrow> nat \<Rightarrow> str" where
  "truncated s limit = take limit s @ (if drop limit s \<noteq> [] then [8230] else [])"

section \<open>The metadata of a page\<close>

definition MAX_TITLE_CHARACTERS :: nat where "MAX_TITLE_CHARACTERS = 200"
definition MAX_DESCRIPTION_CHARACTERS :: nat where "MAX_DESCRIPTION_CHARACTERS = 300"

record link_preview =
  lp_url :: str
  lp_title :: "str option"
  lp_description :: "str option"
  lp_site_name :: "str option"
  lp_has_image :: bool
  lp_image_url :: "url option"

text \<open>The meta tag found next, from a position on: the positions of its start and of its end.\<close>

definition next_meta :: "str \<Rightarrow> nat \<Rightarrow> (nat \<times> nat) option" where
  "next_meta lower_head search_from =
     Option.bind (find_str (lit ''<meta'') (drop search_from lower_head)) (\<lambda>offset.
     let start = search_from + offset in
     map_option (\<lambda>n. (start, start + n)) (find_char (\<lambda>c. c = 62) (drop start lower_head)))"

definition add_meta :: "(str \<rightharpoonup> str) \<Rightarrow> (str \<rightharpoonup> str) \<Rightarrow> (str \<rightharpoonup> str)" where
  "add_meta meta attributes =
     (case (or_else (attributes (lit ''property'')) (attributes (lit ''name'')), attributes (lit ''content'')) of
        (Some k, Some content) \<Rightarrow> (let k = map to_ascii_lower k in if meta k = None then meta(k \<mapsto> content) else meta)
      | _ \<Rightarrow> meta)"

lemma find_str_at: "find_str p s = Some k \<Longrightarrow> starts_with p (drop k s)"
  by (induction p s arbitrary: k rule: find_str.induct) (auto simp: starts_with_def split: if_splits)

lemma next_meta_advances:
  assumes "next_meta s k = Some (start, stop)"
  shows "k < stop \<and> stop < length s"
proof -
  obtain j n where j: "find_str (lit ''<meta'') (drop k s) = Some j" "start = k + j"
    and n: "find_char (\<lambda>c. c = 62) (drop start s) = Some n" "stop = start + n"
    using assms by (auto simp: next_meta_def Let_def split: bind_splits)
  have at: "n < length (drop start s)" "drop start s ! n = 62" using find_char_Some [OF n(1)] by simp_all
  have "starts_with (lit ''<meta'') (drop start s)" using find_str_at [OF j(1)] by (simp add: j(2) add.commute)
  then have "drop start s ! 0 = 60" by (cases "drop start s") (auto simp: starts_with_def lit_def)
  with at(2) have "n \<noteq> 0" by (cases "n = 0") simp_all
  then show ?thesis using at(1) by (simp_all add: n(2) j(2))
qed

text \<open>
  The loop over the meta tags. The lower-case copy of the head has its positions, and the attributes are cut out
  of the original.
\<close>

function collect_meta :: "str \<Rightarrow> str \<Rightarrow> nat \<Rightarrow> (str \<rightharpoonup> str) \<Rightarrow> (str \<rightharpoonup> str)" where
  "collect_meta head lower_head search_from meta = (case next_meta lower_head search_from of
     None \<Rightarrow> meta
   | Some (start, stop) \<Rightarrow> collect_meta head lower_head stop
       (add_meta meta (parse_attributes (take (stop - (start + 5)) (drop (start + 5) head)))))"
  by pat_completeness auto
termination
  by (relation "measure (\<lambda>(_, lower_head, search_from, _). length lower_head - search_from)")
    (auto dest!: next_meta_advances)

declare collect_meta.simps [simp del]

definition page_head :: "str \<Rightarrow> str" where
  "page_head html = (case find_str (lit ''</head'') (map to_ascii_lower html) of Some n \<Rightarrow> take n html | None \<Rightarrow> html)"

definition title_tag :: "str \<Rightarrow> str option" where
  "title_tag head =
     (let lower_head = map to_ascii_lower head in
      Option.bind (find_str (lit ''<title'') lower_head) (\<lambda>tag.
      Option.bind (find_char (\<lambda>c. c = 62) (drop tag lower_head)) (\<lambda>n.
      let start = tag + n + 1 in
      Option.bind (find_str (lit ''</title'') (drop start lower_head)) (\<lambda>m.
      let title = clean_text (take m (drop start head)) in if title = [] then None else Some title))))"

text \<open>The first of some keys that the page has.\<close>

definition first_meta :: "(str \<rightharpoonup> str) \<Rightarrow> str list \<Rightarrow> str option" where
  "first_meta meta ks = Option.bind (find (\<lambda>k. meta k \<noteq> None) ks) (\<lambda>k. Option.bind (meta k) (\<lambda>v.
     let v = clean_text v in if v = [] then None else Some v))"

text \<open>\<open>trim_start_matches("www.")\<close>, which removes every repetition.\<close>

fun without_www :: "str \<Rightarrow> str" where
  "without_www (a # b # c # e # host) =
     (if [a, b, c, e] = lit ''www.'' then without_www host else a # b # c # e # host)"
| "without_www host = host"

definition parse_preview :: "url_library \<Rightarrow> url \<Rightarrow> str \<Rightarrow> link_preview" where
  "parse_preview U page html =
     (let head = page_head html;
          meta = collect_meta head (map to_ascii_lower head) 0 Map.empty;
          title = or_else (first_meta meta [lit ''og:title'', lit ''twitter:title'']) (title_tag head);
          image = Option.bind (first_meta meta [lit ''og:image:secure_url'', lit ''og:image:url'', lit ''og:image'',
                    lit ''twitter:image'', lit ''twitter:image:src'']) (\<lambda>image.
                  Option.bind (ul_join U page image) (\<lambda>u. parse_public_url U (ul_text U u))) in
      \<lparr>lp_url = ul_text U page,
       lp_title = map_option (\<lambda>t. truncated t MAX_TITLE_CHARACTERS) title,
       lp_description = map_option (\<lambda>t. truncated t MAX_DESCRIPTION_CHARACTERS)
         (first_meta meta [lit ''og:description'', lit ''twitter:description'', lit ''description'']),
       lp_site_name = or_else (first_meta meta [lit ''og:site_name'', lit ''application-name''])
         (map_option without_www (ul_host_str U page)),
       lp_has_image = (image \<noteq> None), lp_image_url = image\<rparr>)"

section \<open>The loops end\<close>

text \<open>The loops with a bound on their passes, which they do not have in the code: \<open>None\<close> when it is used up.\<close>

primrec attribute_passes :: "nat \<Rightarrow> str \<Rightarrow> (str \<rightharpoonup> str) \<Rightarrow> (str \<rightharpoonup> str) option" where
  "attribute_passes 0 rest attributes = None"
| "attribute_passes (Suc n) rest attributes = (case attribute_pass rest attributes of
     None \<Rightarrow> Some attributes | Some (rest', attributes') \<Rightarrow> attribute_passes n rest' attributes')"

primrec meta_passes :: "nat \<Rightarrow> str \<Rightarrow> str \<Rightarrow> nat \<Rightarrow> (str \<rightharpoonup> str) \<Rightarrow> (str \<rightharpoonup> str) option" where
  "meta_passes 0 head lower_head search_from meta = None"
| "meta_passes (Suc n) head lower_head search_from meta = (case next_meta lower_head search_from of
     None \<Rightarrow> Some meta
   | Some (start, stop) \<Rightarrow> meta_passes n head lower_head stop
       (add_meta meta (parse_attributes (take (stop - (start + 5)) (drop (start + 5) head)))))"

lemma attribute_passes_enough:
  "length rest < n \<Longrightarrow> attribute_passes n rest attributes = Some (attribute_loop rest attributes)"
proof (induction n arbitrary: rest attributes)
  case (Suc n)
  show ?case
  proof (cases "attribute_pass rest attributes")
    case None then show ?thesis by (simp add: attribute_loop.simps [of rest attributes])
  next
    case (Some x)
    then obtain r a where x: "attribute_pass rest attributes = Some (r, a)" by (cases x) auto
    from attribute_pass_shorter [OF x] Suc.prems have "length r < n" by simp
    with x Suc.IH show ?thesis by (simp add: attribute_loop.simps [of rest attributes])
  qed
qed simp

lemma meta_passes_enough:
  "length lower_head - search_from < n \<Longrightarrow>
     meta_passes n head lower_head search_from meta = Some (collect_meta head lower_head search_from meta)"
proof (induction n arbitrary: search_from meta)
  case (Suc n)
  show ?case
  proof (cases "next_meta lower_head search_from")
    case None then show ?thesis by (simp add: collect_meta.simps [of head lower_head search_from meta])
  next
    case (Some x)
    then obtain start stop where x: "next_meta lower_head search_from = Some (start, stop)" by (cases x) auto
    from next_meta_advances [OF x] Suc.prems have "length lower_head - stop < n" by linarith
    with x Suc.IH show ?thesis by (simp add: collect_meta.simps [of head lower_head search_from meta])
  qed
qed simp

text \<open>
  C32. Reading a page ends, however malformed it is: the loop over the attributes of a tag is done after at most
  one pass for each character of the tag, and the loop over the meta tags after at most one for each character
  of the head. (The branch that skips a character that cannot start a name is never needed.)
\<close>

theorem page_scan_ends:
  "attribute_passes (Suc (length tag)) (dropWhile (\<lambda>c. c = 47) tag) Map.empty = Some (parse_attributes tag) \<and>
   meta_passes (Suc (length head)) head (map to_ascii_lower head) 0 Map.empty =
     Some (collect_meta head (map to_ascii_lower head) 0 Map.empty)"
proof
  have "length (dropWhile (\<lambda>c. c = 47) tag) < Suc (length tag)" by (simp add: length_dropWhile_le le_imp_less_Suc)
  from attribute_passes_enough [OF this]
  show "attribute_passes (Suc (length tag)) (dropWhile (\<lambda>c. c = 47) tag) Map.empty = Some (parse_attributes tag)"
    unfolding parse_attributes_def .
  show "meta_passes (Suc (length head)) head (map to_ascii_lower head) 0 Map.empty =
      Some (collect_meta head (map to_ascii_lower head) 0 Map.empty)"
    by (rule meta_passes_enough) simp
qed

end
