(* ===== verification/Gifs.thy ===== *)
theory Gifs
  imports LinkPreviews Signing
begin

text \<open>
  The search of GIFs (\<open>src/social/gifs.rs\<close>). A request checks its input, takes one of eight permits and waits for
  Giphy; it gives the permit back when the answer was read, or when it is dropped before. Each handler is therefore
  two definitions, before and after the wait, and a step relation interleaves the requests.
  What Giphy answers is chosen by the environment; JSON decoding is a parameter.
\<close>

section \<open>Input and output\<close>

definition SEARCH_URL :: str where "SEARCH_URL = lit ''https://api.giphy.com/v1/gifs/search''"
definition MEDIA_URL :: str where "MEDIA_URL = lit ''https://media.giphy.com/media''"
definition MAX_QUERY_CHARACTERS :: nat where "MAX_QUERY_CHARACTERS = 100"
definition MAX_GIF_RESULTS :: nat where "MAX_GIF_RESULTS = 24"
definition MAX_ID_LENGTH :: nat where "MAX_ID_LENGTH = 64"
definition MAX_SEARCH_BYTES :: nat where "MAX_SEARCH_BYTES = 1024 * 1024"
definition MAX_GIF_BYTES :: nat where "MAX_GIF_BYTES = 8 * 1024 * 1024"
definition MAX_GIF_REDIRECTS :: nat where "MAX_GIF_REDIRECTS = 3"
definition MAX_CONCURRENT_GIPHY_REQUESTS :: nat where "MAX_CONCURRENT_GIPHY_REQUESTS = 8"

record gif =
  gf_id :: str
  gf_title :: str
  gf_width :: nat
  gf_height :: nat

record giphy_gif =
  gg_id :: str
  gg_title :: str
  gg_width :: str
  gg_height :: str

definition bad_gateway :: api_error where
  "bad_gateway = (BAD_GATEWAY, lit ''GIF search is unavailable'')"

definition service_unavailable :: api_error where
  "service_unavailable = (SERVICE_UNAVAILABLE, lit ''GIF search is unavailable'')"

definition upstream_status_error :: "nat \<Rightarrow> str \<Rightarrow> api_error" where
  "upstream_status_error code message =
     (if code = 404 then NOT_FOUND else if code = 429 \<or> code = 503 then SERVICE_UNAVAILABLE else BAD_GATEWAY, message)"

definition is_gif_id :: "str \<Rightarrow> bool" where
  "is_gif_id i \<longleftrightarrow> i \<noteq> [] \<and> byte_len i \<le> MAX_ID_LENGTH \<and> list_all is_ascii_alphanumeric i"

definition gif_of :: "giphy_gif \<Rightarrow> gif option" where
  "gif_of g = Option.bind (parse_u32 10 (gg_width g)) (\<lambda>w. Option.bind (parse_u32 10 (gg_height g)) (\<lambda>h.
     Some \<lparr>gf_id = gg_id g, gf_title = trim (gg_title g), gf_width = w, gf_height = h\<rparr>))"

definition parse_search :: "(8 word list \<Rightarrow> giphy_gif list option) \<Rightarrow> 8 word list \<Rightarrow> gif list option" where
  "parse_search json body = map_option (\<lambda>found. List.map_filter gif_of (filter (\<lambda>g. is_gif_id (gg_id g)) found)) (json body)"

text \<open>The chunks of a body; \<open>None\<close> is a broken connection.\<close>

fun read_gif_limited :: "nat \<Rightarrow> 8 word list \<Rightarrow> 8 word list option list \<Rightarrow> 8 word list option" where
  "read_gif_limited limit body [] = Some body"
| "read_gif_limited limit body (None # cs) = None"
| "read_gif_limited limit body (Some c # cs) =
     (if limit < length body + length c then None else read_gif_limited limit (body @ c) cs)"

definition gif_redirect :: "url_library \<Rightarrow> nat \<Rightarrow> url \<Rightarrow> redirect_action" where
  "gif_redirect U previous u =
     (let on_giphy = u_scheme u = lit ''https'' \<and> (case ul_host_str U u of None \<Rightarrow> False
        | Some host \<Rightarrow> host = lit ''giphy.com'' \<or> ends_with (lit ''.giphy.com'') host) in
      if MAX_GIF_REDIRECTS \<le> previous then TooMany else if on_giphy then Follow else Stop)"

section \<open>Permits\<close>

text \<open>A request to Giphy that is under way.\<close>

datatype giphy_call = GiphySearch (call_key: str) (call_query: str) (call_limit: nat) | GiphyImage (call_id: str) (call_file: str)

record giphy_answer =
  ga_status :: nat
  ga_chunks :: "8 word list option list"

record gif_site =
  gs_permits :: nat
  gs_flight :: "(nat \<times> giphy_call) list"

definition new_gif_site :: gif_site where
  "new_gif_site = \<lparr>gs_permits = MAX_CONCURRENT_GIPHY_REQUESTS, gs_flight = []\<rparr>"

definition acquire_giphy_permit :: "gif_site \<Rightarrow> api_error + gif_site" where
  "acquire_giphy_permit s = (if gs_permits s = 0 then Inl service_unavailable else Inr (s\<lparr>gs_permits := gs_permits s - 1\<rparr>))"

definition release_giphy_permit :: "gif_site \<Rightarrow> gif_site" where
  "release_giphy_permit s = s\<lparr>gs_permits := gs_permits s + 1\<rparr>"

section \<open>The requests\<close>

text \<open>Before the wait: an answer at once, or the call to make under a permit.\<close>

datatype 'a begun = Answered 'a | Waiting giphy_call gif_site

definition search_limit :: "nat option \<Rightarrow> nat" where
  "search_limit limit = (case limit of None \<Rightarrow> MAX_GIF_RESULTS | Some n \<Rightarrow> max 1 (min MAX_GIF_RESULTS n))"

definition search_gifs ::
  "platform \<Rightarrow> instant \<Rightarrow> str option \<Rightarrow> str option \<Rightarrow> str \<Rightarrow> nat option \<Rightarrow> gif_site \<Rightarrow> api_error + gif list begun" where
  "search_gifs L now api_key header q limit s =
     and_then (extract_user_id L now header) (\<lambda>_.
     and_then (ok_or (SERVICE_UNAVAILABLE, lit ''GIF search is not configured'')
       (case api_key of None \<Rightarrow> None | Some k \<Rightarrow> if trim k = [] then None else Some k)) (\<lambda>key.
     let search = take MAX_QUERY_CHARACTERS (trim q) in
     if search = [] then Inr (Answered [])
     else and_then (acquire_giphy_permit s) (\<lambda>s. Inr (Waiting (GiphySearch (trim key) search (search_limit limit)) s))))"

definition finish_search ::
  "(8 word list \<Rightarrow> giphy_gif list option) \<Rightarrow> giphy_answer option \<Rightarrow> api_error + gif list" where
  "finish_search json answer =
     (case answer of None \<Rightarrow> Inl bad_gateway
      | Some r \<Rightarrow> if \<not> (200 \<le> ga_status r \<and> ga_status r \<le> 299)
          then Inl (upstream_status_error (ga_status r) (lit ''GIF search is unavailable''))
          else and_then (ok_or bad_gateway (read_gif_limited MAX_SEARCH_BYTES [] (ga_chunks r))) (\<lambda>body.
            ok_or bad_gateway (parse_search json body)))"

definition get_gif_image ::
  "platform \<Rightarrow> instant \<Rightarrow> str option \<Rightarrow> str \<Rightarrow> str option \<Rightarrow> gif_site \<Rightarrow> api_error + unit begun" where
  "get_gif_image L now header i size_name s =
     and_then (extract_user_id L now header) (\<lambda>_.
     if \<not> is_gif_id i then Inl (BAD_REQUEST, lit ''Unsupported GIF'')
     else let filename = (if size_name = Some (lit ''preview'') then lit ''200w.webp'' else lit ''giphy.webp'') in
       and_then (acquire_giphy_permit s) (\<lambda>s. Inr (Waiting (GiphyImage i filename) s)))"

record gif_image =
  gm_content_type :: str
  gm_cache_control :: str
  gm_content_type_options :: str
  gm_bytes :: "8 word list"

definition finish_image :: "giphy_answer option \<Rightarrow> api_error + gif_image" where
  "finish_image answer =
     (case answer of None \<Rightarrow> Inl bad_gateway
      | Some r \<Rightarrow> if \<not> (200 \<le> ga_status r \<and> ga_status r \<le> 299)
          then Inl (upstream_status_error (ga_status r) (lit ''GIF not found''))
          else and_then (ok_or bad_gateway (read_gif_limited MAX_GIF_BYTES [] (ga_chunks r))) (\<lambda>bytes.
            Inr \<lparr>gm_content_type = lit ''image/webp'', gm_cache_control = lit ''private, max-age=86400, immutable'',
              gm_content_type_options = lit ''nosniff'', gm_bytes = bytes\<rparr>))"

text \<open>The URL of a call. The parameters of a search are percent-encoded by the client.\<close>

definition call_url :: "giphy_call \<Rightarrow> str" where
  "call_url c = (case c of GiphySearch _ _ _ \<Rightarrow> SEARCH_URL
     | GiphyImage i filename \<Rightarrow> MEDIA_URL @ lit ''/'' @ i @ lit ''/'' @ filename)"

section \<open>All requests together\<close>

text \<open>A request that waits is in flight; it ends when its answer was read or its client went away.\<close>

definition begin_call :: "nat \<Rightarrow> giphy_call \<Rightarrow> gif_site \<Rightarrow> gif_site" where
  "begin_call i c s = s\<lparr>gs_flight := (i, c) # gs_flight s\<rparr>"

definition end_call :: "nat \<Rightarrow> gif_site \<Rightarrow> gif_site" where
  "end_call i s = release_giphy_permit (s\<lparr>gs_flight := filter (\<lambda>x. fst x \<noteq> i) (gs_flight s)\<rparr>)"

inductive gif_step :: "platform \<Rightarrow> gif_site \<Rightarrow> gif_site \<Rightarrow> bool" for L where
  search_starts: "search_gifs L now api_key header q limit s = Inr (Waiting c s') \<Longrightarrow> i \<notin> fst ` set (gs_flight s) \<Longrightarrow>
    gif_step L s (begin_call i c s')"
| image_starts: "get_gif_image L now header g size_name s = Inr (Waiting c s') \<Longrightarrow> i \<notin> fst ` set (gs_flight s) \<Longrightarrow>
    gif_step L s (begin_call i c s')"
| call_ends: "(i, c) \<in> set (gs_flight s) \<Longrightarrow> gif_step L s (end_call i s)"

definition gif_reachable :: "platform \<Rightarrow> gif_site \<Rightarrow> bool" where
  "gif_reachable L s \<longleftrightarrow> (gif_step L)\<^sup>*\<^sup>* new_gif_site s"

text \<open>A call that Giphy may get.\<close>

definition call_ok :: "giphy_call \<Rightarrow> bool" where
  "call_ok c \<longleftrightarrow> (case c of
     GiphySearch k q n \<Rightarrow> k \<noteq> [] \<and> q \<noteq> [] \<and> length q \<le> 100 \<and> 1 \<le> n \<and> n \<le> 24
   | GiphyImage i filename \<Rightarrow> i \<noteq> [] \<and> length i \<le> 64 \<and> list_all is_ascii_alphanumeric i \<and>
       filename \<in> {lit ''200w.webp'', lit ''giphy.webp''})"

definition gifs_ok :: "gif_site \<Rightarrow> bool" where
  "gifs_ok s \<longleftrightarrow> gs_permits s + length (gs_flight s) = 8 \<and> distinct (map fst (gs_flight s)) \<and>
     (\<forall>x \<in> set (gs_flight s). call_ok (snd x))"

lemma acquire_giphy_permit_Inr:
  "acquire_giphy_permit s = Inr s' \<longleftrightarrow> 0 < gs_permits s \<and> s' = s\<lparr>gs_permits := gs_permits s - 1\<rparr>"
  by (auto simp: acquire_giphy_permit_def)

lemma length_le_byte_len: "length t \<le> byte_len t"
proof (induction t)
  case (Cons c t)
  have "1 \<le> len_utf8 c" by (simp add: len_utf8_def)
  with Cons show ?case by (simp add: byte_len_def)
qed (simp add: byte_len_def)

lemma search_waits:
  assumes "search_gifs L now api_key header q limit s = Inr (Waiting c s')"
  shows "acquire_giphy_permit s = Inr s' \<and> call_ok c"
  using assms
  by (auto simp: search_gifs_def and_then_def ok_or_def Let_def call_ok_def search_limit_def MAX_GIF_RESULTS_def
      MAX_QUERY_CHARACTERS_def max_def min_def split: sum.splits option.splits if_splits)

lemma image_waits:
  assumes "get_gif_image L now header g size_name s = Inr (Waiting c s')"
  shows "acquire_giphy_permit s = Inr s' \<and> call_ok c"
  using assms length_le_byte_len [of g]
  by (auto simp: get_gif_image_def and_then_def Let_def call_ok_def is_gif_id_def MAX_ID_LENGTH_def
      split: sum.splits if_splits)

lemma remove_flight:
  "distinct (map fst xs) \<Longrightarrow> (i, c) \<in> set xs \<Longrightarrow> length (filter (\<lambda>x. fst x \<noteq> i) xs) + 1 = length xs"
proof (induction xs)
  case (Cons x xs)
  show ?case
  proof (cases "fst x = i")
    case True
    then have "filter (\<lambda>x. fst x \<noteq> i) xs = xs" using Cons.prems(1) by (auto simp: filter_id_conv image_iff)
    with True show ?thesis by simp
  next
    case False
    with Cons show ?thesis by auto
  qed
qed simp

lemma gif_step_ok: "gif_step L s t \<Longrightarrow> gifs_ok s \<Longrightarrow> gifs_ok t"
proof (induction rule: gif_step.induct)
  case (call_ends i c s)
  then show ?case using remove_flight [of "gs_flight s" i c]
    by (auto simp: gifs_ok_def end_call_def release_giphy_permit_def distinct_map_filter)
qed (auto dest!: search_waits image_waits simp: acquire_giphy_permit_Inr gifs_ok_def begin_call_def)

lemma gifs_always_ok: "gif_reachable L s \<Longrightarrow> gifs_ok s"
  unfolding gif_reachable_def
  by (induction rule: rtranclp_induct) (simp add: gifs_ok_def new_gif_site_def MAX_CONCURRENT_GIPHY_REQUESTS_def, rule gif_step_ok)

text \<open>The redirects that the client follows after its first request.\<close>

fun followed :: "url_library \<Rightarrow> nat \<Rightarrow> url list \<Rightarrow> bool" where
  "followed U previous [] \<longleftrightarrow> True"
| "followed U previous (u # us) \<longleftrightarrow> gif_redirect U previous u = Follow \<and> followed U (Suc previous) us"

definition at_giphy :: "url_library \<Rightarrow> url \<Rightarrow> bool" where
  "at_giphy U u \<longleftrightarrow> u_scheme u = lit ''https'' \<and>
     (\<exists>host. ul_host_str U u = Some host \<and> (host = lit ''giphy.com'' \<or> (\<exists>sub. host = sub @ lit ''.giphy.com'')))"

lemma starts_with_Ex: "starts_with p s \<longleftrightarrow> (\<exists>t. s = p @ t)"
  unfolding starts_with_def by (metis append_eq_conv_conj)

lemma ends_with_iff: "ends_with p s \<longleftrightarrow> (\<exists>t. s = t @ p)"
  unfolding ends_with_def starts_with_Ex by (metis rev_append rev_rev_ident)

lemma gif_redirect_Follow: "gif_redirect U n u = Follow \<Longrightarrow> n < 3 \<and> at_giphy U u"
  by (auto simp: gif_redirect_def Let_def at_giphy_def ends_with_iff MAX_GIF_REDIRECTS_def split: if_splits option.splits)

lemma followed_bound: "followed U n us \<Longrightarrow> length us \<le> 3 - n \<and> (\<forall>u \<in> set us. at_giphy U u)"
proof (induction U n us rule: followed.induct)
  case (2 U n u us)
  then show ?case using gif_redirect_Follow [of U n u] by auto
qed simp

lemma read_gif_limited_bound:
  "read_gif_limited limit body cs = Some bytes \<Longrightarrow> length body \<le> limit \<Longrightarrow> length bytes \<le> limit"
  by (induction limit body cs rule: read_gif_limited.induct) (auto split: if_splits)

lemma finish_search_ids: "finish_search json answer = Inr gs \<Longrightarrow> g \<in> set gs \<Longrightarrow> is_gif_id (gf_id g)"
  by (auto simp: finish_search_def and_then_def ok_or_def parse_search_def map_filter_def gif_of_def bind_eq_Some_conv
      split: option.splits if_splits sum.splits)

text \<open>A file in the directory of one GIF: slashes (47) and dots (46) of the ID would lead elsewhere.\<close>

definition media_url :: "str \<Rightarrow> bool" where
  "media_url p \<longleftrightarrow> (\<exists>g n. p = MEDIA_URL @ [47] @ g @ [47] @ n \<and> g \<noteq> [] \<and> 47 \<notin> set g \<and> 46 \<notin> set g \<and> 47 \<notin> set n)"

text \<open>
  C39. However requests for GIFs interleave, wherever they fail or are dropped: at most eight are at Giphy at a time
  and no permit is lost; each goes to the search URL or to the media URL of a GIF whose ID cannot leave its directory;
  the client follows at most two redirects, all to hosts of Giphy over HTTPS; a body is read up to its limit; and the
  GIFs of a search answer can be fetched.
\<close>

theorem gif_requests_contained:
  assumes "gif_reachable L s"
  shows "gs_permits s = 8 - length (gs_flight s) \<and> length (gs_flight s) \<le> 8 \<and> distinct (map fst (gs_flight s)) \<and>
    (\<forall>(i, c) \<in> set (gs_flight s). call_ok c \<and> (call_url c = SEARCH_URL \<or> media_url (call_url c))) \<and>
    (followed U 1 us \<longrightarrow> length us \<le> 2 \<and> (\<forall>u \<in> set us. at_giphy U u)) \<and>
    (read_gif_limited limit [] chunks = Some bytes \<longrightarrow> length bytes \<le> limit) \<and>
    (finish_search json answer = Inr gs \<and> g \<in> set gs \<and> extract_user_id L now h = Inr u \<longrightarrow>
       get_gif_image L now h (gf_id g) size_name s = (if length (gs_flight s) = 8 then Inl service_unavailable
         else Inr (Waiting (GiphyImage (gf_id g) (if size_name = Some (lit ''preview'') then lit ''200w.webp'' else lit ''giphy.webp''))
           (s\<lparr>gs_permits := gs_permits s - 1\<rparr>))))"
proof -
  have k: "gifs_ok s" using gifs_always_ok [OF assms] .
  have url: "call_url c = SEARCH_URL \<or> media_url (call_url c)" if "call_ok c" for c
  proof (cases c)
    case (GiphyImage g n)
    have plain: "\<not> is_ascii_alphanumeric 47" "\<not> is_ascii_alphanumeric 46"
      by (simp_all add: is_ascii_alphanumeric_def is_ascii_lowercase_def is_ascii_uppercase_def is_ascii_digit_def)
    from that GiphyImage have "g \<noteq> []" "\<forall>x \<in> set g. is_ascii_alphanumeric x" "47 \<notin> set n"
      by (auto simp: call_ok_def list_all_iff lit_def)
    with plain GiphyImage show ?thesis by (auto simp: call_url_def lit_def media_url_def)
  qed (simp add: call_url_def)
  have fetch: "get_gif_image L now h (gf_id g) size_name s = (if length (gs_flight s) = 8 then Inl service_unavailable
         else Inr (Waiting (GiphyImage (gf_id g) (if size_name = Some (lit ''preview'') then lit ''200w.webp'' else lit ''giphy.webp''))
           (s\<lparr>gs_permits := gs_permits s - 1\<rparr>)))"
    if "finish_search json answer = Inr gs \<and> g \<in> set gs \<and> extract_user_id L now h = Inr u"
    using that finish_search_ids [of json answer gs g] k
    by (auto simp: get_gif_image_def and_then_def acquire_giphy_permit_def gifs_ok_def Let_def)
  have "\<forall>(i, c) \<in> set (gs_flight s). call_ok c \<and> (call_url c = SEARCH_URL \<or> media_url (call_url c))"
    using k url by (fastforce simp: gifs_ok_def)
  then show ?thesis
    using k fetch followed_bound [of U 1 us] read_gif_limited_bound [of limit "[]" chunks bytes]
    by (auto simp: gifs_ok_def)
qed

text \<open>One image request is in flight.\<close>

definition one_gif :: gif_site where
  "one_gif = \<lparr>gs_permits = 7, gs_flight = [(0, GiphyImage (lit ''abc'') (lit ''giphy.webp''))]\<rparr>"

definition one_search :: "8 word list \<Rightarrow> giphy_gif list option" where
  "one_search _ = Some [\<lparr>gg_id = lit ''x9'', gg_title = [], gg_width = lit ''2'', gg_height = lit ''3''\<rparr>]"

theorem gif_requests_contained_witness:
  "gif_reachable sample_platform one_gif \<and> gs_permits one_gif = 8 - length (gs_flight one_gif) \<and>
   finish_search one_search (Some \<lparr>ga_status = 200, ga_chunks = []\<rparr>) =
     Inr [\<lparr>gf_id = lit ''x9'', gf_title = [], gf_width = 2, gf_height = 3\<rparr>] \<and>
   get_gif_image sample_platform 5 (Some sample_token) (lit ''x9'') None one_gif =
     Inr (Waiting (GiphyImage (lit ''x9'') (lit ''giphy.webp'')) (one_gif\<lparr>gs_permits := 6\<rparr>))"
proof -
  have "get_gif_image sample_platform 5 (Some sample_token) (lit ''abc'') None new_gif_site =
      Inr (Waiting (GiphyImage (lit ''abc'') (lit ''giphy.webp'')) (new_gif_site\<lparr>gs_permits := 7\<rparr>))"
    by (simp add: get_gif_image_def sample_answer and_then_def is_gif_id_def MAX_ID_LENGTH_def acquire_giphy_permit_def
        new_gif_site_def MAX_CONCURRENT_GIPHY_REQUESTS_def lit_def byte_len_def len_utf8_def is_ascii_alphanumeric_def
        is_ascii_lowercase_def)
  then have "gif_step sample_platform new_gif_site
      (begin_call 0 (GiphyImage (lit ''abc'') (lit ''giphy.webp'')) (new_gif_site\<lparr>gs_permits := 7\<rparr>))"
    by (rule gif_step.image_starts) (simp add: new_gif_site_def)
  then have r: "gif_reachable sample_platform one_gif"
    by (simp add: gif_reachable_def begin_call_def new_gif_site_def one_gif_def)
  have f: "finish_search one_search (Some \<lparr>ga_status = 200, ga_chunks = []\<rparr>) =
      Inr [\<lparr>gf_id = lit ''x9'', gf_title = [], gf_width = 2, gf_height = 3\<rparr>]"
    by (simp add: finish_search_def and_then_def ok_or_def parse_search_def one_search_def gif_of_def is_gif_id_def map_filter_simps
        MAX_ID_LENGTH_def lit_def byte_len_def len_utf8_def is_ascii_alphanumeric_def is_ascii_lowercase_def is_ascii_digit_def
        parse_u32_def digit_value_def trim_def trim_start_def trim_end_def Let_def)
  show ?thesis
    using gif_requests_contained [OF r, where json = one_search and answer = "Some \<lparr>ga_status = 200, ga_chunks = []\<rparr>"
        and gs = "[\<lparr>gf_id = lit ''x9'', gf_title = [], gf_width = 2, gf_height = 3\<rparr>]"
        and g = "\<lparr>gf_id = lit ''x9'', gf_title = [], gf_width = 2, gf_height = 3\<rparr>"
        and now = 5 and h = "Some sample_token" and u = 7 and size_name = None] r f sample_answer
    by (simp add: one_gif_def)
qed

end
