(* ===== verification/MessageRules.thy ===== *)
theory MessageRules
  imports Signing
begin

text \<open>
  What the stored messages always look like. The database only checks lengths and references; that a message
  answers a message of its own conversation, has text or a file, that files are named, small and few enough,
  that voice details belong to audio files and that reactions are emoji is the doing of the handlers, which
  parse and check the multipart body, upload the files and then insert all rows in one transaction.
\<close>

section \<open>The store\<close>

definition good_text :: "str \<Rightarrow> bool" where
  "good_text s \<longleftrightarrow> trim s = s \<and> length s \<le> 2000"

definition good_file_name :: "str \<Rightarrow> bool" where
  "good_file_name s \<longleftrightarrow> s \<noteq> [] \<and> trim s = s \<and> \<not> list_ex is_control s"

definition good_attachment :: "platform \<Rightarrow> uuid \<Rightarrow> attachment_row \<Rightarrow> bool" where
  "good_attachment L c a \<longleftrightarrow> at_key a = attachment_key L c (at_id a) \<and> good_file_name (at_file_name a) \<and>
     1 \<le> at_size a \<and> (at_voice_ms a = None) = (at_waveform a = None) \<and>
     (at_voice_ms a \<noteq> None \<longrightarrow> starts_with (lit ''audio/'') (at_content_type a))"

definition good_message :: "platform \<Rightarrow> message_row list \<Rightarrow> attachment_row list \<Rightarrow> message_row \<Rightarrow> bool" where
  "good_message L ms as m \<longleftrightarrow> good_text (mg_content m) \<and>
     (let files = filter (\<lambda>a. at_message a = mg_sequence m) as in
      (mg_content m \<noteq> [] \<or> files \<noteq> []) \<and> length files \<le> MAX_ATTACHMENTS_PER_MESSAGE \<and>
      sum_list (map at_size files) \<le> MAX_ATTACHMENT_TOTAL_BYTES \<and>
      list_all (good_attachment L (mg_conversation m)) files) \<and>
     (case mg_reply_to m of None \<Rightarrow> True
      | Some k \<Rightarrow> \<exists>q \<in> set ms. mg_sequence q = k \<and> mg_conversation q = mg_conversation m)"

definition good_reaction :: "(uchar \<Rightarrow> bool) \<Rightarrow> message_row list \<Rightarrow> reaction_row \<Rightarrow> bool" where
  "good_reaction alnum ms r \<longleftrightarrow> re_message r \<in> set (map mg_sequence ms) \<and> (\<exists>raw. validate_reaction alnum raw = Inr (re_emoji r))"

definition reaction_key :: "reaction_row \<Rightarrow> nat \<times> uuid \<times> str" where
  "reaction_key r = (re_message r, re_user r, re_emoji r)"

definition messages_ok :: "platform \<Rightarrow> (uchar \<Rightarrow> bool) \<Rightarrow> database \<Rightarrow> bool" where
  "messages_ok L alnum d \<longleftrightarrow> distinct (map mg_sequence (conversation_messages d)) \<and>
     (\<forall>m \<in> set (conversation_messages d). good_message L (conversation_messages d) (message_attachments d) m) \<and>
     (\<forall>a \<in> set (message_attachments d). at_message a \<in> set (map mg_sequence (conversation_messages d))) \<and>
     distinct (map at_id (message_attachments d)) \<and>
     distinct (map reaction_key (message_reactions d)) \<and>
     (\<forall>r \<in> set (message_reactions d). good_reaction alnum (conversation_messages d) r)"

definition messages_kept :: "platform \<Rightarrow> (uchar \<Rightarrow> bool) \<Rightarrow> 'm site_scheme \<Rightarrow> bool" where
  "messages_kept L alnum s \<longleftrightarrow> messages_ok L alnum (tables s)"

section \<open>Text\<close>

lemma dropWhile_fixed: "xs = [] \<or> \<not> P (hd xs) \<Longrightarrow> dropWhile P xs = xs"
  by (cases xs) auto

lemma trim_ends: "trim s = [] \<or> (\<not> is_whitespace (hd (trim s)) \<and> \<not> is_whitespace (last (trim s)))"
proof -
  define t where "t = trim_start s"
  have t: "t = [] \<or> \<not> is_whitespace (hd t)" unfolding t_def trim_start_def using hd_dropWhile by blast
  have e: "trim s = trim_end t" by (simp add: trim_def t_def)
  show ?thesis
  proof (cases "trim_end t = []")
    case False
    then have r: "dropWhile is_whitespace (rev t) \<noteq> []" by (simp add: trim_end_def)
    have "last (trim_end t) = hd (dropWhile is_whitespace (rev t))" using r by (simp add: trim_end_def last_rev)
    moreover have "hd (trim_end t) = hd t"
    proof -
      have "rev t = takeWhile is_whitespace (rev t) @ dropWhile is_whitespace (rev t)" by simp
      then have "t = rev (dropWhile is_whitespace (rev t)) @ rev (takeWhile is_whitespace (rev t))"
        by (metis rev_append rev_rev_ident)
      then show ?thesis unfolding trim_end_def using r by (metis hd_append2 rev_is_Nil_conv)
    qed
    moreover have "t \<noteq> []" using False by (auto simp: trim_end_def)
    ultimately show ?thesis using t hd_dropWhile [OF r] by (simp add: e)
  qed (simp add: e)
qed

lemma trim_trim [simp]: "trim (trim s) = trim s"
proof (cases "trim s = []")
  case True
  have "trim [] = []" by (simp add: trim_def trim_start_def trim_end_def)
  then show ?thesis by (simp only: True)
next
  case False
  with trim_ends [of s] have "trim_start (trim s) = trim s" "trim_end (trim s) = trim s"
    by (simp_all add: trim_start_def trim_end_def dropWhile_fixed hd_rev)
  then show ?thesis unfolding trim_def [of "trim s"] by simp
qed

lemma validated_texts:
  "validate_message_content s = Inr t \<Longrightarrow> good_text t \<and> t \<noteq> []"
  "validate_attachment_content s = Inr t \<Longrightarrow> good_text t"
  by (auto simp: validate_message_content_def validate_attachment_content_def good_text_def Let_def split: if_splits)

section \<open>The files of a message\<close>

definition good_pending :: "platform \<Rightarrow> uuid \<Rightarrow> pending_attachment \<Rightarrow> bool" where
  "good_pending L c a \<longleftrightarrow> pa_key a = attachment_key L c (pa_id a) \<and> good_file_name (pa_file_name a) \<and> pa_bytes a \<noteq> [] \<and>
     (pa_voice a \<noteq> None \<longrightarrow> starts_with (lit ''audio/'') (pa_content_type a))"

definition good_files :: "platform \<Rightarrow> uuid \<Rightarrow> pending_attachment list \<Rightarrow> bool" where
  "good_files L c as \<longleftrightarrow> list_all (good_pending L c) as \<and> length as \<le> MAX_ATTACHMENTS_PER_MESSAGE \<and>
     sum_list (map (\<lambda>a. length (pa_bytes a)) as) \<le> MAX_ATTACHMENT_TOTAL_BYTES"

definition good_parts :: "platform \<Rightarrow> uuid \<Rightarrow> parsed_message \<Rightarrow> bool" where
  "good_parts L c m \<longleftrightarrow> good_files L c (pm_attachments m) \<and>
     pm_bytes m = sum_list (map (\<lambda>a. length (pa_bytes a)) (pm_attachments m))"

lemma good_parts_start [simp]: "good_parts L c no_parts"
  by (simp add: good_parts_def good_files_def no_parts_def)

lemma content_part_files: "content_part f m = Inr m' \<Longrightarrow> pm_attachments m' = pm_attachments m \<and> pm_bytes m' = pm_bytes m"
  by (auto simp: content_part_def and_then_def split: if_splits sum.splits)

lemma reply_part_files: "reply_part f m = Inr m' \<Longrightarrow> pm_attachments m' = pm_attachments m \<and> pm_bytes m' = pm_bytes m"
  by (auto simp: reply_part_def and_then_def split: if_splits sum.splits)

lemma file_part_good:
  assumes "good_parts L c m" "file_part f m = Inr x"
  shows "good_parts L c (add_file L c i x m)"
proof -
  obtain bytes name t where parts: "x = (bytes, name, t)" by (cases x) auto
  have ok: "length (pm_attachments m) \<noteq> MAX_ATTACHMENTS_PER_MESSAGE" "pm_bytes m + length bytes \<le> MAX_ATTACHMENT_TOTAL_BYTES"
      "validate_attachment_metadata (mp_file_name f) (mp_content_type f) (length bytes) = Inr (name, t)"
    using assms(2) by (auto simp: file_part_def and_then_def parts split: if_splits sum.splits prod.splits)
  then have "good_file_name name" "bytes \<noteq> []"
    by (auto simp: validate_attachment_metadata_def good_file_name_def Let_def split: if_splits)
  with assms(1) ok(1,2) show ?thesis by (simp add: good_parts_def good_files_def add_file_def parts good_pending_def)
qed

lemma voice_part_good:
  assumes "good_parts L c m" "voice_part json f m = Inr m'"
  shows "good_parts L c m'"
proof -
  define as where "as = butlast (pm_attachments m)"
  define a where "a = last (pm_attachments m)"
  obtain v where m': "pm_attachments m \<noteq> []" "m' = m\<lparr>pm_attachments := as @ [a\<lparr>pa_voice := Some v\<rparr>]\<rparr>"
      "starts_with (lit ''audio/'') (pa_content_type a)"
    using assms(2) by (auto simp: voice_part_def parse_voice_details_def and_then_def as_def a_def Let_def split: if_splits sum.splits)
  have "pm_attachments m = as @ [a]" using m'(1) by (simp add: as_def a_def)
  with assms(1) m'(2,3) show ?thesis by (simp add: good_parts_def good_files_def good_pending_def)
qed

text \<open>Results: what a handler can only return.\<close>

definition yields :: "('s, 'e, 'a) prog \<Rightarrow> ('a \<Rightarrow> bool) \<Rightarrow> bool" where
  "yields m R \<longleftrightarrow> (\<forall>w n s x n' s'. m w n s = (Inr x, n', s') \<longrightarrow> R x)"

lemma yieldsD: "yields m R \<Longrightarrow> m w n s = (Inr x, n', s') \<Longrightarrow> R x"
  unfolding yields_def by blast

lemma yields_chain: "yields m R' \<Longrightarrow> (\<And>x. R' x \<Longrightarrow> yields (k x) R) \<Longrightarrow> yields (chain m k) R"
  unfolding yields_def chain_def by (fastforce split: prod.splits sum.splits)

lemma yields_simps:
  "yields (ret x) R \<longleftrightarrow> R x" "yields (throw e) R''" "yields (result r) R' \<longleftrightarrow> (\<forall>y. r = Inr y \<longrightarrow> R' y)"
  "yields new_uuid (\<lambda>_. True)" "yields (guard b e) (\<lambda>_. b)"
  by (simp_all add: yields_def prog_defs)

lemma keeps_yields_chain:
  assumes m: "keeps w P m" and y: "yields m R" and k: "\<And>x. R x \<Longrightarrow> keeps w P (k x)"
  shows "keeps w P (chain m k)"
proof (rule keepsI)
  fix n s assume P: "P s"
  obtain r n' s' where e: "m w n s = (r, n', s')" by (cases "m w n s") auto
  show "P (snd (snd (chain m k w n s)))"
  proof (cases r)
    case (Inl x) then show ?thesis using keepsD [OF m P, of n] e by (simp add: chain_def)
  next
    case (Inr x)
    then have "keeps w P (k x)" using k yieldsD [OF y] e by blast
    then show ?thesis using keepsD [OF m P, of n] keepsD [of w P "k x" s' n'] e Inr by (simp add: chain_def)
  qed
qed

lemma parse_parts_good: "good_parts L c m \<Longrightarrow> yields (parse_parts L json c fs m) (good_parts L c)"
proof (induction fs arbitrary: m)
  case (Cons q fs)
  show ?case
  proof (cases q)
    case (Some f)
    let ?same = "\<lambda>m'. pm_attachments m' = pm_attachments m \<and> pm_bytes m' = pm_bytes m"
    have same: "good_parts L c m'" if "?same m'" for m' using that Cons.prems by (simp add: good_parts_def)
    have upl: "yields (chain (result (file_part f m)) (\<lambda>x. chain new_uuid (\<lambda>i. ret (add_file L c i x m)))) (good_parts L c)"
      by (rule yields_chain [where R' = "\<lambda>x. file_part f m = Inr x"], simp add: yields_simps)
        (auto intro!: yields_chain [where R' = "\<lambda>_. True"] simp: yields_simps file_part_good [OF Cons.prems])
    show ?thesis
    proof (cases "mp_field f")
      case (Some name)
      show ?thesis unfolding \<open>q = Some f\<close> parse_parts.simps Some option.case
        by (rule yields_chain [where R' = "good_parts L c"])
          (auto simp: yields_simps upl intro: Cons.IH same voice_part_good [OF Cons.prems] dest!: content_part_files reply_part_files)
    qed (simp add: Some yields_simps)
  qed (simp add: yields_simps)
qed (simp add: yields_simps)

definition good_request :: "platform \<Rightarrow> uuid \<Rightarrow> str \<times> int option \<times> pending_attachment list \<Rightarrow> bool" where
  "good_request L c r \<longleftrightarrow> (case r of (content, reply, as) \<Rightarrow>
     good_text content \<and> (content \<noteq> [] \<or> as \<noteq> []) \<and> good_files L c as)"

lemma parse_message_good: "yields (parse_attachment_message L json c fs) (good_request L c)"
  unfolding parse_attachment_message_def
  by (rule yields_chain [OF parse_parts_good [OF good_parts_start]], rule yields_chain [where R' = good_text],
      simp add: yields_simps validated_texts(2), rule yields_chain, rule yields_simps(5))
    (simp add: yields_simps good_request_def good_parts_def)

lemma upload_results: "yields (upload_attachments ks us as) (\<lambda>r. r = us @ map uploaded_of as)"
proof (induction as arbitrary: ks us)
  case (Cons a as)
  show ?case unfolding upload_attachments.simps Let_def
    by (rule yields_chain [where R' = "\<lambda>_. True"], simp add: yields_def)
      (use Cons.IH [of "ks @ [pa_key a]" "us @ [uploaded_of a]"] in \<open>auto split: sum.splits intro!: yields_chain [where R' = "\<lambda>_. True"]
        simp: yields_simps, auto simp: yields_def\<close>)
qed (simp add: yields_simps)

section \<open>The statements\<close>

lemma messages_same:
  assumes "messages_kept L alnum s" and "conversation_messages d = conversation_messages (tables s)"
    and "message_attachments d = message_attachments (tables s)" and "message_reactions d = message_reactions (tables s)"
  shows "messages_kept L alnum (s\<lparr>tables := d\<rparr>)"
  using assms by (simp add: messages_kept_def messages_ok_def)

definition good_uploads :: "platform \<Rightarrow> uuid \<Rightarrow> uploaded_attachment list \<Rightarrow> bool" where
  "good_uploads L c us \<longleftrightarrow> (\<exists>as. us = map uploaded_of as \<and> good_files L c as)"

lemma uploaded_rows:
  assumes "good_uploads L c us"
  shows "list_all (good_attachment L c) (map (attachment_row_of k) us)" "length us \<le> MAX_ATTACHMENTS_PER_MESSAGE"
    "sum_list (map at_size (map (attachment_row_of k) us)) \<le> MAX_ATTACHMENT_TOTAL_BYTES"
proof -
  obtain as where eq: "us = map uploaded_of as" "good_files L c as" using assms by (auto simp: good_uploads_def)
  have "good_attachment L c (attachment_row_of k (uploaded_of a))" if "good_pending L c a" for a
    using that by (auto simp: good_attachment_def good_pending_def attachment_row_of_def uploaded_of_def Suc_le_eq)
  then show "list_all (good_attachment L c) (map (attachment_row_of k) us)"
    using eq by (auto simp: good_files_def list_all_iff)
  have "map at_size (map (attachment_row_of k) us) = map (\<lambda>a. length (pa_bytes a)) as"
    by (simp add: eq(1) attachment_row_of_def uploaded_of_def)
  then show "sum_list (map at_size (map (attachment_row_of k) us)) \<le> MAX_ATTACHMENT_TOTAL_BYTES"
    using eq(2) by (simp add: good_files_def)
  show "length us \<le> MAX_ATTACHMENTS_PER_MESSAGE" using eq by (simp add: good_files_def)
qed

lemma good_message_more:
  assumes "good_message L ms as m" and "\<forall>a \<in> set bs. at_message a \<noteq> mg_sequence m"
  shows "good_message L (ms @ ns) (as @ bs) m"
proof -
  have "filter (\<lambda>a. at_message a = mg_sequence m) bs = []" using assms(2) by (simp add: filter_empty_conv)
  with assms(1) show ?thesis unfolding good_message_def Let_def by (auto split: option.splits)
qed

lemma kept_message:
  assumes P: "messages_kept L alnum s"
    and body: "good_text content" "content \<noteq> [] \<or> us \<noteq> []" and us: "good_uploads L c us"
    and reply: "\<And>k. reply = Some k \<Longrightarrow> message_in (tables s) c (int k)"
    and m: "insert_message m (tables s) = Inr (m', d)" "mg_conversation m = c" "mg_content m = content" "mg_reply_to m = reply"
    and files: "message_attachments d' = message_attachments d @ map (attachment_row_of (mg_sequence m)) us"
      "distinct (map at_id (message_attachments d'))"
    and same: "conversation_messages d' = conversation_messages d" "message_reactions d' = message_reactions d"
  shows "messages_ok L alnum d'"
proof -
  let ?ms = "conversation_messages (tables s)" and ?as = "message_attachments (tables s)"
  let ?new = "map (attachment_row_of (mg_sequence m)) us"
  have d: "d = (tables s)\<lparr>conversation_messages := ?ms @ [m]\<rparr>" and fresh: "\<forall>x \<in> set ?ms. mg_sequence x \<noteq> mg_sequence m"
    using m(1) by (auto simp: insert_message_def list_ex_iff split: if_splits)
  have ok: "messages_ok L alnum (tables s)" using P by (simp add: messages_kept_def)
  have own: "at_message a = mg_sequence m" if "a \<in> set ?new" for a using that by (auto simp: attachment_row_of_def)
  have old: "at_message a \<noteq> mg_sequence m" if "a \<in> set ?as" for a
    using ok fresh that unfolding messages_ok_def by fastforce
  have "filter (\<lambda>a. at_message a = mg_sequence m) (?as @ ?new) = ?new"
    using own old by (simp add: filter_empty_conv filter_id_conv)
  then have "good_message L (?ms @ [m]) (?as @ ?new) m"
    using body m(2-4) uploaded_rows(1) [OF us, of "mg_sequence m"] uploaded_rows(2) [OF us]
      uploaded_rows(3) [OF us, of "mg_sequence m"] reply
    by (auto simp: good_message_def Let_def message_in_def list_ex_iff simp del: sum_list_mono map_map split: option.splits)
  moreover have "good_message L (?ms @ [m]) (?as @ ?new) x" if "x \<in> set ?ms" for x
    by (rule good_message_more) (use ok that fresh own in \<open>auto simp: messages_ok_def\<close>)
  moreover have "good_reaction alnum (?ms @ [m]) r" if "good_reaction alnum ?ms r" for r
    using that by (auto simp: good_reaction_def)
  ultimately show ?thesis using ok files same fresh own unfolding messages_ok_def d by auto
qed

lemma commits_read_chain:
  assumes "commits w m (\<lambda>x s'. s' = s \<and> R x) s" and "\<And>x. R x \<Longrightarrow> commits w (k x) Q s"
  shows "commits w (chain m k) Q s"
  by (rule commits_chain, rule commits_mono [OF assms(1)]) (use assms(2) in blast)

lemma commits_reads:
  "commits w (authorize_conversation_access c u) (\<lambda>_ s'. s' = s) s"
  "commits w (conversation_participants c) (\<lambda>_ s'. s' = s) s"
  "commits w (ensure_message_in_conversation c k) (\<lambda>_ s'. s' = s \<and> message_in (tables s) c k) s"
  unfolding authorize_conversation_access_def conversation_participants_def ensure_message_in_conversation_def
  by ((intro committing; simp)+)

lemma insert_attachments_effect:
  "insert_attachments rows d = Inr (x, d') \<Longrightarrow> d' = d\<lparr>message_attachments := message_attachments d @ rows\<rparr> \<and>
     distinct (map at_id (message_attachments d @ rows))"
  by (auto simp: insert_attachments_def simp del: map_append split: if_splits)

lemma commits_message_rows:
  assumes P: "messages_kept L alnum s" and body: "good_text content" "content \<noteq> [] \<or> us \<noteq> []" and us: "good_uploads L c us"
  shows "commits w (message_rows c u content reply us) (\<lambda>_. messages_kept L alnum) s"
proof -
  let ?asked = "\<forall>k. reply = Some k \<longrightarrow> message_in (tables s) c k"
  have asked: "commits w (case reply of None \<Rightarrow> ret () | Some k \<Rightarrow> ensure_message_in_conversation c k) (\<lambda>_ s'. s' = s \<and> ?asked) s"
    by (cases reply) (auto intro: commits_ret commits_mono [OF commits_reads(3)])
  have answered: "message_in (tables s) c (int k)" if p: ?asked "map_option nat reply = Some k" for k
  proof -
    obtain z where z: "k = nat z" "message_in (tables s) c z" using p unfolding map_option_eq_Some by blast
    then have "0 \<le> z" by (auto simp: message_in_def list_ex_iff)
    with z show ?thesis by simp
  qed
  have alone_ids: "distinct (map at_id (message_attachments (tables s)))" using P by (simp add: messages_kept_def messages_ok_def)
  have kept: "messages_kept L alnum (s\<lparr>tables := d'\<rparr>)"
    if q: ?asked "insert_message m (tables s) = Inr (m', d)" "mg_conversation m = c" "mg_content m = content"
        "mg_reply_to m = map_option nat reply"
      and d': "if us = [] then d' = d else insert_attachments (map (attachment_row_of (mg_sequence m')) us) d = Inr (x, d')"
    for m m' d d' x
  proof -
    have m': "m' = m" "message_attachments d = message_attachments (tables s)"
      using q(2) by (auto simp: insert_message_def split: if_splits)
    have "message_attachments d' = message_attachments d @ map (attachment_row_of (mg_sequence m)) us"
        "distinct (map at_id (message_attachments d'))" "conversation_messages d' = conversation_messages d"
        "message_reactions d' = message_reactions d"
      using d' m' alone_ids by (auto split: if_splits dest!: insert_attachments_effect)
    then have "messages_ok L alnum d'" using answered [OF q(1)] by (intro kept_message [OF P body us _ q(2-5)])
    then show ?thesis by (simp add: messages_kept_def)
  qed
  show ?thesis
    unfolding message_rows_def touch_group_def next_sequence_def
    apply (rule commits_read_chain [where R = "\<lambda>_. True"], simp add: commits_reads)
    apply (rule commits_read_chain [OF asked])
    apply (rule commits_read_chain [where R = "\<lambda>_. True"], simp add: commits_reads)
    apply (intro committing)
    subgoal by (rule messages_same, rule messages_same, rule kept, assumption, assumption, simp_all)
    subgoal by (rule messages_same, rule messages_same, simp, rule kept, assumption, assumption, simp_all)
    done
qed

lemma insert_reaction_effect:
  "insert_reaction_if_absent r d = Inr (x, d') \<Longrightarrow> d' = d \<or>
     (d' = d\<lparr>message_reactions := message_reactions d @ [r]\<rparr> \<and>
      \<not> list_ex (\<lambda>q. re_message q = re_message r \<and> re_user q = re_user r \<and> re_emoji q = re_emoji r) (message_reactions d) \<and>
      list_ex (\<lambda>m. mg_sequence m = re_message r) (conversation_messages d))"
  by (simp add: insert_reaction_if_absent_def split: if_splits)

lemma messages_ok_reaction:
  assumes "messages_ok L alnum d" and "good_reaction alnum (conversation_messages d) r"
    and "reaction_key r \<notin> reaction_key ` set (message_reactions d)"
  shows "messages_ok L alnum (d\<lparr>message_reactions := message_reactions d @ [r]\<rparr>)"
  using assms by (simp add: messages_ok_def)

lemma kept_reaction:
  assumes P: "messages_kept L alnum s" and r: "insert_reaction_if_absent r (tables s) = Inr (x, d)"
    and e: "validate_reaction alnum raw = Inr (re_emoji r)"
  shows "messages_kept L alnum (s\<lparr>tables := d\<rparr>)"
proof (cases "d = tables s")
  case False
  with insert_reaction_effect [OF r] have d: "d = (tables s)\<lparr>message_reactions := message_reactions (tables s) @ [r]\<rparr>"
    and new: "\<not> list_ex (\<lambda>q. re_message q = re_message r \<and> re_user q = re_user r \<and> re_emoji q = re_emoji r)
        (message_reactions (tables s))"
    and old: "list_ex (\<lambda>m. mg_sequence m = re_message r) (conversation_messages (tables s))" by blast+
  have "reaction_key r \<notin> reaction_key ` set (message_reactions (tables s))"
    using new by (fastforce simp: reaction_key_def list_ex_iff)
  moreover have "good_reaction alnum (conversation_messages (tables s)) r"
  proof -
    have "re_message r \<in> set (map mg_sequence (conversation_messages (tables s)))"
      using old unfolding list_ex_iff set_map by (metis imageI)
    with e show ?thesis unfolding good_reaction_def by blast
  qed
  ultimately show ?thesis using P by (simp add: messages_kept_def d messages_ok_reaction)
qed (use P in simp)

lemma kept_unreact:
  "messages_kept L alnum s \<Longrightarrow> messages_kept L alnum (s\<lparr>tables := (tables s)\<lparr>message_reactions :=
     delete_where hit (message_reactions (tables s))\<rparr>\<rparr>)"
  by (auto simp: messages_kept_def messages_ok_def delete_where_def distinct_map_filter)

text \<open>Statements on other tables.\<close>

definition beside :: "(database \<Rightarrow> 'e + 'a \<times> database) \<Rightarrow> bool" where
  "beside q \<longleftrightarrow> (\<forall>d x d'. q d = Inr (x, d') \<longrightarrow> conversation_messages d' = conversation_messages d \<and>
     message_attachments d' = message_attachments d \<and> message_reactions d' = message_reactions d)"

lemma beside_statements:
  "beside (insert_direct_if_absent L c)" "beside (insert_direct_request r)" "beside (answer_request i u accept)"
  "beside (insert_hidden c' u)" "beside (upsert_read_state c'' u' f new)"
  unfolding insert_direct_if_absent_def insert_conversation_def insert_direct_request_def answer_request_def insert_hidden_def
    upsert_read_state_def Let_def
  by (auto simp: beside_def split: if_splits option.splits)

section \<open>The handlers\<close>

named_theorems talking \<open>introduction rules for handlers that keep the rules of messages\<close>

lemma kept_effects_too [simp]:
  "messages_kept L alnum (s\<lparr>published := p\<rparr>) = messages_kept L alnum s"
  "messages_kept L alnum (s\<lparr>objects := b\<rparr>) = messages_kept L alnum s"
  by (simp_all add: messages_kept_def)

lemma keeps_beside:
  assumes "steady w (messages_kept L alnum)" and "beside q"
  shows "keeps w (messages_kept L alnum) (statement q)"
  by (rule keeps_statement [OF assms(1)]) (use assms(2) in \<open>auto simp: beside_def intro: messages_same\<close>)

lemma keeps_talk_statements [talking]:
  assumes st: "steady w (messages_kept L alnum)"
  shows "keeps w (messages_kept L alnum) (statement (insert_direct_if_absent L' c))"
    "keeps w (messages_kept L alnum) (statement (insert_direct_request r))"
    "keeps w (messages_kept L alnum) (statement (answer_request i u accept))"
    "keeps w (messages_kept L alnum) (statement (insert_hidden c' u'))"
    "keeps w (messages_kept L alnum) (statement (upsert_read_state c'' u'' f new))"
  by (rule keeps_beside [OF st beside_statements(1)] keeps_beside [OF st beside_statements(2)]
      keeps_beside [OF st beside_statements(3)] keeps_beside [OF st beside_statements(4)]
      keeps_beside [OF st beside_statements(5)])+

lemma keeps_talk_updates [talking]:
  assumes st: "steady w (messages_kept L alnum)"
  shows "keeps w (messages_kept L alnum) (execute (\<lambda>d. d\<lparr>conversations := f1 d\<rparr>))"
    "keeps w (messages_kept L alnum) (execute (\<lambda>d. d\<lparr>conversation_hidden_states := f2 d\<rparr>))"
    "keeps w (messages_kept L alnum) (execute (\<lambda>d. d\<lparr>direct_message_requests := f3 d\<rparr>))"
    "keeps w (messages_kept L alnum) (execute (\<lambda>d. d\<lparr>message_reactions := delete_where hit (message_reactions d)\<rparr>))"
  by (rule keeps_execute [OF st]; auto intro: messages_same kept_unreact)+

lemma keeps_talk_effects [talking]:
  "keeps w (messages_kept L alnum) (publish us r)"
  "steady w (messages_kept L alnum) \<Longrightarrow> keeps w (messages_kept L alnum) (alert us a)"
  "steady w (messages_kept L alnum) \<Longrightarrow> keeps w (messages_kept L alnum) (object_upload k t b)"
  "steady w (messages_kept L alnum) \<Longrightarrow> keeps w (messages_kept L alnum) (object_delete k)"
  "steady w (messages_kept L alnum) \<Longrightarrow> keeps w (messages_kept L alnum) (object_download k)"
  by (intro keeping kept_effects_too; assumption?)+

lemma keeps_talk_parts [talking]:
  assumes st: "steady w (messages_kept L alnum)"
  shows "keeps w (messages_kept L alnum) (message_counts_for_conversations a10 b10)"
    "keeps w (messages_kept L alnum) (authorize_conversation_access a12 b12)"
    "keeps w (messages_kept L alnum) (conversation_participants a13)"
    "keeps w (messages_kept L alnum) (ensure_message_in_conversation a14 b14)"
    "keeps w (messages_kept L alnum) (unhide a15 b15)" "keeps w (messages_kept L alnum) (mark_messages_read a16 b16 c16)"
    "keeps w (messages_kept L alnum) (find_direct_conversation a17 b17)"
    "keeps w (messages_kept L alnum) (ensure_user_exists a18)"
    "keeps w (messages_kept L alnum) (are_accepted_friends a19 b19)" "keeps w (messages_kept L alnum) (last_seen_at a20)"
    "keeps w (messages_kept L alnum) (resolve_pending_direct_request a21 b21)"
  unfolding message_counts_for_conversations_def authorize_conversation_access_def conversation_participants_def
    ensure_message_in_conversation_def unhide_def mark_messages_read_def find_direct_conversation_def
    ensure_user_exists_def are_accepted_friends_def last_seen_at_def resolve_pending_direct_request_def Let_def
  by (intro keeping talking st)+

lemma keeps_talk_parts_2 [talking]:
  assumes st: "steady w (messages_kept L alnum)"
  shows "keeps w (messages_kept L alnum) (sender_avatar_url a5 b5)"
    "keeps w (messages_kept L alnum) (alert_new_message a6 b6 c6 d6)"
    "keeps w (messages_kept L alnum) (reply_previews a7 b7)" "keeps w (messages_kept L alnum) (reaction_summaries a8 b8 c8)"
    "keeps w (messages_kept L alnum) (message_attachments_of a9 b9 c9)"
    "keeps w (messages_kept L alnum) (delete_uploaded_attachments a10)"
    "keeps w (messages_kept L alnum) (sent_message a11 b11 c11 d11)"
    "keeps w (messages_kept L alnum) (ensure_direct_conversation a12 b12 c12)"
    "keeps w (messages_kept L alnum) (available a13 b13 c13 d13)" "keeps w (messages_kept L alnum) (open_by_request a14 b14 c14)"
  unfolding sender_avatar_url_def alert_new_message_def reply_previews_def reaction_summaries_def
    message_attachments_of_def delete_uploaded_attachments_def sent_message_def ensure_direct_conversation_def
    available_def open_by_request_def Let_def
  by (intro keeping talking st)+

lemma keeps_parsing [talking]: "keeps w P (parse_parts L' json c fs m)"
  by (induction L' json c fs m rule: parse_parts.induct) (simp_all, (intro keeping; simp)+)

lemma keeps_parse_message [talking]: "keeps w P (parse_attachment_message L' json c fs)"
  unfolding parse_attachment_message_def by (intro keeping talking)

lemma keeps_uploading [talking]:
  "steady w (messages_kept L alnum) \<Longrightarrow> keeps w (messages_kept L alnum) (upload_attachments ks us as)"
proof (induction as arbitrary: ks us)
  case (Cons a as)
  show ?case unfolding upload_attachments.simps Let_def by (intro keeping talking Cons)
qed (simp add: keeping)

lemma keeps_message_rows:
  assumes st: "steady w (messages_kept L alnum)" and "good_text content" "content \<noteq> [] \<or> us \<noteq> []" "good_uploads L c us"
  shows "keeps w (messages_kept L alnum) (transaction_as f (message_rows c u content reply us))"
  by (rule keeps_transaction_as_commits [OF st]) (erule commits_message_rows [OF _ assms(2-4)])

lemma keeps_reaction_rows:
  assumes st: "steady w (messages_kept L alnum)" and e: "validate_reaction alnum raw = Inr glyph"
  shows "keeps w (messages_kept L alnum) (reaction_rows c u k glyph)"
proof -
  have "keeps w (messages_kept L alnum) (statement (insert_reaction_if_absent
      \<lparr>re_message = nat k, re_user = u, re_emoji = glyph, re_created = now\<rparr>))" for now
    by (rule keeps_statement [OF st], erule (1) kept_reaction [where raw = raw]) (simp add: e)
  then show ?thesis unfolding reaction_rows_def by (intro keeping talking st)
qed

lemma keeps_befriending [talking]:
  assumes st: "steady w (messages_kept L alnum)"
  shows "keeps w (messages_kept L alnum) (transaction_as f1 (befriended_rows L' u v))"
    and "keeps w (messages_kept L alnum) (transaction_as f2 (answer_rows L' i u accept))"
  unfolding befriended_rows_def answer_rows_def
  by (rule keeps_transaction_as [OF st], intro keeping talking steady_alone)+

lemma keeps_create_message:
  assumes st: "steady w (messages_kept L alnum)"
  shows "keeps w (messages_kept L alnum) (create_message L h c content reply)"
proof -
  have send: "keeps w (messages_kept L alnum) (transaction_as f (message_rows c u t reply []))"
    if "validate_message_content content = Inr t" for f u t
    by (rule keeps_message_rows [OF st]) (use validated_texts(1) [OF that] in \<open>simp_all add: good_uploads_def good_files_def\<close>)
  show ?thesis unfolding create_message_def
    by (rule keeps_chain, intro keeping, rule keeps_yields_chain [where R = "\<lambda>t. validate_message_content content = Inr t"])
      (auto intro: keeping simp: yields_simps intro!: keeping(1) talking send st)
qed

lemma keeps_create_with_attachments:
  assumes st: "steady w (messages_kept L alnum)"
  shows "keeps w (messages_kept L alnum) (create_message_with_attachments L json h c fs)"
proof -
  have send: "keeps w (messages_kept L alnum) (chain (upload_attachments [] [] pending) k)"
    if good: "good_request L c (content, reply, pending)"
      and k: "\<And>us. us = map uploaded_of pending \<Longrightarrow> keeps w (messages_kept L alnum) (k us)" for pending content reply k
    by (rule keeps_yields_chain [OF _ upload_results]) (use k in \<open>auto intro: talking st\<close>)
  have rows: "keeps w (messages_kept L alnum) (transaction_as f (message_rows c u content reply (map uploaded_of pending)))"
    if "good_request L c (content, reply, pending)" for f u content reply pending
    by (rule keeps_message_rows [OF st]) (use that in \<open>auto simp: good_request_def good_uploads_def\<close>)
  show ?thesis unfolding create_message_with_attachments_def Let_def
  proof (rule keeps_chain, (intro keeping)[1], rule keeps_chain, (intro keeping st)[1], rule keeps_chain, (intro keeping st)[1],
      rule keeps_chain, (intro talking st)[1], rule keeps_yields_chain [OF keeps_parse_message parse_message_good])
    fix u r
    assume "good_request L c r"
    then obtain content reply pending where r: "r = (content, reply, pending)" and good: "good_request L c (content, reply, pending)"
      by (cases r) auto
    show "keeps w (messages_kept L alnum) (case r of (content, reply, pending) \<Rightarrow>
        chain (upload_attachments [] [] pending) (\<lambda>uploaded.
        chain (attempt (chain (map_err social_error connect) (\<lambda>_.
          transaction_as social_error (message_rows c u content reply uploaded)))) (\<lambda>r.
        case r of
          Inl e \<Rightarrow> chain (delete_uploaded_attachments (map ua_key uploaded)) (\<lambda>_. throw e)
        | Inr sent \<Rightarrow> sent_message L c sent (map (attachment_response L c) uploaded))))"
      unfolding r prod.case by (rule send [OF good]) (simp only:, intro keeping talking st rows good)
  qed
qed

lemma keeps_toggle_reaction:
  assumes st: "steady w (messages_kept L alnum)"
  shows "keeps w (messages_kept L alnum) (toggle_message_reaction L' alnum rank h c k e)"
proof -
  have react: "keeps w (messages_kept L alnum) (transaction_as f (reaction_rows c u k glyph))"
    if "validate_reaction alnum e = Inr glyph" for f u glyph
    by (rule keeps_transaction_as [OF st], rule keeps_reaction_rows [OF steady_alone that])
  show ?thesis unfolding toggle_message_reaction_def
    by (rule keeps_chain, (intro keeping)[1], rule keeps_yields_chain [where R = "\<lambda>t. validate_reaction alnum e = Inr t"],
        (intro keeping)[1], simp add: yields_simps, intro keeping talking react st; assumption)
qed

lemma keeps_other_talks:
  assumes st: "steady w (messages_kept L alnum)"
  shows "keeps w (messages_kept L alnum) (list_conversations L' h)"
    "keeps w (messages_kept L alnum) (open_direct_conversation L' h c2)"
    "keeps w (messages_kept L alnum) (list_direct_message_requests L' h)"
    "keeps w (messages_kept L alnum) (respond_to_direct_message_request L' h c4 d4)"
    "keeps w (messages_kept L alnum) (hide_direct_conversation L' h c5)"
    "keeps w (messages_kept L alnum) (get_message_attachment L' h c8 d8)"
    "keeps w (messages_kept L alnum) (list_messages L' b10 h d10 e10 f10)"
    "keeps w (messages_kept L alnum) (mark_conversation_read L' h c11)"
    "keeps w (messages_kept L alnum) (mark_conversation_unread L' h c12)"
  unfolding list_conversations_def open_direct_conversation_def list_direct_message_requests_def
    respond_to_direct_message_request_def hide_direct_conversation_def get_message_attachment_def list_messages_def
    mark_conversation_read_def mark_conversation_unread_def Let_def
  by ((intro keeping talking st; assumption?)+)

lemma keeps_talk_requests:
  assumes st: "steady w (messages_kept (li_platform X) (li_alnum X))"
  shows "keeps w (messages_kept (li_platform X) (li_alnum X)) (answer_talk X h r)"
  using keeps_other_talks [OF st] keeps_toggle_reaction [OF st] keeps_create_message [OF st] keeps_create_with_attachments [OF st]
  by (cases r) (simp_all only: answer_talk.simps keeps_finished)

section \<open>Properties\<close>

definition talks_of :: "libraries \<Rightarrow> 'm served list \<Rightarrow> bool" where
  "talks_of X qs \<longleftrightarrow> list_all (\<lambda>(w, n, h, r). steady w (messages_kept (li_platform X) (li_alnum X)) \<and> (\<exists>q. r = Talks q)) qs"

text \<open>
  C35. The message API keeps its store in order, whatever is uploaded, fails or runs in between: every message has
  trimmed text of at most 2000 characters or files, at most ten of them with 25 MiB in all, named, stored under
  the key of its conversation and with voice details only for audio; it quotes only messages of its own
  conversation; numbers and files are not shared; and a user reacts to a message with an emoji only once.
\<close>

theorem messages_stay_in_order:
  assumes "messages_ok (li_platform X) (li_alnum X) (tables s)" and "talks_of X qs"
  shows "messages_ok (li_platform X) (li_alnum X) (tables (serve X qs s))"
  using assms
proof (induction qs arbitrary: s)
  case (Cons q qs)
  obtain w n h t where q: "q = (w, n, h, Talks t)" and st: "steady w (messages_kept (li_platform X) (li_alnum X))"
    using Cons.prems(2) by (cases q) (auto simp: talks_of_def)
  have "messages_kept (li_platform X) (li_alnum X) (snd (snd (answer_talk X h t w n s)))"
    by (rule keepsD [OF keeps_talk_requests [OF st]]) (use Cons.prems(1) in \<open>simp add: messages_kept_def\<close>)
  then show ?case using Cons.IH Cons.prems(2) by (simp add: q messages_kept_def talks_of_def)
qed simp

definition sample_talk_site :: social_site where
  "sample_talk_site = \<lparr>tables = empty_database\<lparr>
     conversation_messages := [\<lparr>mg_sequence = 3, mg_conversation = 50, mg_sender = 8, mg_sender_name = lit ''Bob'',
       mg_content = lit ''Hi'', mg_created = 1, mg_reply_to = None\<rparr>]\<rparr>,
     published = [], objects = Map.empty, media = []\<rparr>"

definition sample_talks :: "(social_site world \<times> nat \<times> str option \<times> social_request) list" where
  "sample_talks = [(sample_social_world, 0, Some sample_token, Talks (CreateMessage 50 (lit ''Hello'') (Some 3))),
     (sample_social_world, 0, Some sample_token, Talks (ToggleMessageReaction 50 3 (lit ''+'')))]"

theorem messages_stay_in_order_witness:
  "messages_ok sample_platform (\<lambda>_. True) (tables (serve sample_libraries sample_talks sample_talk_site))"
proof -
  have "good_text (lit ''Hi'')"
    by (simp add: good_text_def trim_def trim_start_def trim_end_def is_whitespace_def lit_def)
  then have "messages_ok sample_platform (\<lambda>_. True) (tables sample_talk_site)"
    by (simp add: sample_talk_site_def empty_database_def messages_ok_def good_message_def)
  moreover have "talks_of sample_libraries sample_talks"
    by (simp add: talks_of_def sample_talks_def steady_def sample_social_world_def)
  ultimately show ?thesis using messages_stay_in_order [of sample_libraries sample_talk_site sample_talks]
    by (simp add: sample_libraries_def)
qed

end
