(* ===== verification/PreviewServer.thy ===== *)
theory PreviewServer
  imports LinkPreviews
begin

text \<open>
  Fetching pages and images, the cache of previews and the requests of \<open>src/social/link_previews.rs\<close>. What the
  web answers, what names resolve to and which addresses the client contacts is a \<open>web\<close>; the site of the
  previews is the cache, with the addresses contacted so far. Other requests act while one waits for the web.
\<close>

section \<open>Bytes of a page\<close>

text \<open>
  \<open>String::from_utf8_lossy\<close>: the well-formed prefix of a broken sequence becomes one replacement character. A
  leading byte asks for continuation bytes within bounds.
\<close>

definition continuation_bounds :: "nat \<Rightarrow> (nat \<times> nat) list option" where
  "continuation_bounds a =
     (if a < 128 then Some []
      else if 194 \<le> a \<and> a \<le> 223 then Some [(128, 191)]
      else if a = 224 then Some [(160, 191), (128, 191)]
      else if a = 237 then Some [(128, 159), (128, 191)]
      else if 225 \<le> a \<and> a \<le> 239 then Some [(128, 191), (128, 191)]
      else if a = 240 then Some [(144, 191), (128, 191), (128, 191)]
      else if 241 \<le> a \<and> a \<le> 243 then Some [(128, 191), (128, 191), (128, 191)]
      else if a = 244 then Some [(128, 143), (128, 191), (128, 191)]
      else None)"

fun matched :: "(nat \<times> nat) list \<Rightarrow> 8 word list \<Rightarrow> nat" where
  "matched ((low, high) # bounds) (b # bs) =
     (if low \<le> unat b \<and> unat b \<le> high then Suc (matched bounds bs) else 0)"
| "matched _ _ = 0"

definition leading_bits :: "nat \<Rightarrow> nat \<Rightarrow> nat" where
  "leading_bits a n = (if n = 0 then a else a mod 2 ^ (6 - n))"

function from_utf8_lossy :: "8 word list \<Rightarrow> str" where
  "from_utf8_lossy bytes = (case bytes of [] \<Rightarrow> [] | a # as \<Rightarrow>
     (case continuation_bounds (unat a) of
        None \<Rightarrow> 65533 # from_utf8_lossy as
      | Some bounds \<Rightarrow>
          (let n = matched bounds as;
               c = foldl (\<lambda>c b. c * 64 + unat b mod 64) (leading_bits (unat a) n) (take n as) in
           (if n = length bounds then c else 65533) # from_utf8_lossy (drop n as))))"
  by pat_completeness auto
termination
  by (relation "measure length") (auto simp: le_imp_less_Suc)

declare from_utf8_lossy.simps [simp del]

text \<open>At most \<open>limit\<close> bytes: a page is cut off, an image that is too large is refused.\<close>

fun read_limited :: "nat \<Rightarrow> bool \<Rightarrow> 8 word list \<Rightarrow> 8 word list option list \<Rightarrow> 8 word list option" where
  "read_limited limit shorten body [] = Some body"
| "read_limited limit shorten body (None # cs) = None"
| "read_limited limit shorten body (Some c # cs) =
     (if limit < length body + length c then
        if \<not> shorten then None else Some (body @ take (limit - length body) c)
      else read_limited limit shorten (body @ c) cs)"

lemma read_limited_bound:
  "read_limited limit shorten body cs = Some bytes \<Longrightarrow> length body \<le> limit \<Longrightarrow> length bytes \<le> limit"
  by (induction limit shorten body cs rule: read_limited.induct) (auto split: if_splits)

section \<open>The web\<close>

datatype image_format = Jpeg | Png | WebP | Gif | OtherFormat

record http_response =
  hr_status :: nat
  hr_content_type :: "str option"
  hr_url :: url
  hr_chunks :: "8 word list option list"

text \<open>
  The client at some moment: the answer to a request, the addresses it contacts on the way, and the answers of
  the name servers. \<open>image_of\<close> is \<open>image::guess_format\<close>.
\<close>

record web =
  wb_answer :: "nat \<Rightarrow> url \<Rightarrow> http_response option"
  wb_contacts :: "nat \<Rightarrow> url \<Rightarrow> ip_addr list"
  wb_lookup_host :: "nat \<Rightarrow> str \<Rightarrow> ip_addr list option"
  wb_image_of :: "8 word list \<Rightarrow> image_format option"

record preview_site =
  pv_cache :: "(str \<times> instant \<times> link_preview option) list"
  pv_contacted :: "ip_addr set"

definition http_get :: "web \<Rightarrow> url \<Rightarrow> ('m preview_site_scheme, 'e, http_response option) prog" where
  "http_get W u w n s =
     (let s = meanwhile w n s in
      (Inr (wb_answer W n u), Suc n, s\<lparr>pv_contacted := pv_contacted s \<union> set (wb_contacts W n u)\<rparr>))"

text \<open>\<open>error_for_status\<close>.\<close>

definition error_for_status :: "http_response \<Rightarrow> http_response option" where
  "error_for_status r = (if 400 \<le> hr_status r \<and> hr_status r \<le> 599 then None else Some r)"

definition contains_str :: "str \<Rightarrow> str \<Rightarrow> bool" where
  "contains_str p s \<longleftrightarrow> find_str p s \<noteq> None"

definition is_html :: "http_response \<Rightarrow> bool" where
  "is_html r = (case hr_content_type r of None \<Rightarrow> False | Some t \<Rightarrow>
     let t = map to_ascii_lower t in contains_str (lit ''text/html'') t \<or> contains_str (lit ''xhtml'') t)"

definition MAX_HTML_BYTES :: nat where "MAX_HTML_BYTES = 512 * 1024"
definition MAX_IMAGE_BYTES :: nat where "MAX_IMAGE_BYTES = 3 * 1024 * 1024"

definition page_preview :: "url_library \<Rightarrow> http_response \<Rightarrow> link_preview option" where
  "page_preview U r =
     (if \<not> is_html r then None
      else Option.bind (read_limited MAX_HTML_BYTES True [] (hr_chunks r)) (\<lambda>body.
        let preview = parse_preview U (hr_url r) (from_utf8_lossy body) in
        if lp_title preview \<noteq> None \<or> lp_description preview \<noteq> None then Some preview else None))"

definition fetch_preview :: "url_library \<Rightarrow> web \<Rightarrow> url \<Rightarrow> ('m preview_site_scheme, 'e, link_preview option) prog" where
  "fetch_preview U W u =
     chain (http_get W u) (\<lambda>r. ret (Option.bind (Option.bind r error_for_status) (page_preview U)))"

definition image_content_type :: "image_format option \<Rightarrow> str option" where
  "image_content_type f = (case f of
     Some Jpeg \<Rightarrow> Some (lit ''image/jpeg'') | Some Png \<Rightarrow> Some (lit ''image/png'')
   | Some WebP \<Rightarrow> Some (lit ''image/webp'') | Some Gif \<Rightarrow> Some (lit ''image/gif'') | _ \<Rightarrow> None)"

definition image_body :: "web \<Rightarrow> http_response \<Rightarrow> (8 word list \<times> str) option" where
  "image_body W r = Option.bind (read_limited MAX_IMAGE_BYTES False [] (hr_chunks r)) (\<lambda>bytes.
     map_option (Pair bytes) (image_content_type (wb_image_of W bytes)))"

definition fetch_image :: "web \<Rightarrow> url \<Rightarrow> ('m preview_site_scheme, 'e, (8 word list \<times> str) option) prog" where
  "fetch_image W u = chain (http_get W u) (\<lambda>r. ret (Option.bind (Option.bind r error_for_status) (image_body W)))"

section \<open>The cache\<close>

definition CACHE_TTL :: nat where "CACHE_TTL = seconds (60 * 60)"
definition CACHE_CAPACITY :: nat where "CACHE_CAPACITY = 512"

definition is_fresh :: "instant \<Rightarrow> instant \<Rightarrow> bool" where
  "is_fresh now fetched_at \<longleftrightarrow> now - fetched_at < CACHE_TTL"

text \<open>
  Room for one more: old entries go first, then the oldest one. The order of the list is that of the hash map,
  which decides between entries of the same age.
\<close>

definition evict_oldest ::
  "(str \<times> instant \<times> link_preview option) list \<Rightarrow> (str \<times> instant \<times> link_preview option) list" where
  "evict_oldest c = (case order_asc (\<lambda>e. fst (snd e)) c of [] \<Rightarrow> c | e # _ \<Rightarrow> AList.delete (fst e) c)"

definition make_room ::
  "instant \<Rightarrow> (str \<times> instant \<times> link_preview option) list \<Rightarrow> (str \<times> instant \<times> link_preview option) list" where
  "make_room now c =
     (let c = (if CACHE_CAPACITY \<le> length c then filter (\<lambda>e. is_fresh now (fst (snd e))) c else c) in
      if CACHE_CAPACITY \<le> length c then evict_oldest c else c)"

definition recall :: "str \<Rightarrow> ('m preview_site_scheme, 'e, link_preview option option) prog" where
  "recall k w n s = (Inr (case map_of (pv_cache s) k of
       Some (fetched_at, preview) \<Rightarrow> if is_fresh (clock w n) fetched_at then Some preview else None
     | None \<Rightarrow> None), n, s)"

definition remember :: "str \<Rightarrow> link_preview option \<Rightarrow> ('m preview_site_scheme, 'e, unit) prog" where
  "remember k preview w n s = (Inr (), n,
     s\<lparr>pv_cache := AList.update k (clock w n, preview) (make_room (clock w n) (pv_cache s))\<rparr>)"

definition preview_for :: "url_library \<Rightarrow> web \<Rightarrow> url \<Rightarrow> ('m preview_site_scheme, 'e, link_preview option) prog" where
  "preview_for U W u =
     (let k = ul_text U u in
      chain (recall k) (\<lambda>hit. case hit of
        Some preview \<Rightarrow> ret preview
      | None \<Rightarrow>
          chain (fetch_preview U W u) (\<lambda>preview.
          chain (remember k preview) (\<lambda>_. ret preview))))"

section \<open>The requests\<close>

definition unsupported_link :: api_error where
  "unsupported_link = (BAD_REQUEST, lit ''Unsupported link'')"

definition get_link_preview ::
  "platform \<Rightarrow> url_library \<Rightarrow> web \<Rightarrow> str option \<Rightarrow> str \<Rightarrow> ('m preview_site_scheme, api_error, link_preview) prog" where
  "get_link_preview L U W header raw =
     chain (caller L header) (\<lambda>_.
     chain (result (ok_or unsupported_link (parse_public_url U raw))) (\<lambda>u.
     chain (preview_for U W u) (\<lambda>preview.
     result (ok_or (NOT_FOUND, lit ''No preview available'') preview))))"

definition no_preview_image :: api_error where
  "no_preview_image = (NOT_FOUND, lit ''No preview image'')"

record image_reply =
  ir_content_type :: str
  ir_cache_control :: str
  ir_content_type_options :: str
  ir_bytes :: "8 word list"

definition get_link_preview_image ::
  "platform \<Rightarrow> url_library \<Rightarrow> web \<Rightarrow> str option \<Rightarrow> str \<Rightarrow> ('m preview_site_scheme, api_error, image_reply) prog" where
  "get_link_preview_image L U W header raw =
     chain (caller L header) (\<lambda>_.
     chain (result (ok_or unsupported_link (parse_public_url U raw))) (\<lambda>u.
     chain (preview_for U W u) (\<lambda>preview.
     chain (result (ok_or no_preview_image (Option.bind preview lp_image_url))) (\<lambda>image.
     chain (fetch_image W image) (\<lambda>found.
     chain (result (ok_or no_preview_image found)) (\<lambda>(bytes, content_type).
     ret \<lparr>ir_content_type = content_type, ir_cache_control = lit ''private, max-age=3600'',
       ir_content_type_options = lit ''nosniff'', ir_bytes = bytes\<rparr>))))))"

section \<open>Nothing inside is contacted\<close>

datatype preview_request = Preview str | PreviewImage str

definition drop_result :: "('s, 'e, 'a) prog \<Rightarrow> ('s, 'e, unit) prog" where
  "drop_result m = chain m (\<lambda>_. ret ())"

primrec preview_answer ::
  "platform \<Rightarrow> url_library \<Rightarrow> web \<Rightarrow> str option \<Rightarrow> preview_request \<Rightarrow> ('m preview_site_scheme, api_error, unit) prog" where
  "preview_answer L U W h (Preview raw) = drop_result (get_link_preview L U W h raw)"
| "preview_answer L U W h (PreviewImage raw) = drop_result (get_link_preview_image L U W h raw)"

text \<open>
  What is relied on of the libraries. The text of a parsed URL parses to it; and the client contacts an address
  only for the URL asked for, or for one that the redirect policy let it follow: the address written in the URL,
  or one that the resolver gave it for the host.
\<close>

definition url_laws :: "url_library \<Rightarrow> bool" where
  "url_laws U \<longleftrightarrow> (\<forall>raw u. ul_parse U raw = Some u \<longrightarrow> ul_parse U (trim (ul_text U u)) = Some u)"

definition address_of :: "(str \<Rightarrow> ip_addr list option) \<Rightarrow> url \<Rightarrow> ip_addr \<Rightarrow> bool" where
  "address_of lookup_host u a = (case u_host u of
     None \<Rightarrow> False
   | Some (Ipv4 ip) \<Rightarrow> a = V4 ip
   | Some (Ipv6 ip) \<Rightarrow> a = V6 ip
   | Some (Domain name) \<Rightarrow> (case resolve lookup_host name of None \<Rightarrow> False | Some addresses \<Rightarrow> a \<in> set addresses))"

definition web_laws :: "url_library \<Rightarrow> web \<Rightarrow> bool" where
  "web_laws U W \<longleftrightarrow> (\<forall>n u a. a \<in> set (wb_contacts W n u) \<longrightarrow> address_of (wb_lookup_host W n) u a \<or>
     (\<exists>raw v k. ul_parse U raw = Some v \<and> redirect_policy U k v = Follow \<and> address_of (wb_lookup_host W n) v a))"

definition public_target :: "url \<Rightarrow> bool" where
  "public_target u \<longleftrightarrow> (case u_host u of None \<Rightarrow> False | Some h \<Rightarrow> acceptable_host h)"

definition cache_ok :: "(str \<times> instant \<times> link_preview option) list \<Rightarrow> bool" where
  "cache_ok c \<longleftrightarrow> length c \<le> CACHE_CAPACITY \<and> distinct (map fst c) \<and>
     (\<forall>(k, t, preview) \<in> set c. \<forall>p u. preview = Some p \<and> lp_image_url p = Some u \<longrightarrow> public_target u)"

definition previews_ok :: "'m preview_site_scheme \<Rightarrow> bool" where
  "previews_ok s \<longleftrightarrow> (\<forall>a \<in> pv_contacted s. is_public_ip a) \<and> cache_ok (pv_cache s)"

lemma public_parse: "parse_public_url U raw = Some u \<Longrightarrow> public_target u"
  by (erule parse_public_url_Some) (simp add: public_target_def)

lemma public_address: "public_target u \<Longrightarrow> address_of f u a \<Longrightarrow> is_public_ip a"
  by (auto simp: public_target_def address_of_def acceptable_host_def split: option.splits url_host.splits
      dest: resolve_public simp del: is_public_ip.simps)

lemma public_redirect:
  assumes "url_laws U" "ul_parse U raw = Some v" "redirect_policy U k v = Follow"
  shows "public_target v"
proof -
  obtain x where "parse_public_url U (ul_text U v) = Some x"
    using assms(3) by (auto simp: redirect_policy_def split: if_splits)
  then show ?thesis
  proof (rule parse_public_url_Some)
    fix y h assume "ul_parse U (trim (ul_text U v)) = Some y" "u_host y = Some h" "acceptable_host h"
    moreover have "ul_parse U (trim (ul_text U v)) = Some v" using assms(1,2) by (auto simp: url_laws_def)
    ultimately show ?thesis by (simp add: public_target_def)
  qed
qed

lemma contacts_public:
  "url_laws U \<Longrightarrow> web_laws U W \<Longrightarrow> public_target u \<Longrightarrow> a \<in> set (wb_contacts W n u) \<Longrightarrow> is_public_ip a"
  unfolding web_laws_def by (metis public_address public_redirect)

lemma length_delete: "distinct (map fst c) \<Longrightarrow> e \<in> set c \<Longrightarrow> length (AList.delete (fst e) c) < length c"
  by (induction c) (auto simp: AList.delete_eq intro: le_imp_less_Suc dest: hm_delete_absent)

lemma make_room_spec:
  assumes "cache_ok c"
  shows "length (make_room now c) < CACHE_CAPACITY" and "set (make_room now c) \<subseteq> set c" and "distinct (map fst (make_room now c))"
proof -
  define d where "d = (if CACHE_CAPACITY \<le> length c then filter (\<lambda>e. is_fresh now (fst (snd e))) c else c)"
  have d: "length d \<le> CACHE_CAPACITY" "set d \<subseteq> set c" "distinct (map fst d)"
    using assms le_trans [OF length_filter_le] by (auto simp: d_def cache_ok_def distinct_map_filter)
  have e: "length (evict_oldest d) < length d" "set (evict_oldest d) \<subseteq> set d" "distinct (map fst (evict_oldest d))" if "d \<noteq> []"
  proof -
    obtain x xs where o: "order_asc (\<lambda>e. fst (snd e)) d = x # xs"
    proof (cases "order_asc (\<lambda>e. fst (snd e)) d")
      case Nil
      then have "length (order_asc (\<lambda>e. fst (snd e)) d) = 0" by simp
      then show thesis using \<open>d \<noteq> []\<close> by (simp add: order_asc_def)
    qed
    have "x \<in> set (order_asc (\<lambda>e. fst (snd e)) d)" by (simp add: o)
    then have "x \<in> set d" by (simp add: order_asc_def)
    from length_delete [OF d(3) this] show "length (evict_oldest d) < length d" by (simp add: evict_oldest_def o)
    show "set (evict_oldest d) \<subseteq> set d" "distinct (map fst (evict_oldest d))"
      using d(3) by (auto simp: evict_oldest_def o hm_set_delete distinct_delete)
  qed
  have "make_room now c = (if CACHE_CAPACITY \<le> length d then evict_oldest d else d)" by (simp add: make_room_def d_def Let_def)
  moreover have "d \<noteq> []" if "CACHE_CAPACITY \<le> length d" using that by (auto simp: CACHE_CAPACITY_def)
  ultimately show "length (make_room now c) < CACHE_CAPACITY" "set (make_room now c) \<subseteq> set c" "distinct (map fst (make_room now c))"
    using d e by (auto dest!: subsetD [OF e(2)])
qed

lemma cache_ok_remember:
  assumes "cache_ok c" and "\<And>p u. preview = Some p \<Longrightarrow> lp_image_url p = Some u \<Longrightarrow> public_target u"
  shows "cache_ok (AList.update k (t, preview) (make_room now c))"
proof -
  let ?c = "make_room now c"
  have "length (AList.update k v d) \<le> Suc (length d)" for v :: "instant \<times> link_preview option" and d by (induction d) auto
  then have "length (AList.update k (t, preview) ?c) \<le> CACHE_CAPACITY"
    using make_room_spec(1) [OF assms(1), of now] by (meson Suc_leI le_trans)
  moreover have "distinct (map fst (AList.update k (t, preview) ?c))" using make_room_spec(3) [OF assms(1)] by (simp add: distinct_update)
  moreover have "public_target u" if "(j, t', Some p) \<in> set (AList.update k (t, preview) ?c)" "lp_image_url p = Some u" for j t' p u
  proof -
    from hm_set_update [OF that(1)] show ?thesis
    proof
      assume "(j, t', Some p) = (k, t, preview)" then show ?thesis using assms(2) that(2) by auto
    next
      assume "(j, t', Some p) \<in> set ?c"
      then have "(j, t', Some p) \<in> set c" using make_room_spec(2) [OF assms(1)] by blast
      then show ?thesis using assms(1) that(2) unfolding cache_ok_def by fastforce
    qed
  qed
  ultimately show ?thesis unfolding cache_ok_def by blast
qed

lemma parsed_image_public: "lp_image_url (parse_preview U page html) = Some u \<Longrightarrow> public_target u"
  by (auto simp: parse_preview_def Let_def dest!: public_parse split: bind_splits)

lemma page_image_public: "page_preview U r = Some p \<Longrightarrow> lp_image_url p = Some u \<Longrightarrow> public_target u"
  by (auto simp: page_preview_def Let_def split: if_splits bind_splits dest!: parsed_image_public)

text \<open>What a preview that comes back may lead to.\<close>

definition harmless :: "link_preview option \<Rightarrow> bool" where
  "harmless preview \<longleftrightarrow> (\<forall>p u. preview = Some p \<longrightarrow> lp_image_url p = Some u \<longrightarrow> public_target u)"

lemma runs_get:
  assumes "url_laws U" "web_laws U W" "steady w previews_ok" "public_target u"
  shows "runs w previews_ok (http_get W u) (\<lambda>_. previews_ok) (\<lambda>_. previews_ok)"
  using assms contacts_public [OF assms(1,2,4)]
  by (auto simp: runs_def http_get_def previews_ok_def steady_def Let_def)

lemma runs_return: "(\<And>s. P s \<Longrightarrow> Q x s) \<Longrightarrow> runs w P (ret x) Q R"
  by (simp add: runs_def ret_def)

lemma runs_preview_for:
  assumes "url_laws U" "web_laws U W" "steady w previews_ok" "public_target u"
  shows "runs w previews_ok (preview_for U W u) (\<lambda>p s. previews_ok s \<and> harmless p) (\<lambda>_. previews_ok)"
proof -
  have recall: "runs w previews_ok (recall k) (\<lambda>hit s. previews_ok s \<and> (case hit of None \<Rightarrow> True | Some p \<Rightarrow> harmless p)) (\<lambda>_. previews_ok)" for k
    by (auto simp: runs_def recall_def previews_ok_def cache_ok_def harmless_def dest!: map_of_SomeD split: option.splits)
  have fetch: "runs w previews_ok (fetch_preview U W u) (\<lambda>p s. previews_ok s \<and> harmless p) (\<lambda>_. previews_ok)"
    unfolding fetch_preview_def
    by (rule runs_chain [OF runs_get [OF assms]]) (auto intro!: runs_return simp: harmless_def split: bind_splits dest: page_image_public)
  have remember: "runs w (\<lambda>s. previews_ok s \<and> harmless p) (chain (remember k p) (\<lambda>_. ret p))
      (\<lambda>p s. previews_ok s \<and> harmless p) (\<lambda>_. previews_ok)" for k p
    by (auto simp: runs_def chain_def remember_def ret_def previews_ok_def harmless_def intro!: cache_ok_remember)
  show ?thesis unfolding preview_for_def Let_def
  proof (rule runs_chain [OF recall])
    fix hit
    show "runs w (\<lambda>s. previews_ok s \<and> (case hit of None \<Rightarrow> True | Some p \<Rightarrow> harmless p))
        (case hit of None \<Rightarrow> chain (fetch_preview U W u) (\<lambda>p. chain (remember (ul_text U u) p) (\<lambda>_. ret p)) | Some p \<Rightarrow> ret p)
        (\<lambda>p s. previews_ok s \<and> harmless p) (\<lambda>_. previews_ok)"
      by (cases hit) (auto intro!: runs_return runs_chain [OF fetch] remember)
  qed
qed

lemma keeps_chain_result:
  "(\<And>x. r = Inr x \<Longrightarrow> keeps w P (k x)) \<Longrightarrow> keeps w P (chain (result r) k)"
  by (cases r) (auto simp: keeps_iff chain_def result_def)

lemma keeps_chain_runs:
  assumes "runs w P m (\<lambda>x s. P s \<and> F x) (\<lambda>_. P)" and "\<And>x. F x \<Longrightarrow> keeps w P (k x)"
  shows "keeps w P (chain m k)"
  unfolding keeps_def
proof (rule runs_chain [OF assms(1)])
  show "runs w (\<lambda>s. P s \<and> F x) (k x) (\<lambda>_. P) (\<lambda>_. P)" for x
    using assms(2) [of x] by (auto simp: keeps_def runs_def)
qed

lemma ok_or_Inr: "ok_or e x = Inr y \<longleftrightarrow> x = Some y"
  by (cases x) simp_all

lemma keeps_preview_answer:
  assumes laws: "url_laws U" "web_laws U W" "steady w previews_ok"
  shows "keeps w previews_ok (preview_answer L U W h r)"
proof -
  have image: "keeps w previews_ok (fetch_image W u)" if "public_target u" for u
    unfolding fetch_image_def keeps_def
    by (rule runs_chain [OF runs_get [OF laws that]]) (auto intro!: runs_return)
  have preview: "keeps w previews_ok (get_link_preview L U W h raw)" for raw
    unfolding get_link_preview_def
    by (rule keeps_chain [OF keeps_caller], rule keeps_chain_result,
        rule keeps_chain_runs [OF runs_preview_for [OF laws]])
      (auto simp: ok_or_Inr intro: public_parse keeps_pure)
  have "keeps w previews_ok (get_link_preview_image L U W h raw)" for raw
    unfolding get_link_preview_image_def
    by (rule keeps_chain [OF keeps_caller], rule keeps_chain_result,
        rule keeps_chain_runs [OF runs_preview_for [OF laws]], (simp add: ok_or_Inr public_parse)[1],
        rule keeps_chain_result, rule keeps_chain [OF image])
      (auto simp: ok_or_Inr harmless_def split: bind_splits intro!: keeps_chain keeps_pure)
  with preview show ?thesis
    by (cases r) (simp_all add: drop_result_def keeps_chain keeps_pure)
qed

primrec serve_previews ::
  "platform \<Rightarrow> url_library \<Rightarrow> web \<Rightarrow> ('m preview_site_scheme world \<times> nat \<times> str option \<times> preview_request) list
     \<Rightarrow> 'm preview_site_scheme \<Rightarrow> 'm preview_site_scheme" where
  "serve_previews L U W [] s = s"
| "serve_previews L U W (q # qs) s = (case q of (w, n, h, r) \<Rightarrow> serve_previews L U W qs (snd (snd (preview_answer L U W h r w n s))))"

lemma serve_previews_ok:
  "url_laws U \<Longrightarrow> web_laws U W \<Longrightarrow> list_all (\<lambda>(w, _). steady w previews_ok) qs \<Longrightarrow> previews_ok s \<Longrightarrow>
     previews_ok (serve_previews L U W qs s)"
proof (induction qs arbitrary: s)
  case (Cons q qs)
  obtain w n h r where q: "q = (w, n, h, r)" by (cases q) auto
  have "previews_ok (snd (snd (preview_answer L U W h r w n s)))"
    using Cons.prems by (intro keepsD [OF keeps_preview_answer]) (simp_all add: q)
  with Cons show ?case by (simp add: q)
qed simp

definition no_previews :: preview_site where
  "no_previews = \<lparr>pv_cache = [], pv_contacted = {}\<rparr>"

lemma no_previews_ok: "previews_ok no_previews"
  by (simp add: previews_ok_def no_previews_def cache_ok_def)


text \<open>A library that knows one URL, and a web where the name of its host resolves to a public address.\<close>

definition sample_url :: url where
  "sample_url = \<lparr>u_scheme = lit ''http'', u_username = [], u_password = None, u_port = None,
     u_host = Some (Domain (lit ''example.com'')), u_path = lit ''/'', u_fragment = None\<rparr>"

definition sample_urls :: url_library where
  "sample_urls = \<lparr>ul_parse = \<lambda>raw. if raw = lit ''http://example.com/'' then Some sample_url else None,
     ul_text = \<lambda>_. lit ''http://example.com/'', ul_join = \<lambda>_ _. None, ul_host_str = \<lambda>_. Some (lit ''example.com'')\<rparr>"

definition sample_web :: web where
  "sample_web = \<lparr>wb_answer = \<lambda>_ u. Some \<lparr>hr_status = 200, hr_content_type = Some (lit ''text/html''), hr_url = u,
       hr_chunks = [Some (bytes_of ''<title>Hi</title>'')]\<rparr>,
     wb_contacts = \<lambda>_ u. if u = sample_url then [V4 (octets 93 184 216 34)] else [],
     wb_lookup_host = \<lambda>_ _. Some [V4 (octets 93 184 216 34)], wb_image_of = \<lambda>_. None\<rparr>"

definition preview_world :: "preview_site world" where
  "preview_world = \<lparr>fails = \<lambda>_. False, meanwhile = \<lambda>_ s. s, clock = \<lambda>_. 5, fresh = \<lambda>n. of_nat n\<rparr>"

lemma sample_url_laws: "url_laws sample_urls"
  by (auto simp: url_laws_def sample_urls_def lit_def trim_def trim_start_def trim_end_def is_whitespace_def)

lemma sample_address_public: "is_public_ip (V4 (octets 93 184 216 34))"
  by (simp add: is_public_ipv4_def octets_def is_unspecified_def is_private_def is_loopback_def is_link_local_def
      is_broadcast_def is_documentation_def is_multicast_def)

lemma sample_web_laws: "web_laws sample_urls sample_web"
  using sample_address_public
  by (auto simp: web_laws_def sample_web_def address_of_def sample_url_def resolve_def)


end
