(* ===== verification/SharedMedia.thy ===== *)
theory SharedMedia
  imports HistoryPages Search
begin

text \<open>
  The shared media of a conversation (\<open>src/social/shared_media.rs\<close>): photos and videos, files, voice messages,
  links and GIFs, each on a tab of its own and newest first. The conditions of the tabs are constant SQL; \<open>cf\<close> is
  the case folding of the database. The attachments of a message have the same creation time, so that their IDs
  decide on their order.
\<close>

section \<open>The tabs\<close>

definition DEFAULT_MEDIA_PAGE_SIZE :: int where "DEFAULT_MEDIA_PAGE_SIZE = 30"
definition MAX_MEDIA_PAGE_SIZE :: int where "MAX_MEDIA_PAGE_SIZE = 60"

datatype shared_media_kind = Media | Files | Voice | Links | Gifs

definition is_gif :: "attachment_row \<Rightarrow> bool" where
  "is_gif a \<longleftrightarrow> like id (lit ''giphy-%'') (at_file_name a)"

definition is_voice :: "attachment_row \<Rightarrow> bool" where
  "is_voice a \<longleftrightarrow> like id (lit ''voice-message-%'') (at_file_name a) \<and> like id (lit ''audio/%'') (at_content_type a)"

definition is_visual :: "attachment_row \<Rightarrow> bool" where
  "is_visual a \<longleftrightarrow> like id (lit ''image/%'') (at_content_type a) \<or> like id (lit ''video/%'') (at_content_type a)"

definition has_link :: "(uchar \<Rightarrow> uchar) \<Rightarrow> message_row \<Rightarrow> bool" where
  "has_link cf m \<longleftrightarrow> like cf (lit ''%http://%'') (mg_content m) \<or> like cf (lit ''%https://%'') (mg_content m) \<or>
     like cf (lit ''%www.%'') (mg_content m) \<or> like cf (lit ''%openmeets.eu/%'') (mg_content m)"

fun attachment_condition :: "shared_media_kind \<Rightarrow> (attachment_row \<Rightarrow> bool) option" where
  "attachment_condition Gifs = Some is_gif"
| "attachment_condition Voice = Some is_voice"
| "attachment_condition Media = Some (\<lambda>a. is_visual a \<and> \<not> is_gif a)"
| "attachment_condition Files = Some (\<lambda>a. \<not> (is_visual a \<or> is_gif a \<or> is_voice a))"
| "attachment_condition Links = None"

section \<open>Pages\<close>

definition media_error :: "db_error \<Rightarrow> api_error" where
  "media_error _ = (INTERNAL_SERVER_ERROR, lit ''Internal server error'')"

record shared_media_item =
  sm_sequence :: nat
  sm_sender :: uuid
  sm_sender_name :: str
  sm_created :: instant
  sm_attachment :: "message_attachment_response option"
  sm_content :: "str option"

record shared_media_page =
  sp_items :: "shared_media_item list"
  sp_next_before :: "nat option"

definition validate_page :: "int option \<Rightarrow> int option \<Rightarrow> api_error + nat" where
  "validate_page before limit =
     (if (case before of None \<Rightarrow> False | Some b \<Rightarrow> b \<le> 0)
      then Inl (BAD_REQUEST, lit ''before must be a positive server sequence'')
      else let k = (case limit of None \<Rightarrow> DEFAULT_MEDIA_PAGE_SIZE | Some k \<Rightarrow> k) in
        if k < 1 \<or> MAX_MEDIA_PAGE_SIZE < k then Inl (BAD_REQUEST, lit ''limit must be between 1 and 60'')
        else Inr (nat k))"

text \<open>Drops the extra row and returns the cursor of the next page.\<close>

definition page_cursor :: "nat list \<Rightarrow> nat \<Rightarrow> nat list \<times> nat option" where
  "page_cursor ks limit = (if limit < length ks then (take limit ks, Some (last (take limit ks))) else (ks, None))"

text \<open>The attachments of a conversation with their messages (a join).\<close>

definition shared :: "database \<Rightarrow> uuid \<Rightarrow> (attachment_row \<times> message_row) list" where
  "shared d c = concat (map (\<lambda>a. map (Pair a) (filter (\<lambda>m. mg_sequence m = at_message a) (history d c))) (message_attachments d))"

definition shared_sequences :: "(attachment_row \<Rightarrow> bool) \<Rightarrow> uuid \<Rightarrow> int \<Rightarrow> nat \<Rightarrow> database \<Rightarrow> nat list" where
  "shared_sequences P c before limit d = take (limit + 1) (rev (sort (remdups (map (\<lambda>(a, m). mg_sequence m)
     (filter (\<lambda>(a, m). int (mg_sequence m) < before \<and> P a) (shared d c))))))"

definition attachment_item :: "platform \<Rightarrow> uuid \<Rightarrow> attachment_row \<times> message_row \<Rightarrow> shared_media_item" where
  "attachment_item L c x = (case x of (a, m) \<Rightarrow>
     \<lparr>sm_sequence = at_message a, sm_sender = mg_sender m, sm_sender_name = mg_sender_name m, sm_created = mg_created m,
      sm_attachment = Some (stored_attachment L c a), sm_content = None\<rparr>)"

definition attachment_page ::
  "platform \<Rightarrow> uuid \<Rightarrow> (attachment_row \<Rightarrow> bool) \<Rightarrow> int \<Rightarrow> nat \<Rightarrow> ('m site_scheme, api_error, shared_media_page) prog" where
  "attachment_page L c P before limit =
     chain (map_err media_error (select (shared_sequences P c before limit))) (\<lambda>ks.
     case page_cursor ks limit of (ks, next_before) \<Rightarrow>
     if ks = [] then ret \<lparr>sp_items = [], sp_next_before = next_before\<rparr>
     else chain (map_err media_error (select (\<lambda>d. order_desc (\<lambda>(a, m). mg_sequence m) (order_asc (\<lambda>(a, m). at_id a)
         (filter (\<lambda>(a, m). at_message a \<in> set ks \<and> P a) (shared d c)))))) (\<lambda>rows.
       ret \<lparr>sp_items = map (attachment_item L c) rows, sp_next_before = next_before\<rparr>))"

definition link_item :: "message_row \<Rightarrow> shared_media_item" where
  "link_item m = \<lparr>sm_sequence = mg_sequence m, sm_sender = mg_sender m, sm_sender_name = mg_sender_name m,
     sm_created = mg_created m, sm_attachment = None, sm_content = Some (mg_content m)\<rparr>"

definition link_page ::
  "(uchar \<Rightarrow> uchar) \<Rightarrow> uuid \<Rightarrow> int \<Rightarrow> nat \<Rightarrow> ('m site_scheme, api_error, shared_media_page) prog" where
  "link_page cf c before limit =
     chain (map_err media_error (select (\<lambda>d. take (limit + 1) (order_desc mg_sequence
       (filter (\<lambda>m. int (mg_sequence m) < before \<and> has_link cf m) (history d c)))))) (\<lambda>rows.
     let (rows, next_before) = (if limit < length rows
           then (take limit rows, Some (mg_sequence (last (take limit rows)))) else (rows, None)) in
     ret \<lparr>sp_items = map link_item rows, sp_next_before = next_before\<rparr>)"

definition list_shared_media ::
  "platform \<Rightarrow> (uchar \<Rightarrow> uchar) \<Rightarrow> str option \<Rightarrow> uuid \<Rightarrow> shared_media_kind \<Rightarrow> int option \<Rightarrow> int option
     \<Rightarrow> ('m site_scheme, api_error, shared_media_page) prog" where
  "list_shared_media L cf header c kind before limit =
     chain (caller L header) (\<lambda>u.
     chain (result (validate_page before limit)) (\<lambda>limit.
     chain (map_err media_error connect) (\<lambda>_.
     chain (authorize_conversation_access c u) (\<lambda>_.
     let before = (case before of None \<Rightarrow> 2 ^ 63 - 1 | Some b \<Rightarrow> b) in
     case attachment_condition kind of
       Some P \<Rightarrow> attachment_page L c P before limit
     | None \<Rightarrow> link_page cf c before limit))))"

section \<open>Counts\<close>

record shared_media_counts_response =
  sc_media :: nat
  sc_files :: nat
  sc_voice :: nat
  sc_links :: nat
  sc_gifs :: nat

definition count_tab :: "uuid \<Rightarrow> shared_media_kind \<Rightarrow> ('m site_scheme, api_error, nat) prog" where
  "count_tab c kind = map_err media_error (select (\<lambda>d. length (case attachment_condition kind of None \<Rightarrow> []
     | Some P \<Rightarrow> filter (\<lambda>(a, m). P a) (shared d c))))"

definition shared_media_counts ::
  "platform \<Rightarrow> (uchar \<Rightarrow> uchar) \<Rightarrow> str option \<Rightarrow> uuid \<Rightarrow> ('m site_scheme, api_error, shared_media_counts_response) prog" where
  "shared_media_counts L cf header c =
     chain (caller L header) (\<lambda>u.
     chain (map_err media_error connect) (\<lambda>_.
     chain (authorize_conversation_access c u) (\<lambda>_.
     chain (count_tab c Media) (\<lambda>media_count.
     chain (count_tab c Files) (\<lambda>files_count.
     chain (count_tab c Voice) (\<lambda>voice_count.
     chain (count_tab c Gifs) (\<lambda>gifs_count.
     chain (map_err media_error (select (\<lambda>d. length (filter (has_link cf) (history d c))))) (\<lambda>links_count.
     ret \<lparr>sc_media = media_count, sc_files = files_count, sc_voice = voice_count, sc_links = links_count,
       sc_gifs = gifs_count\<rparr>))))))))"

section \<open>Every attachment is on one tab\<close>

lemma like_text: "like id (concat (map escaped q) @ [37]) t \<longleftrightarrow> (\<exists>b. t = q @ b)"
  by (simp only: like_escaped like_percent) simp

lemma tab_conditions:
  "is_gif a \<longleftrightarrow> (\<exists>b. at_file_name a = lit ''giphy-'' @ b)"
  "is_voice a \<longleftrightarrow> (\<exists>b. at_file_name a = lit ''voice-message-'' @ b) \<and> (\<exists>b. at_content_type a = lit ''audio/'' @ b)"
  "is_visual a \<longleftrightarrow> (\<exists>b. at_content_type a = lit ''image/'' @ b) \<or> (\<exists>b. at_content_type a = lit ''video/'' @ b)"
  using like_text [of "lit ''giphy-''" "at_file_name a"] like_text [of "lit ''voice-message-''" "at_file_name a"]
    like_text [of "lit ''audio/''" "at_content_type a"] like_text [of "lit ''image/''" "at_content_type a"]
    like_text [of "lit ''video/''" "at_content_type a"]
  by (simp_all add: is_gif_def is_voice_def is_visual_def lit_def escaped_def del: like.simps)

lemma tabs_apart: "\<not> (is_gif a \<and> is_voice a)" "\<not> (is_visual a \<and> is_voice a)"
  unfolding tab_conditions by (auto simp: lit_def)

definition on_tab :: "shared_media_kind \<Rightarrow> attachment_row \<Rightarrow> bool" where
  "on_tab k a \<longleftrightarrow> (case attachment_condition k of None \<Rightarrow> False | Some P \<Rightarrow> P a)"

lemma one_tab: "\<exists>!k. on_tab k a"
proof -
  have k: "on_tab k a \<longleftrightarrow> k = (if is_gif a then Gifs else if is_voice a then Voice else if is_visual a then Media else Files)" for k
    using tabs_apart [of a] by (cases k) (auto simp: on_tab_def)
  show ?thesis unfolding k by simp
qed

lemma tab_counts:
  "length (filter (\<lambda>(a, m). is_visual a \<and> \<not> is_gif a) xs) +
   length (filter (\<lambda>(a, m). \<not> (is_visual a \<or> is_gif a \<or> is_voice a)) xs) +
   length (filter (\<lambda>(a, m). is_voice a) xs) + length (filter (\<lambda>(a, m). is_gif a) xs) = length xs"
proof (induction xs)
  case (Cons x xs)
  show ?case using Cons.IH tabs_apart [of "fst x"] by (cases x) auto
qed simp

lemma goes_count:
  assumes "quiet w" and "attachment_condition k = Some P" and "Q (length (filter (\<lambda>(a, m). P a) (shared (tables s) c))) s"
  shows "goes w (count_tab c k) Q n s"
  unfolding count_tab_def by (rule goes_map_err, rule goes_quiet(1) [OF assms(1)]) (simp add: assms(2,3))

text \<open>
  C37. Every attachment falls in exactly one tab: the conditions exclude each other and leave nothing out, so that
  for every reader of a conversation the counts of media, files, voice messages and GIFs add up to the number of
  its attachments.
\<close>

theorem tabs_partition_attachments:
  assumes "quiet w" and "extract_user_id L (clock w n) h = Inr u" and "reader (tables s) c u"
  shows "(\<exists>!k. on_tab k a) \<and>
    goes w (shared_media_counts L cf h c) (\<lambda>r s'. s' = s \<and>
      sc_media r + sc_files r + sc_voice r + sc_gifs r = length (shared (tables s) c)) n s"
proof
  note q = assms(1)
  show "goes w (shared_media_counts L cf h c) (\<lambda>r s'. s' = s \<and>
      sc_media r + sc_files r + sc_voice r + sc_gifs r = length (shared (tables s) c)) n s"
    unfolding shared_media_counts_def
    by (rule goes_chain, rule goes_caller [OF assms(2)], rule allI, rule goes_chain, rule goes_map_err, rule goes_quiet(4) [OF q], rule allI,
        rule goes_chain, rule goes_same [OF goes_access [OF q assms(3)]], rule allI,
        (rule goes_chain, rule goes_count [OF q], rule attachment_condition.simps, rule allI)+,
        rule goes_chain, rule goes_map_err, rule goes_quiet(1) [OF q], rule allI, rule goes_pure(1))
      (use tab_counts [of "shared (tables s) c"] in simp)
qed (rule one_tab)

theorem tabs_partition_attachments_witness:
  "goes sample_social_world (shared_media_counts sample_platform id (Some sample_token) 50) (\<lambda>r s'. s' = sample_history_site \<and>
     sc_media r + sc_files r + sc_voice r + sc_gifs r = length (shared (tables sample_history_site) 50)) 0 sample_history_site"
proof -
  have "quiet sample_social_world" "clock sample_social_world 0 = 5" by (simp_all add: quiet_def sample_social_world_def)
  moreover have "reader (tables sample_history_site) 50 7"
    by (simp add: sample_history_site_def reader_def sample_history_def empty_database_def user_exists_def conversation_row_of_def sample_user_def)
  ultimately show ?thesis
    using tabs_partition_attachments [of sample_social_world sample_platform 0 "Some sample_token" 7 sample_history_site 50] sample_answer
    by simp
qed

end
