(* ===== verification/Society.thy ===== *)
theory Society
  imports GroupHandlers
begin

text \<open>
  What the social part of the server promises, without tables: who are friends, who has asked whom, and which
  groups there are with their owner, administrators and members. One step is what one user does.
\<close>

record club =
  cl_owner :: uuid
  cl_admins :: "uuid set"
  cl_people :: "uuid set"
  cl_policy :: group_access_policy
  cl_secret :: "str option"

record society =
  so_befriended :: "(uuid \<times> uuid) set"
  so_asked :: "(uuid \<times> uuid) set"
  so_clubs :: "uuid \<Rightarrow> club option"

definition unrelated :: "society \<Rightarrow> uuid \<Rightarrow> uuid \<Rightarrow> bool" where
  "unrelated S u v \<longleftrightarrow> (u, v) \<notin> so_befriended S \<and> (u, v) \<notin> so_asked S \<and> (v, u) \<notin> so_asked S"

definition runs_club :: "uuid \<Rightarrow> club \<Rightarrow> bool" where
  "runs_club u c \<longleftrightarrow> u = cl_owner c \<or> u \<in> cl_admins c"

text \<open>What friendship a policy asks of somebody who comes in.\<close>

definition friendly :: "society \<Rightarrow> club \<Rightarrow> uuid \<Rightarrow> bool" where
  "friendly S c v \<longleftrightarrow>
     (cl_policy c = FriendsOnly \<longrightarrow> (\<forall>m \<in> cl_people c. m \<noteq> v \<longrightarrow> (v, m) \<in> so_befriended S)) \<and>
     (cl_policy c = FriendsOfFriends \<longrightarrow> (\<exists>m \<in> cl_people c. m \<noteq> v \<and> (v, m) \<in> so_befriended S))"

inductive society_step :: "platform \<Rightarrow> uuid \<Rightarrow> society \<Rightarrow> society \<Rightarrow> bool" for L :: platform and u :: uuid where
  nothing: "society_step L u S S"
| ask: "u \<noteq> v \<Longrightarrow> unrelated S u v \<Longrightarrow> society_step L u S (S\<lparr>so_asked := insert (u, v) (so_asked S)\<rparr>)"
| accept: "(v, u) \<in> so_asked S \<Longrightarrow> society_step L u S
     (S\<lparr>so_asked := so_asked S - {(v, u)}, so_befriended := so_befriended S \<union> {(u, v), (v, u)}\<rparr>)"
| part: "\<not> unrelated S u v \<Longrightarrow> society_step L u S
     (S\<lparr>so_asked := so_asked S - {(u, v), (v, u)}, so_befriended := so_befriended S - {(u, v), (v, u)}\<rparr>)"
| found: "so_clubs S g = None \<Longrightarrow> u \<notin> vs \<Longrightarrow> \<forall>v \<in> vs. (u, v) \<in> so_befriended S \<Longrightarrow>
     p = FriendsOnly \<longrightarrow> (\<forall>v \<in> vs. \<forall>v' \<in> vs. v \<noteq> v' \<longrightarrow> (v, v') \<in> so_befriended S) \<Longrightarrow>
     (p = Password) = (h \<noteq> None) \<Longrightarrow>
     society_step L u S (S\<lparr>so_clubs := (so_clubs S)(g \<mapsto>
       \<lparr>cl_owner = u, cl_admins = {}, cl_people = insert u vs, cl_policy = p, cl_secret = h\<rparr>)\<rparr>)"
| enter: "so_clubs S g = Some c \<Longrightarrow> u \<notin> cl_people c \<Longrightarrow> friendly S c u \<Longrightarrow>
     cl_policy c = Password \<longrightarrow> (\<exists>password. verify_group_password L (cl_secret c) password = Inr True) \<Longrightarrow>
     society_step L u S (S\<lparr>so_clubs := (so_clubs S)(g \<mapsto> c\<lparr>cl_people := insert u (cl_people c)\<rparr>)\<rparr>)"
| add: "so_clubs S g = Some c \<Longrightarrow> runs_club u c \<Longrightarrow> v \<notin> cl_people c \<Longrightarrow> cl_policy c \<noteq> Password \<Longrightarrow> friendly S c v \<Longrightarrow>
     society_step L u S (S\<lparr>so_clubs := (so_clubs S)(g \<mapsto> c\<lparr>cl_people := insert v (cl_people c)\<rparr>)\<rparr>)"
| remove: "so_clubs S g = Some c \<Longrightarrow> runs_club u c \<Longrightarrow> v \<in> cl_people c \<Longrightarrow> v \<noteq> cl_owner c \<Longrightarrow>
     society_step L u S (S\<lparr>so_clubs := (so_clubs S)(g \<mapsto> c\<lparr>cl_people := cl_people c - {v}, cl_admins := cl_admins c - {v}\<rparr>)\<rparr>)"
| leave: "so_clubs S g = Some c \<Longrightarrow> u \<in> cl_people c \<Longrightarrow> u \<noteq> cl_owner c \<Longrightarrow>
     society_step L u S (S\<lparr>so_clubs := (so_clubs S)(g \<mapsto> c\<lparr>cl_people := cl_people c - {u}, cl_admins := cl_admins c - {u}\<rparr>)\<rparr>)"
| abdicate: "so_clubs S g = Some c \<Longrightarrow> u = cl_owner c \<Longrightarrow> v \<in> cl_people c \<Longrightarrow> v \<noteq> u \<Longrightarrow>
     cl_admins c - {u} \<noteq> {} \<longrightarrow> v \<in> cl_admins c \<Longrightarrow>
     society_step L u S (S\<lparr>so_clubs := (so_clubs S)(g \<mapsto>
       c\<lparr>cl_owner := v, cl_people := cl_people c - {u}, cl_admins := cl_admins c - {u, v}\<rparr>)\<rparr>)"
| promote: "so_clubs S g = Some c \<Longrightarrow> u = cl_owner c \<Longrightarrow> v \<in> cl_people c \<Longrightarrow> v \<noteq> u \<Longrightarrow>
     society_step L u S (S\<lparr>so_clubs := (so_clubs S)(g \<mapsto> c\<lparr>cl_admins := insert v (cl_admins c)\<rparr>)\<rparr>)"
| demote: "so_clubs S g = Some c \<Longrightarrow> u = cl_owner c \<Longrightarrow> v \<in> cl_people c \<Longrightarrow> v \<noteq> u \<Longrightarrow>
     society_step L u S (S\<lparr>so_clubs := (so_clubs S)(g \<mapsto> c\<lparr>cl_admins := cl_admins c - {v}\<rparr>)\<rparr>)"
| configure: "so_clubs S g = Some c \<Longrightarrow> runs_club u c \<Longrightarrow> (p = Password) = (h \<noteq> None) \<Longrightarrow>
     society_step L u S (S\<lparr>so_clubs := (so_clubs S)(g \<mapsto> c\<lparr>cl_policy := p, cl_secret := h\<rparr>)\<rparr>)"
| dissolve: "so_clubs S g = Some c \<Longrightarrow> runs_club u c \<Longrightarrow> society_step L u S (S\<lparr>so_clubs := (so_clubs S)(g := None)\<rparr>)"

end
