(* ===== verification/SocietyTables.thy ===== *)
theory SocietyTables
  imports Society Transactions DirectMessages
begin

text \<open>
  The rows behind the society: friendships, conversations and their members. Three sets hold what matters of
  them; \<open>tables_ok\<close> is the invariant of the tables, and \<open>society_of\<close> reads the society off.
\<close>

definition bonds :: "database \<Rightarrow> (uuid \<times> uuid \<times> uuid \<times> str) set" where
  "bonds d = (\<lambda>f. (fr_id f, fr_requester f, fr_addressee f, fr_status f)) ` set (friendships d)"

definition core :: "conversation_row \<Rightarrow> uuid \<times> str \<times> uuid \<times> str option \<times> str option" where
  "core c = (cv_id c, cv_kind c, cv_creator c, cv_policy c, cv_password_hash c)"

definition cores :: "database \<Rightarrow> (uuid \<times> str \<times> uuid \<times> str option \<times> str option) set" where
  "cores d = core ` set (conversations d)"

definition seats :: "database \<Rightarrow> (uuid \<times> uuid \<times> str) set" where
  "seats d = (\<lambda>m. (me_conversation m, me_user m, me_role m)) ` set (conversation_members d)"

abbreviation group_kind :: str where "group_kind \<equiv> lit ''group''"
abbreviation owner_role :: str where "owner_role \<equiv> lit ''creator''"
abbreviation admin_role :: str where "admin_role \<equiv> lit ''admin''"

section \<open>Reading the society off\<close>

definition club_of :: "database \<Rightarrow> conversation_row \<Rightarrow> club" where
  "club_of d c = \<lparr>cl_owner = cv_creator c, cl_admins = {v. (cv_id c, v, admin_role) \<in> seats d},
     cl_people = {v. \<exists>r. (cv_id c, v, r) \<in> seats d},
     cl_policy = (case Option.bind (cv_policy c) from_db_value of None \<Rightarrow> Open | Some p \<Rightarrow> p),
     cl_secret = cv_password_hash c\<rparr>"

definition society_of :: "database \<Rightarrow> society" where
  "society_of d = \<lparr>so_befriended = {(a, b). are_friends d a b},
     so_asked = {(a, b). \<exists>i. (i, a, b, lit ''pending'') \<in> bonds d},
     so_clubs = (\<lambda>g. map_option (club_of d) (group_row g d))\<rparr>"

section \<open>The invariant\<close>

definition bonds_ok :: "database \<Rightarrow> bool" where
  "bonds_ok d \<longleftrightarrow> (\<forall>(i, a, b, s) \<in> bonds d. a \<noteq> b \<and> (s = lit ''pending'' \<or> s = lit ''accepted'') \<and>
     (\<forall>(j, a', b', s') \<in> bonds d. i = j \<or> same_pair a b a' b' \<longrightarrow> i = j \<and> a = a' \<and> b = b' \<and> s = s'))"

text \<open>
  A group on the tables: one row, and one seat for each of its people with the role that the group gives them.
  There is one owner, who is the creator of the row and the only one with the role of the creator.
\<close>

definition role_of :: "club \<Rightarrow> uuid \<Rightarrow> str" where
  "role_of c v = (if v = cl_owner c then owner_role else if v \<in> cl_admins c then admin_role else lit ''member'')"

definition club_ok :: "club \<Rightarrow> str option \<Rightarrow> bool" where
  "club_ok c p \<longleftrightarrow> cl_owner c \<in> cl_people c \<and> cl_admins c \<subseteq> cl_people c \<and> cl_owner c \<notin> cl_admins c \<and>
     Option.bind p from_db_value = Some (cl_policy c) \<and> (cl_policy c = Password) = (cl_secret c \<noteq> None)"

definition club_at :: "database \<Rightarrow> uuid \<Rightarrow> club \<Rightarrow> str option \<Rightarrow> bool" where
  "club_at d g c p \<longleftrightarrow> club_ok c p \<and>
     (\<forall>x. (g, x) \<in> cores d \<longleftrightarrow> x = (group_kind, cl_owner c, p, cl_secret c)) \<and>
     (\<forall>v r. (g, v, r) \<in> seats d \<longleftrightarrow> v \<in> cl_people c \<and> r = role_of c v)"

text \<open>An ID of a direct conversation, or one that is free.\<close>

definition no_club_at :: "database \<Rightarrow> uuid \<Rightarrow> bool" where
  "no_club_at d g \<longleftrightarrow> (\<forall>x. (g, x) \<in> cores d \<longrightarrow> fst x \<noteq> group_kind \<and> (\<forall>y. (g, y) \<in> cores d \<longrightarrow> y = x)) \<and>
     (\<forall>v r. (g, v, r) \<notin> seats d)"

definition tables_ok :: "database \<Rightarrow> bool" where
  "tables_ok d \<longleftrightarrow> bonds_ok d \<and> (\<forall>g. no_club_at d g \<or> (\<exists>c p. club_at d g c p))"

lemma role_names [simp]: "owner_role \<noteq> admin_role" "lit ''member'' \<noteq> owner_role" "lit ''member'' \<noteq> admin_role"
  by (simp_all add: lit_def)

declare lit_def [simp del]

lemma role_of_simps [simp]:
  "role_of c v = owner_role \<longleftrightarrow> v = cl_owner c"
  "role_of c v = admin_role \<longleftrightarrow> v \<noteq> cl_owner c \<and> v \<in> cl_admins c"
  "owner_role = role_of c v \<longleftrightarrow> v = cl_owner c"
  "admin_role = role_of c v \<longleftrightarrow> v \<noteq> cl_owner c \<and> v \<in> cl_admins c"
  using role_names by (auto simp: role_of_def dest: sym)

section \<open>The invariant and the society\<close>

lemma befriended_iff:
  "(a, b) \<in> so_befriended (society_of d) \<longleftrightarrow>
     (\<exists>i. (i, a, b, lit ''accepted'') \<in> bonds d \<or> (i, b, a, lit ''accepted'') \<in> bonds d)"
  unfolding society_of_def are_friends_def bonds_def by (auto simp: list_ex_iff image_iff) metis+

lemma are_friends_society: "are_friends d a b = ((a, b) \<in> so_befriended (society_of d))"
  by (simp add: society_of_def)

lemma asked_iff: "(a, b) \<in> so_asked (society_of d) \<longleftrightarrow> (\<exists>i. (i, a, b, lit ''pending'') \<in> bonds d)"
  by (simp add: society_of_def)

lemma group_row_Some: "group_row g d = Some c \<Longrightarrow> c \<in> set (conversations d) \<and> cv_id c = g \<and> cv_kind c = group_kind"
  unfolding group_row_def by (drule find_Some_set) simp

lemma group_row_core: "group_row g d = Some c \<Longrightarrow> (g, group_kind, cv_creator c, cv_policy c, cv_password_hash c) \<in> cores d"
  by (drule group_row_Some) (auto simp: cores_def core_def image_iff intro!: bexI [of _ c])

lemma group_row_None: "group_row g d = None \<longleftrightarrow> (\<forall>x. (g, group_kind, x) \<notin> cores d)"
proof
  assume "group_row g d = None"
  then show "\<forall>x. (g, group_kind, x) \<notin> cores d"
    unfolding group_row_def cores_def core_def find_None_set by auto
next
  assume "\<forall>x. (g, group_kind, x) \<notin> cores d"
  then show "group_row g d = None" using group_row_core by (cases "group_row g d") blast+
qed

lemma clubs_at:
  assumes "club_at d g c p"
  shows "so_clubs (society_of d) g = Some c"
proof -
  obtain x where x: "group_row g d = Some x"
    using assms group_row_None [of g d] by (cases "group_row g d") (auto simp: club_at_def)
  have "club_of d x = c"
    using group_row_core [OF x] group_row_Some [OF x] assms
    by (cases c) (auto simp: club_at_def club_of_def club_ok_def)
  with x show ?thesis by (simp add: society_of_def)
qed

lemma no_clubs_at: "no_club_at d g \<Longrightarrow> so_clubs (society_of d) g = None"
  using group_row_None [of g d] by (fastforce simp: society_of_def no_club_at_def)

lemma clubs_cases:
  assumes "tables_ok d"
  obtains "so_clubs (society_of d) g = None" "no_club_at d g"
    | c p where "so_clubs (society_of d) g = Some c" "club_at d g c p"
proof -
  have "no_club_at d g \<or> (\<exists>c p. club_at d g c p)" using assms by (simp add: tables_ok_def)
  then show thesis using that clubs_at [of d g] no_clubs_at [of d g] by metis
qed

lemma clubs_Some: "tables_ok d \<Longrightarrow> so_clubs (society_of d) g = Some c \<Longrightarrow> \<exists>p. club_at d g c p"
  by (erule clubs_cases [of d g]) auto

lemma clubs_None: "tables_ok d \<Longrightarrow> so_clubs (society_of d) g = None \<Longrightarrow> no_club_at d g"
  by (erule clubs_cases [of d g]) auto

text \<open>Only the three sets matter.\<close>

definition same_society :: "database \<Rightarrow> database \<Rightarrow> bool" where
  "same_society d d' \<longleftrightarrow> bonds d' = bonds d \<and> cores d' = cores d \<and> seats d' = seats d"

lemma at_same:
  assumes "\<And>x. (g, x) \<in> cores d' \<longleftrightarrow> (g, x) \<in> cores d" and "\<And>x. (g, x) \<in> seats d' \<longleftrightarrow> (g, x) \<in> seats d"
  shows "club_at d' g c p = club_at d g c p" and "no_club_at d' g = no_club_at d g"
  using assms by (simp_all add: club_at_def no_club_at_def)

text \<open>One group changes: the invariant and the other groups stay.\<close>

lemma group_changes:
  assumes ok: "tables_ok d" and b: "bonds d' = bonds d"
    and c: "\<And>h x. h \<noteq> g \<Longrightarrow> (h, x) \<in> cores d' \<longleftrightarrow> (h, x) \<in> cores d"
    and s: "\<And>h x. h \<noteq> g \<Longrightarrow> (h, x) \<in> seats d' \<longleftrightarrow> (h, x) \<in> seats d"
    and g: "(k = None \<and> no_club_at d' g) \<or> (\<exists>c p. k = Some c \<and> club_at d' g c p)"
  shows "tables_ok d'" and "society_of d' = (society_of d)\<lparr>so_clubs := (so_clubs (society_of d))(g := k)\<rparr>"
proof -
  have other: "club_at d' h = club_at d h \<and> no_club_at d' h = no_club_at d h" if "h \<noteq> g" for h
    using at_same [OF c [OF that] s [OF that]] by (simp add: fun_eq_iff)
  have "no_club_at d' h \<or> (\<exists>c p. club_at d' h c p)" for h
    using ok other [of h] g unfolding tables_ok_def by (cases "h = g") auto
  then show ok': "tables_ok d'" using ok b by (simp add: tables_ok_def bonds_ok_def)
  have "so_clubs (society_of d') h = ((so_clubs (society_of d))(g := k)) h" for h
  proof (cases "h = g")
    case True then show ?thesis using g clubs_at no_clubs_at by auto
  next
    case False
    show ?thesis using ok
    proof (cases rule: clubs_cases [of d h])
      case 1 then show ?thesis using other [OF False] no_clubs_at [of d' h] False by simp
    next
      case (2 c p) then show ?thesis using other [OF False] clubs_at [of d' h c p] False by simp
    qed
  qed
  moreover have "so_befriended (society_of d') = so_befriended (society_of d)" "so_asked (society_of d') = so_asked (society_of d)"
    using b by (auto simp: befriended_iff asked_iff)
  ultimately show "society_of d' = (society_of d)\<lparr>so_clubs := (so_clubs (society_of d))(g := k)\<rparr>"
    by (cases "society_of d'"; cases "society_of d") auto
qed

lemma same_society:
  assumes "tables_ok d" "same_society d d'"
  shows "tables_ok d'" and "society_of d' = society_of d"
proof -
  fix g
  have "(so_clubs (society_of d) g = None \<and> no_club_at d' g) \<or> (\<exists>c p. so_clubs (society_of d) g = Some c \<and> club_at d' g c p)"
    using assms(1) by (rule clubs_cases [of d g]) (use assms(2) in \<open>auto simp: same_society_def at_same [of g d' d]\<close>)
  from group_changes [OF assms(1) _ _ _ this] assms(2)
  show "tables_ok d'" and "society_of d' = society_of d" by (auto simp: same_society_def)
qed

section \<open>The steps on the tables\<close>

text \<open>\<open>becomes d g k d'\<close>: the invariant holds of \<open>d'\<close>, and only the group \<open>g\<close> is different.\<close>

definition becomes :: "database \<Rightarrow> uuid \<Rightarrow> club option \<Rightarrow> database \<Rightarrow> bool" where
  "becomes d g k d' \<longleftrightarrow> tables_ok d' \<and>
     society_of d' = (society_of d)\<lparr>so_clubs := (so_clubs (society_of d))(g := k)\<rparr>"

lemma becomes_club:
  assumes "club_at d' g c p" "tables_ok d" "bonds d' = bonds d"
    and "\<And>h x. h \<noteq> g \<Longrightarrow> (h, x) \<in> cores d' \<longleftrightarrow> (h, x) \<in> cores d"
    and "\<And>h x. h \<noteq> g \<Longrightarrow> (h, x) \<in> seats d' \<longleftrightarrow> (h, x) \<in> seats d"
  shows "becomes d g (Some c) d'"
  unfolding becomes_def using group_changes [OF assms(2-5), where k = "Some c"] assms(1) by blast

lemma seat_added:
  assumes ok: "tables_ok d" and c: "so_clubs (society_of d) g = Some c" and v: "v \<notin> cl_people c"
    and eq: "bonds d' = bonds d" "cores d' = cores d" "seats d' = insert (g, v, lit ''member'') (seats d)"
  shows "becomes d g (Some (c\<lparr>cl_people := insert v (cl_people c)\<rparr>)) d'"
proof -
  obtain p where "club_at d g c p" using clubs_Some [OF ok c] by blast
  then have "club_at d' g (c\<lparr>cl_people := insert v (cl_people c)\<rparr>) p"
    using v unfolding club_at_def eq by (auto simp: club_ok_def role_of_def)
  then show ?thesis by (rule becomes_club [OF _ ok eq(1)]) (simp_all add: eq)
qed

lemma seat_removed:
  assumes ok: "tables_ok d" and c: "so_clubs (society_of d) g = Some c" and v: "v \<noteq> cl_owner c"
    and eq: "bonds d' = bonds d" "cores d' = cores d" "seats d' = {x \<in> seats d. fst x = g \<longrightarrow> fst (snd x) \<noteq> v}"
  shows "becomes d g (Some (c\<lparr>cl_people := cl_people c - {v}, cl_admins := cl_admins c - {v}\<rparr>)) d'"
proof -
  obtain p where "club_at d g c p" using clubs_Some [OF ok c] by blast
  then have "club_at d' g (c\<lparr>cl_people := cl_people c - {v}, cl_admins := cl_admins c - {v}\<rparr>) p"
    using v unfolding club_at_def eq by (auto simp: club_ok_def role_of_def)
  then show ?thesis by (rule becomes_club [OF _ ok eq(1)]) (simp_all add: eq)
qed

definition reseat :: "uuid \<Rightarrow> uuid \<Rightarrow> str \<Rightarrow> uuid \<times> uuid \<times> str \<Rightarrow> uuid \<times> uuid \<times> str" where
  "reseat g v r x = (case x of (h, w, s) \<Rightarrow> (h, w, if h = g \<and> w = v then r else s))"

lemma in_reseat: "(h, w, s) \<in> reseat g v r ` X \<longleftrightarrow>
   (if h = g \<and> w = v then s = r \<and> (\<exists>s'. (h, w, s') \<in> X) else (h, w, s) \<in> X)"
  by (force simp: reseat_def image_iff split: if_splits)

lemma seat_promoted:
  assumes ok: "tables_ok d" and c: "so_clubs (society_of d) g = Some c" and v: "v \<noteq> cl_owner c" "v \<in> cl_people c"
    and eq: "bonds d' = bonds d" "cores d' = cores d" "seats d' = reseat g v admin_role ` seats d"
  shows "becomes d g (Some (c\<lparr>cl_admins := insert v (cl_admins c)\<rparr>)) d'"
proof -
  obtain p where "club_at d g c p" using clubs_Some [OF ok c] by blast
  then have "club_at d' g (c\<lparr>cl_admins := insert v (cl_admins c)\<rparr>) p"
    using v unfolding club_at_def eq by (auto simp: club_ok_def role_of_def in_reseat)
  then show ?thesis by (rule becomes_club [OF _ ok eq(1)]) (simp_all only: eq split_paired_all, simp_all add: in_reseat)
qed

lemma seat_demoted:
  assumes ok: "tables_ok d" and c: "so_clubs (society_of d) g = Some c" and v: "v \<noteq> cl_owner c" "v \<in> cl_people c"
    and eq: "bonds d' = bonds d" "cores d' = cores d" "seats d' = reseat g v (lit ''member'') ` seats d"
  shows "becomes d g (Some (c\<lparr>cl_admins := cl_admins c - {v}\<rparr>)) d'"
proof -
  obtain p where "club_at d g c p" using clubs_Some [OF ok c] by blast
  then have "club_at d' g (c\<lparr>cl_admins := cl_admins c - {v}\<rparr>) p"
    using v unfolding club_at_def eq by (auto simp: club_ok_def role_of_def in_reseat)
  then show ?thesis by (rule becomes_club [OF _ ok eq(1)]) (simp_all only: eq split_paired_all, simp_all add: in_reseat)
qed

text \<open>The owner's seat is given away, then the old owner's seat is removed.\<close>

definition recreate :: "uuid \<Rightarrow> uuid \<Rightarrow> uuid \<times> str \<times> uuid \<times> str option \<times> str option
    \<Rightarrow> uuid \<times> str \<times> uuid \<times> str option \<times> str option" where
  "recreate g v x = (case x of (h, k, o', p, s) \<Rightarrow> (h, k, if h = g then v else o', p, s))"

lemma in_recreate: "(h, k, o', p, s) \<in> recreate g v ` X \<longleftrightarrow>
   (if h = g then o' = v \<and> (\<exists>o''. (h, k, o'', p, s) \<in> X) else (h, k, o', p, s) \<in> X)"
  by (force simp: recreate_def image_iff split: if_splits)

lemma owner_left:
  assumes ok: "tables_ok d" and c: "so_clubs (society_of d) g = Some c" and v: "v \<noteq> cl_owner c" "v \<in> cl_people c"
    and eq: "bonds d' = bonds d" "cores d' = recreate g v ` cores d"
      "seats d' = {x \<in> reseat g v owner_role ` seats d. fst x = g \<longrightarrow> fst (snd x) \<noteq> cl_owner c}"
  shows "becomes d g (Some (c\<lparr>cl_owner := v, cl_people := cl_people c - {cl_owner c},
    cl_admins := cl_admins c - {cl_owner c, v}\<rparr>)) d'"
proof -
  obtain p where p: "club_at d g c p" using clubs_Some [OF ok c] by blast
  have "club_at d' g (c\<lparr>cl_owner := v, cl_people := cl_people c - {cl_owner c},
    cl_admins := cl_admins c - {cl_owner c, v}\<rparr>) p"
    using p v unfolding club_at_def eq
    by (auto simp: club_ok_def role_of_def in_reseat in_recreate split: if_splits)
  then show ?thesis by (rule becomes_club [OF _ ok eq(1)]) (simp_all only: eq split_paired_all, simp_all add: in_reseat in_recreate)
qed

definition reconfigure :: "uuid \<Rightarrow> str option \<Rightarrow> str option \<Rightarrow> uuid \<times> str \<times> uuid \<times> str option \<times> str option
    \<Rightarrow> uuid \<times> str \<times> uuid \<times> str option \<times> str option" where
  "reconfigure g p' s' x = (case x of (h, k, o', p, s) \<Rightarrow> if h = g then (h, k, o', p', s') else (h, k, o', p, s))"

lemma in_reconfigure: "(h, k, o', p, s) \<in> reconfigure g p' s' ` X \<longleftrightarrow>
   (if h = g then p = p' \<and> s = s' \<and> (\<exists>p s. (h, k, o', p, s) \<in> X) else (h, k, o', p, s) \<in> X)"
  by (force simp: reconfigure_def image_iff split: if_splits)

lemma configured:
  assumes ok: "tables_ok d" and c: "so_clubs (society_of d) g = Some c"
    and p: "Option.bind p' from_db_value = Some q" "(q = Password) = (s' \<noteq> None)"
    and eq: "bonds d' = bonds d" "cores d' = reconfigure g p' s' ` cores d" "seats d' = seats d"
  shows "becomes d g (Some (c\<lparr>cl_policy := q, cl_secret := s'\<rparr>)) d'"
proof -
  obtain p where "club_at d g c p" using clubs_Some [OF ok c] by blast
  then have "club_at d' g (c\<lparr>cl_policy := q, cl_secret := s'\<rparr>) p'"
    using p unfolding club_at_def eq by (auto simp: club_ok_def role_of_def in_reconfigure)
  then show ?thesis by (rule becomes_club [OF _ ok eq(1)]) (simp_all only: eq split_paired_all, simp_all add: in_reconfigure)
qed

lemma founded:
  assumes ok: "tables_ok d" and free: "\<And>x. (g, x) \<notin> cores d"
    and p: "Option.bind p from_db_value = Some q" "(q = Password) = (s \<noteq> None)" and u: "u \<notin> vs"
    and eq: "bonds d' = bonds d" "cores d' = insert (g, group_kind, u, p, s) (cores d)"
      "seats d' = insert (g, u, owner_role) ((\<lambda>v. (g, v, lit ''member'')) ` vs) \<union> seats d"
  shows "so_clubs (society_of d) g = None"
    and "becomes d g (Some \<lparr>cl_owner = u, cl_admins = {}, cl_people = insert u vs, cl_policy = q, cl_secret = s\<rparr>) d'"
proof -
  have n: "no_club_at d g" using ok free unfolding tables_ok_def club_at_def by blast
  then show "so_clubs (society_of d) g = None" by (rule no_clubs_at)
  have "club_at d' g \<lparr>cl_owner = u, cl_admins = {}, cl_people = insert u vs, cl_policy = q, cl_secret = s\<rparr> p"
    using p u n free unfolding club_at_def eq by (auto simp: club_ok_def role_of_def no_club_at_def)
  then show "becomes d g (Some \<lparr>cl_owner = u, cl_admins = {}, cl_people = insert u vs, cl_policy = q, cl_secret = s\<rparr>) d'"
    by (rule becomes_club [OF _ ok eq(1)]) (auto simp: eq)
qed

lemma dissolved:
  assumes ok: "tables_ok d" and eq: "bonds d' = bonds d" "cores d' = {x \<in> cores d. fst x \<noteq> g}"
    "seats d' = {x \<in> seats d. fst x \<noteq> g}"
  shows "becomes d g None d'"
proof -
  have "no_club_at d' g" unfolding no_club_at_def eq by simp
  then show ?thesis
    unfolding becomes_def using group_changes [OF ok eq(1), where g = g and k = None] eq by simp
qed

lemma direct_added:
  assumes ok: "tables_ok d" and free: "\<And>x. (g, x) \<notin> cores d" and k: "fst x \<noteq> group_kind"
    and eq: "bonds d' = bonds d" "cores d' = insert (g, x) (cores d)" "seats d' = seats d"
  shows "tables_ok d' \<and> society_of d' = society_of d"
proof -
  have n: "no_club_at d g" using ok free unfolding tables_ok_def club_at_def by blast
  then have "no_club_at d' g" using free k unfolding no_club_at_def eq by auto
  moreover have "(so_clubs (society_of d))(g := None) = so_clubs (society_of d)" using no_clubs_at [OF n] by auto
  ultimately show ?thesis using group_changes [OF ok eq(1), where g = g and k = None] eq by auto
qed

section \<open>What the handlers see\<close>

lemma seats_iff: "(g, v, r) \<in> seats d \<longleftrightarrow>
   (\<exists>m \<in> set (conversation_members d). me_conversation m = g \<and> me_user m = v \<and> me_role m = r)"
  by (auto simp: seats_def)

lemma members_of_people: "set (map me_user (members_of d g)) = {v. \<exists>r. (g, v, r) \<in> seats d}"
  by (auto simp: members_of_def seats_iff)

lemma role_in_None: "role_in d g v = None \<longleftrightarrow> (\<forall>r. (g, v, r) \<notin> seats d)"
  by (auto simp: role_in_def seats_iff find_None_set)

lemma role_in_Some: "role_in d g v = Some r \<Longrightarrow> (g, v, r) \<in> seats d"
  by (auto simp: role_in_def seats_iff dest!: find_Some_set)

lemma is_member_seats: "is_member d g v \<longleftrightarrow> (\<exists>r. (g, v, r) \<in> seats d)"
  by (auto simp: is_member_def seats_iff list_ex_iff)

text \<open>The club of a group that a handler has found.\<close>

definition sees :: "database \<Rightarrow> uuid \<Rightarrow> conversation_row \<Rightarrow> club \<Rightarrow> bool" where
  "sees d g c k \<longleftrightarrow> so_clubs (society_of d) g = Some k \<and> cl_owner k = cv_creator c \<and> cl_secret k = cv_password_hash c \<and>
     group_policy c = Inr (cl_policy k) \<and> cl_people k = {v. \<exists>r. (g, v, r) \<in> seats d} \<and>
     cl_admins k = {v. (g, v, admin_role) \<in> seats d} \<and>
     (\<forall>v. role_in d g v = (if v \<in> cl_people k then Some (role_of k v) else None)) \<and>
     (\<forall>v. is_admin_role (role_in d g v) \<longleftrightarrow> runs_club v k) \<and>
     cl_owner k \<in> cl_people k \<and> cl_admins k \<subseteq> cl_people k \<and> (cl_policy k = Password) = (cl_secret k \<noteq> None)"

lemma found_club:
  assumes ok: "tables_ok d" and c: "group_row g d = Some c"
  shows "\<exists>k. sees d g c k"
proof -
  have "\<not> no_club_at d g" using group_row_core [OF c] unfolding no_club_at_def by force
  then obtain k p where k: "so_clubs (society_of d) g = Some k" "club_at d g k p" using ok clubs_cases [of d g] by metis
  have core: "(group_kind, cv_creator c, cv_policy c, cv_password_hash c) = (group_kind, cl_owner k, p, cl_secret k)"
    using k(2) [unfolded club_at_def, THEN conjunct2, THEN conjunct1, rule_format] group_row_core [OF c] by metis
  have seat: "(g, v, r) \<in> seats d \<longleftrightarrow> v \<in> cl_people k \<and> r = role_of k v" for v r using k(2) by (simp add: club_at_def)
  have role: "role_in d g v = (if v \<in> cl_people k then Some (role_of k v) else None)" for v
  proof (cases "role_in d g v")
    case None then show ?thesis using role_in_None [of d g v] seat [of v "role_of k v"] by simp
  next
    case (Some r) then show ?thesis using role_in_Some [of d g v r] seat [of v r] by simp
  qed
  have "is_admin_role (role_in d g v) \<longleftrightarrow> runs_club v k" for v
    using k(2) by (auto simp: is_admin_role_def role runs_club_def club_at_def club_ok_def)
  moreover have "group_policy c = Inr (cl_policy k)" using core k(2) by (auto simp: group_policy_def club_at_def club_ok_def)
  moreover have "cl_people k = {v. \<exists>r. (g, v, r) \<in> seats d}" by (auto simp: seat)
  moreover have "cl_admins k = {v. (g, v, admin_role) \<in> seats d}" using k(2) by (auto simp: seat club_at_def club_ok_def)
  moreover have "cl_owner k = cv_creator c" "cl_secret k = cv_password_hash c" using core by simp_all
  moreover have "club_ok k p" using k(2) by (simp add: club_at_def)
  ultimately show ?thesis using k(1) role unfolding sees_def club_ok_def by (intro exI [of _ k] conjI allI) simp_all
qed

lemma seesD:
  assumes "sees d g c k"
  shows "so_clubs (society_of d) g = Some k" "cl_owner k = cv_creator c" "cl_secret k = cv_password_hash c"
    "group_policy c = Inr (cl_policy k)" "cl_people k = {v. \<exists>r. (g, v, r) \<in> seats d}"
    "cl_admins k = {v. (g, v, admin_role) \<in> seats d}" "role_in d g v = None \<longleftrightarrow> v \<notin> cl_people k"
    "role_in d g v = Some r \<Longrightarrow> v \<in> cl_people k \<and> r = role_of k v"
    "is_admin_role (role_in d g v) \<longleftrightarrow> runs_club v k" "cl_owner k \<in> cl_people k" "cl_admins k \<subseteq> cl_people k"
    "(cl_policy k = Password) = (cl_secret k \<noteq> None)"
proof -
  note k = assms [unfolded sees_def]
  from k show "role_in d g v = None \<longleftrightarrow> v \<notin> cl_people k"
    "role_in d g v = Some r \<Longrightarrow> v \<in> cl_people k \<and> r = role_of k v"
    by (metis option.distinct(1), metis option.distinct(1) option.inject)
qed (insert assms [unfolded sees_def], (elim conjE, (assumption | erule spec))+)

section \<open>What statements do to the three sets\<close>

lemma views [simp]:
  "bonds (d\<lparr>conversations := cs\<rparr>) = bonds d" "seats (d\<lparr>conversations := cs\<rparr>) = seats d"
  "bonds (d\<lparr>conversation_members := ms\<rparr>) = bonds d" "cores (d\<lparr>conversation_members := ms\<rparr>) = cores d"
  "cores (d\<lparr>friendships := fs\<rparr>) = cores d" "seats (d\<lparr>friendships := fs\<rparr>) = seats d"
  "bonds (d\<lparr>notifications := ns\<rparr>) = bonds d" "cores (d\<lparr>notifications := ns\<rparr>) = cores d" "seats (d\<lparr>notifications := ns\<rparr>) = seats d"
  "bonds (d\<lparr>call_session_members := cm\<rparr>) = bonds d" "cores (d\<lparr>call_session_members := cm\<rparr>) = cores d"
  "seats (d\<lparr>call_session_members := cm\<rparr>) = seats d"
  "bonds (d\<lparr>group_invitations := gi\<rparr>) = bonds d" "cores (d\<lparr>group_invitations := gi\<rparr>) = cores d"
  "seats (d\<lparr>group_invitations := gi\<rparr>) = seats d"
  "bonds (d\<lparr>direct_message_requests := dr\<rparr>) = bonds d" "cores (d\<lparr>direct_message_requests := dr\<rparr>) = cores d"
  "seats (d\<lparr>direct_message_requests := dr\<rparr>) = seats d"
  "bonds (d\<lparr>revoked_sfu_rooms := rs\<rparr>) = bonds d" "cores (d\<lparr>revoked_sfu_rooms := rs\<rparr>) = cores d"
  "seats (d\<lparr>revoked_sfu_rooms := rs\<rparr>) = seats d"
  by (simp_all add: bonds_def cores_def seats_def)

definition seat_set :: "member_row list \<Rightarrow> (uuid \<times> uuid \<times> str) set" where
  "seat_set ms = (\<lambda>m. (me_conversation m, me_user m, me_role m)) ` set ms"

lemma in_seat_set: "(g, v, r) \<in> seat_set ms \<longleftrightarrow> (\<exists>m \<in> set ms. me_conversation m = g \<and> me_user m = v \<and> me_role m = r)"
  by (auto simp: seat_set_def)

lemma seats_set: "seats d = seat_set (conversation_members d)"
  by (simp add: seats_def seat_set_def)

lemma seats_updated [simp]: "seats (d\<lparr>conversation_members := ms\<rparr>) = seat_set ms"
  by (simp add: seats_set)

lemma seat_set_simps [simp]:
  "seat_set (conversation_members d) = seats d"
  "seat_set (xs @ ys) = seat_set xs \<union> seat_set ys"
  "seat_set (m # ms) = insert (me_conversation m, me_user m, me_role m) (seat_set ms)" "seat_set [] = {}"
  "seat_set (delete_where (\<lambda>m. me_conversation m = g \<and> me_user m = v) ms) =
     {x \<in> seat_set ms. fst x = g \<longrightarrow> fst (snd x) \<noteq> v}"
  "seat_set (delete_where (\<lambda>m. me_conversation m = g) ms) = {x \<in> seat_set ms. fst x \<noteq> g}"
  "seat_set (update_where (\<lambda>m. me_conversation m = g \<and> me_user m = v) (\<lambda>m. m\<lparr>me_role := r\<rparr>) ms) =
     reseat g v r ` seat_set ms"
proof -
  show "seat_set (update_where (\<lambda>m. me_conversation m = g \<and> me_user m = v) (\<lambda>m. m\<lparr>me_role := r\<rparr>) ms) =
     reseat g v r ` seat_set ms"
    by (simp add: seat_set_def set_update_where image_image del: if_image_distrib) (rule image_cong; simp add: reseat_def)
  show "seat_set (delete_where (\<lambda>m. me_conversation m = g \<and> me_user m = v) ms) =
      {x \<in> seat_set ms. fst x = g \<longrightarrow> fst (snd x) \<noteq> v}"
    by (auto simp: in_seat_set)
  show "seat_set (delete_where (\<lambda>m. me_conversation m = g) ms) = {x \<in> seat_set ms. fst x \<noteq> g}"
    by (auto simp: in_seat_set)
qed (simp_all add: seat_set_def seats_def image_Un)

definition core_set :: "conversation_row list \<Rightarrow> (uuid \<times> str \<times> uuid \<times> str option \<times> str option) set" where
  "core_set cs = core ` set cs"

lemma in_core_set: "x \<in> core_set cs \<longleftrightarrow> (\<exists>c \<in> set cs. core c = x)"
  by (auto simp: core_set_def)

lemma cores_set: "cores d = core_set (conversations d)"
  by (simp add: cores_def core_set_def)

lemma cores_updated [simp]: "cores (d\<lparr>conversations := cs\<rparr>) = core_set cs"
  by (simp add: cores_def core_set_def)

lemma core_set_same:
  "(\<And>c. core (f c) = core c) \<Longrightarrow> core_set (update_where P f cs) = core_set cs"
  by (simp add: core_set_def set_update_where image_image if_distrib [of core] del: if_image_distrib cong: if_cong)

lemma core_set_simps [simp]:
  "core_set (conversations d) = cores d"
  "core_set (cs @ [c]) = insert (core c) (core_set cs)"
  "core_set (delete_where (\<lambda>c. cv_id c = g) cs) = {x \<in> core_set cs. fst x \<noteq> g}"
  "core_set (update_where (\<lambda>c. cv_id c = g) (\<lambda>c. c\<lparr>cv_creator := v\<rparr>) cs) = recreate g v ` core_set cs"
  "core_set (update_where P (\<lambda>c. c\<lparr>cv_updated := t\<rparr>) cs) = core_set cs"
  "core_set (update_where P (\<lambda>c. c\<lparr>cv_avatar_key := k, cv_updated := t\<rparr>) cs) = core_set cs"
  "core_set (update_where (\<lambda>c. cv_id c = g) (\<lambda>c. c\<lparr>cv_title := n, cv_policy := p, cv_password_hash := h, cv_updated := t\<rparr>) cs) =
     reconfigure g p h ` core_set cs"
proof -
  show "core_set (update_where (\<lambda>c. cv_id c = g) (\<lambda>c. c\<lparr>cv_creator := v\<rparr>) cs) = recreate g v ` core_set cs"
    by (simp add: core_set_def set_update_where image_image del: if_image_distrib)
      (rule image_cong; simp add: recreate_def core_def)
  show "core_set (update_where (\<lambda>c. cv_id c = g) (\<lambda>c. c\<lparr>cv_title := n, cv_policy := p, cv_password_hash := h, cv_updated := t\<rparr>) cs) =
     reconfigure g p h ` core_set cs"
    by (simp add: core_set_def set_update_where image_image del: if_image_distrib)
      (rule image_cong; simp add: reconfigure_def core_def)
  show "core_set (delete_where (\<lambda>c. cv_id c = g) cs) = {x \<in> core_set cs. fst x \<noteq> g}"
    by (auto simp: in_core_set core_def)
  show "core_set (update_where P (\<lambda>c. c\<lparr>cv_updated := t\<rparr>) cs) = core_set cs"
    "core_set (update_where P (\<lambda>c. c\<lparr>cv_avatar_key := k, cv_updated := t\<rparr>) cs) = core_set cs"
    by (rule core_set_same; simp add: core_def)+
qed (simp_all add: core_set_def cores_def)

text \<open>Steps that leave the society as it is.\<close>

definition moves :: "platform \<Rightarrow> uuid \<Rightarrow> database \<Rightarrow> database \<Rightarrow> bool" where
  "moves L u d d' \<longleftrightarrow> (tables_ok d \<longrightarrow> tables_ok d' \<and> society_step L u (society_of d) (society_of d'))"

lemma moves_same: "same_society d d' \<Longrightarrow> moves L u d d'"
  by (simp add: moves_def same_society society_step.nothing)

lemma moves_becomes:
  "(tables_ok d \<Longrightarrow> \<exists>k. becomes d g k d' \<and>
      society_step L u (society_of d) ((society_of d)\<lparr>so_clubs := (so_clubs (society_of d))(g := k)\<rparr>)) \<Longrightarrow> moves L u d d'"
  by (auto simp: moves_def becomes_def)

end
