(* ===== verification/SocietyMoves.thy ===== *)
theory SocietyMoves
  imports SocietyTables
begin

text \<open>
  Every transaction of the handlers of friendships, groups and direct conversations is a step of the society:
  the lemmas \<open>..._moves\<close>. They follow the statements of a transaction with the rules of \<open>Transactions\<close> and
  read the result off the three sets of \<open>SocietyTables\<close>.
\<close>

section \<open>Coming in\<close>

lemma commits_touch [committing]:
  "(\<And>d. same_society (tables s) d \<Longrightarrow> Q () (s\<lparr>tables := d\<rparr>)) \<Longrightarrow> commits w (touch_group g) Q s"
  unfolding touch_group_def by (intro committing) (simp add: same_society_def)

lemma commits_add_member:
  assumes "\<And>r. (g, v, r) \<notin> seats (tables s)"
    and "\<And>d. bonds d = bonds (tables s) \<Longrightarrow> cores d = cores (tables s) \<Longrightarrow>
      seats d = insert (g, v, lit ''member'') (seats (tables s)) \<Longrightarrow> Q () (s\<lparr>tables := d\<rparr>)"
  shows "commits w (add_member g v) Q s"
  unfolding add_member_def insert_member_if_absent_def
  using assms(1)
  by (intro committing) (auto simp: is_member_seats same_society_def split: if_splits intro!: assms(2))

lemma commits_friends_with_all:
  "(\<And>b. (b \<Longrightarrow> \<forall>m \<in> set ms. m \<noteq> v \<longrightarrow> are_friends (tables s) v m) \<Longrightarrow> Q b s) \<Longrightarrow> commits w (friends_with_all v ms) Q s"
proof (induction ms)
  case Nil then show ?case by (auto intro: committing)
next
  case (Cons m ms)
  show ?case
    unfolding friends_with_all.simps are_accepted_friends_def
    by (intro committing Cons.IH) (auto intro!: committing Cons.prems Cons.IH)
qed

text \<open>What the policy of a group found out about the friends of somebody.\<close>

definition befriends :: "database \<Rightarrow> uuid \<Rightarrow> group_access_policy \<Rightarrow> uuid \<Rightarrow> bool" where
  "befriends d g p v \<longleftrightarrow>
     (p = FriendsOnly \<longrightarrow> (\<forall>m. (\<exists>r. (g, m, r) \<in> seats d) \<and> m \<noteq> v \<longrightarrow> are_friends d v m)) \<and>
     (p = FriendsOfFriends \<longrightarrow> (\<exists>m. (\<exists>r. (g, m, r) \<in> seats d) \<and> m \<noteq> v \<and> are_friends d v m))"

lemma commits_authorize_friendship_policy [committing]:
  assumes "befriends (tables s) g p v \<Longrightarrow> Q () s"
  shows "commits w (authorize_friendship_policy g p v) Q s"
proof (cases p)
  case FriendsOnly
  have "commits w (is_friends_with_every_member g v) (\<lambda>ok s'. s' = s \<and> (ok \<longrightarrow> befriends (tables s) g p v)) s"
    unfolding is_friends_with_every_member_def group_member_ids_def
    using FriendsOnly
    by (intro committing commits_friends_with_all) (simp add: befriends_def members_of_people del: set_map)
  then show ?thesis
    using assms FriendsOnly by (auto simp: authorize_friendship_policy_def intro!: committing elim!: commits_mono)
next
  case FriendsOfFriends
  have "commits w (is_friends_with_any_member g v) (\<lambda>ok s'. s' = s \<and> (ok \<longrightarrow> befriends (tables s) g p v)) s"
    unfolding is_friends_with_any_member_def Let_def
  proof (intro committing, simp add: befriends_def FriendsOfFriends, intro impI)
    assume "list_ex (\<lambda>f. fr_status f = lit ''accepted'' \<and>
        (fr_requester f = v \<and> (fr_addressee f \<in> me_user ` set (members_of (tables s) g) \<and> fr_addressee f \<noteq> v) \<or>
         fr_addressee f = v \<and> (fr_requester f \<in> me_user ` set (members_of (tables s) g) \<and> fr_requester f \<noteq> v)))
      (friendships (tables s))"
    then obtain f m where f: "f \<in> set (friendships (tables s))" "fr_status f = lit ''accepted''" "m \<noteq> v"
        "m \<in> set (map me_user (members_of (tables s) g))"
        "(fr_requester f = v \<and> fr_addressee f = m) \<or> (fr_requester f = m \<and> fr_addressee f = v)"
      by (auto simp: list_ex_iff)
    have "are_friends (tables s) v m" using f by (auto simp: are_friends_def list_ex_iff)
    then show "\<exists>m. (\<exists>r. (g, m, r) \<in> seats (tables s)) \<and> m \<noteq> v \<and> are_friends (tables s) v m"
      using f(3,4) unfolding members_of_people by blast
  qed
  then show ?thesis
    using assms FriendsOfFriends by (auto simp: authorize_friendship_policy_def intro!: committing elim!: commits_mono)
qed (use assms in \<open>auto simp: authorize_friendship_policy_def befriends_def intro!: committing\<close>)

lemma befriends_friendly:
  "cl_people k = {v. \<exists>r. (g, v, r) \<in> seats d} \<Longrightarrow> befriends d g (cl_policy k) v \<Longrightarrow> friendly (society_of d) k v"
  by (auto simp: befriends_def friendly_def are_friends_society)

lemma commits_authorize_group_admission [committing]:
  assumes "\<And>p. group_policy c = Inr p \<Longrightarrow> befriends (tables s) (cv_id c) p v \<Longrightarrow>
      (p = Password \<Longrightarrow> verify_group_password L (cv_password_hash c) password = Inr True) \<Longrightarrow> Q () s"
  shows "commits w (authorize_group_admission L c v password) Q s"
  unfolding authorize_group_admission_def
proof (intro committing, goal_cases)
  case (1 p)
  show ?case
  proof (cases p)
    case Password
    have "commits w (chain (result (verify_group_password L (cv_password_hash c) password))
        (\<lambda>ok. guard ok (FORBIDDEN, lit ''Invalid group password''))) Q s"
      by (intro committing assms [OF 1]) (simp_all add: Password befriends_def)
    then show ?thesis by (simp add: Password)
  qed (use assms [OF 1] in \<open>auto simp: befriends_def intro!: committing\<close>)
qed

lemma commits_authorize_admin_addition [committing]:
  assumes "\<And>p. group_policy c = Inr p \<Longrightarrow> befriends (tables s) (cv_id c) p v \<Longrightarrow> p \<noteq> Password \<Longrightarrow> Q () s"
  shows "commits w (authorize_admin_addition c v) Q s"
  unfolding authorize_admin_addition_def
proof (intro committing, goal_cases)
  case (1 p)
  then show ?case using assms [OF 1] by (cases p) (auto simp: befriends_def intro!: committing)
qed

lemma moves_enter:
  assumes c: "group_row g d = Some c" and p: "group_policy c = Inr p" "befriends d g p u"
    "p = Password \<Longrightarrow> verify_group_password L (cv_password_hash c) password = Inr True"
    and r: "role_in d g u = None"
    and eq: "bonds d' = bonds d" "cores d' = cores d" "seats d' = insert (g, u, lit ''member'') (seats d)"
  shows "moves L u d d'"
proof (rule moves_becomes)
  assume ok: "tables_ok d"
  obtain k where k: "sees d g c k" using found_club [OF ok c] by blast
  note k' = seesD [OF k]
  have u: "u \<notin> cl_people k" using k'(7) r by blast
  have "becomes d g (Some (k\<lparr>cl_people := insert u (cl_people k)\<rparr>)) d'"
    by (rule seat_added [OF ok k'(1) u eq])
  moreover have "society_step L u (society_of d)
      ((society_of d)\<lparr>so_clubs := (so_clubs (society_of d))(g \<mapsto> k\<lparr>cl_people := insert u (cl_people k)\<rparr>)\<rparr>)"
    using k'(3,4) p befriends_friendly [OF k'(5), of u] by (intro society_step.enter [OF k'(1) u]) auto
  ultimately show "\<exists>k. becomes d g k d' \<and>
      society_step L u (society_of d) ((society_of d)\<lparr>so_clubs := (so_clubs (society_of d))(g := k)\<rparr>)" by blast
qed

lemma moves_add:
  assumes c: "group_row g d = Some c" and a: "is_admin_role (role_in d g u)"
    and p: "group_policy c = Inr p" "befriends d g p v" "p \<noteq> Password"
    and r: "role_in d g v = None"
    and eq: "bonds d' = bonds d" "cores d' = cores d" "seats d' = insert (g, v, lit ''member'') (seats d)"
  shows "moves L u d d'"
proof (rule moves_becomes)
  assume ok: "tables_ok d"
  obtain k where k: "sees d g c k" using found_club [OF ok c] by blast
  note k' = seesD [OF k]
  have v: "v \<notin> cl_people k" using k'(7) r by blast
  have "society_step L u (society_of d)
      ((society_of d)\<lparr>so_clubs := (so_clubs (society_of d))(g \<mapsto> k\<lparr>cl_people := insert v (cl_people k)\<rparr>)\<rparr>)"
    using k'(4,9) a p befriends_friendly [OF k'(5), of v] by (intro society_step.add [OF k'(1) _ v]) auto
  with seat_added [OF ok k'(1) v eq] show "\<exists>k. becomes d g k d' \<and>
      society_step L u (society_of d) ((society_of d)\<lparr>so_clubs := (so_clubs (society_of d))(g := k)\<rparr>)" by blast
qed

lemma group_row_id: "group_row g d = Some c \<Longrightarrow> cv_id c = g"
  by (simp add: group_row_Some)

lemma role_in_unseated: "role_in d g v = None \<Longrightarrow> (g, v, r) \<notin> seats d"
  by (simp add: role_in_None)

lemmas finding = load_group_for_update_def group_member_role_def require_group_admin_for_update_def

lemma join_moves: "commits w (join_rows L g u password) (\<lambda>_ s'. moves L u (tables s) (tables s')) s"
  unfolding join_rows_def finding
proof (intro committing commits_add_member, goal_cases)
  case (1 c) then show ?case by (simp add: role_in_unseated)
next
  case (2 c p d) then show ?case using group_row_id [of g "tables s" c] by (auto intro: moves_enter)
next
  case (3 c r) then show ?case by (simp add: moves_same same_society_def)
qed

lemma add_moves: "commits w (add_rows g u v) (\<lambda>_ s'. moves L u (tables s) (tables s')) s"
  unfolding add_rows_def finding ensure_user_exists_def
  by (intro committing commits_add_member)
    (auto simp: role_in_unseated moves_same same_society_def dest: group_row_id intro!: moves_add)

section \<open>Going out\<close>

lemma moves_remove:
  assumes c: "group_row g d = Some c" and a: "role_in d g u = Some q" "is_admin_role (Some q)" and v: "v \<noteq> cv_creator c" "(g, v, r) \<in> seats d"
    and eq: "bonds d' = bonds d" "cores d' = cores d" "seats d' = {x \<in> seats d. fst x = g \<longrightarrow> fst (snd x) \<noteq> v}"
  shows "moves L u d d'"
proof (rule moves_becomes)
  assume ok: "tables_ok d"
  obtain k where k: "sees d g c k" using found_club [OF ok c] by blast
  note k' = seesD [OF k]
  have v': "v \<noteq> cl_owner k" "v \<in> cl_people k" using v k'(2,5) by auto
  show "\<exists>k. becomes d g k d' \<and>
      society_step L u (society_of d) ((society_of d)\<lparr>so_clubs := (so_clubs (society_of d))(g := k)\<rparr>)"
    using seat_removed [OF ok k'(1) v'(1) eq] society_step.remove [OF k'(1) _ v'(2,1)] a k'(9) [of u] by auto
qed

lemma moves_leave:
  assumes c: "group_row g d = Some c" and v: "u \<noteq> cv_creator c" "(g, u, r) \<in> seats d"
    and eq: "bonds d' = bonds d" "cores d' = cores d" "seats d' = {x \<in> seats d. fst x = g \<longrightarrow> fst (snd x) \<noteq> u}"
  shows "moves L u d d'"
proof (rule moves_becomes)
  assume ok: "tables_ok d"
  obtain k where k: "sees d g c k" using found_club [OF ok c] by blast
  note k' = seesD [OF k]
  have v': "u \<noteq> cl_owner k" "u \<in> cl_people k" using v k'(2,5) by auto
  show "\<exists>k. becomes d g k d' \<and>
      society_step L u (society_of d) ((society_of d)\<lparr>so_clubs := (so_clubs (society_of d))(g := k)\<rparr>)"
    using seat_removed [OF ok k'(1) v'(1) eq] society_step.leave [OF k'(1) v'(2,1)] by blast
qed

lemma group_successor_seat:
  assumes "group_successor (members_of d g) u = Some v"
  shows "v \<noteq> u" and "\<exists>r. (g, v, r) \<in> seats d"
    and "w \<noteq> u \<Longrightarrow> (g, w, admin_role) \<in> seats d \<Longrightarrow> (g, v, admin_role) \<in> seats d"
proof -
  let ?staying = "filter (\<lambda>m. me_user m \<noteq> u) (members_of d g)"
  let ?admins = "filter (\<lambda>m. me_role m = admin_role) ?staying"
  have "v \<noteq> u \<and> (\<exists>r. (g, v, r) \<in> seats d) \<and> (?admins \<noteq> [] \<longrightarrow> (g, v, admin_role) \<in> seats d)"
  proof (cases "?admins = []")
    case False
    then have "arg_min_list me_joined ?admins \<in> set ?admins" by (rule arg_min_list_in)
    moreover have "v = me_user (arg_min_list me_joined ?admins)"
      using assms False by (simp add: group_successor_def Let_def)
    ultimately show ?thesis by (auto simp: seats_iff members_of_def)
  next
    case True
    then have ne: "?staying \<noteq> []" and v: "v = me_user (arg_min_list me_joined ?staying)"
      using assms by (simp_all add: group_successor_def Let_def split: if_splits)
    from arg_min_list_in [OF ne, of me_joined] True v show ?thesis by (auto simp: seats_iff members_of_def)
  qed
  moreover have "?admins \<noteq> []" if "w \<noteq> u" "(g, w, admin_role) \<in> seats d"
    using that by (auto simp: seats_iff members_of_def filter_empty_conv)
  ultimately show "v \<noteq> u" "\<exists>r. (g, v, r) \<in> seats d"
    "w \<noteq> u \<Longrightarrow> (g, w, admin_role) \<in> seats d \<Longrightarrow> (g, v, admin_role) \<in> seats d" by blast+
qed

lemma moves_abdicate:
  assumes c: "group_row g d = Some c" and u: "u = cv_creator c"
    and v: "group_successor (members_of d g) u = Some v"
    and eq: "bonds d' = bonds d" "cores d' = recreate g v ` cores d"
      "seats d' = {x \<in> reseat g v owner_role ` seats d. fst x = g \<longrightarrow> fst (snd x) \<noteq> u}"
  shows "moves L u d d'"
proof (rule moves_becomes)
  assume ok: "tables_ok d"
  obtain k where k: "sees d g c k" using found_club [OF ok c] by blast
  note k' = seesD [OF k]
  note v' = group_successor_seat [OF v]
  have o': "u = cl_owner k" using u k'(2) by simp
  have p: "v \<in> cl_people k" "v \<noteq> u" using v' k'(5) by auto
  have a: "cl_admins k - {u} \<noteq> {} \<longrightarrow> v \<in> cl_admins k" using v'(3) unfolding k'(6) by blast
  have "becomes d g (Some (k\<lparr>cl_owner := v, cl_people := cl_people k - {u}, cl_admins := cl_admins k - {u, v}\<rparr>)) d'"
    using owner_left [OF ok k'(1) _ p(1) eq(1,2)] eq(3) p(2) unfolding o' by blast
  then show "\<exists>k. becomes d g k d' \<and>
      society_step L u (society_of d) ((society_of d)\<lparr>so_clubs := (so_clubs (society_of d))(g := k)\<rparr>)"
    using society_step.abdicate [OF k'(1) o' p a] by blast
qed

lemma same_revoked [simp]:
  "bonds (snd (revoke_group_call_memberships g u d)) = bonds d" "cores (snd (revoke_group_call_memberships g u d)) = cores d"
  "seats (snd (revoke_group_call_memberships g u d)) = seats d"
  by (simp_all add: revoke_group_call_memberships_def Let_def)

lemma filter_members_ne:
  "filter (\<lambda>m. me_conversation m = g \<and> me_user m = v) ms \<noteq> [] \<longleftrightarrow> (\<exists>r. (g, v, r) \<in> seat_set ms)"
  by (auto simp: seat_set_def filter_empty_conv)

lemma remove_moves: "commits w (remove_rows g u v) (\<lambda>_ s'. moves L u (tables s) (tables s')) s"
  unfolding remove_rows_def finding delete_member_def revoke_calls_def Let_def
  by (intro committing) (auto simp: same_society_def filter_members_ne intro: moves_remove)

lemma leave_moves: "commits w (leave_rows g u) (\<lambda>_ s'. moves L u (tables s) (tables s')) s"
  unfolding leave_rows_def finding delete_member_def revoke_calls_def Let_def pass_ownership_def
  by (intro committing)
    (auto simp: same_society_def filter_members_ne ok_or_def split: option.splits intro: moves_leave moves_abdicate)

section \<open>Roles, settings, the beginning and the end\<close>

lemma moves_role:
  assumes c: "group_row g d = Some c" and o': "u = cv_creator c" and v': "(g, v, r) \<in> seats d" and v: "v \<noteq> u"
    and eq: "bonds d' = bonds d" "cores d' = cores d" "seats d' = reseat g v (role_db_value role) ` seats d"
  shows "moves L u d d'"
proof (rule moves_becomes)
  assume ok: "tables_ok d"
  obtain k where k: "sees d g c k" using found_club [OF ok c] by blast
  note k' = seesD [OF k]
  have v': "u = cl_owner k" "v \<noteq> cl_owner k" "v \<in> cl_people k" using v v' o' k'(2,5) by auto
  show "\<exists>k. becomes d g k d' \<and>
      society_step L u (society_of d) ((society_of d)\<lparr>so_clubs := (so_clubs (society_of d))(g := k)\<rparr>)"
  proof (cases role)
    case AdminRole
    then show ?thesis using seat_promoted [OF ok k'(1) v'(2,3) eq(1,2)] eq(3)
        society_step.promote [OF k'(1) v'(1,3) v] by auto
  next
    case MemberRole
    then show ?thesis using seat_demoted [OF ok k'(1) v'(2,3) eq(1,2)] eq(3)
        society_step.demote [OF k'(1) v'(1,3) v] by auto
  qed
qed

lemma role_moves: "commits w (role_rows g u v role) (\<lambda>_ s'. moves L u (tables s) (tables s')) s"
  unfolding role_rows_def finding Let_def
proof (intro committing, clarsimp simp: same_society_def filter_members_ne)
  fix c da r
  assume "group_row g (tables s) = Some c" "v \<noteq> cv_creator c" "(g, v, r) \<in> seats (tables s)"
    "bonds da = bonds (tables s)" "cores da = cores (tables s)" "seats da = reseat g v (role_db_value role) ` seats (tables s)"
  then show "moves L (cv_creator c) (tables s) da" by (intro moves_role [OF _ refl])
qed

lemma moves_configure:
  assumes c: "group_row g d = Some c" and a: "role_in d g u = Some q" "is_admin_role (Some q)"
    and p: "(p = Password) = (h \<noteq> None)"
    and eq: "bonds d' = bonds d" "cores d' = reconfigure g (Some (as_db_value p)) h ` cores d" "seats d' = seats d"
  shows "moves L u d d'"
proof (rule moves_becomes)
  assume ok: "tables_ok d"
  obtain k where k: "sees d g c k" using found_club [OF ok c] by blast
  note k' = seesD [OF k]
  have b: "Option.bind (Some (as_db_value p)) from_db_value = Some p" by simp
  show "\<exists>k. becomes d g k d' \<and>
      society_step L u (society_of d) ((society_of d)\<lparr>so_clubs := (so_clubs (society_of d))(g := k)\<rparr>)"
    using configured [OF ok k'(1) b p eq] society_step.configure [OF k'(1) _ p] a k'(9) [of u] by auto
qed

lemma update_moves:
  "commits w (update_rows L g u title requested supplied h) (\<lambda>_ s'. moves L u (tables s) (tables s')) s"
  unfolding update_rows_def finding Let_def
proof (intro committing; clarsimp)
  fix c :: conversation_row and r q p t e d
  let ?h = "if p = Password then case h of None \<Rightarrow> cv_password_hash c | Some x \<Rightarrow> Some x else None"
  assume found: "group_row g (tables s) = Some c" "role_in (tables s) g u = Some r" "is_admin_role (Some r)"
    and u: "update_conversation L g (\<lambda>x. x\<lparr>cv_title := case title of None \<Rightarrow> cv_title c | Some t \<Rightarrow> Some t,
        cv_policy := Some (as_db_value p), cv_password_hash := ?h, cv_updated := t\<rparr>) (tables s) = Inr (e, d)"
  from u have "(p = Password) = (?h \<noteq> None)"
    by (auto simp: update_conversation_def valid_group_row_def valid_direct_row_def split: option.splits if_splits)
  moreover have "bonds d = bonds (tables s)" "cores d = reconfigure g (Some (as_db_value p)) ?h ` cores (tables s)"
      "seats d = seats (tables s)"
    using u by (auto simp: update_conversation_def split: option.splits if_splits)
  ultimately show "moves L u (tables s) d" by (rule moves_configure [OF found])
qed

lemma set_avatar_moves: "commits w (set_avatar_rows L g u k) (\<lambda>_ s'. moves L u (tables s) (tables s')) s"
  unfolding set_avatar_rows_def finding
  by (intro committing)
    (auto simp: update_conversation_def same_society_def split: option.splits if_splits intro!: moves_same)

lemma clear_avatar_moves: "commits w (clear_avatar_rows L g u) (\<lambda>_ s'. moves L u (tables s) (tables s')) s"
  unfolding clear_avatar_rows_def finding
  by (intro committing) (auto simp: same_society_def intro!: moves_same)

lemma moves_dissolve:
  assumes c: "group_row g d = Some c" and a: "role_in d g u = Some q" "is_admin_role (Some q)"
    and eq: "bonds d' = bonds d" "cores d' = {x \<in> cores d. fst x \<noteq> g}" "seats d' = {x \<in> seats d. fst x \<noteq> g}"
  shows "moves L u d d'"
proof (rule moves_becomes)
  assume ok: "tables_ok d"
  obtain k where k: "sees d g c k" using found_club [OF ok c] by blast
  note k' = seesD [OF k]
  show "\<exists>k. becomes d g k d' \<and>
      society_step L u (society_of d) ((society_of d)\<lparr>so_clubs := (so_clubs (society_of d))(g := k)\<rparr>)"
    using dissolved [OF ok eq] society_step.dissolve [OF k'(1), of u] a k'(9) [of u] by auto
qed

lemma deleted_views [simp]:
  "bonds (delete_conversation g d) = bonds d" "cores (delete_conversation g d) = {x \<in> cores d. fst x \<noteq> g}"
  "seats (delete_conversation g d) = {x \<in> seats d. fst x \<noteq> g}"
proof -
  show "bonds (delete_conversation g d) = bonds d" by (simp add: delete_conversation_def Let_def bonds_def)
  have "conversations (delete_conversation g d) = delete_where (\<lambda>c. cv_id c = g) (conversations d)"
    by (simp add: delete_conversation_def Let_def)
  then show "cores (delete_conversation g d) = {x \<in> cores d. fst x \<noteq> g}"
    by (simp only: cores_set core_set_simps(3))
  have "conversation_members (delete_conversation g d) = delete_where (\<lambda>m. me_conversation m = g) (conversation_members d)"
    by (simp add: delete_conversation_def Let_def)
  then show "seats (delete_conversation g d) = {x \<in> seats d. fst x \<noteq> g}"
    by (simp only: seats_set seat_set_simps(6))
qed

lemma delete_moves: "commits w (delete_group_rows g u) (\<lambda>_ s'. moves L u (tables s) (tables s')) s"
  unfolding delete_group_rows_def finding group_member_ids_def
  by (intro committing) (auto intro: moves_dissolve)

section \<open>Creating a group\<close>

lemma same_canonical_pair:
  assumes "canonical_user_pair a b = canonical_user_pair c e"
  shows "same_pair a b c e"
  using assms by (auto simp: canonical_user_pair_def same_pair_def split: if_splits)

lemma pairs_among_pairs: "v \<in> set ids \<Longrightarrow> v' \<in> set ids \<Longrightarrow> v \<noteq> v' \<Longrightarrow>
   canonical_user_pair v v' \<in> set (pairs_among ids) \<or> canonical_user_pair v' v \<in> set (pairs_among ids)"
  by (induction ids) auto

text \<open>The initial members are friends as the policy asks.\<close>

definition initial_friends :: "database \<Rightarrow> uuid \<Rightarrow> uuid list \<Rightarrow> group_access_policy \<Rightarrow> bool" where
  "initial_friends d u ids p \<longleftrightarrow> (\<forall>v \<in> set ids. are_friends d u v) \<and>
     (p = FriendsOnly \<longrightarrow> (\<forall>v \<in> set ids. \<forall>v' \<in> set ids. v \<noteq> v' \<longrightarrow> are_friends d v v'))"

lemma commits_initial_friendships [committing]:
  assumes "initial_friends (tables s) u ids p \<Longrightarrow> Q () s"
  shows "commits w (validate_initial_member_friendships u ids p) Q s"
proof -
  let ?required = "required_initial_friendship_pairs u ids p"
  have friend: "are_friends (tables s) a b" if "canonical_user_pair a b \<in> set (map
      (\<lambda>f. canonical_user_pair (fr_requester f) (fr_addressee f)) (filter (\<lambda>f. fr_status f = lit ''accepted'' \<and>
        fr_requester f \<in> set us \<and> fr_addressee f \<in> set us) (friendships (tables s))))" for a b us
  proof -
    obtain f where f: "f \<in> set (friendships (tables s))" "fr_status f = lit ''accepted''"
        "canonical_user_pair a b = canonical_user_pair (fr_requester f) (fr_addressee f)" using \<open>canonical_user_pair a b \<in> _\<close> by auto
    have "same_pair a b (fr_requester f) (fr_addressee f)" using f(3) by (rule same_canonical_pair)
    then show ?thesis using f(1,2) by (auto simp: are_friends_def list_ex_iff same_pair_def)
  qed
  have sym: "are_friends (tables s) b a" if "are_friends (tables s) a b" for a b
    using that by (auto simp: are_friends_def list_ex_iff)
  have initial: "initial_friends (tables s) u ids p"
    if all: "\<And>x. x \<in> set ?required \<Longrightarrow> \<exists>us. x \<in> set (map (\<lambda>f. canonical_user_pair (fr_requester f) (fr_addressee f))
      (filter (\<lambda>f. fr_status f = lit ''accepted'' \<and> fr_requester f \<in> set us \<and> fr_addressee f \<in> set us)
        (friendships (tables s))))"
    unfolding initial_friends_def
  proof (intro conjI ballI impI)
    fix v assume "v \<in> set ids"
    then have "canonical_user_pair u v \<in> set ?required" by (simp add: required_initial_friendship_pairs_def)
    from all [OF this] show "are_friends (tables s) u v" using friend by blast
  next
    fix v v' assume "p = FriendsOnly" "v \<in> set ids" "v' \<in> set ids" "v \<noteq> v'"
    then have "canonical_user_pair v v' \<in> set ?required \<or> canonical_user_pair v' v \<in> set ?required"
      using pairs_among_pairs [of v ids v'] by (auto simp: required_initial_friendship_pairs_def)
    then show "are_friends (tables s) v v'" using all friend sym by blast
  qed
  show ?thesis
    unfolding validate_initial_member_friendships_def Let_def
  proof (intro committing assms initial)
    fix x assume "?required = []" "x \<in> set ?required" then show "\<exists>us. x \<in> set (map
      (\<lambda>f. canonical_user_pair (fr_requester f) (fr_addressee f)) (filter (\<lambda>f. fr_status f = lit ''accepted'' \<and>
        fr_requester f \<in> set us \<and> fr_addressee f \<in> set us) (friendships (tables s))))" by simp
  qed (auto simp only: list_all_iff)
qed

lemma moves_found:
  assumes f: "initial_friends d u ids p" "u \<notin> set ids" "(p = Password) = (h \<noteq> None)" "\<And>x. (g, x) \<notin> cores d"
    and eq: "bonds d' = bonds d" "cores d' = insert (g, group_kind, u, Some (as_db_value p), h) (cores d)"
      "seats d' = insert (g, u, owner_role) ((\<lambda>v. (g, v, lit ''member'')) ` set ids) \<union> seats d"
  shows "moves L u d d'"
proof (rule moves_becomes)
  assume ok: "tables_ok d"
  have "Option.bind (Some (as_db_value p)) from_db_value = Some p" by simp
  note founded = founded [OF ok f(4) this f(3,2) eq]
  have "society_step L u (society_of d) ((society_of d)\<lparr>so_clubs := (so_clubs (society_of d))(g \<mapsto>
      \<lparr>cl_owner = u, cl_admins = {}, cl_people = insert u (set ids), cl_policy = p, cl_secret = h\<rparr>)\<rparr>)"
    using f(1,2,3) founded(1) by (intro society_step.found) (auto simp: initial_friends_def are_friends_society)
  then show "\<exists>k. becomes d g k d' \<and>
      society_step L u (society_of d) ((society_of d)\<lparr>so_clubs := (so_clubs (society_of d))(g := k)\<rparr>)"
    using founded(2) by blast
qed

lemma fresh_conversation:
  "insert_conversation L c d = Inr (x, d') \<Longrightarrow> x = c \<and> d' = d\<lparr>conversations := conversations d @ [c]\<rparr> \<and>
     (\<forall>y. (cv_id c, y) \<notin> cores d) \<and> (valid_group_row L c \<or> valid_direct_row c)"
  by (auto simp: insert_conversation_def cores_def core_def list_ex_iff conversations_clash_def split: if_splits)

lemma group_moves: "commits w (group_rows L g u title p h ids) (\<lambda>_ s'. moves L u (tables s) (tables s')) s"
  unfolding group_rows_def
proof (intro committing; clarsimp)
  fix t c d d'
  let ?members = "\<lparr>me_conversation = g, me_user = u, me_role = owner_role, me_joined = t\<rparr> #
    map (\<lambda>v. \<lparr>me_conversation = g, me_user = v, me_role = lit ''member'', me_joined = t\<rparr>) ids"
  let ?row = "\<lparr>cv_id = g, cv_kind = group_kind, cv_creator = u, cv_title = Some title, cv_policy = Some (as_db_value p),
        cv_password_hash = h, cv_low = None, cv_high = None, cv_code = Some (group_code_from_uuid g),
        cv_legacy_code = None, cv_avatar_key = None, cv_created = t, cv_updated = t\<rparr>"
  assume f: "initial_friends (tables s) u ids p"
    and c: "insert_conversation L ?row (tables s) = Inr (c, d)" and m: "insert_members ?members d = Inr ((), d')"
  note c' = fresh_conversation [OF c]
  have valid: "(p = Password) = (h \<noteq> None)"
    using c' by (auto simp: valid_group_row_def valid_direct_row_def)
  have m': "distinct (map (\<lambda>m. (me_conversation m, me_user m)) ?members)" "d' = d\<lparr>conversation_members := conversation_members d @ ?members\<rparr>"
    using m by (auto simp: insert_members_def split: if_splits)
  have fresh: "(g, x) \<notin> cores (tables s)" for x using c' by (cases x) auto
  have u: "u \<notin> set ids" using m'(1) by auto
  have seats: "seats d' = insert (g, u, owner_role) ((\<lambda>v. (g, v, lit ''member'')) ` set ids) \<union> seats (tables s)"
  proof -
    have "seat_set (map (\<lambda>v. \<lparr>me_conversation = g, me_user = v, me_role = lit ''member'', me_joined = t\<rparr>) ids) =
        (\<lambda>v. (g, v, lit ''member'')) ` set ids" by (simp add: seat_set_def image_image)
    moreover have "seats d = seats (tables s)" using c' by simp
    ultimately show ?thesis unfolding m'(2) by auto
  qed
  show "moves L u (tables s) d'"
    by (rule moves_found [OF f u valid fresh _ _ seats]) (use c' m'(2) in \<open>simp_all add: core_def\<close>)
qed

section \<open>Direct conversations and invitations\<close>

lemma moves_direct:
  assumes "\<And>x. (g, x) \<notin> cores d" "fst x \<noteq> group_kind"
    and "bonds d' = bonds d" "cores d' = insert (g, x) (cores d)" "seats d' = seats d"
  shows "moves L u d d'"
  using direct_added [OF _ assms] by (auto simp: moves_def society_step.nothing)

lemma moves_insert_direct:
  assumes i: "insert_direct_if_absent L c d = Inr (x, d')" and k: "cv_kind c \<noteq> group_kind"
  shows "moves M u d d'"
proof (cases "d' = d")
  case True then show ?thesis by (simp add: moves_same same_society_def)
next
  case False
  with i obtain y where "insert_conversation L c d = Inr (y, d')"
    by (cases "insert_conversation L c d") (auto simp: insert_direct_if_absent_def split: if_splits)
  from fresh_conversation [OF this] show ?thesis
    using k by (intro moves_direct [where g = "cv_id c" and x = "snd (core c)"]) (auto simp: core_def)
qed

lemma direct_kind [simp]: "lit ''direct'' \<noteq> group_kind"
  by (simp add: lit_def)

lemma moves_trans_same: "moves L u d d' \<Longrightarrow> same_society d' d'' \<Longrightarrow> moves L u d d''"
  by (auto simp: moves_def same_society)

lemma commits_ensure_direct:
  assumes "\<And>d c. moves M u (tables s) d \<Longrightarrow> Q c (s\<lparr>tables := d\<rparr>)"
  shows "commits w (ensure_direct_conversation L a b) Q s"
  unfolding ensure_direct_conversation_def find_direct_conversation_def Let_def
  by (intro committing) (auto intro!: assms dest: moves_insert_direct)

lemma answer_moves: "commits w (answer_rows L i u accept) (\<lambda>_ s'. moves M v (tables s) (tables s')) s"
proof -
  have same: "same_society d d'" if "answer_request i u accept d = Inr (x, d')" for d x d'
    using that by (auto simp: answer_request_def Let_def same_society_def split: option.splits)
  have "moves M v d d''" if "answer_request i u accept d = Inr (x, d')" "moves M v d' d''" for d x d' d''
    using same_society [OF _ same [OF that(1)]] that(2) unfolding moves_def by metis
  then show ?thesis
    unfolding answer_rows_def
    by (intro committing commits_ensure_direct [where M = M and u = v]) (auto intro: moves_same [OF same])
qed

lemma befriended_moves: "commits w (befriended_rows L u v) (\<lambda>_ s'. moves M a (tables s) (tables s')) s"
  unfolding befriended_rows_def resolve_pending_direct_request_def
  by (intro committing commits_ensure_direct [where M = M and u = a]; simp; elim moves_trans_same) (simp add: same_society_def)

lemma notification_same: "insert_notification x d = Inr (y, d') \<Longrightarrow> same_society d d'"
  by (auto simp: same_society_def dest!: insert_notification_Inr)

lemma invitation_moves: "commits w (invitation_rows g u v) (\<lambda>_ s'. moves L a (tables s) (tables s')) s"
  unfolding invitation_rows_def finding ensure_user_exists_def pending_invitation_exists_def create_notification_def
  by (intro committing)
    (auto simp: insert_invitation_def same_society_def split: if_splits dest!: insert_notification_Inr intro!: moves_same)

lemma accept_invitation_moves: "commits w (accept_rows L i u password) (\<lambda>_ s'. moves L u (tables s) (tables s')) s"
  unfolding accept_rows_def load_pending_invitation_for_update_def finding resolve_invitation_def
proof (intro committing commits_add_member, goal_cases)
  case (1 x c)
  then show ?case by (auto simp: role_in_unseated dest: group_row_id)
next
  case (2 x c p d)
  then have "cv_id c = gi_conversation x" by (simp add: group_row_id)
  with 2 show ?case by (auto intro: moves_enter)
next
  case (3 x c r) then show ?case by (simp add: moves_same same_society_def)
qed

section \<open>Friends\<close>

lemma bonds_change:
  assumes ok: "tables_ok d" and eq: "cores d' = cores d" "seats d' = seats d" and b: "bonds_ok d'"
  shows "tables_ok d'" and "so_clubs (society_of d') = so_clubs (society_of d)"
proof -
  have at: "club_at d' g = club_at d g" "no_club_at d' g = no_club_at d g" for g
    using at_same [of g d' d] eq by (auto simp: fun_eq_iff)
  show ok': "tables_ok d'" using ok b at by (simp add: tables_ok_def)
  have "so_clubs (society_of d') g = so_clubs (society_of d) g" for g
    using ok by (rule clubs_cases [of d g]) (use at [of g] no_clubs_at [of d' g] clubs_at [of d' g] in auto)
  then show "so_clubs (society_of d') = so_clubs (society_of d)" by auto
qed

lemma moves_bonds:
  assumes eq: "cores d' = cores d" "seats d' = seats d"
    and b: "bonds_ok d \<Longrightarrow> bonds_ok d' \<and> society_step L u (society_of d)
      ((society_of d)\<lparr>so_asked := so_asked (society_of d'), so_befriended := so_befriended (society_of d')\<rparr>)"
  shows "moves L u d d'"
  unfolding moves_def
proof
  assume ok: "tables_ok d"
  then have b': "bonds_ok d \<and> bonds_ok d'" using b by (simp add: tables_ok_def)
  note c = bonds_change [OF ok eq conjunct2 [OF b']]
  have "society_of d' = (society_of d)\<lparr>so_asked := so_asked (society_of d'), so_befriended := so_befriended (society_of d')\<rparr>"
    using c(2) by (cases "society_of d'"; cases "society_of d") simp
  then show "tables_ok d' \<and> society_step L u (society_of d) (society_of d')" using b b' c(1) by metis
qed

definition bond_set :: "friendship_row list \<Rightarrow> (uuid \<times> uuid \<times> uuid \<times> str) set" where
  "bond_set fs = (\<lambda>f. (fr_id f, fr_requester f, fr_addressee f, fr_status f)) ` set fs"

lemma in_bond_set: "(i, a, b, s) \<in> bond_set fs \<longleftrightarrow>
   (\<exists>f \<in> set fs. fr_id f = i \<and> fr_requester f = a \<and> fr_addressee f = b \<and> fr_status f = s)"
  by (auto simp: bond_set_def)

lemma bonds_set: "bonds d = bond_set (friendships d)"
  by (simp add: bonds_def bond_set_def)

lemma in_bonds: "(i, a, b, s) \<in> bonds d \<longleftrightarrow>
   (\<exists>f \<in> set (friendships d). fr_id f = i \<and> fr_requester f = a \<and> fr_addressee f = b \<and> fr_status f = s)"
  by (simp add: bonds_set in_bond_set)

lemma bonds_okD:
  assumes "bonds_ok d" "(i, a, b, s) \<in> bonds d"
  shows "a \<noteq> b" and "s = lit ''pending'' \<or> s = lit ''accepted''"
    and "(j, a', b', s') \<in> bonds d \<Longrightarrow> i = j \<or> same_pair a b a' b' \<Longrightarrow> i = j \<and> a = a' \<and> b = b' \<and> s = s'"
proof -
  note r = bspec [OF assms(1) [unfolded bonds_ok_def] assms(2), unfolded prod.case]
  show "a \<noteq> b" by (rule r [THEN conjunct1])
  show "s = lit ''pending'' \<or> s = lit ''accepted''" by (rule r [THEN conjunct2, THEN conjunct1])
  assume j: "(j, a', b', s') \<in> bonds d" and p: "i = j \<or> same_pair a b a' b'"
  show "i = j \<and> a = a' \<and> b = b' \<and> s = s'"
    by (rule mp [OF bspec [OF r [THEN conjunct2, THEN conjunct2] j, unfolded prod.case] p])
qed

lemma bonds_okI:
  assumes "\<And>i a b s. (i, a, b, s) \<in> bonds d \<Longrightarrow> a \<noteq> b \<and> (s = lit ''pending'' \<or> s = lit ''accepted'')"
    and "\<And>i a b s j a' b' s'. (i, a, b, s) \<in> bonds d \<Longrightarrow> (j, a', b', s') \<in> bonds d \<Longrightarrow>
      i = j \<or> same_pair a b a' b' \<Longrightarrow> i = j \<and> a = a' \<and> b = b' \<and> s = s'"
  shows "bonds_ok d"
  unfolding bonds_ok_def using assms by fast

lemma friend_states [simp]: "lit ''pending'' \<noteq> lit ''accepted''" "lit ''accepted'' \<noteq> lit ''pending''"
  by (simp_all add: lit_def)

lemma moves_ask:
  assumes i: "insert_friendship f d = Inr (x, d1)" and f: "fr_status f = lit ''pending''" "fr_requester f = u"
    and eq: "bonds d' = bonds d1" "cores d' = cores d1" "seats d' = seats d1"
  shows "moves L u d d'"
proof (rule moves_bonds)
  have d1: "d1 = d\<lparr>friendships := friendships d @ [f]\<rparr>" "fr_requester f \<noteq> fr_addressee f"
      "\<And>g. g \<in> set (friendships d) \<Longrightarrow> fr_id g \<noteq> fr_id f \<and> \<not> between (fr_requester f) (fr_addressee f) g"
    using i by (auto simp: insert_friendship_def list_ex_iff split: if_splits)
  show "cores d' = cores d" "seats d' = seats d" using eq(2,3) d1(1) by simp_all
  let ?v = "fr_addressee f"
  have b: "bonds d' = insert (fr_id f, u, ?v, lit ''pending'') (bonds d)"
    using eq(1) d1(1) f by (simp add: bonds_def)
  have new: "j \<noteq> fr_id f" "\<not> same_pair a e u ?v" if "(j, a, e, s) \<in> bonds d" for j a e s
    using d1(3) that f(2) by (auto simp: in_bonds between_def)
  have new': "\<not> same_pair u ?v a e" if "(j, a, e, s) \<in> bonds d" for j a e s
    using new(2) [OF that] by (auto simp: same_pair_def)
  assume ok: "bonds_ok d"
  have "bonds_ok d'"
  proof (rule bonds_okI)
    fix j a e s k a' e' s'
    show "a \<noteq> e \<and> (s = lit ''pending'' \<or> s = lit ''accepted'')" if "(j, a, e, s) \<in> bonds d'"
      using that d1(2) f(2) bonds_okD(1,2) [OF ok] unfolding b by blast
    show "j = k \<and> a = a' \<and> e = e' \<and> s = s'"
      if "(j, a, e, s) \<in> bonds d'" "(k, a', e', s') \<in> bonds d'" "j = k \<or> same_pair a e a' e'"
      using that new new' bonds_okD(3) [OF ok, of j a e s k a' e' s'] unfolding b by blast
  qed
  moreover have "society_step L u (society_of d)
      ((society_of d)\<lparr>so_asked := so_asked (society_of d'), so_befriended := so_befriended (society_of d')\<rparr>)"
  proof -
    have "so_befriended (society_of d') = so_befriended (society_of d)" by (auto simp: befriended_iff b)
    moreover have "so_asked (society_of d') = insert (u, ?v) (so_asked (society_of d))" by (auto simp: asked_iff b)
    moreover have "unrelated (society_of d) u ?v"
      using new(2) unfolding unrelated_def befriended_iff asked_iff same_pair_def by blast
    ultimately show ?thesis using society_step.ask [of u ?v "society_of d"] d1(2) f(2) by simp
  qed
  ultimately show "bonds_ok d' \<and> society_step L u (society_of d)
      ((society_of d)\<lparr>so_asked := so_asked (society_of d'), so_befriended := so_befriended (society_of d')\<rparr>)" ..
qed

lemma accept_row_effect:
  assumes "accept_row i u now d = Inr (x, d')"
  obtains a where "(i, a, u, lit ''pending'') \<in> bonds d" "cores d' = cores d" "seats d' = seats d"
    "\<And>j b e s. (j, b, e, s) \<in> bonds d' \<longleftrightarrow> (if j = i \<and> e = u \<and> s = lit ''accepted''
       then (j, b, e, s) \<in> bonds d \<or> (j, b, e, lit ''pending'') \<in> bonds d
       else (j, b, e, s) \<in> bonds d \<and> \<not> (j = i \<and> e = u \<and> s = lit ''pending''))"
proof -
  let ?hit = "\<lambda>f. fr_id f = i \<and> fr_addressee f = u \<and> fr_status f = lit ''pending''"
  let ?new = "update_where ?hit (\<lambda>f. f\<lparr>fr_status := lit ''accepted'', fr_updated := now\<rparr>) (friendships d)"
  obtain f where f: "find ?hit (friendships d) = Some f" and d': "d' = d\<lparr>friendships := ?new\<rparr>"
    using assms by (auto simp: accept_row_def Let_def split: option.splits)
  have bond: "(j, b, e, s) \<in> bond_set ?new \<longleftrightarrow> (\<exists>g \<in> set (friendships d). fr_id g = j \<and> fr_requester g = b \<and> fr_addressee g = e \<and>
      (if ?hit g then lit ''accepted'' else fr_status g) = s)" for j b e s
    unfolding in_bond_set set_update_where bex_simps by (rule bex_cong) auto
  show thesis
  proof (rule that [of "fr_requester f"])
    show "(i, fr_requester f, u, lit ''pending'') \<in> bonds d" using find_Some_set [OF f] by (auto simp: in_bonds)
    show "cores d' = cores d" "seats d' = seats d" by (simp_all add: d')
    show "(j, b, e, s) \<in> bonds d' \<longleftrightarrow> (if j = i \<and> e = u \<and> s = lit ''accepted''
       then (j, b, e, s) \<in> bonds d \<or> (j, b, e, lit ''pending'') \<in> bonds d
       else (j, b, e, s) \<in> bonds d \<and> \<not> (j = i \<and> e = u \<and> s = lit ''pending''))" for j b e s
    proof -
      have "bonds d' = bond_set ?new" by (simp add: d' bonds_set)
      then show ?thesis unfolding in_bonds [of _ _ _ _ d] by (simp only: bond) (auto split: if_splits)
    qed
  qed
qed

lemma moves_accept:
  assumes "accept_row i u now d = Inr (x, d')"
  shows "moves L u d d'"
proof -
  obtain a where a: "(i, a, u, lit ''pending'') \<in> bonds d" and eq: "cores d' = cores d" "seats d' = seats d"
    and b: "\<And>j b e s. (j, b, e, s) \<in> bonds d' \<longleftrightarrow> (if j = i \<and> e = u \<and> s = lit ''accepted''
       then (j, b, e, s) \<in> bonds d \<or> (j, b, e, lit ''pending'') \<in> bonds d
       else (j, b, e, s) \<in> bonds d \<and> \<not> (j = i \<and> e = u \<and> s = lit ''pending''))"
    using assms by (rule accept_row_effect) blast
  show ?thesis
  proof (rule moves_bonds [OF eq])
    assume ok: "bonds_ok d"
    have only: "(j, b, e, s) \<in> bonds d \<longleftrightarrow> (b, e, s) = (a, u, lit ''pending'')" if "j = i" for j b e s
      using bonds_okD(3) [OF ok a, of i b e s] a that by auto
    have b': "(j, b, e, s) \<in> bonds d' \<longleftrightarrow>
        (if j = i then (b, e, s) = (a, u, lit ''accepted'') else (j, b, e, s) \<in> bonds d)" for j b e s
      using b [of j b e s] only [of j b e s] only [of j b e "lit ''pending''"] by (cases "j = i") auto
    have pair: "\<not> same_pair a u b e" "\<not> same_pair b e a u" if "(j, b, e, s) \<in> bonds d" "j \<noteq> i" for j b e s
      using bonds_okD(3) [OF ok a that(1)] that(2) by (auto simp: same_pair_def)
    have "bonds_ok d'"
    proof (rule bonds_okI)
      fix j b e s k b2 e2 s2
      show "b \<noteq> e \<and> (s = lit ''pending'' \<or> s = lit ''accepted'')" if "(j, b, e, s) \<in> bonds d'"
        using that bonds_okD(1,2) [OF ok] bonds_okD(1) [OF ok a] unfolding b' by (auto split: if_splits)
      show "j = k \<and> b = b2 \<and> e = e2 \<and> s = s2"
        if "(j, b, e, s) \<in> bonds d'" "(k, b2, e2, s2) \<in> bonds d'" "j = k \<or> same_pair b e b2 e2"
      proof (cases "j = i"; cases "k = i")
        assume "j = i" "k = i" then show ?thesis using that(1,2) unfolding b' by simp
      next
        assume "j = i" "k \<noteq> i" then show ?thesis using that pair(1) [of k b2 e2 s2] unfolding b' by simp
      next
        assume "j \<noteq> i" "k = i" then show ?thesis using that pair(2) [of j b e s] unfolding b' by simp
      next
        assume n: "j \<noteq> i" "k \<noteq> i"
        then have "(j, b, e, s) \<in> bonds d" "(k, b2, e2, s2) \<in> bonds d" using that(1,2) unfolding b' by simp_all
        from bonds_okD(3) [OF ok this that(3)] show ?thesis .
      qed
    qed
    moreover have "so_asked (society_of d') = so_asked (society_of d) - {(a, u)}"
    proof (rule set_eqI, clarify)
      fix b e
      have "(\<exists>j. (j, b, e, lit ''pending'') \<in> bonds d') \<longleftrightarrow> (\<exists>j. (j, b, e, lit ''pending'') \<in> bonds d) \<and> (b, e) \<noteq> (a, u)"
      proof -
        have "(j, b, e, lit ''pending'') \<in> bonds d' \<longleftrightarrow> (j, b, e, lit ''pending'') \<in> bonds d \<and> (b, e) \<noteq> (a, u)" for j
        proof (cases "j = i")
          case True then show ?thesis using b' [of j b e "lit ''pending''"] only [of j b e "lit ''pending''"] by simp
        next
          case False then show ?thesis using b' [of j b e "lit ''pending''"] pair(1) [of j b e "lit ''pending''"]
            by (auto simp: same_pair_def)
        qed
        then show ?thesis by blast
      qed
      then show "(b, e) \<in> so_asked (society_of d') \<longleftrightarrow> (b, e) \<in> so_asked (society_of d) - {(a, u)}"
        by (simp add: asked_iff)
    qed
    moreover have "so_befriended (society_of d') = so_befriended (society_of d) \<union> {(u, a), (a, u)}"
    proof (rule set_eqI, clarify)
      fix b e
      have "(j, b, e, lit ''accepted'') \<in> bonds d' \<longleftrightarrow> (j = i \<and> b = a \<and> e = u) \<or> (j, b, e, lit ''accepted'') \<in> bonds d"
        for j b e using b' [of j b e] only [of j b e] by auto
      then show "(b, e) \<in> so_befriended (society_of d') \<longleftrightarrow>
          (b, e) \<in> so_befriended (society_of d) \<union> {(u, a), (a, u)}" by (auto simp: befriended_iff)
    qed
    moreover have "(a, u) \<in> so_asked (society_of d)" using a by (auto simp: asked_iff)
    ultimately show "bonds_ok d' \<and> society_step L u (society_of d)
        ((society_of d)\<lparr>so_asked := so_asked (society_of d'), so_befriended := so_befriended (society_of d')\<rparr>)"
      using society_step.accept [of a u "society_of d" L] by simp
  qed
qed

lemma moves_part:
  assumes r: "delete_row i u d = Inr (f, d1)" and eq': "bonds d' = bonds d1" "cores d' = cores d1" "seats d' = seats d1"
  shows "moves L u d d'"
proof -
  let ?hit = "\<lambda>f. fr_id f = i \<and> (fr_requester f = u \<or> fr_addressee f = u)"
  have f: "find ?hit (friendships d) = Some f" and d1: "d1 = d\<lparr>friendships := delete_where ?hit (friendships d)\<rparr>"
    using r by (auto simp: delete_row_def Let_def split: option.splits)
  obtain a e s where a: "(i, a, e, s) \<in> bonds d" "a = u \<or> e = u" using find_Some_set [OF f] by (auto simp: in_bonds)
  have eq: "cores d' = cores d" "seats d' = seats d" using eq' by (simp_all add: d1)
  have b: "(j, b, c, t) \<in> bonds d' \<longleftrightarrow> (j, b, c, t) \<in> bonds d \<and> \<not> (j = i \<and> (b = u \<or> c = u))" for j b c t
    unfolding eq'(1) d1 in_bonds by auto
  show ?thesis
  proof (rule moves_bonds [OF eq])
    assume ok: "bonds_ok d"
    have b': "(j, b, c, t) \<in> bonds d' \<longleftrightarrow> (j, b, c, t) \<in> bonds d \<and> \<not> same_pair a e b c" for j b c t
      unfolding b using bonds_okD(3) [OF ok a(1), of j b c t] a(2) by (auto simp: same_pair_def)
    define v where "v = (if a = u then e else a)"
    have v: "same_pair a e b c \<longleftrightarrow> (b, c) \<in> {(u, v), (v, u)}" for b c
      using a(2) by (auto simp: same_pair_def v_def)
    have "bonds_ok d'"
      by (rule bonds_okI; unfold b) (use bonds_okD(1,2) [OF ok] in blast, use bonds_okD(3) [OF ok] in blast)
    moreover have "so_asked (society_of d') = so_asked (society_of d) - {(u, v), (v, u)}"
      by (rule set_eqI) (auto simp: asked_iff b' v)
    moreover have "so_befriended (society_of d') = so_befriended (society_of d) - {(u, v), (v, u)}"
      by (rule set_eqI) (auto simp: befriended_iff b' v)
    moreover have "\<not> unrelated (society_of d) u v"
      using a bonds_okD(2) [OF ok a(1)] unfolding unrelated_def befriended_iff asked_iff v_def by auto
    ultimately show "bonds_ok d' \<and> society_step L u (society_of d)
        ((society_of d)\<lparr>so_asked := so_asked (society_of d'), so_befriended := so_befriended (society_of d')\<rparr>)"
      using society_step.part [of "society_of d" u v L] by simp
  qed
qed

lemma request_moves: "commits w (request_rows u target) (\<lambda>_ s'. moves L u (tables s) (tables s')) s"
  unfolding request_rows_def create_notification_def
  by (intro committing) (auto dest!: notification_same simp: same_society_def intro: moves_ask)

lemma unfriend_moves: "commits w (delete_rows i u) (\<lambda>_ s'. moves L u (tables s) (tables s')) s"
  unfolding delete_rows_def create_notification_def
  by (intro committing) (auto dest!: notification_same simp: same_society_def intro: moves_part)

end
