(* ===== verification/SocialServer.thy ===== *)
theory SocialServer
  imports Signing SocietyMoves
begin

text \<open>
  The social API refines the society: whatever other requests do in between and whichever statements fail, a
  request takes the society from one state to another by steps of its caller. The contract between the handlers
  and what is proved of them is the locale \<open>course\<close>: a predicate that survives the steps of the society and
  does not look at anything else. Every handler keeps such a predicate.
\<close>

named_theorems coursing \<open>introduction rules for handlers that keep the course of the society\<close>

section \<open>Statements beside the society\<close>

lemma same_society_refl [simp]: "same_society d d"
  by (simp add: same_society_def)

definition aside :: "(database \<Rightarrow> 'e + 'a \<times> database) \<Rightarrow> bool" where
  "aside q \<longleftrightarrow> (\<forall>d x d'. q d = Inr (x, d') \<longrightarrow> same_society d d')"

lemma asides:
  "aside (\<lambda>d. Inl (e d))" "(\<And>d. same_society d (f d)) \<Longrightarrow> aside (\<lambda>d. Inr (x d, f d))"
  "aside q \<Longrightarrow> aside q' \<Longrightarrow> aside (\<lambda>d. if c d then q d else q' d)"
  "aside q \<Longrightarrow> (\<And>y. aside (k y)) \<Longrightarrow> aside (\<lambda>d. case z d of None \<Rightarrow> q d | Some y \<Rightarrow> k y d)"
  by (auto simp: aside_def split: option.splits)

definition aside_update :: "(database \<Rightarrow> database) \<Rightarrow> bool" where
  "aside_update f \<longleftrightarrow> (\<forall>d. same_society d (f d))"

lemma more_views [simp]:
  "bonds (users_update f d) = bonds d" "cores (users_update f d) = cores d" "seats (users_update f d) = seats d"
  "bonds (notifications_update f1 d) = bonds d" "cores (notifications_update f1 d) = cores d"
  "seats (notifications_update f1 d) = seats d"
  "bonds (user_presence_update f2 d) = bonds d" "cores (user_presence_update f2 d) = cores d"
  "seats (user_presence_update f2 d) = seats d"
  "bonds (meeting_history_update f3 d) = bonds d" "cores (meeting_history_update f3 d) = cores d"
  "seats (meeting_history_update f3 d) = seats d"
  "bonds (call_invitations_update f4 d) = bonds d" "cores (call_invitations_update f4 d) = cores d"
  "seats (call_invitations_update f4 d) = seats d"
  "bonds (call_sessions_update f5 d) = bonds d" "cores (call_sessions_update f5 d) = cores d"
  "seats (call_sessions_update f5 d) = seats d"
  "bonds (call_session_members_update f6 d) = bonds d" "cores (call_session_members_update f6 d) = cores d"
  "seats (call_session_members_update f6 d) = seats d"
  "bonds (group_invitations_update f7 d) = bonds d" "cores (group_invitations_update f7 d) = cores d"
  "seats (group_invitations_update f7 d) = seats d"
  "bonds (direct_message_requests_update f8 d) = bonds d" "cores (direct_message_requests_update f8 d) = cores d"
  "seats (direct_message_requests_update f8 d) = seats d"
  "bonds (conversation_hidden_states_update f9 d) = bonds d" "cores (conversation_hidden_states_update f9 d) = cores d"
  "seats (conversation_hidden_states_update f9 d) = seats d"
  "bonds (conversation_read_states_update g1 d) = bonds d" "cores (conversation_read_states_update g1 d) = cores d"
  "seats (conversation_read_states_update g1 d) = seats d"
  "bonds (conversation_messages_update g2 d) = bonds d" "cores (conversation_messages_update g2 d) = cores d"
  "seats (conversation_messages_update g2 d) = seats d"
  "bonds (message_attachments_update g3 d) = bonds d" "cores (message_attachments_update g3 d) = cores d"
  "seats (message_attachments_update g3 d) = seats d"
  "bonds (message_reactions_update g4 d) = bonds d" "cores (message_reactions_update g4 d) = cores d"
  "seats (message_reactions_update g4 d) = seats d"
  by (simp_all add: bonds_def cores_def seats_def)

lemma touched_same: "same_society d (d\<lparr>conversations := update_where P (\<lambda>c. c\<lparr>cv_updated := t\<rparr>) (conversations d)\<rparr>)"
  by (simp add: same_society_def)

lemmas statements_aside = insert_notification_def update_user_row_def upsert_meeting_def insert_direct_request_def
  insert_hidden_def insert_call_def answer_call_def insert_call_session_def insert_call_members_def cancel_row_def
  insert_message_def insert_attachments_def insert_reaction_if_absent_def upsert_read_state_def insert_invitation_def

lemma aside [coursing]:
  "aside (insert_notification a1)" "aside (update_user_row a2 f2)" "aside (upsert_meeting a3)"
  "aside (insert_direct_request a4)" "aside (insert_hidden a5 b5)" "aside (insert_call a6)"
  "aside (answer_call a7 b7 c7)" "aside (insert_call_session a8)" "aside (insert_call_members a9)"
  "aside (cancel_row a10 b10)" "aside (insert_message a11)" "aside (insert_attachments a12)"
  "aside (insert_reaction_if_absent a13)" "aside (upsert_read_state a14 b14 f14 g14)" "aside (insert_invitation a15)"
  unfolding statements_aside [abs_def] Let_def by (intro asides; simp add: same_society_def)+

lemma aside_updates [coursing]:
  "aside_update (expire_calls a1 b1 c1)" "aside_update (prune_calls a2)" "aside_update (expire_call_sessions a3)"
  "aside_update (expire_ended a4)" "aside_update (prune_meetings a5)"
  "aside_update (\<lambda>d. d\<lparr>notifications := f6 d\<rparr>)" "aside_update (\<lambda>d. d\<lparr>call_session_members := f7 d\<rparr>)"
  "aside_update (\<lambda>d. d\<lparr>conversation_hidden_states := f8 d\<rparr>)" "aside_update (\<lambda>d. d\<lparr>message_reactions := f9 d\<rparr>)"
  "aside_update (\<lambda>d. d\<lparr>direct_message_requests := f10 d\<rparr>)" "aside_update (\<lambda>d. d\<lparr>group_invitations := f11 d\<rparr>)"
  "aside_update (\<lambda>d. d\<lparr>conversations := update_where P (\<lambda>c. c\<lparr>cv_updated := t\<rparr>) (conversations d)\<rparr>)"
  by (auto simp: aside_update_def same_society_def expire_calls_def prune_calls_def expire_call_sessions_def
      expire_ended_def prune_meetings_def Let_def)

lemma same_sets [coursing]:
  "same_society d (d\<lparr>users := u\<rparr>)" "same_society d (d\<lparr>user_presence := p\<rparr>)" "same_society d (d\<lparr>meeting_history := m\<rparr>)"
  "same_society d (d\<lparr>group_invitations := gi\<rparr>)" "same_society d d"
  by (simp_all add: same_society_def)

declare asides [coursing]

section \<open>The contract\<close>

locale course =
  fixes P :: "'m social_site_scheme \<Rightarrow> bool" and L :: platform and V :: "uuid set"
  assumes untouched: "P s \<Longrightarrow> same_society (tables s) (tables s') \<Longrightarrow> P s'"
    and moved: "P s \<Longrightarrow> u \<in> V \<Longrightarrow> moves L u (tables s) (tables s') \<Longrightarrow> P s'"
begin

lemma effects [simp, coursing]: "P (s\<lparr>published := p\<rparr>) = P s" "P (s\<lparr>objects := b\<rparr>) = P s" "P (s\<lparr>media := c\<rparr>) = P s"
proof -
  have *: "P s' = P s" if "tables s' = tables s" for s'
    using untouched [of s s'] untouched [of s' s] that by auto
  show "P (s\<lparr>published := p\<rparr>) = P s" "P (s\<lparr>objects := b\<rparr>) = P s" "P (s\<lparr>media := c\<rparr>) = P s" by (rule *; simp)+
qed

lemma keeps_events [coursing]: "keeps w P (publish us r)" "keeps w P (send_event us p)" "keeps w P (command c)"
  by (intro keeping; simp)+ (auto intro!: keepsI simp: command_def)

lemma keeps_bytes [coursing]:
  "steady w P \<Longrightarrow> keeps w P (object_upload k t b)" "steady w P \<Longrightarrow> keeps w P (object_delete k)"
  "steady w P \<Longrightarrow> keeps w P (object_download k)" "steady w P \<Longrightarrow> keeps w P (alert us a)"
  by (intro keeping; simp)+

lemma keeps_aside [coursing]: "steady w P \<Longrightarrow> aside q \<Longrightarrow> keeps w P (statement q)"
  by (rule keeps_statement) (auto simp: aside_def intro: untouched)

lemma keeps_aside_update [coursing]: "steady w P \<Longrightarrow> aside_update f \<Longrightarrow> keeps w P (execute f)"
  by (rule keeps_execute) (auto simp: aside_update_def intro: untouched)

lemma keeps_aside_transaction:
  "steady w P \<Longrightarrow> keeps (alone w) P m \<Longrightarrow> keeps w P (transaction_as f m)"
  by (rule keeps_transaction_as)

lemma moves_commit:
  assumes "u \<in> V" and m: "\<And>s. commits w m (\<lambda>_ s'. moves L u (tables s) (tables s')) s" and "P s"
  shows "commits w m (\<lambda>_. P) s"
  by (rule commits_mono [OF m]) (rule moved [OF assms(3,1)])

lemma keeps_moves:
  assumes "steady w P" "u \<in> V" and "\<And>s. commits w m (\<lambda>_ s'. moves L u (tables s) (tables s')) s"
  shows "keeps w P (transaction_as f m)"
  by (rule keeps_transaction_as_commits [OF assms(1)]) (rule moves_commit [OF assms(2,3)])

lemma keeps_moves_plain:
  assumes "steady w P" "u \<in> V" and "\<And>s. commits w m (\<lambda>_ s'. moves L u (tables s) (tables s')) s"
  shows "keeps w P (transaction m)"
  by (rule keeps_transaction_commits [OF assms(1)]) (rule moves_commit [OF assms(2,3)])

lemma keeps_moving_statement:
  "steady w P \<Longrightarrow> u \<in> V \<Longrightarrow> (\<And>d x d'. q d = Inr (x, d') \<Longrightarrow> moves L u d d') \<Longrightarrow> keeps w P (statement q)"
  by (rule keeps_statement) (auto intro: moved)

lemma aside_handlers [coursing]:
  assumes st: "steady w P"
  shows "keeps w P (create_notification a1 b1 c1 d1)" "keeps w P (alert_incoming_call a2 b2 c2 d2)"
    "keeps w P (load_group a3)" "keeps w P (load_group_for_update a4)" "keeps w P (load_group_by_code a5)"
    "keeps w P (group_member_ids a6)" "keeps w P (publish_group_update a7 b7)"
    "keeps w P (group_member_role a8 b8)" "keeps w P (touch_group a9)"
    "keeps w P (message_counts_for_conversations a10 b10)" "keeps w P (last_seen_at a11)"
    "keeps w P (authorize_conversation_access a12 b12)" "keeps w P (conversation_participants a13)"
    "keeps w P (ensure_message_in_conversation a14 b14)" "keeps w P (unhide a15 b15)"
    "keeps w P (mark_messages_read a16 b16 c16)"
  unfolding create_notification_def alert_incoming_call_def load_group_def load_group_for_update_def
    load_group_by_code_def group_member_ids_def publish_group_update_def group_member_role_def touch_group_def
    message_counts_for_conversations_def last_seen_at_def authorize_conversation_access_def
    conversation_participants_def ensure_message_in_conversation_def unhide_def mark_messages_read_def Let_def
  by (intro keeping coursing st)+

lemma aside_handlers_2 [coursing]:
  assumes st: "steady w P"
  shows "keeps w P (call_session_member_ids a1)" "keeps w P (load_conversation_for_update a2)"
    "keeps w P (expire_sessions a3)" "keeps w P (participants_of a4 b4)" "keeps w P (check_friends a5 b5)"
    "keeps w P (has_incoming_friend_request a6 b6)" "keeps w P (accepted_friend_ids a7)"
    "keeps w P (delete_avatar a8)" "keeps w P (store_avatar a9 b9 c9 d9)"
    "keeps w P (backfill_thumbnail a10 b10)" "keeps w P (avatar_response a11 b11 c11 d11)"
    "keeps w P (group_info_response_of a12 b12 c12)" "keeps w P (friends_among a13 b13)"
    "keeps w P (find_direct_conversation a14 b14)" "keeps w P (ensure_user_exists a15)"
    "keeps w P (load_pending_invitation_for_update a16 b16)"
  unfolding call_session_member_ids_def load_conversation_for_update_def expire_sessions_def participants_of_def
    check_friends_def has_incoming_friend_request_def accepted_friend_ids_def delete_avatar_def
    store_avatar_def backfill_thumbnail_def avatar_response_def group_info_response_of_def friends_among_def
    find_direct_conversation_def ensure_user_exists_def load_pending_invitation_for_update_def Let_def
  by (intro keeping coursing st)+

lemma aside_handlers_3 [coursing]:
  assumes st: "steady w P"
  shows "keeps w P (pending_invitation_exists a1 b1)" "keeps w P (reuse_pending_call a2 b2 c2)"
    "keeps w P (place_call a3 b3 c3 d3)" "keeps w P (next_sequence)" "keeps w P (sender_avatar_url a5 b5)"
    "keeps w P (alert_new_message a6 b6 c6 d6)" "keeps w P (reply_previews a7 b7)"
    "keeps w P (reaction_summaries a8 b8 c8)" "keeps w P (message_attachments_of a9 b9 c9)"
    "keeps w P (delete_uploaded_attachments a10)" "keeps w P (sent_message a11 b11 c11 d11)"
    "keeps w P (require_group_admin a12 b12)" "keeps w P (visible_group_member_presence a13 b13)"
    "keeps w P (are_accepted_friends a14 b14)"
  unfolding pending_invitation_exists_def reuse_pending_call_def place_call_def next_sequence_def
    sender_avatar_url_def alert_new_message_def reply_previews_def reaction_summaries_def
    message_attachments_of_def delete_uploaded_attachments_def sent_message_def require_group_admin_def
    visible_group_member_presence_def are_accepted_friends_def Let_def
  by (intro keeping coursing st)+

lemma keeps_uploads [coursing]: "steady w P \<Longrightarrow> keeps w P (upload_attachments ks us as)"
proof (induction as arbitrary: ks us)
  case (Cons a as)
  show ?case unfolding upload_attachments.simps Let_def by (intro keeping coursing Cons)
qed (simp add: keeping)

lemma keeps_parts [coursing]: "keeps w P (parse_parts L' json c fs m)"
  by (induction L' json c fs m rule: parse_parts.induct) (simp_all, (intro keeping; simp)+)

lemma aside_transactions [coursing]:
  assumes st: "steady w P"
  shows "keeps w P (transaction_as f1 (message_rows a1 b1 c1 d1 e1))" "keeps w P (transaction_as f2 (reaction_rows a2 b2 c2 d2))"
    "keeps w P (transaction_as f3 (call_rows a3 b3 c3 d3))" "keeps w P (transaction_as f4 (respond_rows a4 b4 c4 d4))"
  unfolding message_rows_def reaction_rows_def call_rows_def respond_rows_def Let_def
  by (rule keeps_aside_transaction [OF st], intro keeping coursing steady_alone)+

lemma keeps_ensure_direct [coursing]:
  "steady w P \<Longrightarrow> u \<in> V \<Longrightarrow> keeps w P (ensure_direct_conversation L u v)"
  unfolding ensure_direct_conversation_def Let_def
  by (intro keeping coursing keeps_moving_statement) (auto intro: moves_insert_direct)

lemma moving [coursing]:
  assumes st: "steady w P" and u: "u \<in> V"
  shows "keeps w P (transaction_as f1 (group_rows L a1 u b1 c1 d1 e1))" "keeps w P (transaction_as f2 (join_rows L a2 u b2))"
    "keeps w P (transaction_as f3 (update_rows L a3 u b3 c3 d3 e3))" "keeps w P (transaction_as f4 (add_rows a4 u b4))"
    "keeps w P (transaction_as f5 (remove_rows a5 u b5))" "keeps w P (transaction_as f6 (leave_rows a6 u))"
    "keeps w P (transaction_as f7 (role_rows a7 u b7 c7))" "keeps w P (transaction_as f8 (delete_group_rows a8 u))"
    "keeps w P (transaction_as f9 (clear_avatar_rows L a9 u))" "keeps w P (transaction_as g1 (set_avatar_rows L h1 u i1))"
    "keeps w P (transaction_as g2 (invitation_rows h2 u i2))" "keeps w P (transaction_as g3 (accept_rows L h3 u i3))"
    "keeps w P (transaction_as g4 (befriended_rows L u h4))" "keeps w P (transaction_as g5 (answer_rows L h5 u i5))"
    "keeps w P (transaction (request_rows u h6))" "keeps w P (transaction (delete_rows h7 u))"
    "keeps w P (statement (accept_row h8 u i8))"
  by (rule keeps_moves [OF st u], (rule group_moves join_moves update_moves add_moves remove_moves leave_moves role_moves
      delete_moves clear_avatar_moves set_avatar_moves invitation_moves accept_invitation_moves befriended_moves answer_moves))+
    (rule keeps_moves_plain [OF st u] keeps_moving_statement [OF st u], (erule moves_accept | rule request_moves unfriend_moves))+

lemma keeps_list_conversations [coursing]: "steady w P \<Longrightarrow> keeps w P (list_conversations L' h)"
  unfolding list_conversations_def Let_def by (intro keeping coursing)

lemma group_parts [coursing]:
  assumes st: "steady w P" and u: "u \<in> V"
  shows "keeps w P (join_group_impl L u g password)" "keeps w P (update_group_impl L u g r)"
  unfolding join_group_impl_def update_group_impl_def Let_def by (intro keeping coursing st u)+

lemma people_handlers:
  assumes st: "steady w P" and h: "signs L h V"
  shows "keeps w P (search_users L b1 c1 h e1)" "keeps w P (get_user_profile L h c2)"
    "keeps w P (get_self_profile L h)" "keeps w P (update_self_profile L h c4 d4 e4 f4)"
    "keeps w P (get_user_avatar L b5 h d5 e5 f5)" "keeps w P (upload_avatar L b6 h d6)"
    "keeps w P (remove_avatar L h)" "keeps w P (list_friends L h)"
    "keeps w P (create_friend_request L h c9 d9)" "keeps w P (accept_friend_request L h c10)"
    "keeps w P (delete_friendship L h c11)" "keeps w P (update_presence L h)" "keeps w P (list_meetings L h)"
    "keeps w P (record_meeting L h c14)" "keeps w P (delete_meeting L h c15)"
    "keeps w P (list_notifications L h)" "keeps w P (mark_notification_read L h c17)"
  unfolding search_users_def get_user_profile_def get_self_profile_def update_self_profile_def get_user_avatar_def
    upload_avatar_def remove_avatar_def list_friends_def create_friend_request_def accept_friend_request_def
    delete_friendship_def update_presence_def list_meetings_def record_meeting_def delete_meeting_def
    list_notifications_def mark_notification_read_def Let_def
  by ((rule keeps_caller_chain [OF h])?, (intro keeping coursing st; assumption?))+

lemma group_handlers:
  assumes st: "steady w P" and h: "signs L h V"
  shows "keeps w P (list_groups L h)" "keeps w P (create_group L h c2 d2 e2 f2)"
    "keeps w P (join_group L h c3 d3)" "keeps w P (join_group_by_code L h c4 d4)"
    "keeps w P (update_group L h c5 d5)" "keeps w P (update_group_policy L h c6 d6 e6)"
    "keeps w P (add_group_member L h c7 d7)" "keeps w P (remove_group_member L h c8 d8)"
    "keeps w P (leave_group L h c9)" "keeps w P (update_group_member_role L h c10 d10 e10)"
    "keeps w P (delete_group L h c11)" "keeps w P (get_group_info L h c12)"
    "keeps w P (get_group_info_by_code L h c13)" "keeps w P (list_group_members L h c14 d14)"
    "keeps w P (list_group_candidates L b15 c15 h e15 f15 g15)"
    "keeps w P (get_group_avatar L b16 h d16 e16 f16)" "keeps w P (remove_group_avatar L h c17)"
    "keeps w P (upload_group_avatar L b18 h d18 e18)" "keeps w P (create_group_invitation L h c19 d19)"
    "keeps w P (list_group_invitations L h)" "keeps w P (accept_group_invitation L h c21 d21)"
    "keeps w P (decline_group_invitation L h c22)"
  unfolding list_groups_def create_group_def join_group_def join_group_by_code_def update_group_def
    update_group_policy_def add_group_member_def remove_group_member_def leave_group_def
    update_group_member_role_def delete_group_def get_group_info_def get_group_info_by_code_def
    list_group_members_def list_group_candidates_def get_group_avatar_def remove_group_avatar_def
    upload_group_avatar_def create_group_invitation_def list_group_invitations_def accept_group_invitation_def
    decline_group_invitation_def Let_def
  by ((rule keeps_caller_chain [OF h])?, (intro keeping coursing st; assumption?))+

lemma talk_handlers:
  assumes st: "steady w P" and h: "signs L h V"
  shows "keeps w P (list_conversations L h)" "keeps w P (open_direct_conversation L h c2)"
    "keeps w P (list_direct_message_requests L h)" "keeps w P (respond_to_direct_message_request L h c4 d4)"
    "keeps w P (hide_direct_conversation L h c5)" "keeps w P (create_message L h c6 d6 e6)"
    "keeps w P (create_message_with_attachments L b7 h d7 e7)" "keeps w P (get_message_attachment L h c8 d8)"
    "keeps w P (toggle_message_reaction L b9 c9 h e9 f9 g9)" "keeps w P (list_messages L b10 h d10 e10 f10)"
    "keeps w P (mark_conversation_read L h c11)" "keeps w P (mark_conversation_unread L h c12)"
  unfolding list_conversations_def open_direct_conversation_def list_direct_message_requests_def
    respond_to_direct_message_request_def hide_direct_conversation_def create_message_def
    create_message_with_attachments_def get_message_attachment_def toggle_message_reaction_def
    list_messages_def mark_conversation_read_def mark_conversation_unread_def available_def
    open_by_request_def parse_attachment_message_def Let_def
  by ((rule keeps_caller_chain [OF h])?, (intro keeping coursing st; assumption?))+

lemma call_handlers:
  assumes st: "steady w P" and h: "signs L h V"
  shows "keeps w P (create_call_invitation L h c1)" "keeps w P (list_incoming_calls L h)"
    "keeps w P (respond_to_call L h c3 d3)" "keeps w P (start_call_session L h c4)"
    "keeps w P (list_incoming_call_sessions L h)" "keeps w P (get_call_session L h c6)"
    "keeps w P (cancel_call_session L h c7)" "keeps w P (respond_to_call_session L h c8 d8)"
  unfolding create_call_invitation_def list_incoming_calls_def respond_to_call_def start_call_session_def
    list_incoming_call_sessions_def get_call_session_def cancel_call_session_def respond_to_call_session_def
    Let_def
  by ((rule keeps_caller_chain [OF h])?, (intro keeping coursing st; assumption?))+

lemma keeps_social_answer:
  assumes "steady w P" and "signs L h V" and "li_platform X = L"
  shows "keeps w P (social_answer X h r)"
proof (cases r)
  case (People q)
  show ?thesis unfolding People social_answer.simps
    by (cases q; simp only: answer_people.simps assms(3); (rule keeps_finished)?; rule people_handlers [OF assms(1,2)])
next
  case (Groups q)
  show ?thesis unfolding Groups social_answer.simps
    by (cases q; simp only: answer_group.simps assms(3); (rule keeps_finished)?; rule group_handlers [OF assms(1,2)])
next
  case (Talks q)
  show ?thesis unfolding Talks social_answer.simps
    by (cases q; simp only: answer_talk.simps assms(3); (rule keeps_finished)?; rule talk_handlers [OF assms(1,2)])
next
  case (Ringing q)
  show ?thesis unfolding Ringing social_answer.simps
    by (cases q; simp only: answer_call_request.simps assms(3); (rule keeps_finished)?; rule call_handlers [OF assms(1,2)])
qed

end

section \<open>The society on its course\<close>

definition acts :: "platform \<Rightarrow> uuid set \<Rightarrow> society \<Rightarrow> society \<Rightarrow> bool" where
  "acts L V A B \<longleftrightarrow> (\<exists>v \<in> V. society_step L v A B)"

definition on_course :: "platform \<Rightarrow> uuid set \<Rightarrow> society \<Rightarrow> 'm social_site_scheme \<Rightarrow> bool" where
  "on_course L V A s \<longleftrightarrow> tables_ok (tables s) \<and> (acts L V)\<^sup>*\<^sup>* A (society_of (tables s))"

interpretation society: course "on_course L V A" L V for L V A
proof
  fix s s' :: "'m social_site_scheme" and u
  assume s: "on_course L V A s"
  then have ok: "tables_ok (tables s)" and r: "(acts L V)\<^sup>*\<^sup>* A (society_of (tables s))" by (simp_all add: on_course_def)
  show "on_course L V A s'" if "same_society (tables s) (tables s')"
    using same_society [OF ok that] r by (simp add: on_course_def)
  show "on_course L V A s'" if "u \<in> V" "moves L u (tables s) (tables s')"
  proof -
    have "acts L V (society_of (tables s)) (society_of (tables s'))" "tables_ok (tables s')"
      using that ok by (auto simp: moves_def acts_def)
    with r show ?thesis unfolding on_course_def by (meson rtranclp.rtrancl_into_rtrancl)
  qed
qed

text \<open>What the other requests do in between: steps of the same users.\<close>

definition sociable :: "platform \<Rightarrow> uuid set \<Rightarrow> 'm social_site_scheme world \<Rightarrow> bool" where
  "sociable L V w \<longleftrightarrow> (\<forall>n s. tables_ok (tables s) \<longrightarrow> tables_ok (tables (meanwhile w n s)) \<and>
     (acts L V)\<^sup>*\<^sup>* (society_of (tables s)) (society_of (tables (meanwhile w n s))))"

lemma sociable_steady: "sociable L V w \<Longrightarrow> steady w (on_course L V A)"
  by (auto simp: sociable_def steady_def on_course_def intro: rtranclp_trans)

definition served_by :: "platform \<Rightarrow> uuid set \<Rightarrow> 'm served list \<Rightarrow> bool" where
  "served_by L V qs \<longleftrightarrow> list_all (\<lambda>(w, n, h, r). sociable L V w \<and> signs L h V) qs"

lemma serve_on_course:
  "on_course (li_platform X) V A s \<Longrightarrow> served_by (li_platform X) V qs \<Longrightarrow> on_course (li_platform X) V A (serve X qs s)"
proof (induction qs arbitrary: s)
  case (Cons q qs)
  obtain w n h r where q: "q = (w, n, h, r)" by (cases q) auto
  have "keeps w (on_course (li_platform X) V A) (social_answer X h r)"
    using Cons.prems(2) by (intro society.keeps_social_answer) (auto simp: q served_by_def intro: sociable_steady)
  then have "on_course (li_platform X) V A (snd (snd (social_answer X h r w n s)))"
    by (rule keepsD) (rule Cons.prems(1))
  with Cons.prems(2) show ?case unfolding q by (simp add: Cons.IH served_by_def)
qed (simp add: served_by_def)

text \<open>
  C29. The social API refines the society. Take any sequence of requests of users in \<open>V\<close> (whatever their
  parameters, with statements failing anywhere and other requests of users in \<open>V\<close> between any two statements):
  the tables of friendships, conversations and members stay well-formed, and the society that they describe has
  changed by steps of users in \<open>V\<close> that the society allows: only an addressee turns a request into a
  friendship, only an owner or an administrator adds, removes, configures or dissolves, nobody enters a group
  against its policy, an owner who leaves hands the group to an administrator if there is one.
\<close>

theorem social_api_refines:
  assumes "tables_ok (tables s)" and "served_by (li_platform X) V qs"
  shows "tables_ok (tables (serve X qs s)) \<and>
    (acts (li_platform X) V)\<^sup>*\<^sup>* (society_of (tables s)) (society_of (tables (serve X qs s)))"
  using serve_on_course [of X V "society_of (tables s)" s qs] assms by (simp add: on_course_def)

text \<open>What well-formed tables say of the rows.\<close>

lemma group_of_row:
  assumes ok: "tables_ok d" and c: "c \<in> set (conversations d)" "cv_kind c = group_kind"
  obtains k p where "club_at d (cv_id c) k p" "cv_creator c = cl_owner k" "cv_policy c = p" "cv_password_hash c = cl_secret k"
proof -
  have core: "(cv_id c, group_kind, cv_creator c, cv_policy c, cv_password_hash c) \<in> cores d"
    using c by (auto simp: cores_def core_def image_iff intro!: bexI [of _ c])
  then have "\<not> no_club_at d (cv_id c)" by (fastforce simp: no_club_at_def)
  then obtain k p where k: "club_at d (cv_id c) k p" using ok unfolding tables_ok_def by blast
  then have "(group_kind, cv_creator c, cv_policy c, cv_password_hash c) = (group_kind, cl_owner k, p, cl_secret k)"
    using core unfolding club_at_def by metis
  then show thesis using that [OF k] by simp
qed

text \<open>
  C30. Whatever the users of the social API do, with whatever failures and interleavings: every group has its
  creator among its members, the creator and nobody else has the role of the creator, nobody has two roles in a
  group, exactly the groups with the policy Password have a password hash, nobody is a friend of themselves, and
  no two rows relate the same two users.
\<close>

theorem social_tables_consistent:
  assumes "tables_ok (tables s)" and "served_by (li_platform X) V qs" and "d = tables (serve X qs s)"
  shows "(\<forall>c \<in> set (conversations d). cv_kind c = lit ''group'' \<longrightarrow>
      is_member d (cv_id c) (cv_creator c) \<and>
      (\<forall>m \<in> set (conversation_members d). me_conversation m = cv_id c \<longrightarrow>
         (me_role m = lit ''creator'' \<longleftrightarrow> me_user m = cv_creator c) \<and>
         (\<forall>m' \<in> set (conversation_members d). me_conversation m' = cv_id c \<and> me_user m' = me_user m \<longrightarrow>
            me_role m' = me_role m)) \<and>
      (\<exists>p. group_policy c = Inr p \<and> (p = Password \<longleftrightarrow> cv_password_hash c \<noteq> None))) \<and>
    (\<forall>f \<in> set (friendships d). fr_requester f \<noteq> fr_addressee f \<and>
      (\<forall>f' \<in> set (friendships d). same_pair (fr_requester f) (fr_addressee f) (fr_requester f') (fr_addressee f') \<longrightarrow>
         fr_id f = fr_id f' \<and> fr_status f = fr_status f'))"
proof -
  have "on_course (li_platform X) V (society_of (tables s)) (serve X qs s)"
    by (rule serve_on_course) (use assms(1,2) in \<open>simp_all add: on_course_def\<close>)
  then have ok: "tables_ok d" by (simp add: on_course_def assms(3))
  have group: "is_member d (cv_id c) (cv_creator c) \<and>
      (\<forall>m \<in> set (conversation_members d). me_conversation m = cv_id c \<longrightarrow>
         (me_role m = lit ''creator'' \<longleftrightarrow> me_user m = cv_creator c) \<and>
         (\<forall>m' \<in> set (conversation_members d). me_conversation m' = cv_id c \<and> me_user m' = me_user m \<longrightarrow>
            me_role m' = me_role m)) \<and>
      (\<exists>p. group_policy c = Inr p \<and> (p = Password \<longleftrightarrow> cv_password_hash c \<noteq> None))"
    if c: "c \<in> set (conversations d)" "cv_kind c = group_kind" for c
    using ok c
  proof (rule group_of_row)
    fix k p assume k: "club_at d (cv_id c) k p" "cv_creator c = cl_owner k" "cv_policy c = p" "cv_password_hash c = cl_secret k"
    have seat: "me_user m \<in> cl_people k \<and> me_role m = role_of k (me_user m)"
      if "m \<in> set (conversation_members d)" "me_conversation m = cv_id c" for m
    proof -
      have "(cv_id c, me_user m, me_role m) \<in> seats d" using that by (auto simp: seats_iff)
      then show ?thesis using k(1) unfolding club_at_def by blast
    qed
    have "is_member d (cv_id c) (cv_creator c)"
      using k(1,2) by (simp add: is_member_seats club_at_def club_ok_def)
    moreover have "\<exists>p. group_policy c = Inr p \<and> (p = Password \<longleftrightarrow> cv_password_hash c \<noteq> None)"
      using k by (auto simp: group_policy_def club_at_def club_ok_def)
    ultimately show ?thesis using seat k(2) by simp
  qed
  have pair: "fr_requester f \<noteq> fr_addressee f \<and>
      (\<forall>f' \<in> set (friendships d). same_pair (fr_requester f) (fr_addressee f) (fr_requester f') (fr_addressee f') \<longrightarrow>
         fr_id f = fr_id f' \<and> fr_status f = fr_status f')" if "f \<in> set (friendships d)" for f
  proof -
    have bonds: "bonds_ok d" using ok by (simp add: tables_ok_def)
    have b: "(fr_id g, fr_requester g, fr_addressee g, fr_status g) \<in> bonds d" if "g \<in> set (friendships d)" for g
      using that by (auto simp: bonds_def)
    from bonds_okD(1) [OF bonds b [OF that]] bonds_okD(3) [OF bonds b [OF that] b] show ?thesis by blast
  qed
  from group pair show ?thesis by blast
qed

section \<open>A circle of friends\<close>

definition sample_circle :: database where
  "sample_circle = sample_accounts\<lparr>users := [sample_user, sample_user\<lparr>us_id := 8, us_email := lit ''bob@x.org'', us_nickname := lit ''bob''\<rparr>],
     friendships := [\<lparr>fr_id = 1, fr_requester = 7, fr_addressee = 8, fr_status = lit ''accepted'', fr_created = 0, fr_updated = 0\<rparr>],
     conversations := [\<lparr>cv_id = 50, cv_kind = lit ''group'', cv_creator = 8, cv_title = Some (lit ''Club''), cv_policy = Some (lit ''open''),
        cv_password_hash = None, cv_low = None, cv_high = None, cv_code = Some (group_code_from_uuid 50), cv_legacy_code = None,
        cv_avatar_key = None, cv_created = 0, cv_updated = 0\<rparr>],
     conversation_members := [\<lparr>me_conversation = 50, me_user = 8, me_role = lit ''creator'', me_joined = 0\<rparr>,
        \<lparr>me_conversation = 50, me_user = 7, me_role = lit ''member'', me_joined = 1\<rparr>]\<rparr>"

lemma sample_circle_sets:
  "bonds sample_circle = {(1, 7, 8, lit ''accepted'')}"
  "cores sample_circle = {(50, lit ''group'', 8, Some (lit ''open''), None)}"
  "seats sample_circle = {(50, 8, lit ''creator''), (50, 7, lit ''member'')}"
  by (simp_all add: bonds_def cores_def core_def seats_def sample_circle_def)

lemma sample_circle_ok: "tables_ok sample_circle"
proof -
  let ?c = "\<lparr>cl_owner = 8, cl_admins = {}, cl_people = {7, 8}, cl_policy = Open, cl_secret = None\<rparr>"
  have "club_at sample_circle 50 ?c (Some (lit ''open''))"
    by (auto simp: club_at_def club_ok_def role_of_def sample_circle_sets from_db_value_def)
  moreover have "no_club_at sample_circle g" if "g \<noteq> 50" for g using that by (auto simp: no_club_at_def sample_circle_sets)
  ultimately have "no_club_at sample_circle g \<or> (\<exists>c p. club_at sample_circle g c p)" for g by (cases "g = 50") blast+
  then show ?thesis by (auto simp: tables_ok_def bonds_ok_def sample_circle_sets)
qed

definition sample_social_site :: social_site where
  "sample_social_site = \<lparr>tables = sample_circle, published = [], objects = Map.empty, media = []\<rparr>"

definition sample_requests :: "social_site world \<Rightarrow> (social_site world \<times> nat \<times> str option \<times> social_request) list" where
  "sample_requests w = [(w, 0, Some sample_token, Groups (LeaveGroup 50)), (w, 1, Some sample_token, People (DeleteFriendship 1))]"

lemma sample_served: "served_by sample_platform {7} (sample_requests sample_social_world)"
  using sample_signs by (simp add: served_by_def sample_requests_def sociable_def sample_social_world_def)

theorem social_api_refines_witness:
  "tables_ok (tables (serve sample_libraries (sample_requests sample_social_world) sample_social_site)) \<and>
   (acts sample_platform {7})\<^sup>*\<^sup>* (society_of sample_circle)
     (society_of (tables (serve sample_libraries (sample_requests sample_social_world) sample_social_site)))"
  using social_api_refines [of sample_social_site sample_libraries "{7}" "sample_requests sample_social_world"]
    sample_circle_ok sample_served by (simp add: sample_social_site_def sample_libraries_def)

theorem social_tables_consistent_witness:
  "\<exists>d. d = tables (serve sample_libraries (sample_requests sample_social_world) sample_social_site) \<and>
     (\<forall>c \<in> set (conversations d). cv_kind c = lit ''group'' \<longrightarrow> is_member d (cv_id c) (cv_creator c))"
  using social_tables_consistent [of sample_social_site sample_libraries "{7}" "sample_requests sample_social_world"]
    sample_circle_ok sample_served by (simp add: sample_social_site_def sample_libraries_def)

end
