(* ===== verification/PacketBuffer.thy ===== *)
theory PacketBuffer
  imports Prelude
begin

text \<open>
  The RTP packet ring of \<open>src/sfu/packet_buffer.rs\<close>: the packets by sequence number, the ring of
  sequence numbers in arrival order and its write position. The lemmas relate the ring to the list of packets
  stored so far: which of them it can still answer for.
\<close>

section \<open>Data and operations\<close>

text \<open>
  An RTP packet: the code reads the sequence number and rewrites the SSRC; the rest of header and
  payload is opaque to it.
\<close>

record 'p rtp_packet =
  sequence_number :: "16 word"
  ssrc :: "32 word"
  rtp_rest :: 'p

definition BUFFER_SIZE :: nat where
  "BUFFER_SIZE = 512"

record 'p packet_buffer =
  packets :: "16 word \<rightharpoonup> 'p rtp_packet"
  sequence_order :: "16 word list"
  write_pos :: nat

definition new_buffer :: "'p packet_buffer" where
  "new_buffer = \<lparr>packets = Map.empty, sequence_order = [], write_pos = 0\<rparr>"

text \<open>
  \<open>store\<close>. Indexing \<open>sequence_order[write_pos]\<close> panics when it is out of range: \<open>None\<close>.
\<close>

definition store :: "'p packet_buffer \<Rightarrow> 'p rtp_packet \<Rightarrow> 'p packet_buffer option" where
  "store b p =
     (let s = sequence_number p;
          finish = (\<lambda>pk ord. b\<lparr>packets := pk(s \<mapsto> p), sequence_order := ord,
                               write_pos := (write_pos b + 1) mod BUFFER_SIZE\<rparr>)
      in if BUFFER_SIZE \<le> length (sequence_order b)
         then (if write_pos b < length (sequence_order b)
               then Some (finish ((packets b)(sequence_order b ! write_pos b := None))
                                 ((sequence_order b)[write_pos b := s]))
               else None)
         else Some (finish (packets b) (sequence_order b @ [s])))"

definition buffer_get :: "'p packet_buffer \<Rightarrow> 16 word \<Rightarrow> 'p rtp_packet option" where
  "buffer_get b s = packets b s"

definition get_many :: "'p packet_buffer \<Rightarrow> 16 word list \<Rightarrow> 'p rtp_packet list" where
  "get_many b ss = List.map_filter (\<lambda>s. packets b s) ss"

text \<open>A writer task stores every packet it forwards, in order.\<close>

fun store_all :: "'p packet_buffer \<Rightarrow> 'p rtp_packet list \<Rightarrow> 'p packet_buffer option" where
  "store_all b [] = Some b"
| "store_all b (p # ps) = Option.bind (store b p) (\<lambda>b'. store_all b' ps)"

lemma store_all_append:
  "store_all b (ps @ qs) = Option.bind (store_all b ps) (\<lambda>b'. store_all b' qs)"
  by (induction ps arbitrary: b) (auto split: bind_splits)

section \<open>The ring invariant\<close>

text \<open>
  The ring after the packets \<open>ps\<close> (oldest first) were stored: slot \<open>i mod 512\<close> holds the sequence
  number of packet \<open>i\<close>, for the last 512 packets, and the write position is where the next one goes.
\<close>

definition ring_of :: "'p packet_buffer \<Rightarrow> 'p rtp_packet list \<Rightarrow> bool" where
  "ring_of b ps \<longleftrightarrow>
     length (sequence_order b) = min (length ps) BUFFER_SIZE \<and>
     write_pos b = length ps mod BUFFER_SIZE \<and>
     (\<forall>i < length ps. length ps - BUFFER_SIZE \<le> i \<longrightarrow>
        sequence_order b ! (i mod BUFFER_SIZE) = sequence_number (ps ! i))"

text \<open>What the hash map may hold: the most recent packet of a sequence number still in the ring.\<close>

definition answers_recent :: "'p packet_buffer \<Rightarrow> 'p rtp_packet list \<Rightarrow> bool" where
  "answers_recent b ps \<longleftrightarrow>
     (\<forall>s p. packets b s = Some p \<longrightarrow>
        (\<exists>i < length ps. length ps - BUFFER_SIZE \<le> i \<and> ps ! i = p \<and> sequence_number p = s \<and>
           (\<forall>j. i < j \<and> j < length ps \<longrightarrow> sequence_number (ps ! j) \<noteq> s)))"

text \<open>No sequence number comes back before it has left the ring.\<close>

definition spaced :: "'p rtp_packet list \<Rightarrow> bool" where
  "spaced ps \<longleftrightarrow>
     (\<forall>i j. i < j \<and> j < length ps \<and> sequence_number (ps ! i) = sequence_number (ps ! j)
        \<longrightarrow> BUFFER_SIZE \<le> j - i)"

definition answers_all :: "'p packet_buffer \<Rightarrow> 'p rtp_packet list \<Rightarrow> bool" where
  "answers_all b ps \<longleftrightarrow>
     (\<forall>i < length ps. length ps - BUFFER_SIZE \<le> i \<longrightarrow>
        packets b (sequence_number (ps ! i)) = Some (ps ! i))"

lemma ring_of_new: "ring_of new_buffer []"
  by (simp add: ring_of_def new_buffer_def BUFFER_SIZE_def)

lemma answers_recent_new: "answers_recent new_buffer []"
  by (simp add: answers_recent_def new_buffer_def)

lemma answers_all_new: "answers_all new_buffer []"
  by (simp add: answers_all_def)

lemma BUFFER_SIZE_pos [simp]: "0 < BUFFER_SIZE"
  by (simp add: BUFFER_SIZE_def)

lemma mod_window_inj:
  fixes i j n m :: nat
  assumes "i mod n = j mod n" and "m - n \<le> i" and "m - n \<le> j" and "i < m" and "j < m"
  shows "i = j"
proof (rule ccontr)
  assume "i \<noteq> j"
  then consider "i < j" | "j < i" by linarith
  then show False
  proof cases
    case 1
    then have "n dvd j - i" using assms(1) by (metis mod_eq_dvd_iff_nat less_imp_le)
    with 1 have "n \<le> j - i" by (simp add: dvd_imp_le)
    with 1 assms show False by linarith
  next
    case 2
    then have "n dvd i - j" using assms(1) by (metis mod_eq_dvd_iff_nat less_imp_le)
    with 2 have "n \<le> i - j" by (simp add: dvd_imp_le)
    with 2 assms show False by linarith
  qed
qed

text \<open>The three invariants through one \<open>store\<close>, which never panics on a ring.\<close>

lemma store_cases:
  assumes r: "ring_of b ps" and n: "n = length ps" and s: "s = sequence_number p"
  obtains (room) "n < BUFFER_SIZE"
      "store b p = Some (b\<lparr>packets := (packets b)(s \<mapsto> p),
         sequence_order := sequence_order b @ [s], write_pos := (n + 1) mod BUFFER_SIZE\<rparr>)"
  | (full) "BUFFER_SIZE \<le> n"
      "sequence_order b ! (n mod BUFFER_SIZE) = sequence_number (ps ! (n - BUFFER_SIZE))"
      "store b p = Some (b\<lparr>packets := ((packets b)(sequence_number (ps ! (n - BUFFER_SIZE)) := None))
           (s \<mapsto> p),
         sequence_order := (sequence_order b)[n mod BUFFER_SIZE := s],
         write_pos := (n + 1) mod BUFFER_SIZE\<rparr>)"
proof (cases "n < BUFFER_SIZE")
  case True
  with r n have "length (sequence_order b) < BUFFER_SIZE" "write_pos b = n"
    by (auto simp: ring_of_def)
  with True s show thesis by (intro room) (auto simp: store_def Let_def)
next
  case False
  then have len: "length (sequence_order b) = BUFFER_SIZE" and w: "write_pos b = n mod BUFFER_SIZE"
    using r n by (auto simp: ring_of_def)
  have "(n - BUFFER_SIZE) mod BUFFER_SIZE = n mod BUFFER_SIZE"
    using False by (simp add: le_mod_geq)
  then have slot: "sequence_order b ! (n mod BUFFER_SIZE) = sequence_number (ps ! (n - BUFFER_SIZE))"
    using r n False BUFFER_SIZE_pos unfolding ring_of_def
    by (metis diff_less diff_is_0_eq' le_refl less_le_trans not_less)
  have "store b p = Some (b\<lparr>packets := ((packets b)(sequence_order b ! (n mod BUFFER_SIZE) := None))
           (s \<mapsto> p),
         sequence_order := (sequence_order b)[n mod BUFFER_SIZE := s],
         write_pos := (n + 1) mod BUFFER_SIZE\<rparr>)"
    using len w s by (simp add: store_def Let_def mod_Suc_eq)
  with False slot show thesis by (intro full) simp_all
qed

lemma store_ring:
  assumes r: "ring_of b ps"
  shows "\<exists>b'. store b p = Some b' \<and> ring_of b' (ps @ [p])"
proof (cases rule: store_cases [OF r refl refl, of p])
  case 1
  with r show ?thesis
    by (auto simp: ring_of_def nth_append less_Suc_eq)
next
  case full: 2
  let ?n = "length ps"
  have len: "length (sequence_order b) = BUFFER_SIZE" using r full(1) by (simp add: ring_of_def)
  have "(sequence_order b)[?n mod BUFFER_SIZE := sequence_number p] ! (i mod BUFFER_SIZE)
          = sequence_number ((ps @ [p]) ! i)"
    if i: "i < Suc ?n" "Suc ?n - BUFFER_SIZE \<le> i" for i
  proof (cases "i = ?n")
    case True
    then show ?thesis using len by simp
  next
    case False
    then have "i mod BUFFER_SIZE \<noteq> ?n mod BUFFER_SIZE"
      using mod_window_inj [of i BUFFER_SIZE ?n "Suc ?n"] i by auto
    with r i False show ?thesis by (simp add: ring_of_def nth_append)
  qed
  with full(1,3) len show ?thesis by (auto simp: ring_of_def)
qed

lemma store_answers_recent:
  assumes r: "ring_of b ps" and a: "answers_recent b ps" and st: "store b p = Some b'"
  shows "answers_recent b' (ps @ [p])"
  unfolding answers_recent_def
proof (intro allI impI)
  fix k q assume q: "packets b' k = Some q"
  let ?n = "length ps"
  let ?P = "\<lambda>i. i < length (ps @ [p]) \<and> length (ps @ [p]) - BUFFER_SIZE \<le> i \<and>
    (ps @ [p]) ! i = q \<and> sequence_number q = k \<and>
    (\<forall>j. i < j \<and> j < length (ps @ [p]) \<longrightarrow> sequence_number ((ps @ [p]) ! j) \<noteq> k)"
  show "\<exists>i. ?P i"
  proof (cases "k = sequence_number p")
    case True
    then have "q = p" using q st r by (cases rule: store_cases [OF r refl refl, of p]) auto
    with True have "?P ?n" by (auto simp: BUFFER_SIZE_def)
    then show ?thesis ..
  next
    case False
    then have old: "packets b k = Some q"
      and ev: "BUFFER_SIZE \<le> ?n \<longrightarrow> k \<noteq> sequence_number (ps ! (?n - BUFFER_SIZE))"
      using q st by (cases rule: store_cases [OF r refl refl, of p]; auto split: if_splits)+
    from a old obtain i where i: "i < ?n" "?n - BUFFER_SIZE \<le> i" "ps ! i = q"
        "sequence_number q = k" "\<forall>j. i < j \<and> j < ?n \<longrightarrow> sequence_number (ps ! j) \<noteq> k"
      unfolding answers_recent_def by blast
    have "BUFFER_SIZE \<le> ?n \<Longrightarrow> i \<noteq> ?n - BUFFER_SIZE" using ev i by auto
    then have "Suc ?n - BUFFER_SIZE \<le> i" using i(2) BUFFER_SIZE_pos by linarith
    then have "?P i" using i False by (auto simp: nth_append less_Suc_eq)
    then show ?thesis ..
  qed
qed

lemma store_answers_all:
  assumes r: "ring_of b ps" and a: "answers_all b ps" and sp: "spaced (ps @ [p])"
    and st: "store b p = Some b'"
  shows "answers_all b' (ps @ [p])"
  unfolding answers_all_def
proof (intro allI impI)
  fix i assume i: "i < length (ps @ [p])" "length (ps @ [p]) - BUFFER_SIZE \<le> i"
  let ?n = "length ps" and ?q = "(ps @ [p]) ! i"
  have gap: "sequence_number ((ps @ [p]) ! k) \<noteq> sequence_number ((ps @ [p]) ! j)"
    if "k < j" "j \<le> ?n" "j < k + BUFFER_SIZE" for k j
    using sp that unfolding spaced_def by (metis (no_types, lifting) One_nat_def add_diff_inverse_nat
      diff_Suc_less le_imp_less_Suc length_append_singleton less_diff_conv2 less_imp_le not_less
      add.commute)
  show "packets b' (sequence_number ?q) = Some ?q"
  proof (cases "i = ?n")
    case True
    then show ?thesis using st by (cases rule: store_cases [OF r refl refl, of p]) auto
  next
    case False
    then have lt: "i < ?n" using i by simp
    then have "sequence_number ?q \<noteq> sequence_number p"
      using gap [of i ?n] i by auto
    moreover have "BUFFER_SIZE \<le> ?n \<Longrightarrow>
        sequence_number ?q \<noteq> sequence_number (ps ! (?n - BUFFER_SIZE))"
    proof -
      assume "BUFFER_SIZE \<le> ?n"
      then have "?n - BUFFER_SIZE < i" "?n - BUFFER_SIZE < ?n" "i < ?n - BUFFER_SIZE + BUFFER_SIZE"
        using i lt BUFFER_SIZE_pos by (simp_all del: BUFFER_SIZE_pos)
      then show ?thesis using gap [of "?n - BUFFER_SIZE" i] lt by (auto simp: nth_append)
    qed
    moreover have "packets b (sequence_number ?q) = Some ?q"
      using a lt i unfolding answers_all_def by (simp add: nth_append)
    ultimately show ?thesis
      using st by (cases rule: store_cases [OF r refl refl, of p]) auto
  qed
qed

section \<open>The ring over a whole stream\<close>

lemma spaced_butlast:
  assumes "spaced (ps @ [p])"
  shows "spaced ps"
  unfolding spaced_def
proof (intro allI impI, elim conjE)
  fix i j assume "i < j" "j < length ps" "sequence_number (ps ! i) = sequence_number (ps ! j)"
  with assms show "BUFFER_SIZE \<le> j - i"
    unfolding spaced_def by (auto simp: nth_append dest!: spec [where x = i] spec [where x = j])
qed

lemma store_all_ring:
  "\<exists>b. store_all new_buffer ps = Some b \<and> ring_of b ps \<and> answers_recent b ps \<and>
       (spaced ps \<longrightarrow> answers_all b ps)"
proof (induction ps rule: rev_induct)
  case Nil
  show ?case by (simp add: ring_of_new answers_recent_new answers_all_new)
next
  case (snoc p ps)
  then obtain b where b: "store_all new_buffer ps = Some b" "ring_of b ps" "answers_recent b ps"
      "spaced ps \<longrightarrow> answers_all b ps" by blast
  from store_ring [OF b(2)] obtain b' where b': "store b p = Some b'" "ring_of b' (ps @ [p])"
    by blast
  have "store_all new_buffer (ps @ [p]) = Some b'" using b(1) b'(1) by (simp add: store_all_append)
  moreover have "answers_recent b' (ps @ [p])"
    using b(2,3) b'(1) by (rule store_answers_recent)
  moreover have "answers_all b' (ps @ [p])" if sp: "spaced (ps @ [p])"
    using store_answers_all [OF b(2) _ sp b'(1)] b(4) spaced_butlast [OF sp] by blast
  ultimately show ?case using b'(2) by blast
qed

text \<open>An RTP stream without reordering: consecutive sequence numbers, wrapping at 65536.\<close>

definition consecutive :: "'p rtp_packet list \<Rightarrow> bool" where
  "consecutive ps \<longleftrightarrow>
     (\<forall>i < length ps. sequence_number (ps ! i) = sequence_number (ps ! 0) + of_nat i)"

lemma consecutive_spaced:
  assumes c: "consecutive ps"
  shows "spaced ps"
  unfolding spaced_def
proof (intro allI impI, elim conjE)
  fix i j assume ij: "i < j" "j < length ps"
    and eq: "sequence_number (ps ! i) = sequence_number (ps ! j)"
  have "i < length ps" using ij by simp
  with eq c ij(2) have "(of_nat i :: 16 word) = of_nat j"
    unfolding consecutive_def by (metis add_left_cancel)
  then have "i mod 65536 = j mod 65536"
    by (simp flip: unat_of_nat add: word_unat_eq_iff unat_of_nat)
  then have "65536 dvd j - i" using ij(1) by (metis mod_eq_dvd_iff_nat less_imp_le)
  with ij(1) have "65536 \<le> j - i" by (simp add: dvd_imp_le)
  then show "BUFFER_SIZE \<le> j - i" by (simp add: BUFFER_SIZE_def)
qed

section \<open>Properties\<close>

definition sample_stream :: "unit rtp_packet list" where
  "sample_stream = map (\<lambda>s. \<lparr>sequence_number = s, ssrc = 7, rtp_rest = ()\<rparr>) [65534, 65535, 0, 1]"

lemma sample_stream_spaced: "spaced sample_stream"
proof (rule consecutive_spaced)
  show "consecutive sample_stream"
    unfolding consecutive_def
  proof (intro allI impI)
    fix i assume "i < length sample_stream"
    then consider "i = 0" | "i = 1" | "i = 2" | "i = 3"
      unfolding sample_stream_def by (simp, linarith)
    then show "sequence_number (sample_stream ! i) = sequence_number (sample_stream ! 0) + of_nat i"
      by cases (simp_all add: sample_stream_def)
  qed
qed

text \<open>
  C1. The packet ring is sound for every input: storing any stream into a new buffer never panics,
  the hash map never holds more than 512 packets, and a packet it answers with is one of the last
  512 stored and the most recent one with that sequence number, so a retransmission is never stale.
\<close>

theorem buffer_sound:
  "\<exists>b. store_all new_buffer ps = Some b \<and>
       length (sequence_order b) \<le> BUFFER_SIZE \<and> card (dom (packets b)) \<le> BUFFER_SIZE \<and>
       (\<forall>s p. buffer_get b s = Some p \<longrightarrow> sequence_number p = s \<and>
          (\<exists>i < length ps. length ps - BUFFER_SIZE \<le> i \<and> ps ! i = p \<and>
             (\<forall>j. i < j \<and> j < length ps \<longrightarrow> sequence_number (ps ! j) \<noteq> s)))"
proof -
  obtain b where b: "store_all new_buffer ps = Some b" "ring_of b ps" "answers_recent b ps"
    using store_all_ring [of ps] by blast
  let ?W = "{length ps - BUFFER_SIZE ..< length ps}"
  have "dom (packets b) \<subseteq> (\<lambda>i. sequence_number (ps ! i)) ` ?W"
    using b(3) unfolding answers_recent_def by force
  then have "card (dom (packets b)) \<le> card ?W"
    using card_mono card_image_le by (meson finite_atLeastLessThan finite_imageI le_trans)
  then have "card (dom (packets b)) \<le> BUFFER_SIZE" by simp
  moreover have "length (sequence_order b) \<le> BUFFER_SIZE" using b(2) by (simp add: ring_of_def)
  ultimately show ?thesis
    using b(1,3) unfolding answers_recent_def buffer_get_def by blast
qed

theorem buffer_sound_witness:
  "\<exists>b p. store_all new_buffer sample_stream = Some b \<and> card (dom (packets b)) \<le> BUFFER_SIZE \<and>
     buffer_get b 65535 = Some p \<and> sequence_number p = 65535 \<and> p \<in> set sample_stream"
proof -
  obtain b where b: "store_all new_buffer sample_stream = Some b" "card (dom (packets b)) \<le> BUFFER_SIZE"
    and sound: "\<forall>s p. buffer_get b s = Some p \<longrightarrow> sequence_number p = s \<and>
          (\<exists>i < length sample_stream. length sample_stream - BUFFER_SIZE \<le> i \<and> sample_stream ! i = p \<and>
             (\<forall>j. i < j \<and> j < length sample_stream \<longrightarrow> sequence_number (sample_stream ! j) \<noteq> s))"
    using buffer_sound [of sample_stream] by blast
  have "buffer_get b 65535 = Some (sample_stream ! 1)"
    using b(1) by (auto simp: sample_stream_def store_def new_buffer_def buffer_get_def
        BUFFER_SIZE_def Let_def)
  with b sound show ?thesis by (metis nth_mem)
qed

text \<open>
  C2. The packet ring is complete for a stream in which no sequence number returns before 512 later
  packets were stored: every one of the last 512 packets can be retransmitted.
\<close>

theorem buffer_complete:
  assumes "spaced ps" and "i < length ps" and "length ps - BUFFER_SIZE \<le> i"
  shows "\<exists>b. store_all new_buffer ps = Some b \<and>
             buffer_get b (sequence_number (ps ! i)) = Some (ps ! i)"
  using store_all_ring [of ps] assms unfolding answers_all_def buffer_get_def by blast

theorem buffer_complete_witness:
  "\<exists>b. store_all new_buffer sample_stream = Some b \<and>
       buffer_get b (sequence_number (sample_stream ! 2)) = Some (sample_stream ! 2)"
  by (rule buffer_complete [OF sample_stream_spaced])
     (simp_all add: sample_stream_def BUFFER_SIZE_def)

text \<open>
  C3. A repeated sequence number loses a packet: once the ring is full, storing another packet drops
  the map entry of the sequence number in the slot it overwrites, even when a younger packet with the
  same sequence number is still among the last 512, so that packet can no longer be retransmitted.
\<close>

theorem buffer_duplicate_lost:
  assumes "BUFFER_SIZE \<le> length ps"
    and "length ps - BUFFER_SIZE < i" and "i < length ps"
    and "sequence_number (ps ! i) = sequence_number (ps ! (length ps - BUFFER_SIZE))"
    and "sequence_number p \<noteq> sequence_number (ps ! i)"
  shows "\<exists>b. store_all new_buffer (ps @ [p]) = Some b \<and>
             buffer_get b (sequence_number (ps ! i)) = None"
proof -
  obtain b where b: "store_all new_buffer ps = Some b" "ring_of b ps"
    using store_all_ring [of ps] by blast
  have "\<exists>b'. store b p = Some b' \<and> packets b' (sequence_number (ps ! i)) = None"
    using assms by (cases rule: store_cases [OF b(2) refl refl, of p]) auto
  with b(1) show ?thesis by (auto simp: store_all_append buffer_get_def)
qed

definition duplicate_stream :: "unit rtp_packet list" where
  "duplicate_stream =
     map (\<lambda>n. \<lparr>sequence_number = of_nat (n - 1), ssrc = 7, rtp_rest = ()\<rparr>) [0 ..< 512]"

theorem buffer_duplicate_lost_witness:
  "\<exists>b. store_all new_buffer
         (duplicate_stream @ [\<lparr>sequence_number = 511, ssrc = 7, rtp_rest = ()\<rparr>]) = Some b \<and>
       buffer_get b (sequence_number (duplicate_stream ! 1)) = None"
  by (rule buffer_duplicate_lost) (simp_all add: duplicate_stream_def BUFFER_SIZE_def)

end
