(* ===== verification/Subscription.thy ===== *)
theory Subscription
  imports Forwarding PacketBuffer
begin

text \<open>
  One forwarding subscription (\<open>src/sfu/room.rs\<close>): the writer task that copies a sender's packets to
  a receiver and keeps them for retransmission, and the task that answers the receiver's RTCP
  feedback. The two tasks share the packet buffer; a step of either one is a step of the link. The
  buffer is used through the interface \<open>retransmission_source\<close>, which the packet ring implements.
\<close>

section \<open>State and events\<close>

text \<open>
  The writer's buffer and count of consecutive write errors, the times of the last picture loss
  indications of both kinds, and the world behind the local track and the sender's connection.
\<close>

record ('b, 'w) link =
  lk_buffer :: 'b
  lk_errors :: nat
  lk_receiver_pli :: "instant option"
  lk_loss_pli :: "instant option"
  lk_world :: 'w

definition new_link :: "'b \<Rightarrow> 'w \<Rightarrow> ('b, 'w) link" where
  "new_link b w = \<lparr>lk_buffer = b, lk_errors = 0, lk_receiver_pli = None, lk_loss_pli = None, lk_world = w\<rparr>"

definition LOSS_RECOVERY_PLI_INTERVAL :: instant where "LOSS_RECOVERY_PLI_INTERVAL = 2000"

text \<open>\<open>local_track.write_rtp\<close> of the library.\<close>

type_synonym ('p, 'w) write_rtp = "'p rtp_packet \<Rightarrow> 'w \<Rightarrow> (str + unit) \<times> 'w"

section \<open>The writer task\<close>

text \<open>What the writer's \<open>select!\<close> sees.\<close>

datatype 'p writer_event = ReceiverDisconnected | Received "'p rtp_packet" | ChannelClosed | Lagged nat

text \<open>A step leaves the loop, goes round it again, or panics in the buffer.\<close>

datatype 's loop = Continue 's | Break 's | Panic

definition writer_step ::
  "('b \<Rightarrow> 'p rtp_packet \<Rightarrow> 'b option) \<Rightarrow> ('p, 'w) write_rtp \<Rightarrow> 32 word \<Rightarrow> 'p writer_event
     \<Rightarrow> ('b, 'w) link \<Rightarrow> ('b, 'w) link loop" where
  "writer_step put wr local_ssrc e l =
     (case e of
        ReceiverDisconnected \<Rightarrow> Break l
      | ChannelClosed \<Rightarrow> Break l
      | Lagged n \<Rightarrow> Continue l
      | Received p \<Rightarrow>
          (let p = p\<lparr>ssrc := local_ssrc\<rparr> in
           case put (lk_buffer l) p of
             None \<Rightarrow> Panic
           | Some b \<Rightarrow>
               (case wr p (lk_world l) of
                  (Inl err, w) \<Rightarrow>
                    (let l = l\<lparr>lk_buffer := b, lk_errors := lk_errors l + 1, lk_world := w\<rparr>
                     in if 10 \<le> lk_errors l then Break l else Continue l)
                | (Inr _, w) \<Rightarrow> Continue (l\<lparr>lk_buffer := b, lk_errors := 0, lk_world := w\<rparr>))))"

section \<open>RTCP feedback\<close>

datatype rtcp_packet = PictureLoss | TransportNack "(16 word \<times> 16 word) list" | OtherFeedback

text \<open>The bits of one NACK pair: \<open>i\<close> counts from 1 while the mask is shifted down.\<close>

fun nack_bits :: "nat \<Rightarrow> 16 word \<Rightarrow> 16 word \<Rightarrow> nat \<Rightarrow> 16 word list" where
  "nack_bits i pid lost 0 = []"
| "nack_bits i pid lost (Suc n) =
     (if and lost 1 = 1 then [pid + of_nat i] else []) @ nack_bits (i + 1) pid (drop_bit 1 lost) n"

definition requested_seqs :: "(16 word \<times> 16 word) list \<Rightarrow> 16 word list" where
  "requested_seqs nacks = concat (map (\<lambda>(pid, lost). pid # nack_bits 1 pid lost 16) nacks)"

definition send_pli_to_sender ::
  "'w webrtc \<Rightarrow> pc_handle \<Rightarrow> 32 word \<Rightarrow> 'w \<Rightarrow> bool \<times> 'w" where
  "send_pli_to_sender L spc media_ssrc w =
     (case lib_write_pli L spc media_ssrc w of (Inl e, w) \<Rightarrow> (False, w) | (Inr _, w) \<Rightarrow> (True, w))"

text \<open>\<open>elapsed()\<close> at time \<open>now\<close> has reached the interval, or nothing was sent yet.\<close>

definition pli_due :: "instant \<Rightarrow> instant option \<Rightarrow> bool" where
  "pli_due now sent_at = (case sent_at of None \<Rightarrow> True | Some t \<Rightarrow> LOSS_RECOVERY_PLI_INTERVAL \<le> now - t)"

text \<open>A picture loss indication from the receiver; \<open>now\<close> and \<open>later\<close> are the two clock readings.\<close>

definition handle_pli ::
  "'w webrtc \<Rightarrow> pc_handle \<Rightarrow> 32 word \<Rightarrow> instant \<Rightarrow> instant \<Rightarrow> ('b, 'w) link \<Rightarrow> ('b, 'w) link" where
  "handle_pli L spc media_ssrc now later l =
     (if pli_due now (lk_receiver_pli l)
      then (case send_pli_to_sender L spc media_ssrc (lk_world l) of
              (True, w) \<Rightarrow> l\<lparr>lk_receiver_pli := Some later, lk_world := w\<rparr>
            | (False, w) \<Rightarrow> l\<lparr>lk_world := w\<rparr>)
      else l)"

text \<open>One requested sequence number.\<close>

definition retransmit ::
  "('b \<Rightarrow> 16 word \<Rightarrow> 'p rtp_packet option) \<Rightarrow> ('p, 'w) write_rtp \<Rightarrow> 'w webrtc \<Rightarrow> track_kind \<Rightarrow> pc_handle
     \<Rightarrow> 32 word \<Rightarrow> 32 word \<Rightarrow> instant \<Rightarrow> instant \<Rightarrow> 16 word \<Rightarrow> ('b, 'w) link
     \<Rightarrow> 'p rtp_packet list \<times> ('b, 'w) link" where
  "retransmit get wr L k spc media_ssrc local_ssrc now later seq l =
     (case get (lk_buffer l) seq of
        Some p \<Rightarrow>
          (if ssrc p = local_ssrc
           then (case wr p (lk_world l) of (res, w) \<Rightarrow> ([p], l\<lparr>lk_world := w\<rparr>))
           else ([], l))
      | None \<Rightarrow>
          (if k = Video \<and> pli_due now (lk_loss_pli l)
           then (case send_pli_to_sender L spc media_ssrc (lk_world l) of
                   (True, w) \<Rightarrow> ([], l\<lparr>lk_loss_pli := Some later, lk_world := w\<rparr>)
                 | (False, w) \<Rightarrow> ([], l\<lparr>lk_world := w\<rparr>))
           else ([], l)))"

text \<open>One RTCP packet; the first component is what was handed to the local track.\<close>

definition handle_rtcp_packet ::
  "('b \<Rightarrow> 16 word \<Rightarrow> 'p rtp_packet option) \<Rightarrow> ('p, 'w) write_rtp \<Rightarrow> 'w webrtc \<Rightarrow> track_kind \<Rightarrow> pc_handle
     \<Rightarrow> 32 word \<Rightarrow> 32 word \<Rightarrow> instant \<Rightarrow> instant \<Rightarrow> rtcp_packet \<Rightarrow> ('b, 'w) link
     \<Rightarrow> 'p rtp_packet list \<times> ('b, 'w) link" where
  "handle_rtcp_packet get wr L k spc media_ssrc local_ssrc now later pkt l =
     (case pkt of
        PictureLoss \<Rightarrow> ([], handle_pli L spc media_ssrc now later l)
      | TransportNack nacks \<Rightarrow>
          fold (\<lambda>seq (out, l). case retransmit get wr L k spc media_ssrc local_ssrc now later seq l of
                  (ps, l) \<Rightarrow> (out @ ps, l)) (requested_seqs nacks) ([], l)
      | OtherFeedback \<Rightarrow> ([], l))"

section \<open>The interface of the buffer\<close>

text \<open>
  What both tasks rely on: storing never fails, and an answer is a packet that was stored under the
  sequence number asked for. \<open>holds b ps\<close> says that \<open>b\<close> is a buffer after storing \<open>ps\<close>.
\<close>

locale retransmission_source =
  fixes empty_buffer :: 'b
    and put :: "'b \<Rightarrow> 'p rtp_packet \<Rightarrow> 'b option"
    and get :: "'b \<Rightarrow> 16 word \<Rightarrow> 'p rtp_packet option"
    and holds :: "'b \<Rightarrow> 'p rtp_packet list \<Rightarrow> bool"
  assumes holds_empty: "holds empty_buffer []"
    and holds_put: "holds b ps \<Longrightarrow> \<exists>b'. put b p = Some b' \<and> holds b' (ps @ [p])"
    and get_stored: "holds b ps \<Longrightarrow> get b s = Some p \<Longrightarrow> p \<in> set ps \<and> sequence_number p = s"
begin

text \<open>The link after forwarding \<open>ps\<close>: the buffer holds them, under the receiver's SSRC.\<close>

definition link_inv :: "32 word \<Rightarrow> 'p rtp_packet list \<Rightarrow> ('b, 'w) link \<Rightarrow> bool" where
  "link_inv local_ssrc ps l \<longleftrightarrow> holds (lk_buffer l) (map (\<lambda>p. p\<lparr>ssrc := local_ssrc\<rparr>) ps)"

lemma link_inv_new: "link_inv local_ssrc [] (new_link empty_buffer w)"
  by (simp add: link_inv_def new_link_def holds_empty)

lemma writer_step_inv:
  assumes "link_inv x ps l"
  shows "\<exists>l'. (writer_step put wr x e l = Continue l' \<or> writer_step put wr x e l = Break l') \<and>
     link_inv x (ps @ (case e of Received p \<Rightarrow> [p] | _ \<Rightarrow> [])) l'"
proof (cases e)
  case (Received p)
  from holds_put [OF assms [unfolded link_inv_def], of "p\<lparr>ssrc := x\<rparr>"]
  obtain b where b: "put (lk_buffer l) (p\<lparr>ssrc := x\<rparr>) = Some b"
    "holds b (map (\<lambda>p. p\<lparr>ssrc := x\<rparr>) ps @ [p\<lparr>ssrc := x\<rparr>])" by blast
  obtain res w where wr: "wr (p\<lparr>ssrc := x\<rparr>) (lk_world l) = (res, w)" by fastforce
  show ?thesis
  proof (cases res)
    case (Inl err)
    let ?l = "l\<lparr>lk_buffer := b, lk_errors := lk_errors l + 1, lk_world := w\<rparr>"
    have "writer_step put wr x e l = (if 10 \<le> lk_errors ?l then Break ?l else Continue ?l)"
      unfolding writer_step_def Received Let_def by (simp add: b(1) wr Inl)
    moreover have "link_inv x (ps @ [p]) ?l" using b(2) by (simp add: link_inv_def)
    ultimately show ?thesis unfolding Received by (intro exI [of _ ?l]) simp
  next
    case (Inr u)
    let ?l = "l\<lparr>lk_buffer := b, lk_errors := 0, lk_world := w\<rparr>"
    have "writer_step put wr x e l = Continue ?l"
      unfolding writer_step_def Received Let_def by (simp add: b(1) wr Inr)
    moreover have "link_inv x (ps @ [p]) ?l" using b(2) by (simp add: link_inv_def)
    ultimately show ?thesis unfolding Received by (intro exI [of _ ?l]) simp
  qed
qed (use assms in \<open>simp_all add: writer_step_def\<close>)

lemma retransmit_inv:
  assumes "link_inv x ps l" and "retransmit get wr L k spc ms x now later seq l = (out, l')"
  shows "link_inv x ps l' \<and> (\<forall>q \<in> set out. \<exists>p \<in> set ps. q = p\<lparr>ssrc := x\<rparr> \<and> sequence_number p = seq)"
proof (cases "get (lk_buffer l) seq")
  case None
  obtain sent w where pli: "send_pli_to_sender L spc ms (lk_world l) = (sent, w)" by fastforce
  have "out = [] \<and> lk_buffer l' = lk_buffer l"
    using assms(2) unfolding retransmit_def by (cases sent) (auto simp: None pli split: if_splits)
  then show ?thesis using assms(1) by (simp add: link_inv_def)
next
  case (Some q)
  from get_stored [OF assms(1) [unfolded link_inv_def] Some]
  obtain p where p: "p \<in> set ps" "q = p\<lparr>ssrc := x\<rparr>" "sequence_number q = seq"
    unfolding set_map by blast
  then have seq: "sequence_number p = seq" by simp
  obtain res w where wr: "wr q (lk_world l) = (res, w)" by fastforce
  have "out = [q] \<and> lk_buffer l' = lk_buffer l"
    using assms(2) wr unfolding retransmit_def Some p(2) by auto
  then show ?thesis using assms(1) p(1,2) seq unfolding link_inv_def by (metis empty_iff insert_iff list.set(1,2))
qed

text \<open>An answer is never rejected for its SSRC: the check of the code cannot fail.\<close>

lemma retransmit_answers:
  assumes "link_inv x ps l" and "get (lk_buffer l) seq = Some q"
  shows "fst (retransmit get wr L k spc ms x now later seq l) = [q]"
proof -
  from get_stored [OF assms(1) [unfolded link_inv_def] assms(2)]
  obtain p where "q = p\<lparr>ssrc := x\<rparr>" unfolding set_map by blast
  then have "ssrc q = x" by simp
  then show ?thesis using assms(2) by (simp add: retransmit_def split: prod.splits)
qed

lemma nack_inv:
  assumes "link_inv x ps l"
    and "fold (\<lambda>seq (out, l). case retransmit get wr L k spc ms x now later seq l of
           (qs, l) \<Rightarrow> (out @ qs, l)) seqs (out, l) = (out', l')"
  shows "\<exists>new. out' = out @ new \<and> link_inv x ps l' \<and>
     (\<forall>q \<in> set new. \<exists>p \<in> set ps. q = p\<lparr>ssrc := x\<rparr> \<and> sequence_number p \<in> set seqs)"
  using assms
proof (induction seqs arbitrary: out l)
  case (Cons a seqs)
  obtain qs l1 where r: "retransmit get wr L k spc ms x now later a l = (qs, l1)" by fastforce
  from retransmit_inv [OF Cons.prems(1) r] have
    inv: "link_inv x ps l1" and qs: "\<forall>q \<in> set qs. \<exists>p \<in> set ps. q = p\<lparr>ssrc := x\<rparr> \<and> sequence_number p = a"
    by auto
  from Cons.IH [OF inv, of "out @ qs"] Cons.prems(2) r obtain new where
    "out' = (out @ qs) @ new" "link_inv x ps l'"
    "\<forall>q \<in> set new. \<exists>p \<in> set ps. q = p\<lparr>ssrc := x\<rparr> \<and> sequence_number p \<in> set seqs" by auto
  with qs show ?case by (intro exI [of _ "qs @ new"]) auto
qed auto

lemma handle_rtcp_inv:
  assumes "link_inv x ps l" and "handle_rtcp_packet get wr L k spc ms x now later pkt l = (out, l')"
  shows "link_inv x ps l' \<and> (\<forall>q \<in> set out. \<exists>nacks. pkt = TransportNack nacks \<and>
     (\<exists>p \<in> set ps. q = p\<lparr>ssrc := x\<rparr> \<and> sequence_number p \<in> set (requested_seqs nacks)))"
proof (cases pkt)
  case PictureLoss
  obtain sent w where pli: "send_pli_to_sender L spc ms (lk_world l) = (sent, w)" by fastforce
  have "out = [] \<and> lk_buffer l' = lk_buffer l"
    using assms(2) unfolding handle_rtcp_packet_def PictureLoss handle_pli_def
    by (cases sent) (auto simp: pli split: if_splits)
  then show ?thesis using assms(1) by (simp add: link_inv_def)
next
  case (TransportNack nacks)
  with assms nack_inv [OF assms(1), of wr L k spc ms now later "requested_seqs nacks" "[]" out l']
  show ?thesis by (auto simp: handle_rtcp_packet_def)
next
  case OtherFeedback
  with assms show ?thesis by (auto simp: handle_rtcp_packet_def)
qed

end

text \<open>The packet ring is such a buffer.\<close>

definition ring_holds :: "'p packet_buffer \<Rightarrow> 'p rtp_packet list \<Rightarrow> bool" where
  "ring_holds b ps \<longleftrightarrow> ring_of b ps \<and> answers_recent b ps"

interpretation ring: retransmission_source new_buffer store buffer_get ring_holds
proof unfold_locales
  show "ring_holds new_buffer []" by (simp add: ring_holds_def ring_of_new answers_recent_new)
next
  fix b :: "'p packet_buffer" and ps p
  assume "ring_holds b ps"
  then show "\<exists>b'. store b p = Some b' \<and> ring_holds b' (ps @ [p])"
    using store_ring [of b ps p] store_answers_recent [of b ps p] by (auto simp: ring_holds_def)
next
  fix b :: "'p packet_buffer" and ps s p
  assume "ring_holds b ps" and "buffer_get b s = Some p"
  then show "p \<in> set ps \<and> sequence_number p = s"
    unfolding ring_holds_def answers_recent_def buffer_get_def by (metis nth_mem)
qed

section \<open>NACK expansion\<close>

lemma and_one_bit: "(and (x :: 16 word) 1 = 1) = bit x 0"
  by (simp add: and_one_eq bit_0 odd_iff_mod_2_eq_one)

lemma nack_bits_spec:
  "nack_bits i pid lost n = map (\<lambda>j. pid + of_nat (i + j)) (filter (bit lost) [0 ..< n])"
proof (induction n arbitrary: i lost)
  case (Suc n)
  have "[0 ..< Suc n] = 0 # map Suc [0 ..< n]" by (simp add: upt_conv_Cons map_Suc_upt del: upt_Suc)
  then have "filter (bit lost) [0 ..< Suc n] =
      (if bit lost 0 then [0] else []) @ map Suc (filter (bit lost \<circ> Suc) [0 ..< n])"
    by (simp add: filter_map)
  moreover have "bit (drop_bit 1 lost) = bit lost \<circ> Suc" by (simp add: fun_eq_iff bit_drop_bit_eq)
  ultimately show ?case
    by (simp add: Suc.IH and_one_bit comp_def del: upt_Suc of_nat_add)
qed simp

context retransmission_source
begin

text \<open>A NACK is answered with exactly the buffered packets, in the order of the request.\<close>

lemma nack_exact:
  assumes "link_inv x ps l"
  shows "fst (fold (\<lambda>seq (out, l). case retransmit get wr L k spc ms x now later seq l of
           (qs, l) \<Rightarrow> (out @ qs, l)) seqs (out, l)) = out @ List.map_filter (get (lk_buffer l)) seqs"
  using assms
proof (induction seqs arbitrary: out l)
  case Nil
  then show ?case by (simp add: List.map_filter_def)
next
  case (Cons a seqs)
  obtain qs l1 where r: "retransmit get wr L k spc ms x now later a l = (qs, l1)" by fastforce
  have inv: "link_inv x ps l1" using retransmit_inv [OF Cons.prems r] by blast
  have buf: "lk_buffer l1 = lk_buffer l"
  proof (cases "get (lk_buffer l) a")
    case None
    obtain sent w where pli: "send_pli_to_sender L spc ms (lk_world l) = (sent, w)" by fastforce
    show ?thesis using r unfolding retransmit_def by (cases sent) (auto simp: None pli split: if_splits)
  next
    case (Some q)
    obtain res w where wr: "wr q (lk_world l) = (res, w)" by fastforce
    show ?thesis using r unfolding retransmit_def by (auto simp: Some wr split: if_splits)
  qed
  have "qs = (case get (lk_buffer l) a of None \<Rightarrow> [] | Some q \<Rightarrow> [q])"
  proof (cases "get (lk_buffer l) a")
    case None
    obtain sent w where pli: "send_pli_to_sender L spc ms (lk_world l) = (sent, w)" by fastforce
    show ?thesis using r unfolding retransmit_def by (cases sent) (auto simp: None pli split: if_splits)
  next
    case (Some q)
    from retransmit_answers [OF Cons.prems Some, of wr L k spc ms now later] r Some show ?thesis by simp
  qed
  then show ?case
    using Cons.IH [OF inv, of "out @ qs"] r buf
    by (simp add: List.map_filter_def split: option.splits)
qed

end

section \<open>A whole link\<close>

datatype 'p link_event = Write "'p writer_event" | Feedback rtcp_packet instant instant

text \<open>
  Both tasks of a subscription, in any order: the packets that the writer took, and the link
  afterwards; \<open>None\<close> when the writer panicked. Once the writer's loop has ended, only feedback is
  handled.
\<close>

fun link_run ::
  "('p, 'w) write_rtp \<Rightarrow> 'w webrtc \<Rightarrow> track_kind \<Rightarrow> pc_handle \<Rightarrow> 32 word \<Rightarrow> 32 word \<Rightarrow> bool
     \<Rightarrow> 'p link_event list \<Rightarrow> ('p packet_buffer, 'w) link
     \<Rightarrow> ('p rtp_packet list \<times> ('p packet_buffer, 'w) link) option" where
  "link_run wr L k spc ms x live [] l = Some ([], l)"
| "link_run wr L k spc ms x live (Write e # es) l =
     (if \<not> live then link_run wr L k spc ms x live es l
      else (case writer_step store wr x e l of
              Panic \<Rightarrow> None
            | Continue l' \<Rightarrow> map_option (apfst (append (case e of Received p \<Rightarrow> [p] | _ \<Rightarrow> [])))
                              (link_run wr L k spc ms x True es l')
            | Break l' \<Rightarrow> map_option (apfst (append (case e of Received p \<Rightarrow> [p] | _ \<Rightarrow> [])))
                           (link_run wr L k spc ms x False es l')))"
| "link_run wr L k spc ms x live (Feedback pkt now later # es) l =
     link_run wr L k spc ms x live es
       (snd (handle_rtcp_packet buffer_get wr L k spc ms x now later pkt l))"

abbreviation with_ssrc :: "32 word \<Rightarrow> 'p rtp_packet \<Rightarrow> 'p rtp_packet" where
  "with_ssrc x p \<equiv> p\<lparr>ssrc := x\<rparr>"

lemma link_buffer_ring:
  assumes "store_all new_buffer (map (with_ssrc x) ps) = Some (lk_buffer l)"
  shows "ring.link_inv x ps l"
  using assms store_all_ring [of "map (with_ssrc x) ps"]
  by (auto simp: ring.link_inv_def ring_holds_def)

lemma writer_step_store:
  assumes s: "store_all new_buffer (map (with_ssrc x) ps) = Some (lk_buffer l)"
  shows "\<exists>l'. (writer_step store wr x e l = Continue l' \<or> writer_step store wr x e l = Break l') \<and>
     store_all new_buffer (map (with_ssrc x) (ps @ (case e of Received p \<Rightarrow> [p] | _ \<Rightarrow> []))) = Some (lk_buffer l')"
proof (cases e)
  case (Received p)
  from ring.holds_put [of "lk_buffer l" "map (with_ssrc x) ps" "with_ssrc x p"] link_buffer_ring [OF s]
  obtain b where b: "store (lk_buffer l) (with_ssrc x p) = Some b"
    unfolding ring.link_inv_def by blast
  then have all: "store_all new_buffer (map (with_ssrc x) (ps @ [p])) = Some b"
    using s by (simp add: store_all_append)
  obtain res w where wr: "wr (with_ssrc x p) (lk_world l) = (res, w)" by fastforce
  show ?thesis
  proof (cases res)
    case (Inl err)
    let ?l = "l\<lparr>lk_buffer := b, lk_errors := lk_errors l + 1, lk_world := w\<rparr>"
    have "writer_step store wr x e l = (if 10 \<le> lk_errors ?l then Break ?l else Continue ?l)"
      unfolding writer_step_def Received Let_def by (simp add: b wr Inl)
    then show ?thesis using all unfolding Received by (intro exI [of _ ?l]) simp
  next
    case (Inr u)
    let ?l = "l\<lparr>lk_buffer := b, lk_errors := 0, lk_world := w\<rparr>"
    have "writer_step store wr x e l = Continue ?l"
      unfolding writer_step_def Received Let_def by (simp add: b wr Inr)
    then show ?thesis using all unfolding Received by (intro exI [of _ ?l]) simp
  qed
qed (use s in \<open>simp_all add: writer_step_def\<close>)

lemma handle_rtcp_buffer:
  "lk_buffer (snd (handle_rtcp_packet get wr L k spc ms x now later pkt l)) = lk_buffer l"
proof -
  have one: "lk_buffer (snd (retransmit get wr L k spc ms x now later seq l)) = lk_buffer l" for seq l
    unfolding retransmit_def by (auto split: option.splits prod.splits if_splits bool.splits)
  have "lk_buffer (snd (fold (\<lambda>seq (out, l). case retransmit get wr L k spc ms x now later seq l of
      (qs, l) \<Rightarrow> (out @ qs, l)) seqs (out, l))) = lk_buffer l" for seqs out
  proof (induction seqs arbitrary: out l)
    case (Cons a seqs)
    obtain qs l1 where r: "retransmit get wr L k spc ms x now later a l = (qs, l1)" by fastforce
    with one [of a l] Cons.IH [of "out @ qs" l1] show ?case by simp
  qed simp
  moreover have "lk_buffer (handle_pli L spc ms now later l) = lk_buffer l"
    unfolding handle_pli_def by (auto split: prod.splits bool.splits)
  ultimately show ?thesis by (auto simp: handle_rtcp_packet_def split: rtcp_packet.splits)
qed

lemma link_run_buffer:
  assumes "store_all new_buffer (map (with_ssrc x) ps) = Some (lk_buffer l)"
  shows "\<exists>fw l'. link_run wr L k spc ms x live es l = Some (fw, l') \<and>
     store_all new_buffer (map (with_ssrc x) (ps @ fw)) = Some (lk_buffer l')"
  using assms
proof (induction es arbitrary: live ps l)
  case (Cons ev es)
  show ?case
  proof (cases ev)
    case (Write e)
    from writer_step_store [OF Cons.prems, of wr e] obtain l1 where
      step: "writer_step store wr x e l = Continue l1 \<or> writer_step store wr x e l = Break l1"
      and st: "store_all new_buffer (map (with_ssrc x) (ps @ (case e of Received p \<Rightarrow> [p] | _ \<Rightarrow> []))) =
        Some (lk_buffer l1)" by blast
    from Cons.IH [OF st] Cons.IH [OF Cons.prems] step show ?thesis
      by (cases live) (fastforce simp: Write)+
  next
    case (Feedback pkt now later)
    let ?l = "snd (handle_rtcp_packet buffer_get wr L k spc ms x now later pkt l)"
    from Cons.IH [of ps ?l live] Cons.prems show ?thesis
      by (simp add: Feedback handle_rtcp_buffer)
  qed
qed simp

section \<open>Properties\<close>

text \<open>
  C14. A NACK is expanded to exactly the sequence numbers it reports: the packet ID of each pair and
  the ones after it whose bit is set, in order, wrapping at 65536; one pair never asks for a number
  twice.
\<close>

theorem nack_requests_exact:
  "requested_seqs ((pid, lost) # nacks) =
     pid # map (\<lambda>j. pid + of_nat (j + 1)) (filter (bit lost) [0 ..< 16]) @ requested_seqs nacks \<and>
   distinct (requested_seqs [(pid, lost)])"
proof -
  have e: "nack_bits 1 pid lost 16 = map (\<lambda>j. pid + of_nat (j + 1)) (filter (bit lost) [0 ..< 16])"
    by (simp add: nack_bits_spec add.commute)
  have small: "j < 16 \<Longrightarrow> (of_nat (j + 1) :: 16 word) \<noteq> 0" for j
    by (simp add: word_of_nat_eq_0_iff nat_dvd_not_less del: of_nat_Suc)
  have inj: "i < 16 \<Longrightarrow> j < 16 \<Longrightarrow> (of_nat (i + 1) :: 16 word) = of_nat (j + 1) \<Longrightarrow> i = j" for i j
    by (simp add: word_of_nat_eq_iff take_bit_nat_eq_self del: of_nat_Suc)
  have "pid \<noteq> pid + of_nat (j + 1)" if "j < 16" for j
    using small [OF that] by (simp del: of_nat_Suc of_nat_add add: eq_commute [of pid])
  then have "distinct (pid # nack_bits 1 pid lost 16)"
    unfolding e using inj
    by (auto simp: distinct_map inj_on_def simp del: of_nat_add of_nat_Suc upt_Suc)
  then show ?thesis unfolding requested_seqs_def
    by (simp only: e list.map prod.case concat.simps append_Nil2 append_Cons simp_thms)
qed

text \<open>
  C15. Retransmission is exact. However the writer and the feedback of a subscription interleave,
  neither task ever panics, and a NACK is answered with exactly the buffered packets it asks for: each
  answer is a packet that the writer forwarded, unchanged but for the receiver's SSRC, under a
  requested number; and when sequence numbers do not repeat within 512 packets, every requested one of
  the last 512 forwarded packets is sent again.
\<close>

theorem retransmission_exact:
  "\<exists>fw l. link_run wr L k spc ms x True es (new_link new_buffer w) = Some (fw, l) \<and>
     (let out = fst (handle_rtcp_packet buffer_get wr L k spc ms x now later (TransportNack nacks) l) in
        out = List.map_filter (buffer_get (lk_buffer l)) (requested_seqs nacks) \<and>
        (\<forall>q \<in> set out. \<exists>p \<in> set fw. q = with_ssrc x p \<and> sequence_number p \<in> set (requested_seqs nacks)) \<and>
        (spaced fw \<longrightarrow> (\<forall>i < length fw. length fw - BUFFER_SIZE \<le> i \<longrightarrow>
           sequence_number (fw ! i) \<in> set (requested_seqs nacks) \<longrightarrow> with_ssrc x (fw ! i) \<in> set out)))"
proof -
  have "store_all new_buffer (map (with_ssrc x) []) = Some (lk_buffer (new_link new_buffer w))"
    by (simp add: new_link_def)
  from link_run_buffer [OF this, of wr L k spc ms True es] obtain fw l where
    run: "link_run wr L k spc ms x True es (new_link new_buffer w) = Some (fw, l)"
    and st: "store_all new_buffer (map (with_ssrc x) fw) = Some (lk_buffer l)" by auto
  note inv = link_buffer_ring [OF st]
  let ?res = "handle_rtcp_packet buffer_get wr L k spc ms x now later (TransportNack nacks) l"
  have out: "fst ?res = List.map_filter (buffer_get (lk_buffer l)) (requested_seqs nacks)"
    using ring.nack_exact [OF inv, of wr L k spc ms now later "requested_seqs nacks" "[]"]
    by (simp add: handle_rtcp_packet_def)
  obtain l' where "?res = (fst ?res, l')" by (metis prod.collapse)
  from ring.handle_rtcp_inv [OF inv this]
  have sound: "\<forall>q \<in> set (fst ?res). \<exists>p \<in> set fw. q = with_ssrc x p \<and>
      sequence_number p \<in> set (requested_seqs nacks)" by blast
  have "with_ssrc x (fw ! i) \<in> set (fst ?res)"
    if sp: "spaced fw" and i: "i < length fw" "length fw - BUFFER_SIZE \<le> i"
      and req: "sequence_number (fw ! i) \<in> set (requested_seqs nacks)" for i
  proof -
    have "spaced (map (with_ssrc x) fw)" using sp unfolding spaced_def by (metis (no_types, lifting) length_map less_trans nth_map rtp_packet.select_convs(1) rtp_packet.surjective rtp_packet.update_convs(2))
    then have "answers_all (lk_buffer l) (map (with_ssrc x) fw)"
      using store_all_ring [of "map (with_ssrc x) fw"] st by auto
    then have "buffer_get (lk_buffer l) (sequence_number (fw ! i)) = Some (with_ssrc x (fw ! i))"
      using i by (simp add: answers_all_def buffer_get_def)
    then show ?thesis using req unfolding out set_map_filter_iff by blast
  qed
  with run out sound show ?thesis unfolding Let_def by blast
qed

definition quiet_lib :: "unit webrtc" where
  "quiet_lib = \<lparr>lib_ephemeral_udp = \<lambda>_ _. Inr (), lib_new_peer = \<lambda>_ w. (Inr 0, w),
     lib_signaling_state = \<lambda>_ _. Stable, lib_parse_sdp = \<lambda>_ s. Inr s,
     lib_set_remote = \<lambda>_ _ _ w. (Inr (), w), lib_set_local = \<lambda>_ _ w. (Inr (), w),
     lib_create_answer = \<lambda>_ w. (Inr [65], w), lib_create_offer = \<lambda>_ w. (Inr [79], w),
     lib_add_ice = \<lambda>_ _ _ _ w. (Inr (), w), lib_add_track = \<lambda>_ _ w. (Inr 0, w),
     lib_encoding = \<lambda>_ _. Some 7, lib_write_pli = \<lambda>_ _ w. (Inr (), w),
     lib_transceivers = \<lambda>_ _. [], lib_remove_track = \<lambda>_ _ w. (Inr (), w),
     lib_stop = \<lambda>_ w. (Inr (), w), lib_close = \<lambda>_ w. (Inr (), w)\<rparr>"

theorem retransmission_exact_witness:
  "\<exists>l. link_run (\<lambda>p w. (Inr (), w)) quiet_lib Video 1 3 9 True (map (\<lambda>p. Write (Received p)) sample_stream)
       (new_link new_buffer ()) = Some (sample_stream, l) \<and>
     with_ssrc 9 (sample_stream ! 2) \<in>
       set (fst (handle_rtcp_packet buffer_get (\<lambda>p w. (Inr (), w)) quiet_lib Video 1 3 9 0 0
                   (TransportNack [(65535, 1)]) l))"
proof -
  let ?wr = "\<lambda>p w. (Inr (), w)" and ?es = "map (\<lambda>p. Write (Received p)) sample_stream"
  obtain fw l where run: "link_run ?wr quiet_lib Video 1 3 9 True ?es (new_link new_buffer ()) = Some (fw, l)"
    and all: "spaced fw \<longrightarrow> (\<forall>i < length fw. length fw - BUFFER_SIZE \<le> i \<longrightarrow>
       sequence_number (fw ! i) \<in> set (requested_seqs [(65535, 1)]) \<longrightarrow> with_ssrc 9 (fw ! i) \<in>
       set (fst (handle_rtcp_packet buffer_get ?wr quiet_lib Video 1 3 9 0 0 (TransportNack [(65535, 1)]) l)))"
    using retransmission_exact [of ?wr quiet_lib Video 1 3 9 ?es "()" 0 0 "[(65535, 1)]"]
    unfolding Let_def by blast
  have fw: "fw = sample_stream"
    using run
    by (auto simp: sample_stream_def writer_step_def store_def new_link_def new_buffer_def
        BUFFER_SIZE_def Let_def)
  have seq: "sequence_number (sample_stream ! 2) \<in> set (requested_seqs [(65535, 1)])"
    by code_simp
  have "2 < length sample_stream" "length sample_stream - BUFFER_SIZE \<le> 2"
    by (simp_all add: sample_stream_def BUFFER_SIZE_def)
  with all seq sample_stream_spaced run show ?thesis unfolding fw by blast
qed

end
