(* ===== verification/Spec2Isabelle.thy ===== *)
theory Spec2Isabelle
  imports Badges CallRules Escalation EventSocket Ghosts Gifs MessageRules PreviewServer SharedMedia SocialServer Subscription
begin

text \<open>
  OpenMeet server: a selective forwarding unit for WebRTC calls with a signaling protocol over web sockets,
  and the HTTP API of the social part (accounts, friends, groups, calls, an admin panel).
\<close>

end
